(* ===== verification/Pt_Prelude.thy ===== *)
theory Pt_Prelude
  imports Main "HOL-Library.Word" "HOL-Library.AList" "HOL-Library.Monad_Syntax"
begin

text \<open>
  Shared vocabulary of the pthreads development: the names of the machine types, the
  collections of simplification rules the component theories fill, and the generic facts
  on options, association lists and maps that their proofs share.

  Every operation of the extension is a function into an \<open>option\<close>. \<open>None\<close> stands for a
  call that does not return: it waits for a mutex another thread holds, or it
  dereferences a pointer to memory that is not allocated. The theorems of the
  development therefore always prove that an operation returns \<open>Some\<close> result.
\<close>

type_synonym addr = nat
type_synonym tid = nat
type_synonym zend_long = "64 word"
type_synonym zend_ulong = "64 word"

datatype zend_result = SUCCESS | FAILURE

named_theorems table_simps \<open>rules for ordered hash tables\<close>
named_theorems mutex_simps \<open>rules for mutexes and monitors\<close>
named_theorems queue_simps \<open>rules for linked queues\<close>
named_theorems store_simps \<open>rules for the property store\<close>
named_theorems world_frame \<open>what an operation leaves unchanged\<close>

section \<open>Options\<close>

lemma bind_Some_iff: "(m \<bind> f = Some y) = (\<exists>x. m = Some x \<and> f x = Some y)"
  by (cases m) auto

lemma bind_eq_SomeE:
  assumes "m \<bind> f = Some y"
  obtains x where "m = Some x" and "f x = Some y"
  using assms by (auto simp: bind_Some_iff)

lemma option_eqE:
  assumes "x \<noteq> None"
  obtains y where "x = Some y"
  using assms by blast

section \<open>Association lists with distinct keys\<close>

lemma map_of_update [table_simps]: "map_of (AList.update k v ps) = (map_of ps)(k \<mapsto> v)"
  by (rule AList.update_conv')

lemma map_of_delete [table_simps]: "map_of (AList.delete k ps) = (map_of ps)(k := None)"
  by (rule AList.delete_conv')

lemma update_append_fresh:
  "k \<notin> fst ` set ps \<Longrightarrow> AList.update k v ps = ps @ [(k, v)]"
  by (induction ps) auto

lemma update_keys_present:
  "k \<in> fst ` set ps \<Longrightarrow> map fst (AList.update k v ps) = map fst ps"
  by (induction ps) auto

lemma length_delete_present:
  "distinct (map fst ps) \<Longrightarrow> k \<in> fst ` set ps \<Longrightarrow> Suc (length (AList.delete k ps)) = length ps"
proof (induction ps)
  case Nil
  then show ?case by simp
next
  case (Cons p ps)
  show ?case
  proof (cases "fst p = k")
    case True
    with Cons.prems have "k \<notin> fst ` set ps" by auto
    then have "AList.delete k ps = ps" by (rule AList.delete_id)
    with True show ?thesis by (cases p) auto
  next
    case False
    with Cons show ?thesis by (cases p) auto
  qed
qed

lemma delete_hd_distinct:
  "distinct (map fst (p # ps)) \<Longrightarrow> AList.delete (fst p) (p # ps) = ps"
  by (cases p) (auto intro!: AList.delete_id)

lemma delete_last_distinct:
  "distinct (map fst (ps @ [p])) \<Longrightarrow> AList.delete (fst p) (ps @ [p]) = ps"
  by (induction ps) (auto simp: image_iff)

lemma map_of_hd: "map_of ((k, v) # ps) k = Some v"
  by simp

end
