(* ===== verification/Zend_Data.thy ===== *)
theory Zend_Data
  imports Pt_Prelude
begin

text \<open>
  The values of the PHP engine that the extension handles: engine strings, hash keys, zvals
  and insertion-ordered hash tables, with the storage cells the extension itself adds
  (src/store_types.h). The engine's \<open>HashTable\<close> is the ordered dictionary of the
  language runtime; it is modelled by an association list with distinct keys together
  with the next free integer index.
\<close>

section \<open>Strings, identities and keys\<close>

text \<open>
  A \<open>zend_string\<close> is its address together with its bytes and the flags the extension
  inspects. Two strings are the same pointer when their addresses agree.
\<close>

record zend_string =
  zs_addr :: addr
  zs_val :: string
  zs_interned :: bool
  zs_permanent :: bool
  zs_persistent :: bool

text \<open>\<open>pthreads_ident_t\<close> of src/thread.h: the thread's number and its storage block.\<close>

record pthreads_ident =
  ident_id :: zend_ulong
  ident_ls :: tid

text \<open>A hash key is an integer or a string; string keys are compared by their bytes.\<close>

datatype zkey = KLong zend_ulong | KStr string

section \<open>Stored cells and values\<close>

text \<open>The structs of src/store_types.h, one constructor for each \<open>STORE_TYPE_*\<close>.\<close>

datatype pthreads_storage =
    STORE_TYPE_CLOSURE addr pthreads_ident
  | STORE_TYPE_PTHREADS addr
  | STORE_TYPE_RESOURCE addr tid
  | STORE_TYPE_SOCKET int int int int
  | STORE_TYPE_ENUM zend_string zend_string
  | STORE_TYPE_STRING_PTR zend_string pthreads_ident

text \<open>
  Object references carry the class test the extension makes on them: instances of
  ThreadedBase, closures, sockets, enum cases, and all other objects. An enum case carries
  the strings that name its class and the case.
\<close>

datatype zobject =
    ThreadedObject addr
  | ClosureObject addr
  | SocketObject addr
  | EnumObject zend_string zend_string
  | PlainObject addr

datatype zval =
    IS_UNDEF
  | IS_NULL
  | IS_FALSE
  | IS_TRUE
  | IS_LONG zend_long
  | IS_DOUBLE "64 word"
  | IS_STRING zend_string
  | IS_ARRAY "(zkey \<times> zval) list"
  | IS_OBJECT zobject
  | IS_RESOURCE addr
  | IS_REFERENCE zval
  | IS_CONSTANT_AST addr
  | IS_INDIRECT zval
  | IS_PTR pthreads_storage

text \<open>A double is its IEEE bit pattern: it equals \<open>0.0\<close> when all bits but the sign are 0.\<close>

definition double_is_zero :: "64 word \<Rightarrow> bool" where
  "double_is_zero d \<longleftrightarrow> push_bit 1 d = 0"

definition ZEND_LONG_MIN :: zend_long where
  "ZEND_LONG_MIN = push_bit 63 1"

definition ZEND_LONG_MAX :: zend_long where
  "ZEND_LONG_MAX = ZEND_LONG_MIN - 1"

section \<open>Ordered hash tables\<close>

record 'v zend_hash =
  ht_buckets :: "(zkey \<times> 'v) list"
  ht_next_free :: zend_long

definition zend_hash_init :: "'v zend_hash" where
  "zend_hash_init = \<lparr>ht_buckets = [], ht_next_free = ZEND_LONG_MIN\<rparr>"

definition zend_hash_find :: "'v zend_hash \<Rightarrow> zkey \<Rightarrow> 'v option" where
  "zend_hash_find ht k = map_of (ht_buckets ht) k"

definition zend_hash_exists :: "'v zend_hash \<Rightarrow> zkey \<Rightarrow> bool" where
  "zend_hash_exists ht k \<longleftrightarrow> zend_hash_find ht k \<noteq> None"

text \<open>
  Updating an existing key replaces the value in its bucket; a new key goes to the end.
  An integer key at or above the next free index moves that index.
\<close>

definition next_free_after :: "zkey \<Rightarrow> zend_long \<Rightarrow> zend_long" where
  "next_free_after k n =
     (case k of
        KStr _ \<Rightarrow> n
      | KLong h \<Rightarrow>
          if sint n \<le> sint h then (if h = ZEND_LONG_MAX then ZEND_LONG_MAX else h + 1)
          else n)"

definition zend_hash_update :: "'v zend_hash \<Rightarrow> zkey \<Rightarrow> 'v \<Rightarrow> 'v zend_hash" where
  "zend_hash_update ht k v =
     \<lparr>ht_buckets = AList.update k v (ht_buckets ht),
      ht_next_free = next_free_after k (ht_next_free ht)\<rparr>"

definition zend_hash_del :: "'v zend_hash \<Rightarrow> zkey \<Rightarrow> zend_result \<times> 'v zend_hash" where
  "zend_hash_del ht k =
     (if zend_hash_exists ht k
      then (SUCCESS, ht\<lparr>ht_buckets := AList.delete k (ht_buckets ht)\<rparr>)
      else (FAILURE, ht))"

definition zend_hash_num_elements :: "'v zend_hash \<Rightarrow> nat" where
  "zend_hash_num_elements ht = length (ht_buckets ht)"

definition zend_hash_clean :: "'v zend_hash \<Rightarrow> 'v zend_hash" where
  "zend_hash_clean ht = zend_hash_init"

definition zend_hash_next_free_element :: "'v zend_hash \<Rightarrow> zend_long" where
  "zend_hash_next_free_element ht = ht_next_free ht"

text \<open>Every table reachable by these operations has one bucket per key.\<close>

definition ht_ok :: "'v zend_hash \<Rightarrow> bool" where
  "ht_ok ht \<longleftrightarrow> distinct (map fst (ht_buckets ht))"

lemmas zend_hash_defs =
  zend_hash_init_def zend_hash_find_def zend_hash_exists_def zend_hash_update_def
  zend_hash_del_def zend_hash_num_elements_def zend_hash_clean_def

lemma ht_ok_init [simp]: "ht_ok zend_hash_init"
  by (simp add: ht_ok_def zend_hash_init_def)

lemma ht_ok_update [simp]: "ht_ok ht \<Longrightarrow> ht_ok (zend_hash_update ht k v)"
  by (simp add: ht_ok_def zend_hash_update_def AList.distinct_update)

lemma ht_ok_del [simp]: "ht_ok ht \<Longrightarrow> ht_ok (snd (zend_hash_del ht k))"
  by (simp add: ht_ok_def zend_hash_del_def AList.distinct_delete)

lemma find_init [simp, table_simps]: "zend_hash_find zend_hash_init k = None"
  by (simp add: zend_hash_defs)

lemma find_update [simp, table_simps]:
  "zend_hash_find (zend_hash_update ht k v) k' = (if k' = k then Some v else zend_hash_find ht k')"
  by (simp add: zend_hash_defs map_of_update)

lemma find_del [simp, table_simps]:
  "zend_hash_find (snd (zend_hash_del ht k)) k' = (if k' = k then None else zend_hash_find ht k')"
  by (auto simp: zend_hash_defs map_of_delete)

lemma del_result [simp, table_simps]:
  "fst (zend_hash_del ht k) = (if zend_hash_exists ht k then SUCCESS else FAILURE)"
  by (simp add: zend_hash_del_def)

lemma exists_find [table_simps]: "zend_hash_exists ht k \<longleftrightarrow> (\<exists>v. zend_hash_find ht k = Some v)"
  by (auto simp: zend_hash_exists_def)

lemma num_update [table_simps]:
  "zend_hash_num_elements (zend_hash_update ht k v) =
     (if zend_hash_exists ht k then zend_hash_num_elements ht
      else Suc (zend_hash_num_elements ht))"
proof (cases "k \<in> fst ` set (ht_buckets ht)")
  case True
  then have "length (map fst (AList.update k v (ht_buckets ht))) = length (ht_buckets ht)"
    by (simp only: update_keys_present length_map)
  moreover have "zend_hash_exists ht k"
    using True by (simp add: zend_hash_defs map_of_eq_None_iff)
  ultimately show ?thesis by (simp add: zend_hash_defs)
next
  case False
  then have "\<not> zend_hash_exists ht k"
    by (simp add: zend_hash_defs map_of_eq_None_iff)
  with False show ?thesis
    by (simp add: zend_hash_defs update_append_fresh)
qed

lemma num_del [table_simps]:
  assumes "ht_ok ht"
  shows "zend_hash_num_elements (snd (zend_hash_del ht k)) =
     (if zend_hash_exists ht k then zend_hash_num_elements ht - 1 else zend_hash_num_elements ht)"
proof (cases "zend_hash_exists ht k")
  case True
  then have "k \<in> fst ` set (ht_buckets ht)"
    by (metis zend_hash_exists_def zend_hash_find_def map_of_eq_None_iff)
  with assms have "Suc (length (AList.delete k (ht_buckets ht))) = length (ht_buckets ht)"
    by (simp add: ht_ok_def length_delete_present)
  with True show ?thesis by (simp add: zend_hash_del_def zend_hash_num_elements_def)
next
  case False
  then show ?thesis by (simp add: zend_hash_del_def zend_hash_num_elements_def)
qed

section \<open>The table interface the store relies on\<close>

text \<open>
  What the store needs of a table, whatever its layout: a dictionary whose insertions go
  to the end of the iteration order and whose deletions keep the order of the rest.
\<close>

locale ordered_table =
  fixes find :: "'t \<Rightarrow> 'k \<Rightarrow> 'v option"
    and update :: "'t \<Rightarrow> 'k \<Rightarrow> 'v \<Rightarrow> 't"
    and del :: "'t \<Rightarrow> 'k \<Rightarrow> 't"
    and entries :: "'t \<Rightarrow> ('k \<times> 'v) list"
    and ok :: "'t \<Rightarrow> bool"
  assumes entries_find: "ok t \<Longrightarrow> map_of (entries t) = find t"
    and entries_distinct: "ok t \<Longrightarrow> distinct (map fst (entries t))"
    and ok_update: "ok t \<Longrightarrow> ok (update t k v)"
    and ok_del: "ok t \<Longrightarrow> ok (del t k)"
    and update_new: "ok t \<Longrightarrow> find t k = None \<Longrightarrow> entries (update t k v) = entries t @ [(k, v)]"
    and update_old: "ok t \<Longrightarrow> find t k \<noteq> None \<Longrightarrow>
      entries (update t k v) = map (\<lambda>(k', v'). (k', if k' = k then v else v')) (entries t)"
    and del_entries: "ok t \<Longrightarrow> entries (del t k) = filter (\<lambda>p. fst p \<noteq> k) (entries t)"
begin

lemma find_after_update: "ok t \<Longrightarrow> find (update t k v) = (find t)(k \<mapsto> v)"
proof -
  assume t: "ok t"
  have "map_of (entries (update t k v)) k' = ((find t)(k \<mapsto> v)) k'" for k'
  proof (cases "find t k = None")
    case True
    with t have "map_of (entries t) k = None" by (simp add: entries_find)
    then show ?thesis
      using t True by (auto simp: update_new map_add_def entries_find split: option.splits)
  next
    case False
    have "map_of (map (\<lambda>(a, b). (a, if a = k then v else b)) ps) k' =
        (if k' = k then map_option (\<lambda>_. v) (map_of ps k) else map_of ps k')" for ps :: "('k \<times> 'v) list"
      by (induction ps) auto
    with t False show ?thesis by (auto simp: update_old entries_find)
  qed
  with t show ?thesis by (auto simp: entries_find [symmetric] ok_update)
qed

lemma find_after_del: "ok t \<Longrightarrow> find (del t k) = (find t)(k := None)"
proof -
  assume t: "ok t"
  have "map_of (filter (\<lambda>p. fst p \<noteq> k) ps) = (map_of ps)(k := None)" for ps :: "('k \<times> 'v) list"
    by (induction ps) (auto simp: fun_eq_iff)
  with t show ?thesis by (simp add: entries_find [symmetric] ok_del del_entries)
qed

lemma del_first:
  assumes "ok t" and "entries t = (k, v) # ps"
  shows "entries (del t k) = ps"
proof -
  from entries_distinct [OF assms(1)] assms(2) have "k \<notin> fst ` set ps" by simp
  then have "filter (\<lambda>p. fst p \<noteq> k) ps = ps" by (auto simp: filter_id_conv)
  with assms show ?thesis by (simp add: del_entries)
qed

lemma del_final:
  assumes "ok t" and "entries t = ps @ [(k, v)]"
  shows "entries (del t k) = ps"
proof -
  from entries_distinct [OF assms(1)] assms(2) have "k \<notin> fst ` set ps" by auto
  then have "filter (\<lambda>p. fst p \<noteq> k) ps = ps" by (auto simp: filter_id_conv)
  with assms show ?thesis by (simp add: del_entries)
qed

lemma update_then_del_new:
  "ok t \<Longrightarrow> find t k = None \<Longrightarrow> entries (del (update t k v) k) = entries t"
  by (rule del_final) (simp_all add: ok_update update_new)

end

lemma AList_update_map:
  "map_of ps k \<noteq> None \<Longrightarrow> distinct (map fst ps) \<Longrightarrow>
     AList.update k v ps = map (\<lambda>(k', v'). (k', if k' = k then v else v')) ps"
proof (induction ps)
  case Nil
  then show ?case by simp
next
  case (Cons p ps)
  show ?case
  proof (cases "fst p = k")
    case True
    with Cons.prems have "k \<notin> fst ` set ps" by auto
    then have "map (\<lambda>(k', v'). (k', if k' = k then v else v')) ps = ps"
      by (intro map_idI) force
    with True show ?thesis by (cases p) auto
  next
    case False
    with Cons show ?thesis by (cases p) auto
  qed
qed

lemma AList_delete_filter: "AList.delete k ps = filter (\<lambda>p. fst p \<noteq> k) ps"
  by (induction ps) auto

interpretation zht: ordered_table zend_hash_find zend_hash_update
  "\<lambda>ht k. snd (zend_hash_del ht k)" ht_buckets ht_ok
proof unfold_locales
  fix t :: "'v zend_hash" and k :: zkey and v :: 'v
  show "zend_hash_find t k = None \<Longrightarrow>
      ht_buckets (zend_hash_update t k v) = ht_buckets t @ [(k, v)]"
    by (simp add: zend_hash_defs map_of_eq_None_iff update_append_fresh)
  show "ht_ok t \<Longrightarrow> zend_hash_find t k \<noteq> None \<Longrightarrow> ht_buckets (zend_hash_update t k v) =
      map (\<lambda>(k', v'). (k', if k' = k then v else v')) (ht_buckets t)"
    unfolding zend_hash_find_def zend_hash_update_def ht_ok_def
    by (rule trans [OF _ AList_update_map]) simp_all
  show "ht_buckets (snd (zend_hash_del t k)) = filter (\<lambda>p. fst p \<noteq> k) (ht_buckets t)"
  proof (cases "zend_hash_exists t k")
    case True
    then show ?thesis by (simp add: zend_hash_del_def AList_delete_filter)
  next
    case False
    then have "k \<notin> fst ` set (ht_buckets t)"
      by (simp add: zend_hash_defs map_of_eq_None_iff)
    then have "filter (\<lambda>p. fst p \<noteq> k) (ht_buckets t) = ht_buckets t"
      by (auto simp: filter_id_conv)
    with False show ?thesis by (simp add: zend_hash_del_def)
  qed
qed (auto simp: zend_hash_find_def ht_ok_def zend_hash_update_def zend_hash_del_def
    AList.distinct_update AList.distinct_delete)

end
