(* ===== verification/Queue.thy ===== *)
theory Queue
  imports Pt_Prelude
begin

text \<open>
  src/queue.c: the doubly linked task queue. Items live in a heap of addresses; a queue is
  a size with a head and a tail pointer. Every read or write through a pointer is checked:
  an operation that would touch a freed or unallocated item yields \<open>None\<close>.
\<close>

section \<open>Items and queues\<close>

record 'v qitem =
  qi_next :: "addr option"
  qi_prev :: "addr option"
  qi_value :: 'v

record pthreads_queue =
  q_size :: int
  q_head :: "addr option"
  q_tail :: "addr option"

record 'v qheap =
  qh_items :: "addr \<Rightarrow> 'v qitem option"
  qh_next :: addr

datatype queue_garbage = PTHREADS_STACK_NOTHING | PTHREADS_STACK_FREE

definition empty_queue :: pthreads_queue where
  "empty_queue = \<lparr>q_size = 0, q_head = None, q_tail = None\<rparr>"

definition deref :: "'v qheap \<Rightarrow> addr option \<Rightarrow> 'v qitem option" where
  "deref h p = (case p of None \<Rightarrow> None | Some a \<Rightarrow> qh_items h a)"

definition store_item :: "addr \<Rightarrow> 'v qitem \<Rightarrow> 'v qheap \<Rightarrow> 'v qheap" where
  "store_item a it h = h\<lparr>qh_items := (qh_items h)(a \<mapsto> it)\<rparr>"

definition set_next :: "addr option \<Rightarrow> addr option \<Rightarrow> 'v qheap \<Rightarrow> 'v qheap option" where
  "set_next p n h =
     (case p of
        None \<Rightarrow> None
      | Some a \<Rightarrow> map_option (\<lambda>it. store_item a (it\<lparr>qi_next := n\<rparr>) h) (qh_items h a))"

definition set_prev :: "addr option \<Rightarrow> addr option \<Rightarrow> 'v qheap \<Rightarrow> 'v qheap option" where
  "set_prev p n h =
     (case p of
        None \<Rightarrow> None
      | Some a \<Rightarrow> map_option (\<lambda>it. store_item a (it\<lparr>qi_prev := n\<rparr>) h) (qh_items h a))"

definition free_item :: "addr \<Rightarrow> 'v qheap \<Rightarrow> 'v qheap" where
  "free_item a h = h\<lparr>qh_items := (qh_items h)(a := None)\<rparr>"

section \<open>Operations\<close>

partial_function (option) queue_clean_from :: "addr option \<Rightarrow> 'v qheap \<Rightarrow> 'v qheap option" where
  "queue_clean_from item h =
     (case item of
        None \<Rightarrow> Some h
      | Some r \<Rightarrow> qh_items h r \<bind> (\<lambda>it. queue_clean_from (qi_next it) (free_item r h)))"

declare queue_clean_from.simps [code]

definition pthreads_queue_clean :: "pthreads_queue \<Rightarrow> 'v qheap \<Rightarrow> 'v qheap option" where
  "pthreads_queue_clean queue h = queue_clean_from (q_head queue) h"

definition pthreads_queue_item_new :: "'v \<Rightarrow> 'v qheap \<Rightarrow> addr \<times> 'v qheap" where
  "pthreads_queue_item_new value h =
     (let item = qh_next h in
      (item, (store_item item \<lparr>qi_next = None, qi_prev = None, qi_value = value\<rparr> h)
               \<lparr>qh_next := Suc item\<rparr>))"

definition set_prev_and_next ::
  "addr \<Rightarrow> addr option \<Rightarrow> addr option \<Rightarrow> 'v qheap \<Rightarrow> 'v qheap option" where
  "set_prev_and_next item prev next h =
     do { h \<leftarrow> set_prev (Some item) prev h; set_next (Some item) next h }"

definition pthreads_queue_push ::
  "pthreads_queue \<Rightarrow> addr \<Rightarrow> 'v qheap \<Rightarrow> (pthreads_queue \<times> 'v qheap) option" where
  "pthreads_queue_push queue item h =
     (if q_tail queue = None
      then do {
        h \<leftarrow> set_prev_and_next item None None h;
        Some (queue\<lparr>q_tail := Some item, q_head := Some item, q_size := q_size queue + 1\<rparr>, h)
      }
      else do {
        h \<leftarrow> set_next (q_tail queue) (Some item) h;
        h \<leftarrow> set_prev_and_next item (q_tail queue) None h;
        Some (queue\<lparr>q_tail := Some item, q_size := q_size queue + 1\<rparr>, h)
      })"

definition pthreads_queue_push_new ::
  "pthreads_queue \<Rightarrow> 'v \<Rightarrow> 'v qheap \<Rightarrow> (pthreads_queue \<times> 'v qheap) option" where
  "pthreads_queue_push_new queue value h =
     (let (item, h) = pthreads_queue_item_new value h in pthreads_queue_push queue item h)"

text \<open>The size field is not touched by the code of \<open>unshift\<close>, and so not here.\<close>

definition pthreads_queue_unshift ::
  "pthreads_queue \<Rightarrow> addr \<Rightarrow> 'v qheap \<Rightarrow> (pthreads_queue \<times> 'v qheap) option" where
  "pthreads_queue_unshift queue item h =
     (if q_head queue = None
      then do {
        h \<leftarrow> set_prev_and_next item None None h;
        Some (queue\<lparr>q_tail := Some item, q_head := Some item\<rparr>, h)
      }
      else do {
        h \<leftarrow> set_prev (q_head queue) (Some item) h;
        h \<leftarrow> set_prev_and_next item None (q_head queue) h;
        Some (queue\<lparr>q_head := Some item\<rparr>, h)
      })"

definition pthreads_queue_unshift_new ::
  "pthreads_queue \<Rightarrow> 'v \<Rightarrow> 'v qheap \<Rightarrow> (pthreads_queue \<times> 'v qheap) option" where
  "pthreads_queue_unshift_new queue value h =
     (let (item, h) = pthreads_queue_item_new value h in pthreads_queue_unshift queue item h)"

text \<open>
  The relinking part of \<open>pthreads_queue_remove\<close>: only item, first item, last item, or an
  item in the middle.
\<close>

definition queue_unlink ::
  "pthreads_queue \<Rightarrow> addr \<Rightarrow> 'v qitem \<Rightarrow> 'v qheap \<Rightarrow> (pthreads_queue \<times> 'v qheap) option" where
  "queue_unlink queue item it h =
     (if q_head queue = Some item \<and> q_tail queue = Some item
      then Some (queue\<lparr>q_head := None, q_tail := None\<rparr>, h)
      else if q_head queue = Some item
      then do {
        h \<leftarrow> set_prev (qi_next it) None h;
        Some (queue\<lparr>q_head := qi_next it\<rparr>, h)
      }
      else if q_tail queue = Some item
      then do {
        h \<leftarrow> set_next (qi_prev it) None h;
        Some (queue\<lparr>q_tail := qi_prev it\<rparr>, h)
      }
      else do {
        h \<leftarrow> set_prev (qi_next it) (qi_prev it) h;
        h \<leftarrow> set_next (qi_prev it) (qi_next it) h;
        Some (queue, h)
      })"

text \<open>
  \<open>want\<close> says whether the caller passed a place for the value; with none the value is
  destroyed. The result is the returned size, the value handed out, the queue and the heap.
\<close>

definition pthreads_queue_remove ::
  "pthreads_queue \<Rightarrow> addr option \<Rightarrow> bool \<Rightarrow> queue_garbage \<Rightarrow> 'v qheap \<Rightarrow>
   (int \<times> 'v option \<times> pthreads_queue \<times> 'v qheap) option" where
  "pthreads_queue_remove queue p want garbage h =
     (case p of
        None \<Rightarrow> Some (0, None, queue, h)
      | Some item \<Rightarrow> do {
          it \<leftarrow> qh_items h item;
          (queue, h) \<leftarrow> queue_unlink queue item it h;
          let queue = queue\<lparr>q_size := q_size queue - 1\<rparr>;
          let h = (if garbage = PTHREADS_STACK_FREE then free_item item h else h);
          Some (q_size queue, if want then Some (qi_value it) else None, queue, h)
        })"

definition pthreads_queue_shift ::
  "pthreads_queue \<Rightarrow> bool \<Rightarrow> queue_garbage \<Rightarrow> 'v qheap \<Rightarrow>
   (int \<times> 'v option \<times> pthreads_queue \<times> 'v qheap) option" where
  "pthreads_queue_shift queue want garbage h =
     pthreads_queue_remove queue (q_head queue) want garbage h"

definition pthreads_queue_pop ::
  "pthreads_queue \<Rightarrow> bool \<Rightarrow> queue_garbage \<Rightarrow> 'v qheap \<Rightarrow>
   (int \<times> 'v option \<times> pthreads_queue \<times> 'v qheap) option" where
  "pthreads_queue_pop queue want garbage h =
     pthreads_queue_remove queue (q_tail queue) want garbage h"

lemmas queue_op_defs =
  pthreads_queue_push_def pthreads_queue_push_new_def pthreads_queue_item_new_def
  set_prev_and_next_def set_prev_def set_next_def store_item_def free_item_def
  pthreads_queue_remove_def pthreads_queue_shift_def pthreads_queue_pop_def queue_unlink_def

section \<open>Linked segments\<close>

text \<open>
  \<open>seg h p c as l n\<close>: starting at pointer \<open>c\<close>, whose predecessor is \<open>p\<close>, the items \<open>as\<close>
  are linked in both directions; \<open>l\<close> is the last of them (\<open>p\<close> if there is none) and \<open>n\<close>
  the pointer that follows.
\<close>

fun seg :: "'v qheap \<Rightarrow> addr option \<Rightarrow> addr option \<Rightarrow> addr list \<Rightarrow> addr option \<Rightarrow> addr option \<Rightarrow> bool"
where
  "seg h p c [] l n \<longleftrightarrow> c = n \<and> l = p"
| "seg h p c (a # as) l n \<longleftrightarrow> c = Some a \<and>
     (case qh_items h a of
        None \<Rightarrow> False
      | Some it \<Rightarrow> qi_prev it = p \<and> seg h (Some a) (qi_next it) as l n)"

definition queue_rep :: "'v qheap \<Rightarrow> pthreads_queue \<Rightarrow> addr list \<Rightarrow> bool" where
  "queue_rep h q as \<longleftrightarrow>
     seg h None (q_head q) as (q_tail q) None \<and> distinct as \<and> q_size q = int (length as)"

definition item_value :: "'v qheap \<Rightarrow> addr \<Rightarrow> 'v option" where
  "item_value h a = map_option qi_value (qh_items h a)"

definition queue_values :: "'v qheap \<Rightarrow> addr list \<Rightarrow> 'v option list" where
  "queue_values h as = map (item_value h) as"

lemma seg_append:
  "seg h p c (as @ bs) l n \<longleftrightarrow> (\<exists>m d. seg h p c as m d \<and> seg h m d bs l n)"
  by (induction as arbitrary: p c) (auto split: option.splits)

lemma seg_frame:
  "(\<And>a. a \<in> set as \<Longrightarrow> qh_items h' a = qh_items h a) \<Longrightarrow> seg h' p c as l n = seg h p c as l n"
  by (induction as arbitrary: p c) (auto split: option.splits)

lemma seg_items: "seg h p c as l n \<Longrightarrow> a \<in> set as \<Longrightarrow> qh_items h a \<noteq> None"
  by (induction as arbitrary: p c) (auto split: option.splits)

lemma seg_Cons:
  "seg h p c (a # as) l n \<longleftrightarrow>
     c = Some a \<and> (\<exists>it. qh_items h a = Some it \<and> qi_prev it = p \<and> seg h (Some a) (qi_next it) as l n)"
  by (auto split: option.splits)

lemma seg_snoc:
  "seg h p c (as @ [a]) l n \<longleftrightarrow>
     l = Some a \<and> (\<exists>it. qh_items h a = Some it \<and> qi_next it = n \<and> seg h p c as (qi_prev it) (Some a))"
  by (auto simp: seg_append seg_Cons simp del: seg.simps(2))

lemma seg_split:
  "seg h p c (as @ a # bs) l n \<longleftrightarrow>
     (\<exists>it. qh_items h a = Some it \<and> seg h p c as (qi_prev it) (Some a) \<and>
           seg h (Some a) (qi_next it) bs l n)"
  by (auto simp: seg_append seg_Cons simp del: seg.simps(2))

lemma item_value_simps [simp]:
  "qh_items h a = Some it \<Longrightarrow> item_value h a = Some (qi_value it)"
  by (simp add: item_value_def)

lemma store_item_items [simp]:
  "qh_items (store_item a it h) b = (if b = a then Some it else qh_items h b)"
  by (simp add: store_item_def)

lemma free_item_items [simp]:
  "qh_items (free_item a h) b = (if b = a then None else qh_items h b)"
  by (simp add: free_item_def)

text \<open>Rewriting the link out of the end of a segment, or the link back into its start.\<close>

lemma seg_set_next_last:
  assumes "seg h p c (as @ [b]) l n" and "b \<notin> set as"
  shows "\<exists>it. qh_items h b = Some it \<and>
    seg (store_item b (it\<lparr>qi_next := n'\<rparr>) h) p c (as @ [b]) l n'"
proof -
  from assms(1) obtain it where it: "qh_items h b = Some it" "l = Some b"
    "seg h p c as (qi_prev it) (Some b)"
    by (auto simp: seg_snoc)
  have "seg (store_item b (it\<lparr>qi_next := n'\<rparr>) h) p c as (qi_prev it) (Some b)"
    using it(3) assms(2) by (subst seg_frame [of _ _ h]) auto
  with it show ?thesis by (auto simp: seg_snoc)
qed

lemma seg_set_prev_first:
  assumes "seg h p c (b # as) l n" and "b \<notin> set as"
  shows "\<exists>it. qh_items h b = Some it \<and> c = Some b \<and>
    seg (store_item b (it\<lparr>qi_prev := p'\<rparr>) h) p' c (b # as) l n"
proof -
  from assms(1) obtain it where it: "qh_items h b = Some it" "c = Some b"
    "seg h (Some b) (qi_next it) as l n"
    by (auto simp: seg_Cons simp del: seg.simps(2))
  have "seg (store_item b (it\<lparr>qi_prev := p'\<rparr>) h) (Some b) (qi_next it) as l n"
    using it(3) assms(2) by (subst seg_frame [of _ _ h]) auto
  with it show ?thesis by (auto simp: seg_Cons simp del: seg.simps(2))
qed

section \<open>The operations on represented queues\<close>

text \<open>What an operation may change: links inside its footprint, never values.\<close>

definition same_values :: "'v qheap \<Rightarrow> 'v qheap \<Rightarrow> bool" where
  "same_values h h' \<longleftrightarrow> (\<forall>b. item_value h' b = item_value h b) \<and> qh_next h' = qh_next h"

definition same_outside :: "addr set \<Rightarrow> 'v qheap \<Rightarrow> 'v qheap \<Rightarrow> bool" where
  "same_outside A h h' \<longleftrightarrow> (\<forall>b. b \<notin> A \<longrightarrow> qh_items h' b = qh_items h b)"

lemma same_refl [simp]: "same_values h h" "same_outside A h h"
  by (auto simp: same_values_def same_outside_def)

lemma same_outside_rep:
  "same_outside A h h' \<Longrightarrow> queue_rep h q bs \<Longrightarrow> set bs \<inter> A = {} \<Longrightarrow> queue_rep h' q bs"
  unfolding queue_rep_def same_outside_def
  by (subst seg_frame [of bs h' h]) auto

lemma same_values_store:
  "qh_items h a = Some it \<Longrightarrow> qi_value it' = qi_value it \<Longrightarrow> same_values h (store_item a it' h)"
  by (auto simp: same_values_def item_value_def store_item_def)

lemma same_values_trans: "same_values h h1 \<Longrightarrow> same_values h1 h2 \<Longrightarrow> same_values h h2"
  by (simp add: same_values_def)

lemma same_outside_store: "a \<in> A \<Longrightarrow> same_outside A h (store_item a it h)"
  by (auto simp: same_outside_def)

lemma same_outside_trans: "same_outside A h h1 \<Longrightarrow> same_outside A h1 h2 \<Longrightarrow> same_outside A h h2"
  by (simp add: same_outside_def)

lemma queue_rep_ends:
  assumes "queue_rep h q as"
  shows "q_head q = (if as = [] then None else Some (hd as))"
    and "q_tail q = (if as = [] then None else Some (last as))"
proof -
  from assms have s: "seg h None (q_head q) as (q_tail q) None" by (simp add: queue_rep_def)
  then show "q_head q = (if as = [] then None else Some (hd as))"
    by (cases as) auto
  show "q_tail q = (if as = [] then None else Some (last as))"
    using s by (cases as rule: rev_cases) (auto simp: seg_snoc)
qed

lemma queue_rep_empty [simp]: "queue_rep h empty_queue []"
  by (simp add: queue_rep_def empty_queue_def)

lemma set_prev_and_next_correct:
  assumes "qh_items h a = Some it"
  shows "set_prev_and_next a p n h = Some (store_item a (it\<lparr>qi_prev := p, qi_next := n\<rparr>) h)"
  using assms
  by (simp add: set_prev_and_next_def set_prev_def set_next_def store_item_def)

lemma push_correct:
  assumes rep: "queue_rep h q as" and new: "a \<notin> set as" "qh_items h a = Some it"
  shows "\<exists>q' h'. pthreads_queue_push q a h = Some (q', h') \<and> queue_rep h' q' (as @ [a]) \<and>
     same_values h h' \<and> same_outside (set (as @ [a])) h h'"
proof (cases as rule: rev_cases)
  case Nil
  with rep have q: "q_tail q = None" "q_size q = 0" by (simp_all add: queue_rep_def)
  let ?h = "store_item a (it\<lparr>qi_prev := None, qi_next := None\<rparr>) h"
  have "pthreads_queue_push q a h = Some (q\<lparr>q_tail := Some a, q_head := Some a, q_size := 1\<rparr>, ?h)"
    using q new by (simp add: pthreads_queue_push_def set_prev_and_next_correct)
  moreover have "same_values h ?h" using new by (auto intro: same_values_store)
  ultimately show ?thesis
    using Nil by (auto simp: queue_rep_def intro: same_outside_store)
next
  case (snoc bs b)
  with rep have s: "seg h None (q_head q) (bs @ [b]) (q_tail q) None" and d: "distinct (bs @ [b])"
    and t: "q_tail q = Some b"
    by (auto simp: queue_rep_def seg_snoc)
  from seg_set_next_last [OF s] d obtain itb where itb: "qh_items h b = Some itb"
    and s': "seg (store_item b (itb\<lparr>qi_next := Some a\<rparr>) h) None (q_head q) (bs @ [b]) (q_tail q) (Some a)"
    by auto
  let ?h1 = "store_item b (itb\<lparr>qi_next := Some a\<rparr>) h"
  let ?h2 = "store_item a (it\<lparr>qi_prev := Some b, qi_next := None\<rparr>) ?h1"
  let ?q = "q\<lparr>q_tail := Some a, q_size := q_size q + 1\<rparr>"
  have ne: "a \<noteq> b" and a1: "qh_items ?h1 a = Some it" using new snoc by auto
  have "set_next (Some b) (Some a) h = Some ?h1"
    using itb by (simp add: set_next_def)
  then have push: "pthreads_queue_push q a h = Some (?q, ?h2)"
    using t a1 by (simp add: pthreads_queue_push_def set_prev_and_next_correct)
  have "seg ?h2 None (q_head q) (bs @ [b]) (Some b) (Some a)"
    using s' t new snoc by (subst seg_frame [of _ ?h2 ?h1]) auto
  then have "seg ?h2 None (q_head ?q) (as @ [a]) (Some a) None"
    by (subst seg_snoc) (simp add: snoc)
  then have "queue_rep ?h2 ?q (as @ [a])"
    using rep new by (simp add: queue_rep_def)
  moreover have "same_values h ?h2"
    by (rule same_values_trans [OF same_values_store [OF itb] same_values_store [OF a1]]) auto
  moreover have "same_outside (set (as @ [a])) h ?h2"
    by (rule same_outside_trans [OF same_outside_store same_outside_store]) (auto simp: snoc)
  ultimately show ?thesis using push by blast
qed

lemma queue_unlink_correct:
  assumes rep: "queue_rep h q (xs @ a # ys)" and it: "qh_items h a = Some it"
  shows "\<exists>q' h'. queue_unlink q a it h = Some (q', h') \<and>
     seg h' None (q_head q') (xs @ ys) (q_tail q') None \<and> q_size q' = q_size q \<and>
     same_values h h' \<and> same_outside (set (xs @ ys)) h h'"
proof -
  from rep it have L: "seg h None (q_head q) xs (qi_prev it) (Some a)"
    and R: "seg h (Some a) (qi_next it) ys (q_tail q) None"
    and d: "distinct (xs @ a # ys)"
    by (auto simp: queue_rep_def seg_split)
  have hd: "q_head q = Some a \<longleftrightarrow> xs = []"
    using L d by (cases xs) auto
  have tl: "q_tail q = Some a \<longleftrightarrow> ys = []"
    using R d by (cases ys rule: rev_cases) (auto simp: seg_snoc)
  show ?thesis
  proof (cases ys)
    case Nil
    show ?thesis
    proof (cases xs rule: rev_cases)
      case Nil
      with \<open>ys = []\<close> hd tl show ?thesis by (auto simp: queue_unlink_def)
    next
      case (snoc us u)
      from seg_set_next_last [of h None "q_head q" us u _ _ None] L d snoc
      obtain itu where itu: "qh_items h u = Some itu" "qi_prev it = Some u"
        "seg (store_item u (itu\<lparr>qi_next := None\<rparr>) h) None (q_head q) (us @ [u]) (Some u) None"
        by (fastforce simp: seg_snoc)
      then show ?thesis
        using \<open>ys = []\<close> snoc hd tl
        by (auto simp: queue_unlink_def set_next_def intro: same_values_store same_outside_store)
    qed
  next
    case (Cons n zs)
    from seg_set_prev_first [of h "Some a" "qi_next it" n zs "q_tail q" None "qi_prev it"] R d Cons
    obtain itn where itn: "qh_items h n = Some itn" "qi_next it = Some n"
      and R': "seg (store_item n (itn\<lparr>qi_prev := qi_prev it\<rparr>) h) (qi_prev it) (Some n) ys (q_tail q) None"
      by auto
    let ?h1 = "store_item n (itn\<lparr>qi_prev := qi_prev it\<rparr>) h"
    have sv1: "same_values h ?h1" using itn by (auto intro: same_values_store)
    have so1: "same_outside (set (xs @ ys)) h ?h1" using Cons by (auto intro: same_outside_store)
    show ?thesis
    proof (cases xs rule: rev_cases)
      case Nil
      with L have "qi_prev it = None" by simp
      with itn R' Nil hd tl Cons sv1 so1 show ?thesis
        by (auto simp: queue_unlink_def set_prev_def)
    next
      case (snoc us u)
      have "seg ?h1 None (q_head q) xs (qi_prev it) (Some a)"
        using L d Cons by (subst seg_frame [of _ _ h]) auto
      with seg_set_next_last [of ?h1 None "q_head q" us u _ _ "Some n"] d snoc
      obtain itu where itu: "qh_items ?h1 u = Some itu" "qi_prev it = Some u"
        and L': "seg (store_item u (itu\<lparr>qi_next := Some n\<rparr>) ?h1) None (q_head q) xs (Some u) (Some n)"
        by (fastforce simp: seg_snoc)
      let ?h2 = "store_item u (itu\<lparr>qi_next := Some n\<rparr>) ?h1"
      have "seg ?h2 (Some u) (Some n) ys (q_tail q) None"
        using R' itu d snoc Cons by (subst seg_frame [of _ _ ?h1]) auto
      with L' have "seg ?h2 None (q_head q) (xs @ ys) (q_tail q) None"
        by (auto simp: seg_append)
      moreover have "queue_unlink q a it h = Some (q, ?h2)"
        using itn itu hd tl snoc Cons by (simp add: queue_unlink_def set_prev_def set_next_def)
      moreover have "same_values h ?h2"
        by (rule same_values_trans [OF sv1 same_values_store [OF itu(1)]]) simp
      moreover have "same_outside (set (xs @ ys)) h ?h2"
        by (rule same_outside_trans [OF so1 same_outside_store]) (simp add: snoc)
      ultimately show ?thesis by blast
    qed
  qed
qed

lemma seg_free_outside:
  "a \<notin> set as \<Longrightarrow> seg (free_item a h) p c as l n = seg h p c as l n"
  by (rule seg_frame) auto

lemma remove_correct:
  assumes rep: "queue_rep h q (xs @ a # ys)"
  shows "\<exists>q' h'. pthreads_queue_remove q (Some a) want g h =
       Some (int (length (xs @ ys)), if want then item_value h a else None, q', h') \<and>
     queue_rep h' q' (xs @ ys) \<and> (\<forall>b. b \<noteq> a \<longrightarrow> item_value h' b = item_value h b) \<and>
     same_outside (set (xs @ a # ys)) h h' \<and> qh_next h' = qh_next h \<and>
     qh_items h' a = (if g = PTHREADS_STACK_FREE then None else qh_items h a)"
proof -
  from rep obtain it where it: "qh_items h a = Some it" and d: "distinct (xs @ a # ys)"
    and sz: "q_size q = int (length (xs @ a # ys))"
    by (auto simp: queue_rep_def seg_split)
  from queue_unlink_correct [OF rep it] obtain q1 h1 where u:
    "queue_unlink q a it h = Some (q1, h1)" "seg h1 None (q_head q1) (xs @ ys) (q_tail q1) None"
    "q_size q1 = q_size q" "same_values h h1" "same_outside (set (xs @ ys)) h h1"
    by blast
  define q' where "q' = q1\<lparr>q_size := q_size q1 - 1\<rparr>"
  define h' where "h' = (if g = PTHREADS_STACK_FREE then free_item a h1 else h1)"
  have "pthreads_queue_remove q (Some a) want g h =
      Some (q_size q', if want then Some (qi_value it) else None, q', h')"
    using it u(1) by (simp add: pthreads_queue_remove_def Let_def q'_def h'_def)
  moreover have "q_size q' = int (length (xs @ ys))"
    using u(3) sz by (simp add: q'_def)
  moreover have "queue_rep h' q' (xs @ ys)"
    using u(2) d \<open>q_size q' = _\<close> by (auto simp: queue_rep_def q'_def h'_def seg_free_outside)
  moreover have "\<forall>b. b \<noteq> a \<longrightarrow> item_value h' b = item_value h b"
    using u(4) by (auto simp: same_values_def h'_def item_value_def)
  moreover have "same_outside (set (xs @ a # ys)) h h'"
    using u(5) by (auto simp: same_outside_def h'_def)
  moreover have "qh_next h' = qh_next h"
    using u(4) by (simp add: same_values_def h'_def free_item_def)
  moreover have "qh_items h' a = (if g = PTHREADS_STACK_FREE then None else qh_items h a)"
    using u(5) d by (auto simp: same_outside_def h'_def)
  ultimately show ?thesis using it by auto
qed

text \<open>
  Emptying a queue terminates and frees exactly its items; every item outside the queue
  stays as it is.
\<close>

lemma queue_clean_from_correct:
  assumes "seg h p c as l None" and "distinct as"
  shows "queue_clean_from c h = Some (h\<lparr>qh_items := (\<lambda>b. if b \<in> set as then None else qh_items h b)\<rparr>)"
  using assms
proof (induction as arbitrary: h p c)
  case Nil
  then show ?case by (subst queue_clean_from.simps) simp
next
  case (Cons a as)
  then obtain it where it: "c = Some a" "qh_items h a = Some it"
    and s: "seg h (Some a) (qi_next it) as l None"
    by (auto simp: seg_Cons simp del: seg.simps(2))
  from s Cons.prems(2) have "seg (free_item a h) (Some a) (qi_next it) as l None"
    by (simp add: seg_free_outside)
  from Cons.IH [OF this] Cons.prems(2) have
    "queue_clean_from (qi_next it) (free_item a h) =
      Some ((free_item a h)\<lparr>qh_items := (\<lambda>b. if b \<in> set as then None else qh_items (free_item a h) b)\<rparr>)"
    by simp
  also have "(free_item a h)\<lparr>qh_items := (\<lambda>b. if b \<in> set as then None else qh_items (free_item a h) b)\<rparr> =
      h\<lparr>qh_items := (\<lambda>b. if b \<in> set (a # as) then None else qh_items h b)\<rparr>"
    by (auto simp: free_item_def fun_eq_iff intro!: qheap.equality)
  finally show ?case using it by (subst queue_clean_from.simps) simp
qed

lemma clean_correct:
  "queue_rep h q as \<Longrightarrow>
     pthreads_queue_clean q h = Some (h\<lparr>qh_items := (\<lambda>b. if b \<in> set as then None else qh_items h b)\<rparr>)"
  by (auto simp: pthreads_queue_clean_def queue_rep_def intro: queue_clean_from_correct)

text \<open>\<open>emalloc\<close> hands out addresses that are not in use.\<close>

definition heap_ok :: "'v qheap \<Rightarrow> bool" where
  "heap_ok h \<longleftrightarrow> (\<forall>a. qh_next h \<le> a \<longrightarrow> qh_items h a = None)"

lemma heap_ok_rep: "heap_ok h \<Longrightarrow> queue_rep h q as \<Longrightarrow> a \<in> set as \<Longrightarrow> a < qh_next h"
  by (metis heap_ok_def not_le queue_rep_def seg_items)

lemma push_new_correct:
  assumes ok: "heap_ok h" and rep: "queue_rep h q as"
  shows "\<exists>q' h'. pthreads_queue_push_new q v h = Some (q', h') \<and> heap_ok h' \<and>
     queue_rep h' q' (as @ [qh_next h]) \<and> item_value h' (qh_next h) = Some v \<and>
     (\<forall>b. b \<noteq> qh_next h \<longrightarrow> item_value h' b = item_value h b) \<and>
     same_outside (set (as @ [qh_next h])) h h' \<and> qh_next h' = Suc (qh_next h)"
proof -
  let ?a = "qh_next h"
  let ?it = "\<lparr>qi_next = None, qi_prev = None, qi_value = v\<rparr>"
  let ?h1 = "(store_item ?a ?it h)\<lparr>qh_next := Suc ?a\<rparr>"
  have fresh: "?a \<notin> set as" using heap_ok_rep [OF ok rep] by blast
  have "queue_rep ?h1 q as"
    using rep fresh unfolding queue_rep_def by (subst seg_frame [of _ _ h]) auto
  from push_correct [OF this fresh, of ?it] obtain q' h' where p:
    "pthreads_queue_push q ?a ?h1 = Some (q', h')" "queue_rep h' q' (as @ [?a])"
    "same_values ?h1 h'" "same_outside (set (as @ [?a])) ?h1 h'"
    by auto
  have "pthreads_queue_push_new q v h = Some (q', h')"
    using p(1) by (simp add: pthreads_queue_push_new_def pthreads_queue_item_new_def Let_def)
  moreover have iv: "item_value h' b = (if b = ?a then Some v else item_value h b)" for b
    using p(3) by (auto simp: same_values_def item_value_def)
  moreover have nx: "qh_next h' = Suc ?a" using p(3) by (simp add: same_values_def)
  moreover have "heap_ok h'"
    unfolding heap_ok_def
  proof (intro allI impI)
    fix b assume "qh_next h' \<le> b"
    with ok nx iv [of b] have "item_value h' b = None" by (simp add: heap_ok_def item_value_def)
    then show "qh_items h' b = None" by (simp add: item_value_def)
  qed
  moreover have "same_outside (set (as @ [?a])) h h'"
    using p(4) by (auto simp: same_outside_def)
  ultimately show ?thesis using p(2) by auto
qed

section \<open>The interface the worker relies on\<close>

text \<open>
  A worker moves items between several queues that share one heap. What it relies on:
  pushing appends, shifting takes the first item, values survive, and queues with other
  items are not disturbed.
\<close>

locale task_list =
  fixes rep :: "'h \<Rightarrow> 'q \<Rightarrow> addr list \<Rightarrow> bool"
    and val :: "'h \<Rightarrow> addr \<Rightarrow> 'v option"
    and push :: "'q \<Rightarrow> addr \<Rightarrow> 'h \<Rightarrow> ('q \<times> 'h) option"
    and shift :: "'q \<Rightarrow> bool \<Rightarrow> queue_garbage \<Rightarrow> 'h \<Rightarrow> (int \<times> 'v option \<times> 'q \<times> 'h) option"
  assumes push_ok: "rep h q as \<Longrightarrow> a \<notin> set as \<Longrightarrow> val h a \<noteq> None \<Longrightarrow>
      \<exists>q' h'. push q a h = Some (q', h') \<and> rep h' q' (as @ [a])"
    and push_val: "rep h q as \<Longrightarrow> a \<notin> set as \<Longrightarrow> push q a h = Some (q', h') \<Longrightarrow> val h' = val h"
    and push_frame: "rep h q as \<Longrightarrow> a \<notin> set as \<Longrightarrow> push q a h = Some (q', h') \<Longrightarrow>
      rep h r bs \<Longrightarrow> set bs \<inter> set (a # as) = {} \<Longrightarrow> rep h' r bs"
    and shift_ok: "rep h q (a # as) \<Longrightarrow> \<exists>q' h'. shift q want g h =
      Some (int (length as), if want then val h a else None, q', h') \<and> rep h' q' as"
    and shift_val: "rep h q (a # as) \<Longrightarrow> shift q want g h = Some (n, v, q', h') \<Longrightarrow>
      val h' = (if g = PTHREADS_STACK_FREE then (val h)(a := None) else val h)"
    and shift_frame: "rep h q (a # as) \<Longrightarrow> shift q want g h = Some (n, v, q', h') \<Longrightarrow>
      rep h r bs \<Longrightarrow> set bs \<inter> set (a # as) = {} \<Longrightarrow> rep h' r bs"
    and rep_val: "rep h q as \<Longrightarrow> a \<in> set as \<Longrightarrow> val h a \<noteq> None"
    and rep_distinct: "rep h q as \<Longrightarrow> distinct as"
begin

text \<open>Taking the head of one queue off without freeing it and pushing it to another.\<close>

lemma move_head:
  assumes q: "rep h q (a # as)" and r: "rep h r bs" and sep: "set bs \<inter> set (a # as) = {}"
  shows "\<exists>q' h1 r' h2. shift q want PTHREADS_STACK_NOTHING h =
      Some (int (length as), if want then val h a else None, q', h1) \<and>
    push r a h1 = Some (r', h2) \<and> rep h2 q' as \<and> rep h2 r' (bs @ [a]) \<and> val h2 = val h"
proof -
  from shift_ok [OF q, of want PTHREADS_STACK_NOTHING] obtain q' h1 where
    s: "shift q want PTHREADS_STACK_NOTHING h =
      Some (int (length as), if want then val h a else None, q', h1)" and q1: "rep h1 q' as"
    by blast
  have v1: "val h1 = val h" using shift_val [OF q s] by simp
  have r1: "rep h1 r bs" by (rule shift_frame [OF q s r sep])
  have "val h1 a \<noteq> None" using rep_val [OF q] v1 by simp
  have a: "a \<notin> set bs" using sep by auto
  from push_ok [OF r1 a \<open>val h1 a \<noteq> None\<close>]
  obtain r' h2 where p: "push r a h1 = Some (r', h2)" "rep h2 r' (bs @ [a])"
    by blast
  have "rep h2 q' as"
    by (rule push_frame [OF r1 a p(1) q1]) (use sep rep_distinct [OF q] in auto)
  moreover have "val h2 = val h" using push_val [OF r1 a p(1)] v1 by simp
  ultimately show ?thesis using s p by blast
qed

end

interpretation linked: task_list queue_rep item_value pthreads_queue_push pthreads_queue_shift
proof unfold_locales
  fix h :: "'v qheap" and q q' r as bs a h' want g n v
  assume q: "queue_rep h q as" and a: "a \<notin> set as"
  show "item_value h a \<noteq> None \<Longrightarrow>
      \<exists>q' h'. pthreads_queue_push q a h = Some (q', h') \<and> queue_rep h' q' (as @ [a])"
    using push_correct [OF q a] by (auto simp: item_value_def)
  assume p: "pthreads_queue_push q a h = Some (q', h')"
  then have "qh_items h a \<noteq> None"
    by (auto simp: queue_op_defs bind_Some_iff split: if_splits option.splits)
  with push_correct [OF q a] p have f: "same_values h h'" "same_outside (set (as @ [a])) h h'"
    by auto
  show "item_value h' = item_value h" using f(1) by (auto simp: same_values_def)
  show "queue_rep h r bs \<Longrightarrow> set bs \<inter> set (a # as) = {} \<Longrightarrow> queue_rep h' r bs"
    by (rule same_outside_rep [OF f(2)]) auto
next
  fix h :: "'v qheap" and q q' r as bs a h' want g n v
  assume q: "queue_rep h q (a # as)"
  then have hd: "q_head q = Some a" by (simp add: queue_rep_def)
  from remove_correct [of h q "[]" a as want g] q hd
  obtain q1 h1 where r: "pthreads_queue_shift q want g h =
      Some (int (length as), if want then item_value h a else None, q1, h1)" "queue_rep h1 q1 as"
    "\<forall>b. b \<noteq> a \<longrightarrow> item_value h1 b = item_value h b" "same_outside (set (a # as)) h h1"
    "qh_items h1 a = (if g = PTHREADS_STACK_FREE then None else qh_items h a)"
    by (auto simp: pthreads_queue_shift_def)
  show "\<exists>q' h'. pthreads_queue_shift q want g h =
      Some (int (length as), if want then item_value h a else None, q', h') \<and> queue_rep h' q' as"
    using r(1,2) by blast
  assume "pthreads_queue_shift q want g h = Some (n, v, q', h')"
  with r(1) have h1: "h1 = h'" by simp
  show "item_value h' = (if g = PTHREADS_STACK_FREE then (item_value h)(a := None) else item_value h)"
  proof
    fix b
    show "item_value h' b =
        (if g = PTHREADS_STACK_FREE then (item_value h)(a := None) else item_value h) b"
      using r(3,5) h1 by (cases "b = a") (auto simp: item_value_def)
  qed
  show "queue_rep h r bs \<Longrightarrow> set bs \<inter> set (a # as) = {} \<Longrightarrow> queue_rep h' r bs"
    using same_outside_rep [OF r(4)] h1 by blast
next
  fix h :: "'v qheap" and q as a
  assume "queue_rep h q as"
  then show "a \<in> set as \<Longrightarrow> item_value h a \<noteq> None"
    using seg_items by (fastforce simp: queue_rep_def item_value_def)
next
  fix h :: "'v qheap" and q as
  assume "queue_rep h q as"
  then show "distinct as" by (simp add: queue_rep_def)
qed

section \<open>The queue refines a list\<close>

text \<open>A client's calls, run on the linked queue and on the list it stands for.\<close>

datatype 'v queue_call = Push 'v | Shift | Pop

fun run_queue :: "'v queue_call list \<Rightarrow> pthreads_queue \<Rightarrow> 'v qheap \<Rightarrow>
  ((int \<times> 'v option) list \<times> pthreads_queue \<times> 'v qheap) option" where
  "run_queue [] q h = Some ([], q, h)"
| "run_queue (Push v # cs) q h = do {
     (q, h) \<leftarrow> pthreads_queue_push_new q v h;
     (out, q', h') \<leftarrow> run_queue cs q h;
     Some ((q_size q, None) # out, q', h') }"
| "run_queue (Shift # cs) q h = do {
     (n, v, q, h) \<leftarrow> pthreads_queue_shift q True PTHREADS_STACK_FREE h;
     (out, q', h') \<leftarrow> run_queue cs q h;
     Some ((n, v) # out, q', h') }"
| "run_queue (Pop # cs) q h = do {
     (n, v, q, h) \<leftarrow> pthreads_queue_pop q True PTHREADS_STACK_FREE h;
     (out, q', h') \<leftarrow> run_queue cs q h;
     Some ((n, v) # out, q', h') }"

fun run_list :: "'v queue_call list \<Rightarrow> 'v list \<Rightarrow> (int \<times> 'v option) list \<times> 'v list" where
  "run_list [] xs = ([], xs)"
| "run_list (Push v # cs) xs =
     (let (out, ys) = run_list cs (xs @ [v]) in ((int (length xs) + 1, None) # out, ys))"
| "run_list (Shift # cs) xs =
     (let (out, ys) = run_list cs (tl xs) in
      ((int (length (tl xs)), if xs = [] then None else Some (hd xs)) # out, ys))"
| "run_list (Pop # cs) xs =
     (let (out, ys) = run_list cs (butlast xs) in
      ((int (length (butlast xs)), if xs = [] then None else Some (last xs)) # out, ys))"

definition queue_holds :: "'v qheap \<Rightarrow> pthreads_queue \<Rightarrow> 'v list \<Rightarrow> bool" where
  "queue_holds h q vs \<longleftrightarrow> heap_ok h \<and> (\<exists>as. queue_rep h q as \<and> map (item_value h) as = map Some vs)"

lemma heap_ok_removed:
  "heap_ok h \<Longrightarrow> \<forall>b. b \<noteq> a \<longrightarrow> item_value h' b = item_value h b \<Longrightarrow> qh_items h' a = None \<Longrightarrow>
     qh_next h' = qh_next h \<Longrightarrow> heap_ok h'"
  unfolding heap_ok_def item_value_def by (metis option.map_disc_iff)

lemma holds_push:
  assumes "queue_holds h q vs"
  shows "\<exists>q' h'. pthreads_queue_push_new q v h = Some (q', h') \<and> queue_holds h' q' (vs @ [v]) \<and>
    q_size q' = int (length vs) + 1"
proof -
  from assms obtain as where as: "heap_ok h" "queue_rep h q as" "map (item_value h) as = map Some vs"
    by (auto simp: queue_holds_def)
  have len: "length as = length vs" using arg_cong [OF as(3), of length] by simp
  have new: "qh_next h \<notin> set as" using heap_ok_rep [OF as(1,2)] by blast
  from push_new_correct [OF as(1,2), of v] obtain q' h' where p:
    "pthreads_queue_push_new q v h = Some (q', h')" "heap_ok h'"
    "queue_rep h' q' (as @ [qh_next h])" "item_value h' (qh_next h) = Some v"
    "\<forall>b. b \<noteq> qh_next h \<longrightarrow> item_value h' b = item_value h b"
    by blast
  from p(5) new have "map (item_value h') as = map (item_value h) as"
    by (intro map_cong refl) metis
  with p as(3) have "queue_holds h' q' (vs @ [v])"
    unfolding queue_holds_def by (intro conjI exI [of _ "as @ [qh_next h]"]) simp_all
  moreover have "q_size q' = int (length vs) + 1"
    using p(3) len by (simp add: queue_rep_def)
  ultimately show ?thesis using p(1) by blast
qed

lemma holds_remove:
  assumes "heap_ok h" and rep: "queue_rep h q (xs @ a # ys)"
    and vals: "map (item_value h) (xs @ a # ys) = map Some (us @ v # vs)" and "length xs = length us"
  shows "\<exists>q' h'. pthreads_queue_remove q (Some a) True PTHREADS_STACK_FREE h =
      Some (int (length (us @ vs)), Some v, q', h') \<and> queue_holds h' q' (us @ vs)"
proof -
  from vals \<open>length xs = length us\<close> have v: "map (item_value h) xs = map Some us"
    "item_value h a = Some v" "map (item_value h) ys = map Some vs"
    by simp_all
  have len: "length ys = length vs" using arg_cong [OF v(3), of length] by simp
  from remove_correct [OF rep, of True PTHREADS_STACK_FREE] obtain q' h' where
    r: "pthreads_queue_remove q (Some a) True PTHREADS_STACK_FREE h =
      Some (int (length (xs @ ys)), item_value h a, q', h')" "queue_rep h' q' (xs @ ys)"
    "\<forall>b. b \<noteq> a \<longrightarrow> item_value h' b = item_value h b" "qh_next h' = qh_next h" "qh_items h' a = None"
    by auto
  have d: "a \<notin> set (xs @ ys)" using rep by (auto simp: queue_rep_def)
  then have "map (item_value h') (xs @ ys) = map (item_value h) (xs @ ys)"
    using r(3) by (metis (mono_tags, lifting) map_cong)
  with v have "map (item_value h') (xs @ ys) = map Some (us @ vs)" by simp
  moreover have "heap_ok h'"
    by (rule heap_ok_removed [OF assms(1) r(3) r(5) r(4)])
  ultimately have "queue_holds h' q' (us @ vs)"
    using r(2) unfolding queue_holds_def by blast
  with r(1) v(2) len assms(4) show ?thesis by simp
qed

lemma holds_empty:
  assumes "queue_holds h q []"
  shows "pthreads_queue_shift q w g h = Some (0, None, q, h)"
    and "pthreads_queue_pop q w g h = Some (0, None, q, h)"
proof -
  from assms have "queue_rep h q []" by (auto simp: queue_holds_def)
  from queue_rep_ends [OF this] show "pthreads_queue_shift q w g h = Some (0, None, q, h)"
    and "pthreads_queue_pop q w g h = Some (0, None, q, h)"
    by (simp_all add: pthreads_queue_shift_def pthreads_queue_pop_def pthreads_queue_remove_def)
qed

lemma holds_shift:
  assumes "queue_holds h q (v # vs)"
  shows "\<exists>q' h'. pthreads_queue_shift q True PTHREADS_STACK_FREE h =
      Some (int (length vs), Some v, q', h') \<and> queue_holds h' q' vs"
proof -
  from assms obtain a as where "heap_ok h" and rep: "queue_rep h q (a # as)"
    and "map (item_value h) (a # as) = map Some (v # vs)"
    by (auto simp: queue_holds_def Cons_eq_map_conv)
  then show ?thesis
    using holds_remove [of h q "[]" a as "[]" v vs] queue_rep_ends(1) [OF rep]
    by (simp add: pthreads_queue_shift_def)
qed

lemma holds_pop:
  assumes "queue_holds h q (vs @ [v])"
  shows "\<exists>q' h'. pthreads_queue_pop q True PTHREADS_STACK_FREE h =
      Some (int (length vs), Some v, q', h') \<and> queue_holds h' q' vs"
proof -
  from assms obtain a as where "heap_ok h" and rep: "queue_rep h q (as @ [a])"
    and m: "map (item_value h) (as @ [a]) = map Some (vs @ [v])"
    by (auto simp: queue_holds_def append_eq_map_conv map_eq_append_conv)
  moreover have "length as = length vs" using arg_cong [OF m, of length] by simp
  ultimately show ?thesis
    using holds_remove [of h q as a "[]" vs v "[]"] queue_rep_ends(2) [OF rep]
    by (simp add: pthreads_queue_pop_def)
qed

lemma run_queue_holds:
  "queue_holds h q vs \<Longrightarrow> \<exists>q' h'. run_queue cs q h = Some (fst (run_list cs vs), q', h') \<and>
     queue_holds h' q' (snd (run_list cs vs))"
proof (induction cs arbitrary: q h vs)
  case Nil
  then show ?case by simp
next
  case (Cons c cs)
  show ?case
  proof (cases c)
    case (Push v)
    with holds_push [OF Cons.prems, of v] Cons.IH show ?thesis
      by (fastforce simp: case_prod_unfold Let_def)
  next
    case Shift
    show ?thesis
    proof (cases vs)
      case Nil
      with Shift holds_empty(1) [of h q] Cons show ?thesis
        by (fastforce simp: case_prod_unfold Let_def)
    next
      case (Cons v us)
      with Shift holds_shift [of h q v us] Cons.prems Cons.IH show ?thesis
        by (fastforce simp: case_prod_unfold Let_def)
    qed
  next
    case Pop
    show ?thesis
    proof (cases vs rule: rev_cases)
      case Nil
      with Pop holds_empty(2) [of h q] Cons show ?thesis
        by (fastforce simp: case_prod_unfold Let_def)
    next
      case (snoc us v)
      with Pop holds_pop [of h q us v] Cons.prems Cons.IH show ?thesis
        by (fastforce simp: case_prod_unfold Let_def)
    qed
  qed
qed

definition empty_heap :: "'v qheap" where
  "empty_heap = \<lparr>qh_items = (\<lambda>_. None), qh_next = 0\<rparr>"

text \<open>
  C35. Any sequence of pushes, shifts and pops on an initially empty task queue runs to the
  end without touching freed memory, and hands out exactly the sizes and values that the
  same calls give on a list: push appends, shift takes the first value, pop the last.
\<close>

theorem queue_behaves_as_list:
  "map_option fst (run_queue cs empty_queue empty_heap) = Some (fst (run_list cs []))"
proof -
  have "queue_holds empty_heap empty_queue ([] :: 'a list)"
    by (auto simp: queue_holds_def heap_ok_def empty_heap_def)
  from run_queue_holds [OF this, of cs] show ?thesis by auto
qed

text \<open>
  C36. Removing any item from the middle, the front or the back of a well-linked queue
  returns the number of items left and the removed value, leaves a well-linked queue of the
  other items in their order, and frees the item only when asked to.
\<close>

theorem queue_remove_any_item:
  assumes "queue_rep h q (xs @ a # ys)"
  shows "\<exists>q' h'. pthreads_queue_remove q (Some a) True g h =
      Some (int (length (xs @ ys)), item_value h a, q', h') \<and>
    queue_rep h' q' (xs @ ys) \<and> queue_values h' (xs @ ys) = queue_values h (xs @ ys) \<and>
    qh_items h' a = (if g = PTHREADS_STACK_FREE then None else qh_items h a)"
proof -
  have "a \<notin> set (xs @ ys)" using assms by (auto simp: queue_rep_def)
  with remove_correct [OF assms, of True g] show ?thesis
    by (force simp: queue_values_def)
qed

text \<open>Three linked items, for the witnesses.\<close>

definition demo_heap :: "int qheap" where
  "demo_heap = \<lparr>qh_items = [0 \<mapsto> \<lparr>qi_next = Some 1, qi_prev = None, qi_value = 10\<rparr>,
      1 \<mapsto> \<lparr>qi_next = Some 2, qi_prev = Some 0, qi_value = 20\<rparr>,
      2 \<mapsto> \<lparr>qi_next = None, qi_prev = Some 1, qi_value = 30\<rparr>,
      3 \<mapsto> \<lparr>qi_next = None, qi_prev = None, qi_value = 40\<rparr>], qh_next = 4\<rparr>"

definition demo_queue :: pthreads_queue where
  "demo_queue = \<lparr>q_size = 3, q_head = Some 0, q_tail = Some 2\<rparr>"

lemma demo_rep: "queue_rep demo_heap demo_queue [0, 1, 2]"
  by (simp add: queue_rep_def demo_heap_def demo_queue_def)

theorem queue_remove_any_item_witness:
  "\<exists>q' h'. pthreads_queue_remove demo_queue (Some 1) True PTHREADS_STACK_FREE demo_heap =
      Some (2, Some 20, q', h') \<and> queue_rep h' q' [0, 2] \<and>
    queue_values h' [0, 2] = [Some 10, Some 30] \<and> qh_items h' 1 = None"
  using queue_remove_any_item [of demo_heap demo_queue "[0]" 1 "[2]" PTHREADS_STACK_FREE] demo_rep
  by (simp add: queue_values_def item_value_def demo_heap_def)

text \<open>
  C37. Cleaning a queue terminates, frees every item of the queue and nothing else.
\<close>

theorem queue_clean_frees_exactly:
  assumes "queue_rep h q as"
  shows "\<exists>h'. pthreads_queue_clean q h = Some h' \<and>
    (\<forall>b. qh_items h' b = (if b \<in> set as then None else qh_items h b))"
  using clean_correct [OF assms] by auto

theorem queue_clean_frees_exactly_witness:
  "\<exists>h'. pthreads_queue_clean demo_queue demo_heap = Some h' \<and> qh_items h' 1 = None \<and>
    qh_items h' 3 = qh_items demo_heap 3"
  using queue_clean_frees_exactly [OF demo_rep] by auto

text \<open>
  Unshifting an item puts it in front of the queue but does not count it: the size field
  stays one below the number of linked items.
\<close>

theorem queue_unshift_size_off_by_one:
  assumes rep: "queue_rep h q as" and "a \<notin> set as" and it: "qh_items h a = Some it"
  shows "\<exists>q' h'. pthreads_queue_unshift q a h = Some (q', h') \<and>
    seg h' None (q_head q') (a # as) (q_tail q') None \<and> q_size q' + 1 = int (length (a # as))"
proof (cases as)
  case Nil
  with rep it show ?thesis
    by (auto simp: pthreads_queue_unshift_def set_prev_and_next_correct queue_rep_def)
next
  case (Cons b bs)
  with rep have s: "seg h None (q_head q) (b # bs) (q_tail q) None" and d: "distinct (b # bs)"
    and sz: "q_size q = int (length as)"
    by (simp_all add: queue_rep_def)
  from seg_set_prev_first [OF s, of "Some a"] d obtain itb where b: "qh_items h b = Some itb"
    "q_head q = Some b" "seg (store_item b (itb\<lparr>qi_prev := Some a\<rparr>) h) (Some a) (Some b) as (q_tail q) None"
    using Cons by auto
  let ?h1 = "store_item b (itb\<lparr>qi_prev := Some a\<rparr>) h"
  let ?h2 = "store_item a (it\<lparr>qi_prev := None, qi_next := Some b\<rparr>) ?h1"
  have a1: "qh_items ?h1 a = Some it" using it assms(2) Cons by auto
  have "pthreads_queue_unshift q a h = Some (q\<lparr>q_head := Some a\<rparr>, ?h2)"
    using b a1 by (simp add: pthreads_queue_unshift_def set_prev_def set_prev_and_next_correct)
  moreover have "seg ?h2 (Some a) (Some b) as (q_tail q) None"
    using b(3) assms(2) by (subst seg_frame [of _ _ ?h1]) auto
  ultimately show ?thesis using sz by auto
qed

theorem queue_unshift_size_off_by_one_witness:
  "\<exists>q' h'. pthreads_queue_unshift demo_queue 3 demo_heap = Some (q', h') \<and>
    seg h' None (q_head q') [3, 0, 1, 2] (q_tail q') None \<and> q_size q' = 3"
  using queue_unshift_size_off_by_one [OF demo_rep, of 3
      "\<lparr>qi_next = None, qi_prev = None, qi_value = 40\<rparr>"]
  by (auto simp: demo_heap_def simp del: seg.simps)

end
