(* ===== verification/Monitor.thy ===== *)
theory Monitor
  imports Pt_Prelude "HOL-Library.Signed_Division"
begin

text \<open>
  src/monitor.c and src/monitor.h: a word of state flags guarded by a recursive mutex with a
  condition variable. The mutex and the condition variable are those of POSIX: locking a
  recursive mutex again counts, unlocking counts down, only the owner unlocks, and waiting
  gives one level of the mutex back and takes it again after a wake-up. \<open>None\<close> is a
  call that waits for the mutex of another thread.
\<close>

unbundle bit_operations_syntax

section \<open>The POSIX mutex\<close>

record mutex =
  mx_owner :: "tid option"
  mx_count :: nat

definition mutex_init :: mutex where
  "mutex_init = \<lparr>mx_owner = None, mx_count = 0\<rparr>"

text \<open>The deepest recursion a mutex counts before it answers \<open>EAGAIN\<close>.\<close>

definition mutex_max :: nat where
  "mutex_max = 4294967295"

definition EPERM :: int where "EPERM = 1"
definition EAGAIN :: int where "EAGAIN = 11"
definition ETIMEDOUT :: int where "ETIMEDOUT = 110"

definition pthread_mutex_lock :: "tid \<Rightarrow> mutex \<Rightarrow> (int \<times> mutex) option" where
  "pthread_mutex_lock t m =
     (case mx_owner m of
        None \<Rightarrow> Some (0, \<lparr>mx_owner = Some t, mx_count = 1\<rparr>)
      | Some u \<Rightarrow>
          if u = t
          then (if mx_count m < mutex_max then Some (0, m\<lparr>mx_count := Suc (mx_count m)\<rparr>)
                else Some (EAGAIN, m))
          else None)"

definition pthread_mutex_unlock :: "tid \<Rightarrow> mutex \<Rightarrow> int \<times> mutex" where
  "pthread_mutex_unlock t m =
     (if mx_owner m = Some t
      then (0, if mx_count m \<le> 1 then mutex_init else m\<lparr>mx_count := mx_count m - 1\<rparr>)
      else (EPERM, m))"

text \<open>A mutex is well formed when it is owned exactly while it is counted.\<close>

definition mutex_ok :: "mutex \<Rightarrow> bool" where
  "mutex_ok m \<longleftrightarrow> (if mx_owner m = None then mx_count m = 0
     else 0 < mx_count m \<and> mx_count m \<le> mutex_max)"

text \<open>Thread \<open>t\<close> can take the mutex \<open>n\<close> more times without waiting or failing.\<close>

definition lockable :: "nat \<Rightarrow> tid \<Rightarrow> mutex \<Rightarrow> bool" where
  "lockable n t m \<longleftrightarrow> mutex_ok m \<and> (mx_owner m = None \<or> mx_owner m = Some t) \<and>
     mx_count m + n \<le> mutex_max"

section \<open>Monitors\<close>

type_synonym monitor_state = "64 word"

record pthreads_monitor =
  m_state :: monitor_state
  m_mutex :: mutex
  m_waiting :: "tid list"
  m_woken :: "tid list"

text \<open>
  \<open>m_waiting\<close> are the threads blocked on the condition variable, in the order they came;
  \<open>m_woken\<close> are those that were notified and still have to take the mutex back.
\<close>

definition PTHREADS_MONITOR_NOTHING :: monitor_state where "PTHREADS_MONITOR_NOTHING = 0"
definition PTHREADS_MONITOR_STARTED :: monitor_state where "PTHREADS_MONITOR_STARTED = push_bit 0 1"
definition PTHREADS_MONITOR_RUNNING :: monitor_state where "PTHREADS_MONITOR_RUNNING = push_bit 1 1"
definition PTHREADS_MONITOR_JOINED :: monitor_state where "PTHREADS_MONITOR_JOINED = push_bit 2 1"
definition PTHREADS_MONITOR_ERROR :: monitor_state where "PTHREADS_MONITOR_ERROR = push_bit 3 1"
definition PTHREADS_MONITOR_READY :: monitor_state where "PTHREADS_MONITOR_READY = push_bit 4 1"
definition PTHREADS_MONITOR_COLLECT_GARBAGE :: monitor_state where
  "PTHREADS_MONITOR_COLLECT_GARBAGE = push_bit 5 1"
definition PTHREADS_MONITOR_EXIT :: monitor_state where "PTHREADS_MONITOR_EXIT = push_bit 6 1"
definition PTHREADS_MONITOR_AWAIT_JOIN :: monitor_state where
  "PTHREADS_MONITOR_AWAIT_JOIN = push_bit 7 1"

lemmas monitor_flag_defs =
  PTHREADS_MONITOR_NOTHING_def PTHREADS_MONITOR_STARTED_def PTHREADS_MONITOR_RUNNING_def
  PTHREADS_MONITOR_JOINED_def PTHREADS_MONITOR_ERROR_def PTHREADS_MONITOR_READY_def
  PTHREADS_MONITOR_COLLECT_GARBAGE_def PTHREADS_MONITOR_EXIT_def PTHREADS_MONITOR_AWAIT_JOIN_def

definition fresh_monitor :: pthreads_monitor where
  "fresh_monitor = \<lparr>m_state = 0, m_mutex = mutex_init, m_waiting = [], m_woken = []\<rparr>"

text \<open>
  \<open>pthreads_monitor_init\<close>: the two arguments are what the POSIX initialisers return. On
  failure the code frees the monitor it was given; the model gives no monitor back.
\<close>

definition pthreads_monitor_init :: "int \<Rightarrow> int \<Rightarrow> zend_result \<times> pthreads_monitor option" where
  "pthreads_monitor_init mutex_ret cond_ret =
     (if mutex_ret \<noteq> 0 then (FAILURE, None)
      else if cond_ret \<noteq> 0 then (FAILURE, None)
      else (SUCCESS, Some fresh_monitor))"

text \<open>
  \<open>pthreads_monitor_destroy\<close>. What happens when a mutex is destroyed that a thread holds, or a condition variable that a thread
  sleeps on or is about to return from, POSIX leaves open.
\<close>

definition pthreads_monitor_destroy :: "pthreads_monitor \<Rightarrow> unit option" where
  "pthreads_monitor_destroy m =
     (if mx_owner (m_mutex m) = None \<and> m_waiting m = [] \<and> m_woken m = [] then Some () else None)"

definition pthreads_monitor_lock :: "tid \<Rightarrow> pthreads_monitor \<Rightarrow> (bool \<times> pthreads_monitor) option" where
  "pthreads_monitor_lock t m =
     map_option (\<lambda>(r, mx). (r = 0, m\<lparr>m_mutex := mx\<rparr>)) (pthread_mutex_lock t (m_mutex m))"

definition pthreads_monitor_unlock :: "tid \<Rightarrow> pthreads_monitor \<Rightarrow> bool \<times> pthreads_monitor" where
  "pthreads_monitor_unlock t m =
     (let (r, mx) = pthread_mutex_unlock t (m_mutex m) in (r = 0, m\<lparr>m_mutex := mx\<rparr>))"

definition pthreads_monitor_check :: "pthreads_monitor \<Rightarrow> monitor_state \<Rightarrow> monitor_state" where
  "pthreads_monitor_check m state = (m_state m AND state)"

definition pthreads_monitor_notify :: "pthreads_monitor \<Rightarrow> int \<times> pthreads_monitor" where
  "pthreads_monitor_notify m = (0, m\<lparr>m_woken := m_woken m @ m_waiting m, m_waiting := []\<rparr>)"

definition pthreads_monitor_notify_one :: "pthreads_monitor \<Rightarrow> int \<times> pthreads_monitor" where
  "pthreads_monitor_notify_one m =
     (case m_waiting m of
        [] \<Rightarrow> (0, m)
      | t # ts \<Rightarrow> (0, m\<lparr>m_woken := m_woken m @ [t], m_waiting := ts\<rparr>))"

definition pthreads_monitor_add ::
  "tid \<Rightarrow> monitor_state \<Rightarrow> pthreads_monitor \<Rightarrow> pthreads_monitor option" where
  "pthreads_monitor_add t state m = do {
     (ok, m) \<leftarrow> pthreads_monitor_lock t m;
     if ok
     then Some (snd (pthreads_monitor_unlock t
            (snd (pthreads_monitor_notify (m\<lparr>m_state := m_state m OR state\<rparr>)))))
     else Some m }"

definition pthreads_monitor_remove ::
  "tid \<Rightarrow> monitor_state \<Rightarrow> pthreads_monitor \<Rightarrow> pthreads_monitor option" where
  "pthreads_monitor_remove t state m = do {
     (ok, m) \<leftarrow> pthreads_monitor_lock t m;
     if ok
     then Some (snd (pthreads_monitor_unlock t
            (snd (pthreads_monitor_notify (m\<lparr>m_state := m_state m AND NOT state\<rparr>)))))
     else Some m }"

section \<open>Waiting\<close>

text \<open>
  What a call of \<open>pthreads_monitor_wait\<close> does before it sleeps: it returns an error at once,
  or it sleeps on the condition variable, forever or up to an absolute time. Division and
  remainder are those of C, which round towards zero.
\<close>

record timespec =
  tv_sec :: int
  tv_nsec :: int

datatype wait_request = WaitReturns int | WaitForever | WaitUntil timespec

definition monitor_deadline :: "int \<Rightarrow> int \<Rightarrow> int \<Rightarrow> timespec" where
  "monitor_deadline sec usec timeout =
     (let sec = sec + timeout sdiv 1000000;
          sec = sec + (usec + timeout smod 1000000) sdiv 1000000;
          usec = (usec + timeout smod 1000000) smod 1000000
      in \<lparr>tv_sec = sec, tv_nsec = usec * 1000\<rparr>)"

definition pthreads_monitor_wait :: "int \<times> int \<times> int \<Rightarrow> int \<Rightarrow> wait_request" where
  "pthreads_monitor_wait clock timeout =
     (if timeout = 0 then WaitForever
      else (case clock of (ret, sec, usec) \<Rightarrow>
        if ret \<noteq> 0 then WaitReturns (- 1)
        else WaitUntil (monitor_deadline sec usec timeout)))"

text \<open>
  Going to sleep: the caller must own the mutex, gives one level back and joins the
  waiting threads. Coming back: a woken thread (or one whose time is up) takes the mutex.
\<close>

definition cond_wait_enter :: "tid \<Rightarrow> pthreads_monitor \<Rightarrow> int \<times> pthreads_monitor" where
  "cond_wait_enter t m =
     (let (r, mx) = pthread_mutex_unlock t (m_mutex m) in
      if r = 0 then (0, m\<lparr>m_mutex := mx, m_waiting := m_waiting m @ [t]\<rparr>) else (r, m))"

definition cond_wait_leave :: "tid \<Rightarrow> pthreads_monitor \<Rightarrow> pthreads_monitor option" where
  "cond_wait_leave t m =
     (if t \<in> set (m_woken m)
      then map_option (\<lambda>(r, mx). m\<lparr>m_mutex := mx, m_woken := remove1 t (m_woken m)\<rparr>)
             (pthread_mutex_lock t (m_mutex m))
      else None)"

text \<open>
  \<open>pthreads_monitor_wait_until\<close> between two sleeps: with the monitor taken, either the flag is
  there and the monitor is released (\<open>True\<close>), or the thread goes to sleep (\<open>False\<close>); an error of
  the wait ends the loop. The call starts by taking the monitor, and goes on after a
  wake-up, which takes it again.
\<close>

definition wait_until_check ::
  "tid \<Rightarrow> monitor_state \<Rightarrow> pthreads_monitor \<Rightarrow> bool \<times> pthreads_monitor" where
  "wait_until_check t state m =
     (if pthreads_monitor_check m state \<noteq> 0 then (True, snd (pthreads_monitor_unlock t m))
      else (let (r, m') = cond_wait_enter t m in
            if r \<noteq> 0 then (True, snd (pthreads_monitor_unlock t m)) else (False, m')))"

definition pthreads_monitor_wait_until ::
  "tid \<Rightarrow> monitor_state \<Rightarrow> pthreads_monitor \<Rightarrow> (bool \<times> pthreads_monitor) option" where
  "pthreads_monitor_wait_until t state m = do {
     (ok, m) \<leftarrow> pthreads_monitor_lock t m;
     Some (if ok then wait_until_check t state m else (True, m)) }"

definition wait_until_resume ::
  "tid \<Rightarrow> monitor_state \<Rightarrow> pthreads_monitor \<Rightarrow> (bool \<times> pthreads_monitor) option" where
  "wait_until_resume t state m = do {
     m \<leftarrow> cond_wait_leave t m;
     Some (wait_until_check t state m) }"

text \<open>A sleeping thread may also wake up without a notification.\<close>

definition spurious_wakeup :: "tid \<Rightarrow> pthreads_monitor \<Rightarrow> pthreads_monitor" where
  "spurious_wakeup t m = m\<lparr>m_waiting := remove1 t (m_waiting m), m_woken := m_woken m @ [t]\<rparr>"

section \<open>Locking\<close>

definition lock_depth :: "tid \<Rightarrow> pthreads_monitor \<Rightarrow> nat" where
  "lock_depth t m = (if mx_owner (m_mutex m) = Some t then mx_count (m_mutex m) else 0)"

definition monitor_lockable :: "nat \<Rightarrow> tid \<Rightarrow> pthreads_monitor \<Rightarrow> bool" where
  "monitor_lockable n t m \<longleftrightarrow> lockable n t (m_mutex m)"

lemmas mutex_defs = pthread_mutex_lock_def pthread_mutex_unlock_def mutex_init_def mutex_ok_def
  lockable_def mutex_max_def

lemma mutex_init_lockable: "n \<le> mutex_max \<Longrightarrow> lockable n t mutex_init"
  by (simp add: mutex_defs)

lemma lockable_mono: "lockable n t m \<Longrightarrow> k \<le> n \<Longrightarrow> lockable k t m"
  by (simp add: lockable_def)

text \<open>The monitor after a successful lock, as a function.\<close>

definition locked_by :: "tid \<Rightarrow> pthreads_monitor \<Rightarrow> pthreads_monitor" where
  "locked_by t m = m\<lparr>m_mutex := \<lparr>mx_owner = Some t, mx_count = Suc (mx_count (m_mutex m))\<rparr>\<rparr>"

lemma locked_by_other_fields [simp]:
  "m_state (locked_by t m) = m_state m"
  "m_waiting (locked_by t m) = m_waiting m"
  "m_woken (locked_by t m) = m_woken m"
  by (simp_all add: locked_by_def)

lemma monitor_lock_ok [mutex_simps]:
  "monitor_lockable (Suc n) t m \<Longrightarrow> pthreads_monitor_lock t m = Some (True, locked_by t m)"
  by (cases "m_mutex m")
    (auto simp: pthreads_monitor_lock_def monitor_lockable_def locked_by_def mutex_defs
      split: option.splits if_splits)

lemma monitor_lock_again [mutex_simps]:
  "monitor_lockable (Suc n) t m \<Longrightarrow> monitor_lockable n t (locked_by t m)"
  by (auto simp: monitor_lockable_def locked_by_def mutex_defs split: if_splits)

lemma monitor_unlock_locked [mutex_simps]:
  "monitor_lockable n t m \<Longrightarrow>
     pthreads_monitor_unlock t (locked_by t m) = (True, m)"
  by (cases m, cases "m_mutex m")
    (auto simp: pthreads_monitor_unlock_def monitor_lockable_def locked_by_def mutex_defs
      split: if_splits)

lemma monitor_unlock_locked_upd:
  "monitor_lockable n t m \<Longrightarrow>
     pthreads_monitor_unlock t ((locked_by t m)\<lparr>m_state := s, m_woken := us, m_waiting := ws\<rparr>) =
       (True, m\<lparr>m_state := s, m_waiting := ws, m_woken := us\<rparr>)"
  by (cases m, cases "m_mutex m")
    (auto simp: pthreads_monitor_unlock_def monitor_lockable_def locked_by_def mutex_defs
      split: if_splits)

lemma monitor_add_ok:
  assumes "monitor_lockable (Suc n) t m"
  shows "pthreads_monitor_add t s m =
     Some (m\<lparr>m_state := m_state m OR s, m_waiting := [], m_woken := m_woken m @ m_waiting m\<rparr>)"
proof -
  have "monitor_lockable n t m" using assms by (auto simp: monitor_lockable_def intro: lockable_mono)
  from monitor_unlock_locked_upd [OF this] show ?thesis
    by (simp add: pthreads_monitor_add_def monitor_lock_ok [OF assms] pthreads_monitor_notify_def)
qed

lemma monitor_remove_ok:
  assumes "monitor_lockable (Suc n) t m"
  shows "pthreads_monitor_remove t s m =
     Some (m\<lparr>m_state := m_state m AND NOT s, m_waiting := [], m_woken := m_woken m @ m_waiting m\<rparr>)"
proof -
  have "monitor_lockable n t m" using assms by (auto simp: monitor_lockable_def intro: lockable_mono)
  from monitor_unlock_locked_upd [OF this] show ?thesis
    by (simp add: pthreads_monitor_remove_def monitor_lock_ok [OF assms] pthreads_monitor_notify_def)
qed

section \<open>The lock interface\<close>

text \<open>
  What the store, the globals and the worker rely on: a thread that can take the lock gets
  it, may take it again, and gets the lock back as it was when it releases it; while a
  thread is inside, every other thread waits.
\<close>

locale recursive_lock =
  fixes lock :: "tid \<Rightarrow> 'm \<Rightarrow> (bool \<times> 'm) option"
    and unlock :: "tid \<Rightarrow> 'm \<Rightarrow> bool \<times> 'm"
    and depth :: "tid \<Rightarrow> 'm \<Rightarrow> nat"
    and free_for :: "nat \<Rightarrow> tid \<Rightarrow> 'm \<Rightarrow> bool"
  assumes lock_free: "free_for (Suc n) t m \<Longrightarrow>
      \<exists>m'. lock t m = Some (True, m') \<and> free_for n t m' \<and> depth t m' = Suc (depth t m)"
    and lock_unlock: "free_for (Suc n) t m \<Longrightarrow> lock t m = Some (True, m') \<Longrightarrow> unlock t m' = (True, m)"
    and exclusion: "0 < depth t m \<Longrightarrow> u \<noteq> t \<Longrightarrow> lock u m = None"
begin

fun nest :: "nat \<Rightarrow> tid \<Rightarrow> 'm \<Rightarrow> 'm option" where
  "nest 0 t m = Some m"
| "nest (Suc k) t m = do { (ok, m') \<leftarrow> lock t m; if ok then nest k t m' else None }"

fun unnest :: "nat \<Rightarrow> tid \<Rightarrow> 'm \<Rightarrow> 'm" where
  "unnest 0 t m = m"
| "unnest (Suc k) t m = unnest k t (snd (unlock t m))"

lemma unnest_Suc: "unnest (Suc k) t m = snd (unlock t (unnest k t m))"
  by (induction k arbitrary: m) simp_all

lemma nested_sections:
  "free_for k t m \<Longrightarrow>
     \<exists>m'. nest k t m = Some m' \<and> depth t m' = depth t m + k \<and> unnest k t m' = m"
proof (induction k arbitrary: m)
  case 0
  then show ?case by simp
next
  case (Suc k)
  from lock_free [OF Suc.prems] obtain m1 where
    m1: "lock t m = Some (True, m1)" "free_for k t m1" "depth t m1 = Suc (depth t m)"
    by blast
  from Suc.IH [OF m1(2)] obtain m' where
    m': "nest k t m1 = Some m'" "depth t m' = depth t m1 + k" "unnest k t m' = m1"
    by blast
  have "unnest (Suc k) t m' = m"
    using lock_unlock [OF Suc.prems m1(1)] m'(3) by (subst unnest_Suc) simp
  with m1 m' show ?case by auto
qed

end

lemma monitor_exclusion:
  "0 < lock_depth t m \<Longrightarrow> u \<noteq> t \<Longrightarrow> pthreads_monitor_lock u m = None"
  by (auto simp: lock_depth_def pthreads_monitor_lock_def pthread_mutex_lock_def split: if_splits)

interpretation mon: recursive_lock pthreads_monitor_lock pthreads_monitor_unlock lock_depth monitor_lockable
proof unfold_locales
  fix n t m m'
  assume a: "monitor_lockable (Suc n) t m"
  then have "lock_depth t (locked_by t m) = Suc (lock_depth t m)"
    by (auto simp: lock_depth_def locked_by_def monitor_lockable_def mutex_defs split: if_splits)
  with a show "\<exists>m'. pthreads_monitor_lock t m = Some (True, m') \<and> monitor_lockable n t m' \<and>
      lock_depth t m' = Suc (lock_depth t m)"
    by (auto simp: mutex_simps)
  assume "pthreads_monitor_lock t m = Some (True, m')"
  with a have "m' = locked_by t m" by (simp add: monitor_lock_ok)
  moreover from a have "monitor_lockable n t m"
    by (auto simp: monitor_lockable_def intro: lockable_mono)
  ultimately show "pthreads_monitor_unlock t m' = (True, m)"
    by (simp add: monitor_unlock_locked)
qed (rule monitor_exclusion)

text \<open>
  Nested critical sections on a monitor: a thread may enter the monitor any number of
  times (up to the limit of the mutex), each entry being counted; leaving as often gives
  the monitor back exactly as it was.
\<close>

theorem monitor_nested_sections:
  assumes "monitor_lockable k t m"
  shows "\<exists>m'. mon.nest k t m = Some m' \<and> lock_depth t m' = lock_depth t m + k \<and> mon.unnest k t m' = m"
  using assms by (rule mon.nested_sections)

theorem monitor_nested_sections_witness:
  "\<exists>m'. mon.nest 3 7 fresh_monitor = Some m' \<and> lock_depth 7 m' = 3 \<and>
    mon.unnest 3 7 m' = fresh_monitor"
proof -
  have "monitor_lockable 3 7 fresh_monitor"
    by (simp add: monitor_lockable_def fresh_monitor_def mutex_defs)
  from monitor_nested_sections [OF this] show ?thesis
    by (simp add: lock_depth_def fresh_monitor_def mutex_init_def)
qed

text \<open>
  C38. Setting and clearing a state flag: a thread that can take the monitor sets exactly the
  requested flags (or clears exactly them), wakes every sleeping thread, and leaves the
  monitor as free as it was; while another thread holds the monitor, both calls wait.
\<close>

theorem monitor_add_remove:
  "(monitor_lockable 1 t m \<longrightarrow>
      (\<exists>m\<^sub>1. pthreads_monitor_add t s m = Some m\<^sub>1 \<and> m_state m\<^sub>1 = m_state m OR s \<and>
         m_waiting m\<^sub>1 = [] \<and> m_woken m\<^sub>1 = m_woken m @ m_waiting m \<and> m_mutex m\<^sub>1 = m_mutex m) \<and>
      (\<exists>m\<^sub>2. pthreads_monitor_remove t s m = Some m\<^sub>2 \<and> pthreads_monitor_check m\<^sub>2 s = 0 \<and>
         (\<forall>s'. s' AND s = 0 \<longrightarrow> pthreads_monitor_check m\<^sub>2 s' = pthreads_monitor_check m s') \<and>
         m_waiting m\<^sub>2 = [] \<and> m_woken m\<^sub>2 = m_woken m @ m_waiting m \<and> m_mutex m\<^sub>2 = m_mutex m)) \<and>
   (0 < lock_depth u m \<and> u \<noteq> t \<longrightarrow>
      pthreads_monitor_add t s m = None \<and> pthreads_monitor_remove t s m = None)"
proof (intro conjI impI)
  assume "monitor_lockable 1 t m"
  then have a: "monitor_lockable (Suc 0) t m" by simp
  show "\<exists>m\<^sub>1. pthreads_monitor_add t s m = Some m\<^sub>1 \<and> m_state m\<^sub>1 = m_state m OR s \<and>
      m_waiting m\<^sub>1 = [] \<and> m_woken m\<^sub>1 = m_woken m @ m_waiting m \<and> m_mutex m\<^sub>1 = m_mutex m"
    by (simp add: monitor_add_ok [OF a])
  have "m_state m AND NOT s AND s' = m_state m AND s'" if "s' AND s = 0" for s'
    using that by (auto simp: bit_eq_iff bit_simps)
  then show "\<exists>m\<^sub>2. pthreads_monitor_remove t s m = Some m\<^sub>2 \<and> pthreads_monitor_check m\<^sub>2 s = 0 \<and>
      (\<forall>s'. s' AND s = 0 \<longrightarrow> pthreads_monitor_check m\<^sub>2 s' = pthreads_monitor_check m s') \<and>
      m_waiting m\<^sub>2 = [] \<and> m_woken m\<^sub>2 = m_woken m @ m_waiting m \<and> m_mutex m\<^sub>2 = m_mutex m"
    by (simp add: monitor_remove_ok [OF a] pthreads_monitor_check_def and.assoc)
qed (auto simp: pthreads_monitor_add_def pthreads_monitor_remove_def monitor_exclusion)

theorem monitor_add_remove_witness:
  "(\<exists>m\<^sub>1. pthreads_monitor_add 3 PTHREADS_MONITOR_READY fresh_monitor = Some m\<^sub>1 \<and>
      m_state m\<^sub>1 = PTHREADS_MONITOR_READY) \<and>
   pthreads_monitor_add 4 PTHREADS_MONITOR_READY (locked_by 3 fresh_monitor) = None"
proof -
  have "monitor_lockable 1 3 fresh_monitor" "0 < lock_depth 3 (locked_by 3 fresh_monitor)"
    by (simp_all add: monitor_lockable_def lock_depth_def locked_by_def fresh_monitor_def mutex_defs)
  with monitor_add_remove [of 3 fresh_monitor PTHREADS_MONITOR_READY]
    monitor_add_remove [of 4 "locked_by 3 fresh_monitor" PTHREADS_MONITOR_READY 3]
  show ?thesis by (auto simp: fresh_monitor_def)
qed

section \<open>Deadlines\<close>

lemma sdiv_smod_nonneg:
  "0 \<le> (a::int) \<Longrightarrow> 0 \<le> b \<Longrightarrow> a sdiv b = a div b"
  "0 \<le> (a::int) \<Longrightarrow> 0 \<le> b \<Longrightarrow> a smod b = a mod b"
  by (auto simp: signed_divide_int_def signed_modulo_int_def sgn_if)



text \<open>
  A negative timeout is not rejected: the remainder of C has the sign of the dividend, so
  whenever the clock's microseconds are below the timeout's the nanosecond field handed to
  \<open>pthread_cond_timedwait\<close> is negative, which POSIX refuses with \<open>EINVAL\<close>.
\<close>

theorem monitor_wait_negative_timeout:
  assumes "0 \<le> usec" and "usec < k" and "k < 1000000"
  shows "\<exists>ts. pthreads_monitor_wait (0, sec, usec) (- k) = WaitUntil ts \<and> tv_nsec ts < 0"
proof -
  have "(- k) smod 1000000 = - k" "(usec - k) smod 1000000 = usec - k"
    using assms by (simp_all add: signed_modulo_int_def signed_divide_int_def sgn_if)
  with assms show ?thesis by (simp add: pthreads_monitor_wait_def monitor_deadline_def Let_def)
qed

theorem monitor_wait_negative_timeout_witness:
  "\<exists>ts. pthreads_monitor_wait (0, 1700000000, 0) (- 1) = WaitUntil ts \<and> tv_nsec ts < 0"
  by (rule monitor_wait_negative_timeout) simp_all

end
