(* ===== verification/World.thy ===== *)
theory World
  imports Zend_Data Queue Monitor
begin

text \<open>
  The state all components share: the thread-safe objects (\<open>pthreads_object_t\<close>) and the
  zend objects of the threads that refer to them (\<open>pthreads_zend_object_t\<close>), both of
  src/thread.h; the process globals of src/globals.h; the thread-local globals of
  src/pthreads.h; sockets, worker data and the queue items; the errors each thread has
  thrown; and the property guards of the engine. Monitors live in a table of their own, indexed by the structure that embeds them.
  \<open>with_monitor\<close> is the idiom \<open>if (pthreads_monitor_lock(m)) { ... unlock } else ...\<close>
  that every operation of the extension is built from.
\<close>

section \<open>The records\<close>

type_synonym hash = "zval zend_hash"

record pthreads_store =
  store_hash :: hash
  store_modcount :: int

record pthreads_object =
  ts_refcount :: nat
  ts_scope :: nat
  ts_props :: pthreads_store
  ts_creator :: pthreads_ident
  ts_local :: "pthreads_ident option"

definition PTHREADS_SCOPE_UNKNOWN :: nat where "PTHREADS_SCOPE_UNKNOWN = 0"
definition PTHREADS_SCOPE_THREADED :: nat where "PTHREADS_SCOPE_THREADED = 2"
definition PTHREADS_SCOPE_THREAD :: nat where "PTHREADS_SCOPE_THREAD = 4"
definition PTHREADS_SCOPE_WORKER :: nat where "PTHREADS_SCOPE_WORKER = 8"
definition PTHREADS_SCOPE_SOCKET :: nat where "PTHREADS_SCOPE_SOCKET = 16"

text \<open>
  The embedded \<open>zend_object std\<close> contributes its class, its property table (\<open>None\<close> is the
  null pointer) and the recursion guard of the garbage collector header.
\<close>

record pthreads_zend_object =
  zo_ts_obj :: addr
  zo_owner :: pthreads_ident
  zo_original_zobj :: "addr option"
  zo_local_props_modcount :: int
  zo_worker_data :: "addr option"
  zo_ce :: string
  zo_properties :: "hash option"
  zo_recursive :: bool

datatype lock_id = LGlobal | LTs addr | LReady addr

record pthreads_worker_data =
  wd_monitor :: lock_id
  wd_queue :: pthreads_queue
  wd_gc :: pthreads_queue
  wd_running :: "addr option"
  wd_tasks_collected :: nat

record php_socket =
  bsd_socket :: int
  sock_type :: int
  sock_error :: int
  sock_blocking :: int
  sock_zstream :: bool

record pthreads_globals =
  g_init :: bool
  g_failed :: bool
  g_objects :: "addr set"
  g_shared_sockets :: "int set"
  g_interned_strings :: "string \<rightharpoonup> zend_string"

record pthreads_zglobals =
  zg_this :: zval
  zg_resolve :: "addr \<rightharpoonup> addr"
  zg_resources :: "addr \<rightharpoonup> tid"
  zg_regular_list :: "addr list"

text \<open>One constructor for every \<open>zend_throw_*\<close> of the modelled sources.\<close>

datatype pthreads_error =
    IndirectModification string
  | UnsupportedDataType
  | ConnectToDestroyed
  | ConnectToCorrupted
  | ConnectToInvalid
  | EnumCaseMissing string string
  | NonThreadSafeDefault string string
  | NonThreadSafeAssign
  | NonThreadSafeProperty string string
  | UninitializedProperty string string
  | UndefinedProperty string string
  | OnlyCreatorMay string
  | AlreadyStarted
  | AlreadyJoined
  | NotStarted
  | OutOfResources
  | UnknownStartError
  | IterationByReference
  | NotAWorkerClass
  | PoolNotInitialized
  | WorkerClassMissing
  | NoSuchWorker

record world =
  w_next :: addr
  w_monitors :: "lock_id \<Rightarrow> pthreads_monitor"
  w_ts :: "addr \<rightharpoonup> pthreads_object"
  w_obj :: "addr \<rightharpoonup> pthreads_zend_object"
  w_globals :: pthreads_globals
  w_zg :: "tid \<Rightarrow> pthreads_zglobals"
  w_sockets :: "addr \<rightharpoonup> php_socket"
  w_resource_ptr :: "addr \<Rightarrow> addr"
  w_workers :: "addr \<rightharpoonup> pthreads_worker_data"
  w_heap :: "zval qheap"
  w_thrown :: "tid \<Rightarrow> pthreads_error list"
  w_guards :: "addr \<Rightarrow> string \<Rightarrow> 32 word"

text \<open>
  What the extension asks of the engine, as functions: the numeric-string test behind
  \<open>ZEND_HANDLE_NUMERIC\<close>, conversion to string, the permanent interned strings, the identity
  \<open>pthread_self\<close> gives to a thread, the declared properties of a class (own
  class first, then the parents), the property slots of a new object, the constructor hook of a class, the enum case a thread finds under the name of a class and of a case,
  and the content of a result cell before anything is written to it.
\<close>

record property_info =
  pi_name :: zend_string
  pi_static :: bool
  pi_offset :: nat

datatype class_kind = ThreadClass | WorkerClass | ThreadedClass | ThreadedArrayClass

record zend_engine =
  handle_numeric :: "string \<Rightarrow> zend_ulong option"
  get_string :: "zval \<Rightarrow> zend_string"
  find_permanent :: "string \<Rightarrow> zend_string option"
  thread_self :: "tid \<Rightarrow> zend_ulong"
  class_chain :: "string \<Rightarrow> (string \<times> property_info list) list"
  default_properties :: "string \<Rightarrow> nat \<Rightarrow> zval"
  properties_info_table :: "string \<Rightarrow> property_info option list"
  uninitialized :: zval
  create_object :: "string \<Rightarrow> class_kind"
  enum_case :: "tid \<Rightarrow> string \<Rightarrow> string \<Rightarrow> (zend_string \<times> zend_string) option"

section \<open>Basic accesses\<close>

definition self_ident :: "zend_engine \<Rightarrow> tid \<Rightarrow> pthreads_ident" where
  "self_ident E t = \<lparr>ident_id = thread_self E t, ident_ls = t\<rparr>"

definition set_obj :: "addr \<Rightarrow> pthreads_zend_object \<Rightarrow> world \<Rightarrow> world" where
  "set_obj a b w = w\<lparr>w_obj := (w_obj w)(a \<mapsto> b)\<rparr>"

definition set_ts :: "addr \<Rightarrow> pthreads_object \<Rightarrow> world \<Rightarrow> world" where
  "set_ts a b w = w\<lparr>w_ts := (w_ts w)(a \<mapsto> b)\<rparr>"

definition set_zg :: "tid \<Rightarrow> pthreads_zglobals \<Rightarrow> world \<Rightarrow> world" where
  "set_zg t z w = w\<lparr>w_zg := (w_zg w)(t := z)\<rparr>"

definition set_globals :: "pthreads_globals \<Rightarrow> world \<Rightarrow> world" where
  "set_globals g w = w\<lparr>w_globals := g\<rparr>"

definition throw :: "tid \<Rightarrow> pthreads_error \<Rightarrow> world \<Rightarrow> world" where
  "throw t e w = w\<lparr>w_thrown := (w_thrown w)(t := e # w_thrown w t)\<rparr>"

definition alloc :: "world \<Rightarrow> addr \<times> world" where
  "alloc w = (w_next w, w\<lparr>w_next := Suc (w_next w)\<rparr>)"

text \<open>\<open>zend_string_init\<close>: a fresh string with the given bytes.\<close>

definition zend_string_init :: "string \<Rightarrow> bool \<Rightarrow> world \<Rightarrow> zend_string \<times> world" where
  "zend_string_init s persistent w =
     (let (a, w) = alloc w in
      (\<lparr>zs_addr = a, zs_val = s, zs_interned = False, zs_permanent = False,
        zs_persistent = persistent\<rparr>, w))"

lemmas access_defs = set_obj_def set_ts_def set_zg_def set_globals_def throw_def alloc_def

lemma w_obj_set_obj [simp]: "w_obj (set_obj a b w) = (w_obj w)(a \<mapsto> b)"
  and w_ts_set_ts [simp]: "w_ts (set_ts a c w) = (w_ts w)(a \<mapsto> c)"
  and w_zg_set_zg [simp]: "w_zg (set_zg t z w) = (w_zg w)(t := z)"
  and w_globals_set_globals [simp]: "w_globals (set_globals g w) = g"
  and w_thrown_throw [simp]: "w_thrown (throw t e w) = (w_thrown w)(t := e # w_thrown w t)"
  by (simp_all add: access_defs)

lemma set_obj_frame [simp, world_frame]:
  "w_next (set_obj a b w) = w_next w" "w_monitors (set_obj a b w) = w_monitors w"
  "w_ts (set_obj a b w) = w_ts w" "w_globals (set_obj a b w) = w_globals w"
  "w_zg (set_obj a b w) = w_zg w" "w_sockets (set_obj a b w) = w_sockets w"
  "w_thrown (set_obj a b w) = w_thrown w" "w_workers (set_obj a b w) = w_workers w"
  "w_heap (set_obj a b w) = w_heap w" "w_resource_ptr (set_obj a b w) = w_resource_ptr w"
  by (simp_all add: set_obj_def)

lemma set_ts_frame [simp, world_frame]:
  "w_next (set_ts a c w) = w_next w" "w_monitors (set_ts a c w) = w_monitors w"
  "w_obj (set_ts a c w) = w_obj w" "w_globals (set_ts a c w) = w_globals w"
  "w_zg (set_ts a c w) = w_zg w" "w_sockets (set_ts a c w) = w_sockets w"
  "w_thrown (set_ts a c w) = w_thrown w" "w_workers (set_ts a c w) = w_workers w"
  "w_heap (set_ts a c w) = w_heap w" "w_resource_ptr (set_ts a c w) = w_resource_ptr w"
  by (simp_all add: set_ts_def)

lemma set_zg_frame [simp, world_frame]:
  "w_next (set_zg t z w) = w_next w" "w_monitors (set_zg t z w) = w_monitors w"
  "w_obj (set_zg t z w) = w_obj w" "w_globals (set_zg t z w) = w_globals w"
  "w_ts (set_zg t z w) = w_ts w" "w_sockets (set_zg t z w) = w_sockets w"
  "w_thrown (set_zg t z w) = w_thrown w" "w_workers (set_zg t z w) = w_workers w"
  "w_heap (set_zg t z w) = w_heap w" "w_resource_ptr (set_zg t z w) = w_resource_ptr w"
  by (simp_all add: set_zg_def)

lemma set_globals_frame [simp, world_frame]:
  "w_next (set_globals g w) = w_next w" "w_monitors (set_globals g w) = w_monitors w"
  "w_obj (set_globals g w) = w_obj w" "w_zg (set_globals g w) = w_zg w"
  "w_ts (set_globals g w) = w_ts w" "w_sockets (set_globals g w) = w_sockets w"
  "w_thrown (set_globals g w) = w_thrown w" "w_workers (set_globals g w) = w_workers w"
  "w_heap (set_globals g w) = w_heap w" "w_resource_ptr (set_globals g w) = w_resource_ptr w"
  by (simp_all add: set_globals_def)

lemma throw_frame [simp, world_frame]:
  "w_next (throw t e w) = w_next w" "w_monitors (throw t e w) = w_monitors w"
  "w_obj (throw t e w) = w_obj w" "w_globals (throw t e w) = w_globals w"
  "w_ts (throw t e w) = w_ts w" "w_sockets (throw t e w) = w_sockets w"
  "w_zg (throw t e w) = w_zg w" "w_workers (throw t e w) = w_workers w"
  "w_heap (throw t e w) = w_heap w" "w_resource_ptr (throw t e w) = w_resource_ptr w"
  by (simp_all add: throw_def)

section \<open>Critical sections\<close>

definition monitor_lock :: "tid \<Rightarrow> lock_id \<Rightarrow> world \<Rightarrow> (bool \<times> world) option" where
  "monitor_lock t l w = do {
     (ok, m) \<leftarrow> pthreads_monitor_lock t (w_monitors w l);
     Some (ok, w\<lparr>w_monitors := (w_monitors w)(l := m)\<rparr>) }"

definition monitor_unlock :: "tid \<Rightarrow> lock_id \<Rightarrow> world \<Rightarrow> world" where
  "monitor_unlock t l w =
     w\<lparr>w_monitors := (w_monitors w)(l := snd (pthreads_monitor_unlock t (w_monitors w l)))\<rparr>"

definition with_monitor ::
  "tid \<Rightarrow> lock_id \<Rightarrow> (world \<Rightarrow> ('a \<times> world) option) \<Rightarrow> (world \<Rightarrow> ('a \<times> world) option) \<Rightarrow>
   world \<Rightarrow> ('a \<times> world) option" where
  "with_monitor t l body els w = do {
     (ok, w) \<leftarrow> monitor_lock t l w;
     if ok
     then do { (r, w) \<leftarrow> body w; Some (r, monitor_unlock t l w) }
     else els w }"

definition lock_w :: "tid \<Rightarrow> lock_id \<Rightarrow> world \<Rightarrow> world" where
  "lock_w t l w = w\<lparr>w_monitors := (w_monitors w)(l := locked_by t (w_monitors w l))\<rparr>"

text \<open>Thread \<open>t\<close> can enter each of the monitors in \<open>L\<close> another \<open>n\<close> times.\<close>

definition can_lock :: "nat \<Rightarrow> lock_id set \<Rightarrow> tid \<Rightarrow> world \<Rightarrow> bool" where
  "can_lock n L t w \<longleftrightarrow> (\<forall>l\<in>L. monitor_lockable n t (w_monitors w l))"

text \<open>Some other thread is inside the monitor.\<close>

definition held_by_other :: "tid \<Rightarrow> lock_id \<Rightarrow> world \<Rightarrow> bool" where
  "held_by_other t l w \<longleftrightarrow> mx_owner (m_mutex (w_monitors w l)) \<noteq> None \<and>
     mx_owner (m_mutex (w_monitors w l)) \<noteq> Some t"

lemma lock_w_frame [simp, world_frame]:
  "w_next (lock_w t l w) = w_next w" "w_obj (lock_w t l w) = w_obj w"
  "w_ts (lock_w t l w) = w_ts w" "w_globals (lock_w t l w) = w_globals w"
  "w_zg (lock_w t l w) = w_zg w" "w_sockets (lock_w t l w) = w_sockets w"
  "w_thrown (lock_w t l w) = w_thrown w" "w_workers (lock_w t l w) = w_workers w"
  "w_heap (lock_w t l w) = w_heap w" "w_resource_ptr (lock_w t l w) = w_resource_ptr w"
  by (simp_all add: lock_w_def)

lemma lock_w_commute [simp]:
  "set_obj a b (lock_w t l w) = lock_w t l (set_obj a b w)"
  "set_ts a c (lock_w t l w) = lock_w t l (set_ts a c w)"
  "set_zg u z (lock_w t l w) = lock_w t l (set_zg u z w)"
  "set_globals g (lock_w t l w) = lock_w t l (set_globals g w)"
  "throw u e (lock_w t l w) = lock_w t l (throw u e w)"
  "zend_string_init s p (lock_w t l w) = map_prod id (lock_w t l) (zend_string_init s p w)"
  "alloc (lock_w t l w) = map_prod id (lock_w t l) (alloc w)"
  by (simp_all add: access_defs lock_w_def zend_string_init_def Let_def)

lemma lock_w_commute_fields [simp]:
  "w_next_update f (lock_w t l w) = lock_w t l (w_next_update f w)"
  "w_sockets_update f\<^sub>s (lock_w t l w) = lock_w t l (w_sockets_update f\<^sub>s w)"
  "w_workers_update f\<^sub>w (lock_w t l w) = lock_w t l (w_workers_update f\<^sub>w w)"
  "w_heap_update f\<^sub>h (lock_w t l w) = lock_w t l (w_heap_update f\<^sub>h w)"
  by (simp_all add: lock_w_def)

lemma can_lockD: "can_lock n L t w \<Longrightarrow> l \<in> L \<Longrightarrow> monitor_lockable n t (w_monitors w l)"
  by (simp add: can_lock_def)

lemma can_lock_mono: "can_lock n L t w \<Longrightarrow> k \<le> n \<Longrightarrow> L' \<subseteq> L \<Longrightarrow> can_lock k L' t w"
  by (auto simp: can_lock_def monitor_lockable_def intro: lockable_mono)

lemma can_lock_inside: "can_lock (Suc n) L t w \<Longrightarrow> can_lock n L t (lock_w t l w)"
  by (auto simp: can_lock_def lock_w_def intro: monitor_lock_again)
    (auto simp: monitor_lockable_def intro: lockable_mono)

lemma can_lock_same: "w_monitors w' = w_monitors w \<Longrightarrow> can_lock n L t w \<Longrightarrow> can_lock n L t w'"
  by (simp add: can_lock_def)

lemma unlock_lock_w:
  "monitor_lockable n t (w_monitors w l) \<Longrightarrow> monitor_unlock t l (lock_w t l w) = w"
  by (cases w) (simp add: monitor_unlock_def lock_w_def monitor_unlock_locked)

text \<open>
  The rule for a critical section: when the monitor can be entered and the body, run
  inside, ends in a state \<open>w'\<close> with the monitors as at the start, the section ends in \<open>w'\<close>
  with the monitor released.
\<close>

lemma with_monitor_ok:
  assumes "can_lock (Suc n) L t w" and "l \<in> L"
    and "body (lock_w t l w) = Some (r, lock_w t l w')"
    and "w_monitors w' = w_monitors w"
  shows "with_monitor t l body els w = Some (r, w')"
proof -
  from can_lockD [OF assms(1,2)] have m: "monitor_lockable (Suc n) t (w_monitors w l)" .
  then have "monitor_lock t l w = Some (True, lock_w t l w)"
    by (simp add: monitor_lock_def monitor_lock_ok lock_w_def)
  moreover have "monitor_unlock t l (lock_w t l w') = w'"
    using m assms(4) by (intro unlock_lock_w [of "Suc n"]) simp
  ultimately show ?thesis by (simp add: with_monitor_def assms(3))
qed

lemma with_monitor_blocked: "held_by_other t l w \<Longrightarrow> with_monitor t l body els w = None"
  by (auto simp: held_by_other_def with_monitor_def monitor_lock_def pthreads_monitor_lock_def
      pthread_mutex_lock_def split: option.splits)

section \<open>The empty world\<close>

definition empty_zglobals :: pthreads_zglobals where
  "empty_zglobals = \<lparr>zg_this = IS_UNDEF, zg_resolve = Map.empty, zg_resources = Map.empty,
     zg_regular_list = []\<rparr>"

definition empty_globals :: pthreads_globals where
  "empty_globals = \<lparr>g_init = True, g_failed = False, g_objects = {}, g_shared_sockets = {},
     g_interned_strings = Map.empty\<rparr>"

definition empty_world :: world where
  "empty_world = \<lparr>w_next = 1, w_monitors = (\<lambda>_. fresh_monitor), w_ts = Map.empty,
     w_obj = Map.empty, w_globals = empty_globals, w_zg = (\<lambda>_. empty_zglobals),
     w_sockets = Map.empty, w_resource_ptr = (\<lambda>a. a), w_workers = Map.empty,
     w_heap = empty_heap, w_thrown = (\<lambda>_. []), w_guards = (\<lambda>_ _. 0)\<rparr>"

lemma can_lock_fresh: "w_monitors w = (\<lambda>_. fresh_monitor) \<Longrightarrow> n \<le> mutex_max \<Longrightarrow> can_lock n L t w"
  by (simp add: can_lock_def monitor_lockable_def fresh_monitor_def mutex_init_lockable)

end
