(* ===== verification/Globals.thy ===== *)
theory Globals
  imports World
begin

text \<open>
  src/globals.c: the process-wide tables behind one recursive monitor. The registry of
  live pthreads objects, the sockets shared between threads, and the interned strings any
  thread may use. src/ext_sockets_hacks.c is the client of the socket table.
\<close>

section \<open>Definitions\<close>

definition pthreads_globals_lock :: "tid \<Rightarrow> world \<Rightarrow> (bool \<times> world) option" where
  "pthreads_globals_lock t w = monitor_lock t LGlobal w"

definition pthreads_globals_unlock :: "tid \<Rightarrow> world \<Rightarrow> world" where
  "pthreads_globals_unlock t w = monitor_unlock t LGlobal w"

text \<open>
  \<open>pthreads_globals_init\<close>: the arguments are the results of the POSIX initialisers of the
  monitor. The high frequency strings it makes are constants, \<open>pthreads_globals_strings\<close>.
\<close>

definition pthreads_globals_init :: "int \<Rightarrow> int \<Rightarrow> world \<Rightarrow> bool \<times> world" where
  "pthreads_globals_init mutex_ret cond_ret w =
     (let g = w_globals w in
      if \<not> g_init g \<and> \<not> g_failed g then
        (case pthreads_monitor_init mutex_ret cond_ret of
           (SUCCESS, Some m) \<Rightarrow>
             (True, w\<lparr>w_monitors := (w_monitors w)(LGlobal := m),
                w_globals := \<lparr>g_init = True, g_failed = False, g_objects = {},
                  g_shared_sockets = {}, g_interned_strings = Map.empty\<rparr>\<rparr>)
         | _ \<Rightarrow> (False, set_globals (g\<lparr>g_init := False, g_failed := True\<rparr>) w))
      else (False, w))"

text \<open>
  The bytes of the interned strings \<open>strings\<close>: the name of the method a thread runs, of the member
  in which a task finds its worker, and of the settings that are changed for a thread that may
  not send headers.
\<close>

record pthreads_strings =
  strings_run :: string
  strings_worker :: string
  strings_session_cache_limiter :: string
  strings_session_use_cookies :: string

definition pthreads_globals_strings :: pthreads_strings where
  "pthreads_globals_strings = \<lparr>strings_run = ''run'', strings_worker = ''worker'',
     strings_session_cache_limiter = ''cache_limiter'', strings_session_use_cookies = ''use_cookies''\<rparr>"

text \<open>
  \<open>pthreads_globals_shutdown\<close> also returns the sockets that the destructor of the socket
  table closes.
\<close>

definition pthreads_globals_shutdown :: "world \<Rightarrow> int set \<times> world" where
  "pthreads_globals_shutdown w =
     (let g = w_globals w in
      if g_init g then
        (g_shared_sockets g,
         set_globals \<lparr>g_init = False, g_failed = False, g_objects = {}, g_shared_sockets = {},
           g_interned_strings = Map.empty\<rparr> w)
      else ({}, w))"

subsection \<open>The object registry\<close>

definition zero_object :: pthreads_zend_object where
  "zero_object = \<lparr>zo_ts_obj = 0, zo_owner = \<lparr>ident_id = 0, ident_ls = 0\<rparr>, zo_original_zobj = None,
     zo_local_props_modcount = 0, zo_worker_data = None, zo_ce = [], zo_properties = None,
     zo_recursive = False\<rparr>"

definition pthreads_globals_object_alloc :: "tid \<Rightarrow> world \<Rightarrow> (addr \<times> world) option" where
  "pthreads_globals_object_alloc t w = do {
     let (a, w) = alloc w;
     (_, w) \<leftarrow> with_monitor t LGlobal
       (\<lambda>w. Some ((), set_globals ((w_globals w)\<lparr>g_objects := insert a (g_objects (w_globals w))\<rparr>) w))
       (\<lambda>w. Some ((), w)) w;
     Some (a, set_obj a zero_object w) }"

definition pthreads_globals_object_valid :: "tid \<Rightarrow> addr \<Rightarrow> world \<Rightarrow> (bool \<times> world) option" where
  "pthreads_globals_object_valid t a w =
     (if a = 0 then Some (False, w)
      else with_monitor t LGlobal
        (\<lambda>w. Some (a \<in> g_objects (w_globals w), w)) (\<lambda>w. Some (False, w)) w)"

definition pthreads_globals_object_delete :: "tid \<Rightarrow> addr \<Rightarrow> world \<Rightarrow> (bool \<times> world) option" where
  "pthreads_globals_object_delete t a w =
     (if a = 0 then Some (False, w)
      else with_monitor t LGlobal
        (\<lambda>w. Some (a \<notin> g_objects (w_globals w),
           set_globals ((w_globals w)\<lparr>g_objects := g_objects (w_globals w) - {a}\<rparr>) w))
        (\<lambda>w. Some (False, w)) w)"

text \<open>
  \<open>deleted\<close> is the \<open>zend_result\<close> of \<open>zend_hash_index_del\<close> read as a boolean: \<open>SUCCESS\<close> is 0
  and \<open>FAILURE\<close> is -1, so the call returns true exactly when nothing was deleted.
\<close>

subsection \<open>Shared sockets\<close>

definition pthreads_globals_shared_socket_track :: "tid \<Rightarrow> int \<Rightarrow> world \<Rightarrow> (unit \<times> world) option" where
  "pthreads_globals_shared_socket_track t socket w =
     (if socket < 0 then Some ((), w)
      else with_monitor t LGlobal
        (\<lambda>w. Some ((), set_globals ((w_globals w)
            \<lparr>g_shared_sockets := insert socket (g_shared_sockets (w_globals w))\<rparr>) w))
        (\<lambda>w. Some ((), w)) w)"

definition pthreads_globals_socket_shared :: "tid \<Rightarrow> int \<Rightarrow> world \<Rightarrow> (bool \<times> world) option" where
  "pthreads_globals_socket_shared t socket w =
     (if socket < 0 then Some (False, w)
      else with_monitor t LGlobal
        (\<lambda>w. Some (socket \<in> g_shared_sockets (w_globals w), w)) (\<lambda>w. Some (False, w)) w)"

definition IS_INVALID_SOCKET :: "php_socket \<Rightarrow> bool" where
  "IS_INVALID_SOCKET s \<longleftrightarrow> bsd_socket s < 0"

text \<open>
  \<open>pthreads_socket_free_obj_hook\<close>: a shared descriptor is hidden from the original free
  handler, which closes the descriptor it finds. The result is the descriptor it closes.
\<close>

definition pthreads_socket_free_obj_hook :: "tid \<Rightarrow> addr \<Rightarrow> world \<Rightarrow> (int option \<times> world) option" where
  "pthreads_socket_free_obj_hook t a w = do {
     s \<leftarrow> w_sockets w a;
     (s, w) \<leftarrow> (if \<not> IS_INVALID_SOCKET s then do {
         (shared, w) \<leftarrow> pthreads_globals_socket_shared t (bsd_socket s) w;
         Some (if shared then s\<lparr>bsd_socket := - 1\<rparr> else s, w) }
       else Some (s, w));
     Some (if IS_INVALID_SOCKET s then None else Some (bsd_socket s),
           w\<lparr>w_sockets := (w_sockets w)(a := None)\<rparr>) }"

subsection \<open>Interned strings\<close>

definition pthreads_globals_find_interned_string ::
  "zend_engine \<Rightarrow> tid \<Rightarrow> zend_string \<Rightarrow> world \<Rightarrow> (zend_string option \<times> world) option" where
  "pthreads_globals_find_interned_string E t s w =
     (if zs_permanent s then Some (Some s, w)
      else (case find_permanent E (zs_val s) of
        Some r \<Rightarrow> Some (Some r, w)
      | None \<Rightarrow> with_monitor t LGlobal
          (\<lambda>w. Some (g_interned_strings (w_globals w) (zs_val s), w)) (\<lambda>w. Some (None, w)) w))"

definition pthreads_globals_add_interned_string ::
  "zend_engine \<Rightarrow> tid \<Rightarrow> zend_string \<Rightarrow> world \<Rightarrow> (zend_string option \<times> world) option" where
  "pthreads_globals_add_interned_string E t s w =
     (if zs_permanent s then Some (Some s, w)
      else with_monitor t LGlobal
        (\<lambda>w. do {
           (r, w) \<leftarrow> pthreads_globals_find_interned_string E t s w;
           case r of
             Some r \<Rightarrow> Some (Some r, w)
           | None \<Rightarrow>
               let (r, w) = zend_string_init (zs_val s) True w;
                   r = r\<lparr>zs_interned := True, zs_permanent := True\<rparr>;
                   g = w_globals w
               in Some (Some r, set_globals
                    (g\<lparr>g_interned_strings := (g_interned_strings g)(zs_val s \<mapsto> r)\<rparr>) w) })
        (\<lambda>w. Some (None, w)) w)"

section \<open>Behaviour\<close>

lemma object_valid_ok:
  assumes "can_lock (Suc n) L t w" and "LGlobal \<in> L"
  shows "pthreads_globals_object_valid t a w = Some (a \<noteq> 0 \<and> a \<in> g_objects (w_globals w), w)"
proof (cases "a = 0")
  case False
  then show ?thesis unfolding pthreads_globals_object_valid_def
    by (subst with_monitor_ok [OF assms]) auto
qed (simp add: pthreads_globals_object_valid_def)

lemma object_delete_ok:
  assumes "can_lock (Suc n) L t w" and "LGlobal \<in> L" and "a \<noteq> 0"
  shows "pthreads_globals_object_delete t a w = Some (a \<notin> g_objects (w_globals w),
     set_globals ((w_globals w)\<lparr>g_objects := g_objects (w_globals w) - {a}\<rparr>) w)"
  using assms(3) unfolding pthreads_globals_object_delete_def
  by (simp, subst with_monitor_ok [OF assms(1,2)]) auto

lemma object_alloc_ok:
  assumes "can_lock (Suc n) L t w" and "LGlobal \<in> L"
  shows "pthreads_globals_object_alloc t w =
     Some (w_next w, set_obj (w_next w) zero_object
       (set_globals ((w_globals w)\<lparr>g_objects := insert (w_next w) (g_objects (w_globals w))\<rparr>)
         (w\<lparr>w_next := Suc (w_next w)\<rparr>)))"
proof -
  have c: "can_lock (Suc n) L t (w\<lparr>w_next := Suc (w_next w)\<rparr>)"
    by (rule can_lock_same [OF _ assms(1)]) simp
  show ?thesis unfolding pthreads_globals_object_alloc_def
    by (simp add: alloc_def, subst with_monitor_ok [OF c assms(2)]) (auto simp: alloc_def)
qed

lemma socket_track_ok:
  assumes "can_lock (Suc n) L t w" and "LGlobal \<in> L"
  shows "pthreads_globals_shared_socket_track t s w =
     Some ((), if s < 0 then w else set_globals ((w_globals w)
       \<lparr>g_shared_sockets := insert s (g_shared_sockets (w_globals w))\<rparr>) w)"
  unfolding pthreads_globals_shared_socket_track_def
  by (cases "s < 0") (simp, simp, subst with_monitor_ok [OF assms], auto)

lemma socket_shared_ok:
  assumes "can_lock (Suc n) L t w" and "LGlobal \<in> L"
  shows "pthreads_globals_socket_shared t s w =
     Some (0 \<le> s \<and> s \<in> g_shared_sockets (w_globals w), w)"
  unfolding pthreads_globals_socket_shared_def
  by (cases "s < 0") (simp, simp, subst with_monitor_ok [OF assms], auto)

lemma find_interned_ok:
  assumes "can_lock (Suc n) L t w" and "LGlobal \<in> L"
  shows "pthreads_globals_find_interned_string E t s w =
     Some (if zs_permanent s then Some s
           else case find_permanent E (zs_val s) of Some r \<Rightarrow> Some r
                | None \<Rightarrow> g_interned_strings (w_globals w) (zs_val s), w)"
  unfolding pthreads_globals_find_interned_string_def
  by (cases "zs_permanent s"; cases "find_permanent E (zs_val s)")
    (simp_all, subst with_monitor_ok [OF assms], auto)

text \<open>What the string table holds: under each key a permanent string with those bytes.\<close>

definition interned_ok :: "world \<Rightarrow> bool" where
  "interned_ok w \<longleftrightarrow> (\<forall>k r. g_interned_strings (w_globals w) k = Some r \<longrightarrow>
     zs_val r = k \<and> zs_permanent r)"

definition permanent_ok :: "zend_engine \<Rightarrow> bool" where
  "permanent_ok E \<longleftrightarrow> (\<forall>k r. find_permanent E k = Some r \<longrightarrow> zs_val r = k \<and> zs_permanent r)"

text \<open>The string a thread gets for the bytes of \<open>s\<close>, and the state after asking for it.\<close>

definition interned_string :: "zend_engine \<Rightarrow> world \<Rightarrow> zend_string \<Rightarrow> zend_string" where
  "interned_string E w s =
     (if zs_permanent s then s
      else case find_permanent E (zs_val s) of
        Some r \<Rightarrow> r
      | None \<Rightarrow> (case g_interned_strings (w_globals w) (zs_val s) of
          Some r \<Rightarrow> r
        | None \<Rightarrow> \<lparr>zs_addr = w_next w, zs_val = zs_val s, zs_interned = True,
            zs_permanent = True, zs_persistent = True\<rparr>))"

definition after_intern :: "zend_engine \<Rightarrow> world \<Rightarrow> zend_string \<Rightarrow> world" where
  "after_intern E w s =
     (if zs_permanent s \<or> find_permanent E (zs_val s) \<noteq> None \<or>
         g_interned_strings (w_globals w) (zs_val s) \<noteq> None
      then w
      else set_globals ((w_globals w)\<lparr>g_interned_strings :=
          (g_interned_strings (w_globals w))(zs_val s \<mapsto> interned_string E w s)\<rparr>)
        (w\<lparr>w_next := Suc (w_next w)\<rparr>))"

lemma add_interned_ok:
  assumes "can_lock (Suc (Suc n)) L t w" and "LGlobal \<in> L"
  shows "pthreads_globals_add_interned_string E t s w =
     Some (Some (interned_string E w s), after_intern E w s)"
proof (cases "zs_permanent s")
  case True
  then show ?thesis
    by (simp add: pthreads_globals_add_interned_string_def interned_string_def after_intern_def)
next
  case False
  have f: "pthreads_globals_find_interned_string E t s (lock_w t LGlobal w) =
      Some (case find_permanent E (zs_val s) of Some r \<Rightarrow> Some r
        | None \<Rightarrow> g_interned_strings (w_globals w) (zs_val s), lock_w t LGlobal w)"
    using False by (simp add: find_interned_ok [OF can_lock_inside [OF assms(1)] assms(2)]
        cong: option.case_cong)
  show ?thesis
    unfolding pthreads_globals_add_interned_string_def
    by (simp add: False, subst with_monitor_ok [OF assms])
      (auto simp: False f interned_string_def after_intern_def zend_string_init_def alloc_def Let_def
        split: option.split)
qed

lemma after_intern_frame [world_frame]:
  "w_monitors (after_intern E w s) = w_monitors w" "w_ts (after_intern E w s) = w_ts w"
  "w_obj (after_intern E w s) = w_obj w" "w_zg (after_intern E w s) = w_zg w"
  "g_objects (w_globals (after_intern E w s)) = g_objects (w_globals w)"
  "w_thrown (after_intern E w s) = w_thrown w"
  by (simp_all add: after_intern_def)

lemma interned_string_props:
  assumes "interned_ok w" and "permanent_ok E"
  shows "zs_val (interned_string E w s) = zs_val s" and "zs_permanent (interned_string E w s)"
  using assms by (auto simp: interned_string_def interned_ok_def permanent_ok_def split: option.split)

lemma after_intern_ok:
  assumes "interned_ok w" and "permanent_ok E"
  shows "interned_ok (after_intern E w s)"
  using assms interned_string_props [OF assms, of s]
  by (auto simp: after_intern_def interned_ok_def)

lemma interned_again:
  "\<not> zs_permanent s' \<Longrightarrow> \<not> zs_permanent s \<Longrightarrow> zs_val s' = zs_val s \<Longrightarrow>
     interned_string E (after_intern E w s) s' = interned_string E w s"
  by (auto simp: interned_string_def after_intern_def split: option.split)

lemma after_intern_again:
  "zs_val s' = zs_val s \<Longrightarrow> \<not> zs_permanent s \<Longrightarrow>
     after_intern E (after_intern E w s) s' = after_intern E w s"
  by (auto simp: after_intern_def)


definition demo_engine :: zend_engine where
  "demo_engine = \<lparr>handle_numeric = (\<lambda>_. None),
     get_string = (\<lambda>_. \<lparr>zs_addr = 0, zs_val = [], zs_interned = True, zs_permanent = True,
       zs_persistent = True\<rparr>),
     find_permanent = (\<lambda>_. None), thread_self = (\<lambda>t. word_of_nat t),
     class_chain = (\<lambda>_. []),
     default_properties = (\<lambda>_ _. IS_UNDEF), properties_info_table = (\<lambda>_. []),
     uninitialized = IS_UNDEF, create_object = (\<lambda>_. ThreadedClass), enum_case = (\<lambda>_ _ _. None)\<rparr>"

definition demo_string :: "addr \<Rightarrow> string \<Rightarrow> zend_string" where
  "demo_string a s = \<lparr>zs_addr = a, zs_val = s, zs_interned = False, zs_permanent = False,
     zs_persistent = False\<rparr>"

lemma demo_engine_permanent: "permanent_ok demo_engine"
  by (simp add: permanent_ok_def demo_engine_def)

lemma empty_world_can_lock: "n \<le> 1000 \<Longrightarrow> can_lock n L t empty_world"
  by (rule can_lock_fresh) (simp_all add: empty_world_def mutex_max_def)

lemma empty_world_interned: "interned_ok empty_world"
  by (simp add: interned_ok_def empty_world_def empty_globals_def)


section \<open>The registry as a set of live addresses\<close>

text \<open>
  The contract the store and the connections rely on: an address is valid from its
  allocation until its deletion, and the operations on one address leave the others alone.
\<close>

locale object_registry =
  fixes alloc_obj :: "'w \<Rightarrow> (addr \<times> 'w) option"
    and valid :: "addr \<Rightarrow> 'w \<Rightarrow> (bool \<times> 'w) option"
    and delete_obj :: "addr \<Rightarrow> 'w \<Rightarrow> (bool \<times> 'w) option"
    and live :: "'w \<Rightarrow> addr set"
    and ready :: "'w \<Rightarrow> bool"
  assumes alloc_fresh: "ready w \<Longrightarrow>
      \<exists>a w'. alloc_obj w = Some (a, w') \<and> a \<notin> live w \<and> live w' = insert a (live w) \<and> ready w'"
    and valid_live: "ready w \<Longrightarrow> valid a w = Some (a \<in> live w, w)"
    and delete_live: "ready w \<Longrightarrow>
      \<exists>b w'. delete_obj a w = Some (b, w') \<and> live w' = live w - {a} \<and> ready w'"
begin

fun alloc_many :: "nat \<Rightarrow> 'w \<Rightarrow> (addr list \<times> 'w) option" where
  "alloc_many 0 w = Some ([], w)"
| "alloc_many (Suc n) w = do {
     (a, w) \<leftarrow> alloc_obj w; (as, w) \<leftarrow> alloc_many n w; Some (a # as, w) }"

lemma alloc_many_distinct:
  "ready w \<Longrightarrow> \<exists>as w'. alloc_many n w = Some (as, w') \<and> length as = n \<and> distinct as \<and>
     set as \<inter> live w = {} \<and> live w' = live w \<union> set as \<and> ready w'"
proof (induction n arbitrary: w)
  case 0
  then show ?case by simp
next
  case (Suc n)
  from alloc_fresh [OF Suc.prems] obtain a w1 where
    a: "alloc_obj w = Some (a, w1)" "a \<notin> live w" "live w1 = insert a (live w)" "ready w1"
    by blast
  from Suc.IH [OF a(4)] obtain as w' where
    as: "alloc_many n w1 = Some (as, w')" "length as = n" "distinct as" "set as \<inter> live w1 = {}"
      "live w' = live w1 \<union> set as" "ready w'"
    by blast
  with a show ?case by (intro exI [of _ "a # as"] exI [of _ w']) auto
qed

lemma lifetime:
  assumes "ready w"
  shows "\<exists>a w\<^sub>1 b w\<^sub>2. alloc_obj w = Some (a, w\<^sub>1) \<and> valid a w\<^sub>1 = Some (True, w\<^sub>1) \<and>
    delete_obj a w\<^sub>1 = Some (b, w\<^sub>2) \<and> valid a w\<^sub>2 = Some (False, w\<^sub>2) \<and> live w\<^sub>2 = live w"
proof -
  from alloc_fresh [OF assms] obtain a w1 where
    a: "alloc_obj w = Some (a, w1)" "a \<notin> live w" "live w1 = insert a (live w)" "ready w1"
    by blast
  from delete_live [OF a(4), of a] obtain b w2 where
    d: "delete_obj a w1 = Some (b, w2)" "live w2 = live w1 - {a}" "ready w2"
    by blast
  show ?thesis
    using a d valid_live [OF a(4), of a] valid_live [OF d(3), of a] by auto
qed

end

definition registry_ready :: "tid \<Rightarrow> world \<Rightarrow> bool" where
  "registry_ready t w \<longleftrightarrow> can_lock 1 {LGlobal} t w \<and> 0 < w_next w \<and>
     (\<forall>a\<in>g_objects (w_globals w). 0 < a \<and> a < w_next w)"

interpretation registry: object_registry "pthreads_globals_object_alloc t"
  "pthreads_globals_object_valid t" "\<lambda>a. if a = 0 then (\<lambda>w. Some (False, w))
     else pthreads_globals_object_delete t a"
  "\<lambda>w. g_objects (w_globals w)" "registry_ready t" for t
proof unfold_locales
  fix w a assume "registry_ready t w"
  then have r: "can_lock (Suc 0) {LGlobal} t w" "0 < w_next w"
      "\<forall>a\<in>g_objects (w_globals w). 0 < a \<and> a < w_next w"
    by (simp_all add: registry_ready_def)
  show "\<exists>a w'. pthreads_globals_object_alloc t w = Some (a, w') \<and> a \<notin> g_objects (w_globals w) \<and>
      g_objects (w_globals w') = insert a (g_objects (w_globals w)) \<and> registry_ready t w'"
    using r object_alloc_ok [OF r(1)] can_lock_same [OF _ r(1)]
    by (auto simp: registry_ready_def less_Suc_eq)
  show "pthreads_globals_object_valid t a w = Some (a \<in> g_objects (w_globals w), w)"
    using r by (auto simp: object_valid_ok)
  show "\<exists>b w'. (if a = 0 then (\<lambda>w. Some (False, w)) else pthreads_globals_object_delete t a) w =
      Some (b, w') \<and> g_objects (w_globals w') = g_objects (w_globals w) - {a} \<and> registry_ready t w'"
    using r object_delete_ok [OF r(1), of a] can_lock_same [OF _ r(1)]
    by (auto simp: registry_ready_def)
qed

text \<open>
  Objects allocated one after the other get distinct addresses that were not live before,
  and all of them are live afterwards, together with everything that was live.
\<close>

theorem registry_alloc_distinct:
  assumes "registry_ready t w"
  shows "\<exists>as w'. registry.alloc_many t n w = Some (as, w') \<and> length as = n \<and> distinct as \<and>
     set as \<inter> g_objects (w_globals w) = {} \<and>
     g_objects (w_globals w') = g_objects (w_globals w) \<union> set as \<and> registry_ready t w'"
  using assms by (rule registry.alloc_many_distinct)

theorem registry_alloc_distinct_witness:
  "\<exists>as w'. registry.alloc_many 1 3 empty_world = Some (as, w') \<and> length as = 3 \<and> distinct as"
proof -
  have "registry_ready 1 empty_world"
    using empty_world_can_lock [of 1 "{LGlobal}" 1]
    by (simp add: registry_ready_def empty_world_def empty_globals_def)
  from registry_alloc_distinct [OF this, of 3] show ?thesis by blast
qed

text \<open>
  Deleting an object reports the opposite of what its variable \<open>deleted\<close> is named for: for a
  live address the call returns false (and the address is no longer valid), for an address
  that is not live it returns true.
\<close>

theorem object_delete_result_inverted:
  assumes "can_lock 1 {LGlobal} t w" and "a \<noteq> 0"
  shows "\<exists>w'. pthreads_globals_object_delete t a w = Some (a \<notin> g_objects (w_globals w), w') \<and>
    pthreads_globals_object_valid t a w' = Some (False, w')"
proof -
  have c: "can_lock (Suc 0) {LGlobal} t w" using assms(1) by simp
  let ?w = "set_globals ((w_globals w)\<lparr>g_objects := g_objects (w_globals w) - {a}\<rparr>) w"
  have c': "can_lock (Suc 0) {LGlobal} t ?w" by (rule can_lock_same [OF _ c]) simp
  show ?thesis
    using object_delete_ok [OF c _ assms(2)] object_valid_ok [OF c', of a] by simp
qed

theorem object_delete_result_inverted_witness:
  "\<exists>w'. pthreads_globals_object_delete 1 7
      (set_globals (empty_globals\<lparr>g_objects := {7}\<rparr>) empty_world) = Some (False, w') \<and>
    pthreads_globals_object_valid 1 7 w' = Some (False, w')"
proof -
  let ?w = "set_globals (empty_globals\<lparr>g_objects := {7}\<rparr>) empty_world"
  have "can_lock 1 {LGlobal} 1 ?w" by (rule can_lock_same [OF _ empty_world_can_lock]) simp_all
  from object_delete_result_inverted [OF this, of 7] show ?thesis by simp
qed

text \<open>
  Shared sockets stay open: once a descriptor has been tracked, freeing any socket object
  that refers to it, from any thread, does not close it, while an untracked descriptor is
  closed by the free handler; either way the object is gone.
\<close>

theorem shared_socket_not_closed:
  assumes "can_lock 1 {LGlobal} t w" and "can_lock 1 {LGlobal} u w"
    and "w_sockets w a = Some s" and "0 \<le> bsd_socket s"
  shows "(\<exists>w\<^sub>1 w\<^sub>2. pthreads_globals_shared_socket_track t (bsd_socket s) w = Some ((), w\<^sub>1) \<and>
      pthreads_socket_free_obj_hook u a w\<^sub>1 = Some (None, w\<^sub>2) \<and> w_sockets w\<^sub>2 a = None) \<and>
    (bsd_socket s \<notin> g_shared_sockets (w_globals w) \<longrightarrow>
      (\<exists>w\<^sub>2. pthreads_socket_free_obj_hook u a w = Some (Some (bsd_socket s), w\<^sub>2) \<and>
        w_sockets w\<^sub>2 a = None))"
proof -
  let ?w = "set_globals ((w_globals w)
      \<lparr>g_shared_sockets := insert (bsd_socket s) (g_shared_sockets (w_globals w))\<rparr>) w"
  have c: "can_lock (Suc 0) {LGlobal} t w" "can_lock (Suc 0) {LGlobal} u w"
    using assms(1,2) by simp_all
  have c': "can_lock (Suc 0) {LGlobal} u ?w" by (rule can_lock_same [OF _ c(2)]) simp
  show ?thesis
    using assms(3,4) socket_track_ok [OF c(1), of "bsd_socket s"]
      socket_shared_ok [OF c', of "bsd_socket s"] socket_shared_ok [OF c(2), of "bsd_socket s"]
    by (auto simp: pthreads_socket_free_obj_hook_def IS_INVALID_SOCKET_def)
qed

theorem shared_socket_not_closed_witness:
  "\<exists>w\<^sub>1 w\<^sub>2. pthreads_globals_shared_socket_track 1 5 (empty_world\<lparr>w_sockets := [9 \<mapsto>
      \<lparr>bsd_socket = 5, sock_type = 1, sock_error = 0, sock_blocking = 1, sock_zstream = False\<rparr>]\<rparr>) =
        Some ((), w\<^sub>1) \<and> pthreads_socket_free_obj_hook 2 9 w\<^sub>1 = Some (None, w\<^sub>2)"
proof -
  let ?s = "\<lparr>bsd_socket = 5, sock_type = 1, sock_error = 0, sock_blocking = 1, sock_zstream = False\<rparr>"
  let ?w = "empty_world\<lparr>w_sockets := [9 \<mapsto> ?s]\<rparr>"
  have "can_lock 1 {LGlobal} t ?w" for t
    by (rule can_lock_same [OF _ empty_world_can_lock]) simp_all
  with shared_socket_not_closed [of 1 ?w 2 9 ?s] show ?thesis by auto
qed

end
