(* ===== verification/Store_Core.thy ===== *)
theory Store_Core
  imports Globals
begin

text \<open>
  The part of src/store.c that does not create objects: key coercion, saving values into
  thread-safe storage, writing, deleting, testing and counting members, and keeping the
  property table of a zend object (the thread's local cache) in step with the shared
  table. An operation is given the calling thread \<open>t\<close> and the address \<open>obj\<close> of the zend
  object it works on.
\<close>

section \<open>Views of values\<close>

definition IS_PTHREADS_OBJECT :: "zval \<Rightarrow> addr option" where
  "IS_PTHREADS_OBJECT v = (case v of IS_OBJECT (ThreadedObject a) \<Rightarrow> Some a | _ \<Rightarrow> None)"

definition IS_PTHREADS_CLOSURE_OBJECT :: "zval \<Rightarrow> addr option" where
  "IS_PTHREADS_CLOSURE_OBJECT v = (case v of IS_OBJECT (ClosureObject a) \<Rightarrow> Some a | _ \<Rightarrow> None)"

definition IS_EXT_SOCKETS_OBJECT :: "zval \<Rightarrow> addr option" where
  "IS_EXT_SOCKETS_OBJECT v = (case v of IS_OBJECT (SocketObject a) \<Rightarrow> Some a | _ \<Rightarrow> None)"

definition Z_STR :: "zval \<Rightarrow> zend_string option" where
  "Z_STR v = (case v of IS_STRING s \<Rightarrow> Some s | _ \<Rightarrow> None)"

definition TRY_PTHREADS_STORAGE_PTR_P :: "zval option \<Rightarrow> pthreads_storage option" where
  "TRY_PTHREADS_STORAGE_PTR_P zv = (case zv of Some (IS_PTR s) \<Rightarrow> Some s | _ \<Rightarrow> None)"

definition ZVAL_DEINDIRECT :: "zval \<Rightarrow> zval" where
  "ZVAL_DEINDIRECT v = (case v of IS_INDIRECT v' \<Rightarrow> v' | _ \<Rightarrow> v)"

lemmas view_defs = IS_PTHREADS_OBJECT_def IS_PTHREADS_CLOSURE_OBJECT_def
  IS_EXT_SOCKETS_OBJECT_def Z_STR_def TRY_PTHREADS_STORAGE_PTR_P_def ZVAL_DEINDIRECT_def

section \<open>The store and its local cache\<close>

definition pthreads_store_init :: pthreads_store where
  "pthreads_store_init = \<lparr>store_hash = zend_hash_init, store_modcount = 0\<rparr>"

definition declared_names :: "zend_engine \<Rightarrow> string \<Rightarrow> string list" where
  "declared_names E ce =
     concat (map (\<lambda>(_, infos). map (\<lambda>i. zs_val (pi_name i)) (filter (\<lambda>i. \<not> pi_static i) infos))
       (class_chain E ce))"

text \<open>
  \<open>rebuild_object_properties\<close> of the engine: a missing table is created with an indirect
  entry for every declared property, pointing to its slot, which is undefined because the
  constructor has moved the default into the store.
\<close>

definition rebuild_object_properties :: "zend_engine \<Rightarrow> pthreads_zend_object \<Rightarrow> pthreads_zend_object" where
  "rebuild_object_properties E ob =
     (case zo_properties ob of
        Some _ \<Rightarrow> ob
      | None \<Rightarrow> ob\<lparr>zo_properties := Some (foldl
          (\<lambda>ht n. zend_hash_update ht (KStr n) (IS_INDIRECT IS_UNDEF)) zend_hash_init
          (declared_names E (zo_ce ob)))\<rparr>)"

definition pthreads_store_init_local_properties ::
  "zend_engine \<Rightarrow> addr \<Rightarrow> world \<Rightarrow> world option" where
  "pthreads_store_init_local_properties E obj w = do {
     ob \<leftarrow> w_obj w obj;
     Some (set_obj obj (rebuild_object_properties E ob) w) }"

text \<open>
  One round of the loop of \<open>pthreads_store_sync_local_properties\<close>: whether the cached value
  still stands for the stored cell. A threaded object is looked up in the registry before
  it is dereferenced.
\<close>

definition sync_keeps :: "tid \<Rightarrow> zval option \<Rightarrow> zval \<Rightarrow> world \<Rightarrow> (bool \<times> world) option" where
  "sync_keeps t zstorage val w =
     (let val = ZVAL_DEINDIRECT val in
      case TRY_PTHREADS_STORAGE_PTR_P zstorage of
        None \<Rightarrow> Some (False, w)
      | Some (STORE_TYPE_PTHREADS shared) \<Rightarrow>
          (case IS_PTHREADS_OBJECT val of
             None \<Rightarrow> Some (False, w)
           | Some local \<Rightarrow>
               if shared = local then Some (True, w)
               else do {
                 (valid, w) \<leftarrow> pthreads_globals_object_valid t shared w;
                 if valid then do {
                   so \<leftarrow> w_obj w shared;
                   lo \<leftarrow> w_obj w local;
                   Some (zo_ts_obj so = zo_ts_obj lo, w) }
                 else Some (False, w) })
      | Some (STORE_TYPE_CLOSURE shared _) \<Rightarrow>
          Some (IS_PTHREADS_CLOSURE_OBJECT val = Some shared, w)
      | Some (STORE_TYPE_SOCKET fd _ _ _) \<Rightarrow>
          (case IS_EXT_SOCKETS_OBJECT val of
             None \<Rightarrow> Some (False, w)
           | Some s \<Rightarrow> do { local \<leftarrow> w_sockets w s; Some (fd = bsd_socket local, w) })
      | Some (STORE_TYPE_STRING_PTR str owner) \<Rightarrow>
          (case Z_STR val of
             None \<Rightarrow> Some (False, w)
           | Some s \<Rightarrow> Some (ident_ls owner = t \<and> zs_addr str = zs_addr s, w))
      | Some _ \<Rightarrow> Some (False, w))"

fun sync_entries :: "tid \<Rightarrow> hash \<Rightarrow> (zkey \<times> zval) list \<Rightarrow> world \<Rightarrow> ((zkey \<times> zval) list \<times> world) option"
  where
  "sync_entries t shared [] w = Some ([], w)"
| "sync_entries t shared ((k, val) # ps) w = do {
     (keep, w) \<leftarrow> sync_keeps t (zend_hash_find shared k) val w;
     (ps, w) \<leftarrow> sync_entries t shared ps w;
     Some (if keep then (k, val) # ps else ps, w) }"

definition pthreads_store_sync_local_properties :: "tid \<Rightarrow> addr \<Rightarrow> world \<Rightarrow> world option" where
  "pthreads_store_sync_local_properties t obj w = do {
     threaded \<leftarrow> w_obj w obj;
     ts_obj \<leftarrow> w_ts w (zo_ts_obj threaded);
     if zo_local_props_modcount threaded = store_modcount (ts_props ts_obj) then Some w
     else do {
       (props, w) \<leftarrow> (case zo_properties threaded of
           None \<Rightarrow> Some (None, w)
         | Some ht \<Rightarrow> do {
             (ps, w) \<leftarrow> sync_entries t (store_hash (ts_props ts_obj)) (ht_buckets ht) w;
             Some (Some (ht\<lparr>ht_buckets := ps\<rparr>), w) });
       Some (set_obj obj (threaded\<lparr>zo_properties := props,
         zo_local_props_modcount := store_modcount (ts_props ts_obj)\<rparr>) w) } }"

definition pthreads_store_retain_in_local_cache :: "zval \<Rightarrow> bool" where
  "pthreads_store_retain_in_local_cache val \<longleftrightarrow> IS_PTHREADS_OBJECT val \<noteq> None \<or>
     IS_PTHREADS_CLOSURE_OBJECT val \<noteq> None \<or> IS_EXT_SOCKETS_OBJECT val \<noteq> None \<or> Z_STR val \<noteq> None"

definition pthreads_store_valid_local_cache_item :: "zval \<Rightarrow> bool" where
  "pthreads_store_valid_local_cache_item val \<longleftrightarrow> (case val of IS_INDIRECT _ \<Rightarrow> False | _ \<Rightarrow> True)"

definition pthreads_store_storage_is_cacheable :: "zval option \<Rightarrow> bool" where
  "pthreads_store_storage_is_cacheable zstorage \<longleftrightarrow>
     (case TRY_PTHREADS_STORAGE_PTR_P zstorage of
        Some (STORE_TYPE_PTHREADS _) \<Rightarrow> True
      | Some (STORE_TYPE_CLOSURE _ _) \<Rightarrow> True
      | Some (STORE_TYPE_SOCKET _ _ _ _) \<Rightarrow> True
      | Some (STORE_TYPE_STRING_PTR _ _) \<Rightarrow> True
      | _ \<Rightarrow> False)"

definition pthreads_store_bump_modcount_nolock :: "addr \<Rightarrow> world \<Rightarrow> world option" where
  "pthreads_store_bump_modcount_nolock obj w = do {
     threaded \<leftarrow> w_obj w obj;
     ts_obj \<leftarrow> w_ts w (zo_ts_obj threaded);
     let props = ts_props ts_obj;
         w = (if zo_local_props_modcount threaded = store_modcount props
              then set_obj obj (threaded\<lparr>zo_local_props_modcount :=
                     zo_local_props_modcount threaded + 1\<rparr>) w
              else w)
     in Some (set_ts (zo_ts_obj threaded)
          (ts_obj\<lparr>ts_props := props\<lparr>store_modcount := store_modcount props + 1\<rparr>\<rparr>) w) }"

text \<open>
  Key coercion. A numeric string becomes an integer key; integers and other strings are
  used as they are; any other value is converted to a string, which is then not looked at
  again. The flag tells whether a string was made.
\<close>

definition pthreads_store_coerce :: "zend_engine \<Rightarrow> zval \<Rightarrow> bool \<times> zkey" where
  "pthreads_store_coerce E key =
     (case key of
        IS_STRING s \<Rightarrow>
          (case handle_numeric E (zs_val s) of
             Some hval \<Rightarrow> (False, KLong hval)
           | None \<Rightarrow> (False, KStr (zs_val s)))
      | IS_LONG n \<Rightarrow> (False, KLong n)
      | _ \<Rightarrow> (True, KStr (zs_val (get_string E key))))"

definition pthreads_store_member_is_cacheable :: "addr \<Rightarrow> zkey \<Rightarrow> world \<Rightarrow> bool option" where
  "pthreads_store_member_is_cacheable obj key w = do {
     threaded \<leftarrow> w_obj w obj;
     ts_obj \<leftarrow> w_ts w (zo_ts_obj threaded);
     Some (pthreads_store_storage_is_cacheable (zend_hash_find (store_hash (ts_props ts_obj)) key)) }"

section \<open>Deleting, testing and counting\<close>

definition set_hash :: "addr \<Rightarrow> hash \<Rightarrow> world \<Rightarrow> world option" where
  "set_hash a ht w = do {
     ts \<leftarrow> w_ts w a;
     Some (set_ts a (ts\<lparr>ts_props := (ts_props ts)\<lparr>store_hash := ht\<rparr>\<rparr>) w) }"

text \<open>Removing a key from the local table of an object, if it has one.\<close>

definition del_local :: "addr \<Rightarrow> zkey \<Rightarrow> world \<Rightarrow> world option" where
  "del_local obj key w = do {
     ob \<leftarrow> w_obj w obj;
     Some (case zo_properties ob of
         None \<Rightarrow> w
       | Some ht \<Rightarrow> set_obj obj (ob\<lparr>zo_properties := Some (snd (zend_hash_del ht key))\<rparr>) w) }"

text \<open>The work of a deletion inside the monitor of the object.\<close>

definition store_delete_locked :: "addr \<Rightarrow> addr \<Rightarrow> zkey \<Rightarrow> world \<Rightarrow> (zend_result \<times> world) option" where
  "store_delete_locked obj a member w = do {
     was_pthreads_object \<leftarrow> pthreads_store_member_is_cacheable obj member w;
     ts_obj \<leftarrow> w_ts w a;
     let (result, ht) = zend_hash_del (store_hash (ts_props ts_obj)) member;
     w \<leftarrow> set_hash a ht w;
     w \<leftarrow> (if result = SUCCESS \<and> was_pthreads_object
          then pthreads_store_bump_modcount_nolock obj w else Some w);
     Some (result, w) }"

definition pthreads_store_delete ::
  "zend_engine \<Rightarrow> tid \<Rightarrow> addr \<Rightarrow> zval \<Rightarrow> world \<Rightarrow> (zend_result \<times> world) option" where
  "pthreads_store_delete E t obj key w = do {
     threaded \<leftarrow> w_obj w obj;
     let a = zo_ts_obj threaded;
     let (_, member) = pthreads_store_coerce E key;
     _ \<leftarrow> w_ts w a;
     (result, w) \<leftarrow> with_monitor t (LTs a) (store_delete_locked obj a member)
       (\<lambda>w. Some (FAILURE, w)) w;
     w \<leftarrow> (if result = SUCCESS then del_local obj member w else Some w);
     Some (result, w) }"

datatype has_set_exists = ZEND_PROPERTY_ISSET | ZEND_PROPERTY_NOT_EMPTY | ZEND_PROPERTY_EXISTS

definition string_is_empty :: "string \<Rightarrow> bool" where
  "string_is_empty s \<longleftrightarrow> (case s of [] \<Rightarrow> True | c # _ \<Rightarrow> c = CHR ''0'')"

definition storage_not_empty :: "zval \<Rightarrow> bool" where
  "storage_not_empty zstorage =
     (case zstorage of
        IS_NULL \<Rightarrow> False
      | IS_FALSE \<Rightarrow> False
      | IS_LONG n \<Rightarrow> n \<noteq> 0
      | IS_DOUBLE d \<Rightarrow> \<not> double_is_zero d
      | IS_STRING s \<Rightarrow> \<not> string_is_empty (zs_val s)
      | IS_ARRAY ps \<Rightarrow> ps \<noteq> []
      | IS_PTR (STORE_TYPE_STRING_PTR s _) \<Rightarrow> \<not> string_is_empty (zs_val s)
      | _ \<Rightarrow> True)"

definition storage_isset :: "has_set_exists \<Rightarrow> zval option \<Rightarrow> bool" where
  "storage_isset mode zstorage =
     (case zstorage of
        None \<Rightarrow> False
      | Some z \<Rightarrow> (case mode of
            ZEND_PROPERTY_NOT_EMPTY \<Rightarrow> storage_not_empty z
          | ZEND_PROPERTY_ISSET \<Rightarrow> z \<noteq> IS_NULL
          | ZEND_PROPERTY_EXISTS \<Rightarrow> True))"

definition pthreads_store_isset ::
  "zend_engine \<Rightarrow> tid \<Rightarrow> addr \<Rightarrow> zval \<Rightarrow> has_set_exists \<Rightarrow> world \<Rightarrow> (bool \<times> world) option" where
  "pthreads_store_isset E t obj key mode w = do {
     threaded \<leftarrow> w_obj w obj;
     let a = zo_ts_obj threaded;
     let (_, member) = pthreads_store_coerce E key;
     _ \<leftarrow> w_ts w a;
     with_monitor t (LTs a)
       (\<lambda>w. do {
          ts_obj \<leftarrow> w_ts w a;
          Some (storage_isset mode (zend_hash_find (store_hash (ts_props ts_obj)) member), w) })
       (\<lambda>w. Some (False, w)) w }"

definition pthreads_store_count :: "tid \<Rightarrow> addr \<Rightarrow> world \<Rightarrow> (nat \<times> world) option" where
  "pthreads_store_count t obj w = do {
     threaded \<leftarrow> w_obj w obj;
     let a = zo_ts_obj threaded;
     _ \<leftarrow> w_ts w a;
     with_monitor t (LTs a)
       (\<lambda>w. do { ts_obj \<leftarrow> w_ts w a; Some (zend_hash_num_elements (store_hash (ts_props ts_obj)), w) })
       (\<lambda>w. Some (0, w)) w }"

section \<open>Updating\<close>

definition pthreads_store_update_local_property ::
  "zend_engine \<Rightarrow> addr \<Rightarrow> zkey \<Rightarrow> zval \<Rightarrow> world \<Rightarrow> world option" where
  "pthreads_store_update_local_property E obj key val w =
     (if pthreads_store_retain_in_local_cache val
      then do {
        w \<leftarrow> pthreads_store_init_local_properties E obj w;
        ob \<leftarrow> w_obj w obj;
        ht \<leftarrow> zo_properties ob;
        Some (set_obj obj (ob\<lparr>zo_properties := Some (zend_hash_update ht key val)\<rparr>) w) }
      else Some w)"

definition pthreads_store_update_shared_property ::
  "addr \<Rightarrow> zkey \<Rightarrow> zval \<Rightarrow> world \<Rightarrow> (zend_result \<times> world) option" where
  "pthreads_store_update_shared_property a key zstorage w = do {
     ts_obj \<leftarrow> w_ts w a;
     w \<leftarrow> set_hash a (zend_hash_update (store_hash (ts_props ts_obj)) key zstorage) w;
     Some (SUCCESS, w) }"

section \<open>Saving values\<close>

definition pthreads_store_save_string :: "zend_string \<Rightarrow> world \<Rightarrow> zend_string \<times> world" where
  "pthreads_store_save_string s w =
     (if zs_permanent s then (s, w) else zend_string_init (zs_val s) True w)"

definition pthreads_store_restore_string :: "zend_string \<Rightarrow> world \<Rightarrow> zend_string \<times> world" where
  "pthreads_store_restore_string s w =
     (if zs_permanent s then (s, w) else zend_string_init (zs_val s) False w)"

text \<open>
  \<open>pthreads_store_create\<close>: \<open>Some (None, w)\<close> is the null result for values that cannot be
  shared. A threaded object is stored by the address of its original; a valid socket is
  tracked in the globals first; an enum case is stored by persistent copies of its names.
\<close>

fun pthreads_store_create ::
  "tid \<Rightarrow> pthreads_ident \<Rightarrow> zval \<Rightarrow> world \<Rightarrow> (pthreads_storage option \<times> world) option" where
  "pthreads_store_create t source (IS_INDIRECT v) w = pthreads_store_create t source v w"
| "pthreads_store_create t source (IS_REFERENCE v) w = pthreads_store_create t source v w"
| "pthreads_store_create t source (IS_STRING s) w = Some (Some (STORE_TYPE_STRING_PTR s source), w)"
| "pthreads_store_create t source (IS_RESOURCE r) w = Some (Some (STORE_TYPE_RESOURCE r t), w)"
| "pthreads_store_create t source (IS_OBJECT (EnumObject c m)) w =
     (let (class_name, w) = pthreads_store_save_string c w;
          (member_name, w) = pthreads_store_save_string m w
      in Some (Some (STORE_TYPE_ENUM class_name member_name), w))"
| "pthreads_store_create t source (IS_OBJECT (ClosureObject c)) w =
     Some (Some (STORE_TYPE_CLOSURE c source), w)"
| "pthreads_store_create t source (IS_OBJECT (ThreadedObject a)) w = do {
     threaded \<leftarrow> w_obj w a;
     Some (Some (STORE_TYPE_PTHREADS
       (case zo_original_zobj threaded of Some b \<Rightarrow> b | None \<Rightarrow> a)), w) }"
| "pthreads_store_create t source (IS_OBJECT (SocketObject a)) w = do {
     s \<leftarrow> w_sockets w a;
     if sock_zstream s then Some (None, w)
     else do {
       (_, w) \<leftarrow> (if \<not> IS_INVALID_SOCKET s
                  then pthreads_globals_shared_socket_track t (bsd_socket s) w else Some ((), w));
       Some (Some (STORE_TYPE_SOCKET (bsd_socket s) (sock_type s) (sock_error s) (sock_blocking s)), w) } }"
| "pthreads_store_create t source v w = Some (None, w)"

definition pthreads_store_save_zval ::
  "tid \<Rightarrow> pthreads_ident \<Rightarrow> zval \<Rightarrow> world \<Rightarrow> (zval option \<times> world) option" where
  "pthreads_store_save_zval t source v w =
     (case v of
        IS_NULL \<Rightarrow> Some (Some v, w)
      | IS_FALSE \<Rightarrow> Some (Some v, w)
      | IS_TRUE \<Rightarrow> Some (Some v, w)
      | IS_LONG _ \<Rightarrow> Some (Some v, w)
      | IS_DOUBLE _ \<Rightarrow> Some (Some v, w)
      | _ \<Rightarrow>
          if (case v of IS_STRING s \<Rightarrow> zs_permanent s | _ \<Rightarrow> False) then Some (Some v, w)
          else do {
            (storage, w) \<leftarrow> pthreads_store_create t source v w;
            Some (map_option IS_PTR storage, w) })"

section \<open>Writing\<close>

text \<open>
  \<open>pthreads_store_write\<close> for a value that is not an array to be coerced; \<open>None\<close> as the key is
  the null pointer of \<open>$array[] = ...\<close>.
\<close>

definition next_member :: "hash \<Rightarrow> zkey" where
  "next_member ht =
     (let next = zend_hash_next_free_element ht in KLong (if next = ZEND_LONG_MIN then 0 else next))"

definition key_of :: "zend_engine \<Rightarrow> hash \<Rightarrow> zval option \<Rightarrow> zkey" where
  "key_of E ht key = (case key of None \<Rightarrow> next_member ht | Some k \<Rightarrow> snd (pthreads_store_coerce E k))"

text \<open>The work of a write inside the monitor of the object; the result is the key on success.\<close>

definition store_write_locked ::
  "tid \<Rightarrow> addr \<Rightarrow> addr \<Rightarrow> zkey \<Rightarrow> zval \<Rightarrow> world \<Rightarrow> (zkey option \<times> world) option" where
  "store_write_locked t obj a member zstorage w = do {
     was_pthreads_object \<leftarrow> pthreads_store_member_is_cacheable obj member w;
     (result, w) \<leftarrow> pthreads_store_update_shared_property a member zstorage w;
     w \<leftarrow> (if result = SUCCESS \<and> was_pthreads_object
          then pthreads_store_bump_modcount_nolock obj w else Some w);
     w \<leftarrow> pthreads_store_sync_local_properties t obj w;
     Some (if result = SUCCESS then Some member else None, w) }"

definition store_write_zval ::
  "zend_engine \<Rightarrow> tid \<Rightarrow> addr \<Rightarrow> zval option \<Rightarrow> zval \<Rightarrow> world \<Rightarrow> (zend_result \<times> world) option" where
  "store_write_zval E t obj key val w = do {
     threaded \<leftarrow> w_obj w obj;
     let a = zo_ts_obj threaded;
     (zstorage, w) \<leftarrow> pthreads_store_save_zval t (zo_owner threaded) val w;
     case zstorage of
       None \<Rightarrow> Some (FAILURE, throw t UnsupportedDataType w)
     | Some zstorage \<Rightarrow> do {
         _ \<leftarrow> w_ts w a;
         (done, w) \<leftarrow> with_monitor t (LTs a)
           (\<lambda>w. do {
              ts_obj \<leftarrow> w_ts w a;
              store_write_locked t obj a (key_of E (store_hash (ts_props ts_obj)) key) zstorage w })
           (\<lambda>w. Some (None, w)) w;
         case done of
           None \<Rightarrow> Some (FAILURE, w)
         | Some member \<Rightarrow> do {
             w \<leftarrow> pthreads_store_update_local_property E obj member val w;
             Some (SUCCESS, w) } } }"

section \<open>Strings that must outlive their thread\<close>

text \<open>
  \<open>pthreads_store_persist_local_properties\<close>: every string pointer this thread owns is
  replaced in place by a persistent copy.
\<close>

definition persist_storage :: "tid \<Rightarrow> zval \<Rightarrow> world \<Rightarrow> zval \<times> world" where
  "persist_storage t zstorage w =
     (case TRY_PTHREADS_STORAGE_PTR_P (Some zstorage) of
        Some (STORE_TYPE_STRING_PTR s owner) \<Rightarrow>
          if ident_ls owner = t
          then (let (persistent_string, w) = pthreads_store_save_string s w
                in (IS_STRING persistent_string, w))
          else (zstorage, w)
      | _ \<Rightarrow> (zstorage, w))"

fun persist_entries :: "tid \<Rightarrow> (zkey \<times> zval) list \<Rightarrow> world \<Rightarrow> (zkey \<times> zval) list \<times> world" where
  "persist_entries t [] w = ([], w)"
| "persist_entries t ((k, z) # ps) w =
     (let (z, w) = persist_storage t z w; (ps, w) = persist_entries t ps w in ((k, z) # ps, w))"

definition pthreads_store_persist_local_properties :: "tid \<Rightarrow> addr \<Rightarrow> world \<Rightarrow> (unit \<times> world) option" where
  "pthreads_store_persist_local_properties t obj w = do {
     threaded \<leftarrow> w_obj w obj;
     let a = zo_ts_obj threaded;
     _ \<leftarrow> w_ts w a;
     with_monitor t (LTs a)
       (\<lambda>w. do {
          ts_obj \<leftarrow> w_ts w a;
          let ht = store_hash (ts_props ts_obj);
          let (ps, w) = persist_entries t (ht_buckets ht) w;
          w \<leftarrow> set_hash a (ht\<lparr>ht_buckets := ps\<rparr>) w;
          Some ((), w) })
       (\<lambda>w. Some ((), w)) w }"

text \<open>
  \<open>pthreads_store_hard_copy_storage\<close>: strings are copied into persistent memory; every other
  cell is copied as it is.
\<close>

definition pthreads_store_hard_copy_storage :: "zval \<Rightarrow> world \<Rightarrow> zval \<times> world" where
  "pthreads_store_hard_copy_storage zstorage w =
     (case zstorage of
        IS_PTR (STORE_TYPE_STRING_PTR s _) \<Rightarrow>
          (let (copy, w) = pthreads_store_save_string s w in (IS_STRING copy, w))
      | IS_PTR storage \<Rightarrow> (IS_PTR storage, w)
      | IS_STRING s \<Rightarrow> (let (copy, w) = pthreads_store_save_string s w in (IS_STRING copy, w))
      | _ \<Rightarrow> (zstorage, w))"

end
