(* ===== verification/Store_Facts.thy ===== *)
theory Store_Facts
  imports Store_Core
begin

text \<open>
  What the operations of \<open>Store_Core\<close> do, as equations on the state: each returns, and
  changes exactly the shared table of the object and its own local cache.
\<close>

section \<open>Connections and live values\<close>

text \<open>A zend object at \<open>obj\<close> whose thread-safe part is allocated.\<close>

definition connected :: "world \<Rightarrow> addr \<Rightarrow> pthreads_zend_object \<Rightarrow> pthreads_object \<Rightarrow> bool" where
  "connected w obj ob ts \<longleftrightarrow> w_obj w obj = Some ob \<and> w_ts w (zo_ts_obj ob) = Some ts"

text \<open>A value whose object, if the extension looks inside it, is allocated.\<close>

fun zval_alive :: "world \<Rightarrow> zval \<Rightarrow> bool" where
  "zval_alive w (IS_OBJECT (ThreadedObject a)) \<longleftrightarrow> w_obj w a \<noteq> None"
| "zval_alive w (IS_OBJECT (SocketObject a)) \<longleftrightarrow> w_sockets w a \<noteq> None"
| "zval_alive w (IS_INDIRECT v) \<longleftrightarrow> zval_alive w v"
| "zval_alive w (IS_REFERENCE v) \<longleftrightarrow> zval_alive w v"
| "zval_alive w v \<longleftrightarrow> True"

definition registry_ok :: "world \<Rightarrow> bool" where
  "registry_ok w \<longleftrightarrow> (\<forall>a\<in>g_objects (w_globals w). a \<noteq> 0 \<and> w_obj w a \<noteq> None)"

definition table_ok :: "world \<Rightarrow> hash \<Rightarrow> bool" where
  "table_ok w ht \<longleftrightarrow> ht_ok ht \<and> (\<forall>p\<in>set (ht_buckets ht). zval_alive w (snd p))"

definition cache_ok :: "world \<Rightarrow> pthreads_zend_object \<Rightarrow> bool" where
  "cache_ok w ob \<longleftrightarrow> (case zo_properties ob of None \<Rightarrow> True | Some ht \<Rightarrow> table_ok w ht)"

lemma table_ok_init [simp]: "table_ok w zend_hash_init"
  by (simp add: table_ok_def zend_hash_init_def ht_ok_def)

lemma alive_update:
  "\<forall>p\<in>set ps. zval_alive w (snd p) \<Longrightarrow> zval_alive w v \<Longrightarrow>
     \<forall>p\<in>set (AList.update k v ps). zval_alive w (snd p)"
  by (induction ps) auto

lemma table_ok_update: "table_ok w ht \<Longrightarrow> zval_alive w v \<Longrightarrow> table_ok w (zend_hash_update ht k v)"
  using alive_update [of "ht_buckets ht" w v k]
  by (simp add: table_ok_def zend_hash_update_def ht_ok_def AList.distinct_update)

lemma table_ok_filter: "table_ok w ht \<Longrightarrow> table_ok w (ht\<lparr>ht_buckets := filter P (ht_buckets ht)\<rparr>)"
  by (simp add: table_ok_def ht_ok_def distinct_map_filter)

lemma table_ok_del: "table_ok w ht \<Longrightarrow> table_ok w (snd (zend_hash_del ht k))"
  using zht.del_entries [of ht k]
  by (auto simp: table_ok_def)

text \<open>
  Everything an operation on \<open>obj\<close> needs: the object is connected, its cache refers to live
  objects, and the thread can enter the object's monitor and the global one.
\<close>

definition store_ready ::
  "nat \<Rightarrow> tid \<Rightarrow> addr \<Rightarrow> pthreads_zend_object \<Rightarrow> pthreads_object \<Rightarrow> world \<Rightarrow> bool" where
  "store_ready n t obj ob ts w \<longleftrightarrow> connected w obj ob ts \<and> registry_ok w \<and> cache_ok w ob \<and>
     ht_ok (store_hash (ts_props ts)) \<and> can_lock n {LTs (zo_ts_obj ob), LGlobal} t w"

lemma connectedD:
  assumes "connected w obj ob ts"
  shows "w_obj w obj = Some ob" and "w_ts w (zo_ts_obj ob) = Some ts"
  using assms by (simp_all add: connected_def)

lemma connected_lock_w [simp]: "connected (lock_w t l w) obj ob ts = connected w obj ob ts"
  and registry_ok_lock_w [simp]: "registry_ok (lock_w t l w) = registry_ok w"
  by (simp_all add: connected_def registry_ok_def)

lemma zval_alive_cong:
  "dom (w_obj w') = dom (w_obj w) \<Longrightarrow> dom (w_sockets w') = dom (w_sockets w) \<Longrightarrow>
     zval_alive w' v = zval_alive w v"
  by (induction w v rule: zval_alive.induct) (auto simp: domIff)

lemma cache_ok_cong:
  assumes "dom (w_obj w') = dom (w_obj w)" and "dom (w_sockets w') = dom (w_sockets w)"
  shows "cache_ok w' ob = cache_ok w ob"
  by (simp add: cache_ok_def table_ok_def zval_alive_cong [OF assms] split: option.split)

lemma cache_ok_lock_w [simp]: "cache_ok (lock_w t l w) ob = cache_ok w ob"
  by (rule cache_ok_cong) simp_all

lemma set_obj_same: "w_obj w a = Some b \<Longrightarrow> set_obj a b w = w"
  by (simp add: set_obj_def fun_upd_idem)

lemma set_obj_twice [simp]: "set_obj a b (set_obj a b' w) = set_obj a b w"
  by (simp add: set_obj_def)

lemma set_ts_twice [simp]: "set_ts a b (set_ts a b' w) = set_ts a b w"
  by (simp add: set_ts_def)

lemma set_obj_set_ts: "set_ts a b (set_obj c d w) = set_obj c d (set_ts a b w)"
  by (simp add: set_obj_def set_ts_def)

lemma set_obj_globals: "set_globals g (set_obj a b w) = set_obj a b (set_globals g w)"
  by (simp add: set_obj_def set_globals_def)

lemma store_readyD:
  assumes "store_ready n t obj ob ts w"
  shows "connected w obj ob ts" and "registry_ok w" and "cache_ok w ob"
    and "ht_ok (store_hash (ts_props ts))" and "can_lock n {LTs (zo_ts_obj ob), LGlobal} t w"
  using assms by (simp_all add: store_ready_def)

lemma store_ready_inside:
  "store_ready (Suc n) t obj ob ts w \<Longrightarrow> store_ready n t obj ob ts (lock_w t l w)"
  by (simp add: store_ready_def can_lock_inside)

section \<open>Synchronising the cache\<close>

definition keeps :: "tid \<Rightarrow> world \<Rightarrow> zval option \<Rightarrow> zval \<Rightarrow> bool" where
  "keeps t w zstorage val \<longleftrightarrow>
     (let val = ZVAL_DEINDIRECT val in
      case TRY_PTHREADS_STORAGE_PTR_P zstorage of
        None \<Rightarrow> False
      | Some (STORE_TYPE_PTHREADS shared) \<Rightarrow>
          (case IS_PTHREADS_OBJECT val of
             None \<Rightarrow> False
           | Some local \<Rightarrow> shared = local \<or> shared \<in> g_objects (w_globals w) \<and>
               map_option zo_ts_obj (w_obj w shared) = map_option zo_ts_obj (w_obj w local))
      | Some (STORE_TYPE_CLOSURE shared _) \<Rightarrow> IS_PTHREADS_CLOSURE_OBJECT val = Some shared
      | Some (STORE_TYPE_SOCKET fd _ _ _) \<Rightarrow>
          (case IS_EXT_SOCKETS_OBJECT val of
             None \<Rightarrow> False | Some s \<Rightarrow> map_option bsd_socket (w_sockets w s) = Some fd)
      | Some (STORE_TYPE_STRING_PTR str owner) \<Rightarrow>
          (case Z_STR val of None \<Rightarrow> False | Some s \<Rightarrow> ident_ls owner = t \<and> zs_addr str = zs_addr s)
      | Some _ \<Rightarrow> False)"

definition synced :: "tid \<Rightarrow> world \<Rightarrow> pthreads_store \<Rightarrow> pthreads_zend_object \<Rightarrow> pthreads_zend_object" where
  "synced t w st ob =
     (if zo_local_props_modcount ob = store_modcount st then ob
      else ob\<lparr>zo_properties := map_option (\<lambda>ht. ht\<lparr>ht_buckets :=
              filter (\<lambda>p. keeps t w (zend_hash_find (store_hash st) (fst p)) (snd p)) (ht_buckets ht)\<rparr>)
              (zo_properties ob),
           zo_local_props_modcount := store_modcount st\<rparr>)"

lemma zval_alive_deindirect: "zval_alive w v \<Longrightarrow> zval_alive w (ZVAL_DEINDIRECT v)"
  by (cases v) (simp_all add: ZVAL_DEINDIRECT_def)

lemma alive_threaded: "zval_alive w v \<Longrightarrow> IS_PTHREADS_OBJECT v = Some a \<Longrightarrow> \<exists>b. w_obj w a = Some b"
  by (auto simp: IS_PTHREADS_OBJECT_def split: zval.splits zobject.splits)

lemma alive_socket: "zval_alive w v \<Longrightarrow> IS_EXT_SOCKETS_OBJECT v = Some a \<Longrightarrow> \<exists>s. w_sockets w a = Some s"
  by (auto simp: IS_EXT_SOCKETS_OBJECT_def split: zval.splits zobject.splits)

lemma sync_keeps_ok:
  assumes "can_lock (Suc n) L t w" and "LGlobal \<in> L" and "registry_ok w" and "zval_alive w v"
  shows "sync_keeps t z v w = Some (keeps t w z v, w)"
proof -
  note alive = alive_threaded [OF zval_alive_deindirect [OF assms(4)]]
    alive_socket [OF zval_alive_deindirect [OF assms(4)]]
  have live: "\<exists>b. w_obj w a = Some b" "a \<noteq> 0" if "a \<in> g_objects (w_globals w)" for a
    using assms(3) that by (auto simp: registry_ok_def)
  let ?v = "ZVAL_DEINDIRECT v"
  show ?thesis
  proof (cases "TRY_PTHREADS_STORAGE_PTR_P z")
    case (Some s)
    then show ?thesis
    proof (cases s)
      case (STORE_TYPE_PTHREADS shared)
      show ?thesis
      proof (cases "IS_PTHREADS_OBJECT ?v")
        case None
        with Some STORE_TYPE_PTHREADS show ?thesis by (simp add: sync_keeps_def keeps_def)
      next
        case (Some local)
        from alive(1) [OF this] obtain b where "w_obj w local = Some b" ..
        with Some \<open>TRY_PTHREADS_STORAGE_PTR_P z = Some s\<close> STORE_TYPE_PTHREADS live [of shared]
        show ?thesis
          by (auto simp: sync_keeps_def keeps_def object_valid_ok [OF assms(1,2)])
      qed
    next
      case (STORE_TYPE_SOCKET fd x y b)
      with Some alive(2) show ?thesis
        by (cases "IS_EXT_SOCKETS_OBJECT ?v") (auto simp: sync_keeps_def keeps_def)
    next
      case (STORE_TYPE_STRING_PTR str owner)
      with Some show ?thesis by (cases "Z_STR ?v") (simp_all add: sync_keeps_def keeps_def)
    qed (simp_all add: sync_keeps_def keeps_def Some)
  qed (simp add: sync_keeps_def keeps_def)
qed

lemma sync_entries_ok:
  assumes "can_lock (Suc n) L t w" and "LGlobal \<in> L" and "registry_ok w"
    and "\<forall>p\<in>set ps. zval_alive w (snd p)"
  shows "sync_entries t ht ps w =
    Some (filter (\<lambda>p. keeps t w (zend_hash_find ht (fst p)) (snd p)) ps, w)"
  using assms(4) by (induction ps) (auto simp: sync_keeps_ok [OF assms(1-3)])

lemma sync_local_ok:
  assumes "connected w obj ob ts" and "registry_ok w" and "cache_ok w ob"
    and "can_lock (Suc n) L t w" and "LGlobal \<in> L"
  shows "pthreads_store_sync_local_properties t obj w = Some (set_obj obj (synced t w (ts_props ts) ob) w)"
proof (cases "zo_local_props_modcount ob = store_modcount (ts_props ts)")
  case True
  with connectedD [OF assms(1)] show ?thesis
    by (simp add: pthreads_store_sync_local_properties_def synced_def set_obj_same)
next
  case False
  have alive: "\<forall>p\<in>set (ht_buckets ht). zval_alive w (snd p)" if "zo_properties ob = Some ht" for ht
    using assms(3) that by (simp add: cache_ok_def table_ok_def)
  show ?thesis
    using connectedD [OF assms(1)] False sync_entries_ok [OF assms(4,5,2) alive]
    by (cases "zo_properties ob") (simp_all add: pthreads_store_sync_local_properties_def synced_def)
qed

lemma synced_simps [simp]:
  "zo_ts_obj (synced t w st ob) = zo_ts_obj ob"
  "zo_owner (synced t w st ob) = zo_owner ob"
  "zo_original_zobj (synced t w st ob) = zo_original_zobj ob"
  "zo_ce (synced t w st ob) = zo_ce ob"
  "zo_worker_data (synced t w st ob) = zo_worker_data ob"
  "zo_local_props_modcount (synced t w st ob) = store_modcount st"
  by (simp_all add: synced_def)

lemma synced_cache_ok: "cache_ok w ob \<Longrightarrow> cache_ok w (synced t w' st ob)"
  by (auto simp: cache_ok_def synced_def table_ok_filter split: option.splits)

text \<open>The world matters to \<open>keeps\<close> only through the registry, the sockets and the sharing.\<close>

definition same_objects :: "world \<Rightarrow> world \<Rightarrow> bool" where
  "same_objects w w' \<longleftrightarrow> g_objects (w_globals w') = g_objects (w_globals w) \<and>
     w_sockets w' = w_sockets w \<and>
     (\<forall>a. map_option zo_ts_obj (w_obj w' a) = map_option zo_ts_obj (w_obj w a))"

lemma same_objects_refl: "same_objects w w"
  by (simp add: same_objects_def)

lemma keeps_same: "same_objects w w' \<Longrightarrow> keeps t w' z v = keeps t w z v"
  by (simp add: keeps_def same_objects_def Let_def split: option.split pthreads_storage.split)

lemma synced_same: "same_objects w w' \<Longrightarrow> synced t w' st ob = synced t w st ob"
  by (simp add: synced_def keeps_same)

lemma same_objects_dom: "same_objects w w' \<Longrightarrow> dom (w_obj w') = dom (w_obj w)"
  unfolding same_objects_def dom_def by (metis (no_types, lifting) option.map_disc_iff)

lemma same_objects_cache: "same_objects w w' \<Longrightarrow> cache_ok w' ob = cache_ok w ob"
  by (rule cache_ok_cong) (erule same_objects_dom, simp add: same_objects_def)

lemma same_objects_alive: "same_objects w w' \<Longrightarrow> zval_alive w' v = zval_alive w v"
  by (rule zval_alive_cong) (erule same_objects_dom, simp add: same_objects_def)

lemma same_objects_registry: "same_objects w w' \<Longrightarrow> registry_ok w' = registry_ok w"
  using same_objects_dom [of w w'] by (auto simp: registry_ok_def same_objects_def dom_def)

lemma same_objects_lock [simp]: "same_objects w (lock_w t l w') = same_objects w w'"
  by (simp add: same_objects_def)

lemma same_objects_set_obj:
  "w_obj w a = Some b \<Longrightarrow> zo_ts_obj b' = zo_ts_obj b \<Longrightarrow> same_objects w (set_obj a b' w)"
  by (simp add: same_objects_def)

section \<open>Saving and updating\<close>

text \<open>
  Saving a value touches nothing but the table of shared sockets and, for the names of an
  enum case, the memory that is still free.
\<close>

definition globals_step :: "world \<Rightarrow> world \<Rightarrow> bool" where
  "globals_step w w' \<longleftrightarrow> (\<exists>g n. w' = set_globals g (w\<lparr>w_next := n\<rparr>) \<and> w_next w \<le> n \<and>
     g_objects g = g_objects (w_globals w) \<and> g_interned_strings g = g_interned_strings (w_globals w))"

lemma globals_step_next: "w_next w \<le> n \<Longrightarrow> globals_step w (w\<lparr>w_next := n\<rparr>)"
  by (auto simp: globals_step_def set_globals_def intro!: exI [of _ "w_globals w"])

lemma globals_step_refl [simp]: "globals_step w w"
  using globals_step_next [of w "w_next w"] by simp

lemma globals_step_sockets [simp]:
  "globals_step w (set_globals ((w_globals w)\<lparr>g_shared_sockets := S\<rparr>) w)"
  unfolding globals_step_def
  by (rule exI [of _ "(w_globals w)\<lparr>g_shared_sockets := S\<rparr>"], rule exI [of _ "w_next w"]) simp

lemma save_string_step: "\<exists>s' n. pthreads_store_save_string s w = (s', w\<lparr>w_next := n\<rparr>) \<and> w_next w \<le> n"
proof (cases "zs_permanent s")
  case True
  then have "pthreads_store_save_string s w = (s, w\<lparr>w_next := w_next w\<rparr>)" by (simp add: pthreads_store_save_string_def)
  then show ?thesis by blast
next
  case False
  then show ?thesis by (auto simp: pthreads_store_save_string_def zend_string_init_def alloc_def intro!: exI [of _ "Suc (w_next w)"])
qed

lemma globals_stepD:
  assumes "globals_step w w'"
  shows "w_obj w' = w_obj w" and "w_ts w' = w_ts w" and "w_monitors w' = w_monitors w"
    and "w_zg w' = w_zg w" and "w_thrown w' = w_thrown w" and "w_next w \<le> w_next w'"
    and "same_objects w w'"
proof -
  from assms obtain g n where w': "w' = set_globals g (w\<lparr>w_next := n\<rparr>)" and "w_next w \<le> n"
    and g: "g_objects g = g_objects (w_globals w)"
    unfolding globals_step_def by blast
  show "w_obj w' = w_obj w" "w_ts w' = w_ts w" "w_monitors w' = w_monitors w" "w_zg w' = w_zg w"
    "w_thrown w' = w_thrown w" "w_next w \<le> w_next w'"
    using \<open>w_next w \<le> n\<close> by (simp_all add: w')
  show "same_objects w w'" by (simp add: same_objects_def w' g)
qed

lemma store_create_ok:
  assumes "can_lock (Suc n) L t w" and "LGlobal \<in> L" and "zval_alive w v"
  shows "\<exists>r w'. pthreads_store_create t source v w = Some (r, w') \<and> globals_step w w'"
  using assms
proof (induction t source v w rule: pthreads_store_create.induct)
  case (5 t source c m w)
  obtain c' n\<^sub>1 where c: "pthreads_store_save_string c w = (c', w\<lparr>w_next := n\<^sub>1\<rparr>)" "w_next w \<le> n\<^sub>1"
    using save_string_step by blast
  obtain m' n\<^sub>2 where m: "pthreads_store_save_string m (w\<lparr>w_next := n\<^sub>1\<rparr>) = (m', w\<lparr>w_next := n\<^sub>2\<rparr>)" "n\<^sub>1 \<le> n\<^sub>2"
    using save_string_step [of m "w\<lparr>w_next := n\<^sub>1\<rparr>"] by auto
  from c m show ?case by (simp add: globals_step_next)
next
  case (8 t source a w)
  then obtain s where s: "w_sockets w a = Some s" by auto
  note track = socket_track_ok [OF "8.prems"(1,2), of "bsd_socket s"]
  show ?case
    using s track by (simp add: IS_INVALID_SOCKET_def)
qed auto

lemma save_zval_ok:
  assumes "can_lock (Suc n) L t w" and "LGlobal \<in> L" and "zval_alive w v"
  shows "\<exists>r w'. pthreads_store_save_zval t source v w = Some (r, w') \<and> globals_step w w'"
  using store_create_ok [OF assms, of source]
  by (cases v) (auto simp: pthreads_store_save_zval_def)

text \<open>The storage a value is saved as.\<close>

definition saved :: "tid \<Rightarrow> pthreads_ident \<Rightarrow> zval \<Rightarrow> world \<Rightarrow> zval option" where
  "saved t source v w = (case pthreads_store_save_zval t source v w of Some (r, _) \<Rightarrow> r | None \<Rightarrow> None)"

definition bumped :: "bool \<Rightarrow> pthreads_store \<Rightarrow> pthreads_zend_object \<Rightarrow> pthreads_zend_object" where
  "bumped c st ob = (if c \<and> zo_local_props_modcount ob = store_modcount st
     then ob\<lparr>zo_local_props_modcount := zo_local_props_modcount ob + 1\<rparr> else ob)"

definition bump_store :: "bool \<Rightarrow> pthreads_store \<Rightarrow> pthreads_store" where
  "bump_store c st = (if c then st\<lparr>store_modcount := store_modcount st + 1\<rparr> else st)"

lemma bumped_simps [simp]:
  "zo_ts_obj (bumped c st ob) = zo_ts_obj ob" "zo_properties (bumped c st ob) = zo_properties ob"
  "zo_owner (bumped c st ob) = zo_owner ob" "zo_ce (bumped c st ob) = zo_ce ob"
  "zo_original_zobj (bumped c st ob) = zo_original_zobj ob"
  "store_hash (bump_store c st) = store_hash st"
  "store_modcount (bump_store c st) = store_modcount st + (if c then 1 else 0)"
  by (simp_all add: bumped_def bump_store_def)

lemma bumped_local:
  "zo_local_props_modcount (bumped c st ob) =
     (if c \<and> zo_local_props_modcount ob = store_modcount st then store_modcount st + 1
      else zo_local_props_modcount ob)"
  by (simp add: bumped_def)

definition cache_put :: "zend_engine \<Rightarrow> zkey \<Rightarrow> zval \<Rightarrow> pthreads_zend_object \<Rightarrow> pthreads_zend_object" where
  "cache_put E k v ob =
     (if pthreads_store_retain_in_local_cache v
      then (rebuild_object_properties E ob)\<lparr>zo_properties :=
         map_option (\<lambda>ht. zend_hash_update ht k v) (zo_properties (rebuild_object_properties E ob))\<rparr>
      else ob)"

lemma rebuild_simps [simp]:
  "zo_ts_obj (rebuild_object_properties E ob) = zo_ts_obj ob"
  "zo_owner (rebuild_object_properties E ob) = zo_owner ob"
  "zo_original_zobj (rebuild_object_properties E ob) = zo_original_zobj ob"
  "zo_local_props_modcount (rebuild_object_properties E ob) = zo_local_props_modcount ob"
  "zo_properties (rebuild_object_properties E ob) \<noteq> None"
  by (auto simp: rebuild_object_properties_def split: option.split)

lemma cache_put_simps [simp]:
  "zo_ts_obj (cache_put E k v ob) = zo_ts_obj ob"
  "zo_owner (cache_put E k v ob) = zo_owner ob"
  "zo_original_zobj (cache_put E k v ob) = zo_original_zobj ob"
  "zo_local_props_modcount (cache_put E k v ob) = zo_local_props_modcount ob"
  by (simp_all add: cache_put_def)

lemma update_local_ok:
  "w_obj w obj = Some ob \<Longrightarrow>
     pthreads_store_update_local_property E obj k v w = Some (set_obj obj (cache_put E k v ob) w)"
  using rebuild_simps(5) [of E ob]
  by (auto simp: pthreads_store_update_local_property_def cache_put_def
      pthreads_store_init_local_properties_def set_obj_same simp del: rebuild_simps(5))

section \<open>The operations as equations\<close>

definition store_put :: "zkey \<Rightarrow> zval \<Rightarrow> pthreads_store \<Rightarrow> pthreads_store" where
  "store_put k z st = (bump_store (pthreads_store_storage_is_cacheable (zend_hash_find (store_hash st) k)) st)
     \<lparr>store_hash := zend_hash_update (store_hash st) k z\<rparr>"

definition store_remove :: "zkey \<Rightarrow> pthreads_store \<Rightarrow> pthreads_store" where
  "store_remove k st = (bump_store (pthreads_store_storage_is_cacheable (zend_hash_find (store_hash st) k)) st)
     \<lparr>store_hash := snd (zend_hash_del (store_hash st) k)\<rparr>"

lemma store_put_simps [simp]:
  "store_hash (store_put k z st) = zend_hash_update (store_hash st) k z"
  "store_hash (store_remove k st) = snd (zend_hash_del (store_hash st) k)"
  by (simp_all add: store_put_def store_remove_def)

lemma store_put_modcount:
  "store_modcount (store_put k z st) = store_modcount st +
     (if pthreads_store_storage_is_cacheable (zend_hash_find (store_hash st) k) then 1 else 0)"
  "store_modcount (store_remove k st) = store_modcount st +
     (if pthreads_store_storage_is_cacheable (zend_hash_find (store_hash st) k) then 1 else 0)"
  by (simp_all add: store_put_def store_remove_def)

text \<open>The writing object after a write: its counter, its cache purged, the value cached.\<close>

definition writer_after ::
  "zend_engine \<Rightarrow> tid \<Rightarrow> world \<Rightarrow> zkey \<Rightarrow> zval \<Rightarrow> zval \<Rightarrow> pthreads_store \<Rightarrow> pthreads_zend_object \<Rightarrow>
   pthreads_zend_object" where
  "writer_after E t w k z v st ob = cache_put E k v (synced t w (store_put k z st)
     (bumped (pthreads_store_storage_is_cacheable (zend_hash_find (store_hash st) k)) st ob))"

lemma bump_ok:
  assumes "connected w obj ob ts"
  shows "pthreads_store_bump_modcount_nolock obj w =
    Some (set_obj obj (bumped True (ts_props ts) ob)
      (set_ts (zo_ts_obj ob) (ts\<lparr>ts_props := bump_store True (ts_props ts)\<rparr>) w))"
  using connectedD [OF assms]
  by (simp add: pthreads_store_bump_modcount_nolock_def bumped_def bump_store_def set_obj_set_ts set_obj_same Let_def)

lemma set_hash_ok:
  "w_ts w a = Some ts \<Longrightarrow>
     set_hash a ht w = Some (set_ts a (ts\<lparr>ts_props := (ts_props ts)\<lparr>store_hash := ht\<rparr>\<rparr>) w)"
  by (simp add: set_hash_def)

lemma connected_other:
  "connected w obj ob ts \<Longrightarrow> w_obj w' = w_obj w \<Longrightarrow> w_ts w' = w_ts w \<Longrightarrow> connected w' obj ob ts"
  by (simp add: connected_def)

lemma set_hash_same:
  "w_ts w a = Some ts \<Longrightarrow> ts\<lparr>ts_props := (ts_props ts)\<lparr>store_hash := store_hash (ts_props ts)\<rparr>\<rparr> = ts"
  by simp

lemma member_cacheable_ok:
  "connected w obj ob ts \<Longrightarrow> pthreads_store_member_is_cacheable obj k w =
     Some (pthreads_store_storage_is_cacheable (zend_hash_find (store_hash (ts_props ts)) k))"
  by (simp add: pthreads_store_member_is_cacheable_def connected_def)

lemma store_upd_commute:
  "store_hash_update f (store_modcount_update g st) = store_modcount_update g (store_hash_update f st)"
  by simp

text \<open>Replacing the shared table and counting the modification when it concerns the caches.\<close>

lemma bump_after_hash:
  assumes "connected w obj ob ts"
  shows "(if c then pthreads_store_bump_modcount_nolock obj
            (set_ts (zo_ts_obj ob) (ts\<lparr>ts_props := (ts_props ts)\<lparr>store_hash := ht\<rparr>\<rparr>) w)
          else Some (set_ts (zo_ts_obj ob) (ts\<lparr>ts_props := (ts_props ts)\<lparr>store_hash := ht\<rparr>\<rparr>) w)) =
    Some (set_obj obj (bumped c (ts_props ts) ob)
      (set_ts (zo_ts_obj ob) (ts\<lparr>ts_props := (bump_store c (ts_props ts))\<lparr>store_hash := ht\<rparr>\<rparr>) w))"
proof (cases c)
  case True
  let ?ts = "ts\<lparr>ts_props := (ts_props ts)\<lparr>store_hash := ht\<rparr>\<rparr>"
  have "connected (set_ts (zo_ts_obj ob) ?ts w) obj ob ?ts"
    using connectedD [OF assms] by (simp add: connected_def)
  from bump_ok [OF this] True show ?thesis
    by (simp add: bumped_def bump_store_def store_upd_commute)
next
  case False
  with connectedD [OF assms] show ?thesis
    by (simp add: bumped_def bump_store_def set_obj_same)
qed

lemma cache_ok_bumped: "cache_ok w ob \<Longrightarrow> cache_ok w (bumped c st ob)"
  by (simp add: cache_ok_def)

lemma same_objects_set_ts [simp]: "same_objects w (set_ts a c w') = same_objects w w'"
  by (simp add: same_objects_def)

lemma same_objects_put:
  assumes "w_obj w obj = Some ob" and "same_objects w w'" and "zo_ts_obj ob' = zo_ts_obj ob"
  shows "same_objects w (set_obj obj ob' w')"
  using assms by (auto simp: same_objects_def)

lemma write_section_ok:
  fixes k :: zkey
  assumes "connected w obj ob ts" and "registry_ok w" and "cache_ok w ob"
    and "can_lock (Suc n) L t w" and "LGlobal \<in> L"
  defines "st \<equiv> ts_props ts"
  defines "c \<equiv> pthreads_store_storage_is_cacheable (zend_hash_find (store_hash st) k)"
  shows "store_write_locked t obj (zo_ts_obj ob) k z w =
    Some (Some k, set_obj obj (synced t w (store_put k z st) (bumped c st ob))
      (set_ts (zo_ts_obj ob) (ts\<lparr>ts_props := store_put k z st\<rparr>) w))"
proof -
  let ?w = "set_obj obj (bumped c st ob) (set_ts (zo_ts_obj ob) (ts\<lparr>ts_props := store_put k z st\<rparr>) w)"
  note conn = connectedD [OF assms(1)]
  have same: "same_objects w ?w"
    using conn by (intro same_objects_put) (simp_all add: same_objects_refl)
  have "connected ?w obj (bumped c st ob) (ts\<lparr>ts_props := store_put k z st\<rparr>)"
    by (simp add: connected_def)
  moreover have "registry_ok ?w" using assms(2) same by (simp add: same_objects_registry)
  moreover have "cache_ok ?w (bumped c st ob)"
    using assms(3) same by (simp add: same_objects_cache cache_ok_bumped)
  moreover have "can_lock (Suc n) L t ?w" by (rule can_lock_same [OF _ assms(4)]) simp
  ultimately have sync: "pthreads_store_sync_local_properties t obj ?w =
      Some (set_obj obj (synced t w (store_put k z st) (bumped c st ob)) ?w)"
    using sync_local_ok [OF _ _ _ _ assms(5)] by (simp add: synced_same [OF same])
  have "(if c then pthreads_store_bump_modcount_nolock obj
            (set_ts (zo_ts_obj ob) (ts\<lparr>ts_props := st\<lparr>store_hash := zend_hash_update (store_hash st) k z\<rparr>\<rparr>) w)
          else Some (set_ts (zo_ts_obj ob) (ts\<lparr>ts_props := st\<lparr>store_hash := zend_hash_update (store_hash st) k z\<rparr>\<rparr>) w)) =
    Some ?w"
    unfolding st_def by (subst bump_after_hash [OF assms(1)]) (simp add: store_put_def st_def c_def)
  with sync conn show ?thesis
    by (simp add: store_write_locked_def member_cacheable_ok [OF assms(1)] pthreads_store_update_shared_property_def
        set_hash_ok st_def [symmetric] c_def [symmetric])
qed

lemma store_write_ok:
  fixes E :: zend_engine and key :: "zval option"
  assumes ready: "store_ready (Suc (Suc n)) t obj ob ts w"
    and save: "pthreads_store_save_zval t (zo_owner ob) v w = Some (Some z, w\<^sub>1)"
    and step: "globals_step w w\<^sub>1"
  defines "st \<equiv> ts_props ts"
  defines "k \<equiv> key_of E (store_hash st) key"
  shows "store_write_zval E t obj key v w =
    Some (SUCCESS, set_obj obj (writer_after E t w k z v st ob)
      (set_ts (zo_ts_obj ob) (ts\<lparr>ts_props := store_put k z st\<rparr>) w\<^sub>1))"
proof -
  note r = store_readyD [OF ready] and g = globals_stepD [OF step]
  let ?a = "zo_ts_obj ob" and ?L = "{LTs (zo_ts_obj ob), LGlobal}"
  let ?c = "pthreads_store_storage_is_cacheable (zend_hash_find (store_hash st) k)"
  have c1: "connected w\<^sub>1 obj ob ts" using r(1) g(1,2) by (rule connected_other)
  note conn = connectedD [OF c1] connectedD [OF r(1)]
  have l1: "can_lock (Suc (Suc n)) ?L t w\<^sub>1" by (rule can_lock_same [OF g(3) r(5)])
  let ?w = "lock_w t (LTs ?a) w\<^sub>1"
  have reg: "registry_ok ?w" using r(2) g(7) by (simp add: same_objects_registry)
  have ca: "cache_ok ?w ob" using r(3) g(7) by (simp add: same_objects_cache)
  note sec = write_section_ok [of ?w obj ob ts n ?L t k z, OF _ reg ca can_lock_inside [OF l1]]
  have "synced t ?w (store_put k z st) (bumped ?c st ob) = synced t w (store_put k z st) (bumped ?c st ob)"
    using g(7) by (intro synced_same) simp
  then have section_ok: "with_monitor t (LTs ?a)
      (\<lambda>w. do { ts_obj \<leftarrow> w_ts w ?a;
         store_write_locked t obj ?a (key_of E (store_hash (ts_props ts_obj)) key) z w })
      (\<lambda>w. Some (None, w)) w\<^sub>1 =
    Some (Some k, set_obj obj (synced t w (store_put k z st) (bumped ?c st ob))
      (set_ts ?a (ts\<lparr>ts_props := store_put k z st\<rparr>) w\<^sub>1))"
    using c1 conn sec
    by (intro with_monitor_ok [OF l1]) (simp_all add: k_def st_def)
  show ?thesis
    using conn save unfolding store_write_zval_def
    by (simp add: section_ok) (simp add: update_local_ok writer_after_def)
qed

lemma store_write_unsupported:
  assumes ready: "store_ready n t obj ob ts w"
    and save: "pthreads_store_save_zval t (zo_owner ob) v w = Some (None, w\<^sub>1)"
  shows "store_write_zval E t obj key v w = Some (FAILURE, throw t UnsupportedDataType w\<^sub>1)"
  using connectedD [OF store_readyD(1) [OF ready]] save by (simp add: store_write_zval_def)

lemma store_isset_ok:
  assumes "store_ready (Suc n) t obj ob ts w"
  shows "pthreads_store_isset E t obj key mode w = Some (storage_isset mode
    (zend_hash_find (store_hash (ts_props ts)) (snd (pthreads_store_coerce E key))), w)"
proof -
  note r = store_readyD [OF assms] note conn = connectedD [OF r(1)]
  obtain c k where k: "pthreads_store_coerce E key = (c, k)" by fastforce
  show ?thesis
    unfolding pthreads_store_isset_def
    by (simp add: conn k Let_def, rule with_monitor_ok [OF r(5)]) (simp_all add: conn)
qed

lemma store_count_ok:
  assumes "store_ready (Suc n) t obj ob ts w"
  shows "pthreads_store_count t obj w = Some (zend_hash_num_elements (store_hash (ts_props ts)), w)"
proof -
  note r = store_readyD [OF assms] note conn = connectedD [OF r(1)]
  show ?thesis
    unfolding pthreads_store_count_def
    by (simp add: conn Let_def, rule with_monitor_ok [OF r(5)]) (simp_all add: conn)
qed

definition cache_del :: "zkey \<Rightarrow> pthreads_zend_object \<Rightarrow> pthreads_zend_object" where
  "cache_del k ob = ob\<lparr>zo_properties := map_option (\<lambda>ht. snd (zend_hash_del ht k)) (zo_properties ob)\<rparr>"

lemma cache_del_simps [simp]:
  "zo_ts_obj (cache_del k ob) = zo_ts_obj ob" "zo_owner (cache_del k ob) = zo_owner ob"
  "zo_original_zobj (cache_del k ob) = zo_original_zobj ob"
  "zo_local_props_modcount (cache_del k ob) = zo_local_props_modcount ob"
  by (simp_all add: cache_del_def)

lemma del_local_ok:
  "w_obj w obj = Some ob \<Longrightarrow> del_local obj k w = Some (set_obj obj (cache_del k ob) w)"
  by (cases "zo_properties ob") (simp_all add: del_local_def cache_del_def set_obj_same)

text \<open>
  Deleting a member: the state after it has been removed from the shared table and from
  the cache of the deleting object, or the state unchanged when it is not there.
\<close>

definition after_remove ::
  "addr \<Rightarrow> zkey \<Rightarrow> pthreads_zend_object \<Rightarrow> pthreads_object \<Rightarrow> world \<Rightarrow> world" where
  "after_remove obj k ob ts w =
     set_obj obj (cache_del k (bumped (pthreads_store_storage_is_cacheable
         (zend_hash_find (store_hash (ts_props ts)) k)) (ts_props ts) ob))
       (set_ts (zo_ts_obj ob) (ts\<lparr>ts_props := store_remove k (ts_props ts)\<rparr>) w)"

lemma set_ts_same: "w_ts w a = Some c \<Longrightarrow> set_ts a c w = w"
  by (simp add: set_ts_def fun_upd_idem)

lemma store_delete_locked_ok:
  fixes k :: zkey
  assumes "connected w obj ob ts"
  defines "e \<equiv> zend_hash_exists (store_hash (ts_props ts)) k"
  shows "store_delete_locked obj (zo_ts_obj ob) k w = Some (if e then SUCCESS else FAILURE,
    if e then set_obj obj (bumped (pthreads_store_storage_is_cacheable
          (zend_hash_find (store_hash (ts_props ts)) k)) (ts_props ts) ob)
        (set_ts (zo_ts_obj ob) (ts\<lparr>ts_props := store_remove k (ts_props ts)\<rparr>) w) else w)"
proof -
  define ht where "ht = snd (zend_hash_del (store_hash (ts_props ts)) k)"
  let ?c = "pthreads_store_storage_is_cacheable (zend_hash_find (store_hash (ts_props ts)) k)"
  have del: "zend_hash_del (store_hash (ts_props ts)) k = (if e then SUCCESS else FAILURE, ht)"
    unfolding ht_def e_def by (metis del_result prod.collapse)
  have "ht = store_hash (ts_props ts)" if "\<not> e" using that by (simp add: ht_def e_def zend_hash_del_def)
  moreover note bump_after_hash [OF assms(1), of ?c ht] connectedD [OF assms(1)]
  ultimately show ?thesis
    by (cases e) (simp_all add: store_delete_locked_def member_cacheable_ok [OF assms(1)] del
        set_hash_ok set_ts_same store_remove_def ht_def [symmetric])
qed

lemma store_delete_ok:
  fixes E :: zend_engine and key :: zval
  assumes "store_ready (Suc n) t obj ob ts w"
  defines "k \<equiv> snd (pthreads_store_coerce E key)"
  shows "pthreads_store_delete E t obj key w =
    (if zend_hash_exists (store_hash (ts_props ts)) k
     then Some (SUCCESS, after_remove obj k ob ts w) else Some (FAILURE, w))"
proof -
  note r = store_readyD [OF assms(1)]
  note conn = connectedD [OF r(1)]
  obtain c where k: "pthreads_store_coerce E key = (c, k)" unfolding k_def by (metis prod.collapse)
  let ?e = "zend_hash_exists (store_hash (ts_props ts)) k"
  let ?w = "if ?e then set_obj obj (bumped (pthreads_store_storage_is_cacheable
          (zend_hash_find (store_hash (ts_props ts)) k)) (ts_props ts) ob)
        (set_ts (zo_ts_obj ob) (ts\<lparr>ts_props := store_remove k (ts_props ts)\<rparr>) w) else w"
  have "connected (lock_w t l w) obj ob ts" for l using r(1) by simp
  note locked = store_delete_locked_ok [OF this, where k = k]
  have "with_monitor t (LTs (zo_ts_obj ob)) (store_delete_locked obj (zo_ts_obj ob) k)
      (\<lambda>w. Some (FAILURE, w)) w = Some (if ?e then SUCCESS else FAILURE, ?w)"
    by (rule with_monitor_ok [OF r(5)]) (simp_all add: locked)
  then show ?thesis
    unfolding pthreads_store_delete_def
    by (cases ?e) (simp_all add: conn k Let_def del_local_ok after_remove_def)
qed

end
