(* ===== verification/Worker_Data.thy ===== *)
theory Worker_Data
  imports Globals
begin

text \<open>
  The part of src/worker.c that works on the queues of a worker: the tasks that wait, the
  one that runs, and the finished ones (\<open>gc\<close>) that wait for collection by the creator. The
  operations that also synchronise task properties are in \<open>Worker\<close>.
\<close>

definition set_worker :: "addr \<Rightarrow> pthreads_worker_data \<Rightarrow> world \<Rightarrow> world" where
  "set_worker a d w = w\<lparr>w_workers := (w_workers w)(a \<mapsto> d)\<rparr>"

definition set_heap :: "zval qheap \<Rightarrow> world \<Rightarrow> world" where
  "set_heap h w = w\<lparr>w_heap := h\<rparr>"

definition pthreads_worker_data_alloc :: "lock_id \<Rightarrow> world \<Rightarrow> addr \<times> world" where
  "pthreads_worker_data_alloc monitor w =
     (let (a, w) = alloc w in
      (a, set_worker a \<lparr>wd_monitor = monitor, wd_queue = empty_queue, wd_gc = empty_queue,
            wd_running = None, wd_tasks_collected = 0\<rparr> w))"

definition pthreads_worker_task_queue_size :: "tid \<Rightarrow> addr \<Rightarrow> world \<Rightarrow> (int \<times> world) option" where
  "pthreads_worker_task_queue_size t a w = do {
     d \<leftarrow> w_workers w a;
     with_monitor t (wd_monitor d)
       (\<lambda>w. do { d \<leftarrow> w_workers w a; Some (q_size (wd_queue d), w) })
       (\<lambda>w. Some (0, w)) w }"

definition pthreads_worker_data_free :: "tid \<Rightarrow> addr \<Rightarrow> world \<Rightarrow> (unit \<times> world) option" where
  "pthreads_worker_data_free t a w = do {
     d \<leftarrow> w_workers w a;
     with_monitor t (wd_monitor d)
       (\<lambda>w. do {
          d \<leftarrow> w_workers w a;
          h \<leftarrow> pthreads_queue_clean (wd_queue d) (w_heap w);
          h \<leftarrow> pthreads_queue_clean (wd_gc d) h;
          Some ((), (set_heap h w)\<lparr>w_workers := (w_workers w)(a := None)\<rparr>) })
       (\<lambda>w. Some ((), w)) w }"

definition notify_monitor :: "lock_id \<Rightarrow> world \<Rightarrow> world" where
  "notify_monitor l w =
     w\<lparr>w_monitors := (w_monitors w)(l := snd (pthreads_monitor_notify (w_monitors w l)))\<rparr>"

definition pthreads_worker_add_task :: "tid \<Rightarrow> addr \<Rightarrow> zval \<Rightarrow> world \<Rightarrow> (int \<times> world) option" where
  "pthreads_worker_add_task t a value w = do {
     d \<leftarrow> w_workers w a;
     with_monitor t (wd_monitor d)
       (\<lambda>w. do {
          d \<leftarrow> w_workers w a;
          let size = q_size (wd_queue d);
          (queue, h) \<leftarrow> pthreads_queue_push_new (wd_queue d) value (w_heap w);
          let w = set_worker a (d\<lparr>wd_queue := queue\<rparr>) (set_heap h w);
          let w = (if size = 0 then notify_monitor (wd_monitor d) w else w);
          Some (q_size queue, w) })
       (\<lambda>w. Some (- 1, w)) w }"

text \<open>
  The finished task moves to \<open>gc\<close>; the worker keeps a reference of its own in
  \<open>done_tasks_cache\<close>, a queue local to its thread.
\<close>

definition pthreads_worker_add_garbage ::
  "tid \<Rightarrow> addr \<Rightarrow> pthreads_queue \<Rightarrow> zval \<Rightarrow> world \<Rightarrow> (pthreads_queue \<times> world) option" where
  "pthreads_worker_add_garbage t a done_tasks_cache work w = do {
     d \<leftarrow> w_workers w a;
     (_, w) \<leftarrow> with_monitor t (wd_monitor d)
       (\<lambda>w. do {
          d \<leftarrow> w_workers w a;
          running \<leftarrow> wd_running d;
          (gc, h) \<leftarrow> pthreads_queue_push (wd_gc d) running (w_heap w);
          Some ((), set_worker a (d\<lparr>wd_gc := gc, wd_running := None\<rparr>) (set_heap h w)) })
       (\<lambda>w. None) w;
     (done_tasks_cache, h) \<leftarrow> pthreads_queue_push_new done_tasks_cache work (w_heap w);
     Some (done_tasks_cache, set_heap h w) }"

definition pthreads_worker_dequeue_task :: "tid \<Rightarrow> addr \<Rightarrow> world \<Rightarrow> ((int \<times> zval option) \<times> world) option" where
  "pthreads_worker_dequeue_task t a w = do {
     d \<leftarrow> w_workers w a;
     with_monitor t (wd_monitor d)
       (\<lambda>w. do {
          d \<leftarrow> w_workers w a;
          (size, value, queue, h) \<leftarrow> pthreads_queue_shift (wd_queue d) True PTHREADS_STACK_FREE (w_heap w);
          Some ((size, value), set_worker a (d\<lparr>wd_queue := queue\<rparr>) (set_heap h w)) })
       (\<lambda>w. Some ((0, None), w)) w }"

text \<open>The thread joins those that wait; the monitor is released when its section ends.\<close>

definition waits_on :: "tid \<Rightarrow> pthreads_monitor \<Rightarrow> pthreads_monitor" where
  "waits_on t m = m\<lparr>m_waiting := m_waiting m @ [t]\<rparr>"

text \<open>
  One round of the loop of \<open>pthreads_worker_next_task\<close>, inside the monitor: first as many
  items as the creator has collected leave \<open>done_tasks_cache\<close>; then the head of the queue is
  taken, or the round ends the loop because the worker is joined, or it sleeps.
\<close>

fun shift_times :: "nat \<Rightarrow> pthreads_queue \<Rightarrow> zval qheap \<Rightarrow> (pthreads_queue \<times> zval qheap) option" where
  "shift_times 0 q h = Some (q, h)"
| "shift_times (Suc n) q h = do {
     (_, _, q, h) \<leftarrow> pthreads_queue_shift q False PTHREADS_STACK_FREE h;
     shift_times n q h }"

datatype next_task = TaskTaken zval | WorkerJoined | WorkerSleeps

definition worker_collect_round ::
  "tid \<Rightarrow> addr \<Rightarrow> pthreads_queue \<Rightarrow> world \<Rightarrow> (pthreads_queue \<times> world) option" where
  "worker_collect_round t a done_tasks_cache w = do {
     d \<leftarrow> w_workers w a;
     if pthreads_monitor_check (w_monitors w (wd_monitor d)) PTHREADS_MONITOR_COLLECT_GARBAGE \<noteq> 0
     then do {
       (done_tasks_cache, h) \<leftarrow> shift_times (wd_tasks_collected d) done_tasks_cache (w_heap w);
       m \<leftarrow> pthreads_monitor_remove t PTHREADS_MONITOR_COLLECT_GARBAGE (w_monitors w (wd_monitor d));
       Some (done_tasks_cache, (set_worker a (d\<lparr>wd_tasks_collected := 0\<rparr>) (set_heap h w))
               \<lparr>w_monitors := (w_monitors w)(wd_monitor d := m)\<rparr>) }
     else Some (done_tasks_cache, w) }"

definition worker_next_task_round ::
  "tid \<Rightarrow> addr \<Rightarrow> pthreads_queue \<Rightarrow> world \<Rightarrow> ((next_task \<times> pthreads_queue) \<times> world) option" where
  "worker_next_task_round t a done_tasks_cache w = do {
     (done_tasks_cache, w) \<leftarrow> worker_collect_round t a done_tasks_cache w;
     d \<leftarrow> w_workers w a;
     case q_head (wd_queue d) of
       None \<Rightarrow>
         if pthreads_monitor_check (w_monitors w (wd_monitor d)) PTHREADS_MONITOR_JOINED \<noteq> 0
         then Some ((WorkerJoined, done_tasks_cache), w)
         else Some ((WorkerSleeps, done_tasks_cache),
                w\<lparr>w_monitors := (w_monitors w)(wd_monitor d := waits_on t (w_monitors w (wd_monitor d)))\<rparr>)
     | Some item \<Rightarrow> do {
         (_, value, queue, h) \<leftarrow> pthreads_queue_shift (wd_queue d) True PTHREADS_STACK_NOTHING (w_heap w);
         v \<leftarrow> value;
         Some ((TaskTaken v, done_tasks_cache),
           set_worker a (d\<lparr>wd_running := Some item, wd_queue := queue\<rparr>) (set_heap h w)) } }"

text \<open>
  \<open>pthreads_worker_next_task\<close> up to its return, or up to the point where the thread sleeps on
  the monitor: then it waits with the monitor released, and the next wake-up starts the
  next round with the monitor taken again.
\<close>

definition pthreads_worker_next_task ::
  "tid \<Rightarrow> addr \<Rightarrow> pthreads_queue \<Rightarrow> world \<Rightarrow> ((next_task \<times> pthreads_queue) \<times> world) option" where
  "pthreads_worker_next_task t a done_tasks_cache w = do {
     d \<leftarrow> w_workers w a;
     with_monitor t (wd_monitor d) (worker_next_task_round t a done_tasks_cache) (\<lambda>w. None) w }"

text \<open>The values in a queue, following the links from an item.\<close>

partial_function (option) values_from :: "addr option \<Rightarrow> 'v qheap \<Rightarrow> 'v list option" where
  "values_from item h =
     (case item of
        None \<Rightarrow> Some []
      | Some a \<Rightarrow> qh_items h a \<bind> (\<lambda>it. values_from (qi_next it) h \<bind> (\<lambda>vs. Some (qi_value it # vs))))"

declare values_from.simps [code]

definition pthreads_worker_get_gc_extra :: "tid \<Rightarrow> addr \<Rightarrow> world \<Rightarrow> (zval list \<times> world) option" where
  "pthreads_worker_get_gc_extra t a w = do {
     d \<leftarrow> w_workers w a;
     with_monitor t (wd_monitor d)
       (\<lambda>w. do {
          d \<leftarrow> w_workers w a;
          waiting \<leftarrow> values_from (q_head (wd_queue d)) (w_heap w);
          running \<leftarrow> (case wd_running d of
              None \<Rightarrow> Some []
            | Some item \<Rightarrow> do { it \<leftarrow> qh_items (w_heap w) item; Some [qi_value it] });
          finished \<leftarrow> values_from (q_head (wd_gc d)) (w_heap w);
          Some (waiting @ running @ finished, w) })
       (\<lambda>w. Some ([], w)) w }"

end
