(* ===== verification/Object.thy ===== *)
theory Object
  imports Store_Facts Worker_Data
begin

text \<open>
  src/object.c: construction of pthreads objects, connections from other threads to the
  same thread-safe object, their reference count, and the serialised form that carries
  an address from one thread to another. Starting and joining threads is in \<open>Lifecycle\<close>.

  A class of another thread is prepared for the calling thread by src/prepare.c; the
  prepared class has the name and the declared properties of the original, so a class is
  its name here. The monitor of a new object is initialised successfully.
\<close>

section \<open>Construction\<close>

definition pthreads_ts_object_ctor :: "zend_engine \<Rightarrow> tid \<Rightarrow> nat \<Rightarrow> world \<Rightarrow> addr \<times> world" where
  "pthreads_ts_object_ctor E t scope w =
     (let (a, w) = alloc w in
      (a, set_ts a \<lparr>ts_refcount = 1, ts_scope = scope, ts_props = pthreads_store_init,
             ts_creator = self_ident E t, ts_local = None\<rparr>
           (w\<lparr>w_monitors := (w_monitors w)(LTs a := fresh_monitor)\<rparr>)))"

text \<open>
  The inner loop of \<open>pthreads_base_init\<close> over the properties one class declares: the name is
  interned, a defined slot is written to the store and then undefined; a value the store
  refuses ends the loop for this class.
\<close>

fun base_init_class ::
  "zend_engine \<Rightarrow> tid \<Rightarrow> addr \<Rightarrow> string \<Rightarrow> property_info list \<Rightarrow> (nat \<Rightarrow> zval) \<Rightarrow> world \<Rightarrow>
   ((nat \<Rightarrow> zval) \<times> world) option" where
  "base_init_class E t base ce [] slots w = Some (slots, w)"
| "base_init_class E t base ce (info # infos) slots w =
     (if pi_static info then base_init_class E t base ce infos slots w
      else do {
        (name, w) \<leftarrow> pthreads_globals_add_interned_string E t (pi_name info) w;
        interned_name \<leftarrow> name;
        if slots (pi_offset info) = IS_UNDEF then base_init_class E t base ce infos slots w
        else do {
          (result, w) \<leftarrow> store_write_zval E t base (Some (IS_STRING interned_name))
                           (slots (pi_offset info)) w;
          if result = FAILURE
          then Some (slots, throw t (NonThreadSafeDefault ce (zs_val interned_name)) w)
          else base_init_class E t base ce infos (slots(pi_offset info := IS_UNDEF)) w } })"

fun base_init_chain ::
  "zend_engine \<Rightarrow> tid \<Rightarrow> addr \<Rightarrow> (string \<times> property_info list) list \<Rightarrow> (nat \<Rightarrow> zval) \<Rightarrow> world \<Rightarrow>
   world option" where
  "base_init_chain E t base [] slots w = Some w"
| "base_init_chain E t base ((ce, infos) # rest) slots w = do {
     (slots, w) \<leftarrow> base_init_class E t base ce infos slots w;
     base_init_chain E t base rest slots w }"

definition pthreads_base_init :: "zend_engine \<Rightarrow> tid \<Rightarrow> addr \<Rightarrow> world \<Rightarrow> world option" where
  "pthreads_base_init E t base w = do {
     ob \<leftarrow> w_obj w base;
     base_init_chain E t base (class_chain E (zo_ce ob)) (default_properties E (zo_ce ob)) w }"

definition pthreads_base_ctor ::
  "zend_engine \<Rightarrow> tid \<Rightarrow> addr \<Rightarrow> string \<Rightarrow> nat \<Rightarrow> world \<Rightarrow> world option" where
  "pthreads_base_ctor E t base ce scope w = do {
     let (a, w) = pthreads_ts_object_ctor E t scope w;
     ob \<leftarrow> w_obj w base;
     let w = set_obj base (ob\<lparr>zo_ts_obj := a, zo_owner := self_ident E t, zo_original_zobj := None,
                              zo_worker_data := None, zo_ce := ce, zo_properties := None\<rparr>) w;
     w \<leftarrow> pthreads_base_init E t base w;
     ob \<leftarrow> w_obj w base;
     ts \<leftarrow> w_ts w (zo_ts_obj ob);
     Some (set_obj base (ob\<lparr>zo_local_props_modcount := store_modcount (ts_props ts) - 1\<rparr>) w) }"

definition pthreads_thread_ctor :: "zend_engine \<Rightarrow> tid \<Rightarrow> string \<Rightarrow> world \<Rightarrow> (addr \<times> world) option" where
  "pthreads_thread_ctor E t ce w = do {
     (a, w) \<leftarrow> pthreads_globals_object_alloc t w;
     w \<leftarrow> pthreads_base_ctor E t a ce PTHREADS_SCOPE_THREAD w;
     Some (a, w) }"

definition pthreads_worker_ctor :: "zend_engine \<Rightarrow> tid \<Rightarrow> string \<Rightarrow> world \<Rightarrow> (addr \<times> world) option" where
  "pthreads_worker_ctor E t ce w = do {
     (a, w) \<leftarrow> pthreads_globals_object_alloc t w;
     w \<leftarrow> pthreads_base_ctor E t a ce PTHREADS_SCOPE_WORKER w;
     ob \<leftarrow> w_obj w a;
     let (d, w) = pthreads_worker_data_alloc (LTs (zo_ts_obj ob)) w;
     Some (a, set_obj a (ob\<lparr>zo_worker_data := Some d\<rparr>) w) }"

definition pthreads_threaded_base_ctor :: "zend_engine \<Rightarrow> tid \<Rightarrow> string \<Rightarrow> world \<Rightarrow> (addr \<times> world) option" where
  "pthreads_threaded_base_ctor E t ce w = do {
     (a, w) \<leftarrow> pthreads_globals_object_alloc t w;
     w \<leftarrow> pthreads_base_ctor E t a ce PTHREADS_SCOPE_THREADED w;
     Some (a, w) }"

definition pthreads_threaded_array_ctor :: "zend_engine \<Rightarrow> tid \<Rightarrow> string \<Rightarrow> world \<Rightarrow> (addr \<times> world) option" where
  "pthreads_threaded_array_ctor E t ce w = do {
     (a, w) \<leftarrow> pthreads_globals_object_alloc t w;
     w \<leftarrow> pthreads_base_ctor E t a ce PTHREADS_SCOPE_THREADED w;
     Some (a, w) }"

text \<open>\<open>object_init_ex\<close> of the engine calls the constructor hook the class was registered with.\<close>

definition object_init_ex :: "zend_engine \<Rightarrow> tid \<Rightarrow> string \<Rightarrow> world \<Rightarrow> (addr \<times> world) option" where
  "object_init_ex E t ce w =
     (case create_object E ce of
        ThreadClass \<Rightarrow> pthreads_thread_ctor E t ce w
      | WorkerClass \<Rightarrow> pthreads_worker_ctor E t ce w
      | ThreadedClass \<Rightarrow> pthreads_threaded_base_ctor E t ce w
      | ThreadedArrayClass \<Rightarrow> pthreads_threaded_array_ctor E t ce w)"

section \<open>Reference counting\<close>

definition pthreads_ts_object_free :: "tid \<Rightarrow> addr \<Rightarrow> world \<Rightarrow> world option" where
  "pthreads_ts_object_free t a w = do {
     _ \<leftarrow> w_ts w a;
     (_, w) \<leftarrow> with_monitor t (LTs a)
       (\<lambda>w. do { w \<leftarrow> set_hash a zend_hash_init w; Some ((), w) }) (\<lambda>w. Some ((), w)) w;
     _ \<leftarrow> pthreads_monitor_destroy (w_monitors w (LTs a));
     Some (w\<lparr>w_ts := (w_ts w)(a := None)\<rparr>) }"

text \<open>\<open>--refcount\<close> on a \<open>zend_ulong\<close>.\<close>

definition decr :: "nat \<Rightarrow> nat" where
  "decr n = (if n = 0 then 2 ^ 64 - 1 else n - 1)"

definition release_ts :: "tid \<Rightarrow> addr \<Rightarrow> world \<Rightarrow> (bool \<times> world) option" where
  "release_ts t a w = do {
     ts \<leftarrow> w_ts w a;
     let n = decr (ts_refcount ts);
     let w = set_ts a (ts\<lparr>ts_refcount := n\<rparr>) w;
     if n = 0 then do { w \<leftarrow> pthreads_ts_object_free t a w; Some (True, w) } else Some (False, w) }"

definition pthreads_connect_nolock :: "tid \<Rightarrow> addr \<Rightarrow> addr \<Rightarrow> world \<Rightarrow> (zend_result \<times> world) option" where
  "pthreads_connect_nolock t source destination w =
     (if source \<noteq> 0 \<and> destination \<noteq> 0 then do {
        d \<leftarrow> w_obj w destination;
        w \<leftarrow> (case zo_worker_data d of
            None \<Rightarrow> Some w
          | Some wd \<Rightarrow> do { (_, w) \<leftarrow> pthreads_worker_data_free t wd w; Some w });
        w \<leftarrow> (if zo_ts_obj d \<noteq> 0 then do { (_, w) \<leftarrow> release_ts t (zo_ts_obj d) w; Some w } else Some w);
        s \<leftarrow> w_obj w source;
        ts \<leftarrow> w_ts w (zo_ts_obj s);
        let w = set_ts (zo_ts_obj s) (ts\<lparr>ts_refcount := Suc (ts_refcount ts)\<rparr>) w;
        Some (SUCCESS, set_obj destination (d\<lparr>zo_worker_data := None, zo_ts_obj := zo_ts_obj s,
            zo_original_zobj := Some (case zo_original_zobj s of Some p \<Rightarrow> p | None \<Rightarrow> source),
            zo_properties := map_option zend_hash_clean (zo_properties d)\<rparr>) w) }
      else Some (FAILURE, w))"

definition pthreads_connect :: "tid \<Rightarrow> addr \<Rightarrow> addr \<Rightarrow> world \<Rightarrow> (zend_result \<times> world) option" where
  "pthreads_connect t source destination w =
     with_monitor t LGlobal (pthreads_connect_nolock t source destination) (\<lambda>w. Some (FAILURE, w)) w"

text \<open>
  \<open>pthreads_globals_object_connect\<close>: the object is used directly by its owner; any other
  thread has one connection for each thread-safe object, remembered in \<open>resolve\<close>. The
  value is \<open>IS_UNDEF\<close> when the address is not valid.
\<close>

definition object_connect_locked ::
  "zend_engine \<Rightarrow> tid \<Rightarrow> addr \<Rightarrow> string option \<Rightarrow> world \<Rightarrow> ((bool \<times> zval) \<times> world) option" where
  "object_connect_locked E t address ce w = do {
     (valid, w) \<leftarrow> pthreads_globals_object_valid t address w;
     if valid then do {
       pthreads \<leftarrow> w_obj w address;
       if ident_ls (zo_owner pthreads) = t
       then Some ((True, IS_OBJECT (ThreadedObject address)), w)
       else (case zg_resolve (w_zg w t) (zo_ts_obj pthreads) of
           Some connection \<Rightarrow> Some ((True, IS_OBJECT (ThreadedObject connection)), w)
         | None \<Rightarrow> do {
             (connection, w) \<leftarrow> object_init_ex E t (case ce of Some c \<Rightarrow> c | None \<Rightarrow> zo_ce pthreads) w;
             (_, w) \<leftarrow> pthreads_connect_nolock t address connection w;
             c \<leftarrow> w_obj w connection;
             let zg = w_zg w t;
             Some ((True, IS_OBJECT (ThreadedObject connection)),
               set_zg t (zg\<lparr>zg_resolve := (zg_resolve zg)(zo_ts_obj c \<mapsto> connection)\<rparr>) w) }) }
     else Some ((False, IS_UNDEF), w) }"

definition pthreads_globals_object_connect ::
  "zend_engine \<Rightarrow> tid \<Rightarrow> addr \<Rightarrow> string option \<Rightarrow> world \<Rightarrow> ((bool \<times> zval) \<times> world) option" where
  "pthreads_globals_object_connect E t address ce w =
     with_monitor t LGlobal (object_connect_locked E t address ce) (\<lambda>w. Some ((False, IS_UNDEF), w)) w"

text \<open>What \<open>pthreads_base_free\<close> does inside the global monitor.\<close>

definition base_free_locked :: "tid \<Rightarrow> addr \<Rightarrow> addr \<Rightarrow> world \<Rightarrow> (unit \<times> world) option" where
  "base_free_locked t obj a w = do {
     (freed, w) \<leftarrow> release_ts t a w;
     w \<leftarrow> (if freed then Some w
          else do { (_, w) \<leftarrow> pthreads_store_persist_local_properties t obj w; Some w });
     (_, w) \<leftarrow> pthreads_globals_object_delete t obj w;
     Some ((), w) }"

text \<open>
  \<open>pthreads_base_free\<close>, with the release of the object's memory that the engine does after
  \<open>zend_object_std_dtor\<close>.
\<close>

definition pthreads_base_free :: "tid \<Rightarrow> addr \<Rightarrow> world \<Rightarrow> world option" where
  "pthreads_base_free t obj w = do {
     base \<leftarrow> w_obj w obj;
     w \<leftarrow> (case zo_worker_data base of
         None \<Rightarrow> Some w
       | Some wd \<Rightarrow> do { (_, w) \<leftarrow> pthreads_worker_data_free t wd w; Some w });
     let zg = w_zg w t;
     let w = (if zg_resolve zg (zo_ts_obj base) = Some obj
              then set_zg t (zg\<lparr>zg_resolve := (zg_resolve zg)(zo_ts_obj base := None)\<rparr>) w else w);
     (_, w) \<leftarrow> with_monitor t LGlobal (base_free_locked t obj (zo_ts_obj base)) (\<lambda>w. Some ((), w)) w;
     Some (w\<lparr>w_obj := (w_obj w)(obj := None)\<rparr>) }"

section \<open>Serialisation of addresses\<close>

text \<open>The decimal digits \<open>PRIuPTR\<close> prints and reads.\<close>

definition digit_char :: "nat \<Rightarrow> char" where
  "digit_char d = char_of (48 + d)"

fun print_nat :: "nat \<Rightarrow> string" where
  "print_nat n = (if n < 10 then [digit_char n] else print_nat (n div 10) @ [digit_char (n mod 10)])"

declare print_nat.simps [simp del]

definition is_digit :: "char \<Rightarrow> bool" where
  "is_digit c \<longleftrightarrow> 48 \<le> (of_char c :: nat) \<and> (of_char c :: nat) \<le> 57"

definition read_digits :: "string \<Rightarrow> nat" where
  "read_digits s = foldl (\<lambda>n c. n * 10 + (of_char c - 48)) 0 s"

definition is_space :: "char \<Rightarrow> bool" where
  "is_space c \<longleftrightarrow> (of_char c :: nat) = 32 \<or> (9 \<le> (of_char c :: nat) \<and> (of_char c :: nat) \<le> 13)"

text \<open>
  The conversion \<open>%PRIuPTR\<close> on a 64 bit machine: white space, an optional sign, decimal digits;
  a number that does not fit saturates, a negative one wraps.
\<close>

definition scan_number :: "string \<Rightarrow> nat option" where
  "scan_number s =
     (let neg = (case s of c # _ \<Rightarrow> c = CHR ''-'' | [] \<Rightarrow> False);
          digits = takeWhile is_digit
            (case s of c # s' \<Rightarrow> if c = CHR ''-'' \<or> c = CHR ''+'' then s' else s | [] \<Rightarrow> s);
          n = read_digits digits
      in if digits = [] then None
         else Some (if 2 ^ 64 \<le> n then 2 ^ 64 - 1 else if neg then (2 ^ 64 - n) mod 2 ^ 64 else n))"

text \<open>
  The scan of \<open>:%PRIuPTR:\<close>: the conversion count that \<open>sscanf\<close> returns (\<open>None\<close> for \<open>EOF\<close>, which is
  negative and so not zero) and the number read.
\<close>

definition scan_address :: "string \<Rightarrow> nat option \<times> nat" where
  "scan_address s =
     (case s of
        [] \<Rightarrow> (None, 0)
      | c # s' \<Rightarrow>
          if c \<noteq> CHR '':'' then (Some 0, 0)
          else if dropWhile is_space s' = [] then (None, 0)
          else (case scan_number (dropWhile is_space s') of
                  None \<Rightarrow> (Some 0, 0)
                | Some n \<Rightarrow> (Some 1, n)))"

definition pthreads_threaded_serialize :: "addr \<Rightarrow> world \<Rightarrow> string option" where
  "pthreads_threaded_serialize obj w = do {
     ob \<leftarrow> w_obj w obj;
     let address = (case zo_original_zobj ob of Some p \<Rightarrow> p | None \<Rightarrow> obj);
     Some ('':'' @ print_nat address @ '':'') }"

definition pthreads_threaded_unserialize ::
  "zend_engine \<Rightarrow> tid \<Rightarrow> string \<Rightarrow> string \<Rightarrow> world \<Rightarrow> ((zend_result \<times> zval) \<times> world) option" where
  "pthreads_threaded_unserialize E t ce buffer w =
     (let (count, address) = scan_address buffer in
      if count = Some 0 then Some ((FAILURE, IS_UNDEF), throw t ConnectToCorrupted w)
      else if address = 0 then Some ((FAILURE, IS_UNDEF), throw t ConnectToInvalid w)
      else do {
        ((ok, object), w) \<leftarrow> pthreads_globals_object_connect E t address (Some ce) w;
        if ok then Some ((SUCCESS, object), w)
        else Some ((FAILURE, IS_UNDEF), throw t ConnectToDestroyed w) })"

definition pthreads_current_thread :: "tid \<Rightarrow> world \<Rightarrow> zval option" where
  "pthreads_current_thread t w = (case zg_this (w_zg w t) of IS_UNDEF \<Rightarrow> None | v \<Rightarrow> Some v)"

text \<open>
  \<open>pthreads_base_gc\<close>: what the cycle collector has to follow from an object, the tasks of a worker apart from its properties.
\<close>

definition pthreads_base_gc :: "tid \<Rightarrow> addr \<Rightarrow> world \<Rightarrow> ((zval list \<times> hash option) \<times> world) option" where
  "pthreads_base_gc t obj w = do {
     threaded \<leftarrow> w_obj w obj;
     (table, w) \<leftarrow> (case zo_worker_data threaded of
         Some data \<Rightarrow> pthreads_worker_get_gc_extra t data w
       | None \<Rightarrow> Some ([], w));
     Some ((table, zo_properties threaded), w) }"

end
