(* ===== verification/Store_Access.thy ===== *)
theory Store_Access
  imports Object
begin

text \<open>
  The part of src/store.c that hands values back to PHP code: restoring a stored cell in
  the calling thread (which may create a connection), reading, shifting, popping,
  chunking, listing, iterating and merging members; and writing arrays, which become
  ThreadedArray objects. src/resources.c is here too.
\<close>

section \<open>Resources\<close>

definition pthreads_resources_keep :: "tid \<Rightarrow> addr \<Rightarrow> tid \<Rightarrow> world \<Rightarrow> bool \<times> world" where
  "pthreads_resources_keep t original ls w =
     (let zg = w_zg w t in
      (True, set_zg t (zg\<lparr>zg_resources := (zg_resources zg)(original \<mapsto> ls)\<rparr>) w))"

definition pthreads_resources_kept :: "tid \<Rightarrow> addr \<Rightarrow> world \<Rightarrow> bool" where
  "pthreads_resources_kept t entry w \<longleftrightarrow>
     (case zg_resources (w_zg w t) entry of None \<Rightarrow> False | Some ls \<Rightarrow> ls \<noteq> t)"

section \<open>Restoring\<close>

definition restore_resource :: "tid \<Rightarrow> addr \<Rightarrow> tid \<Rightarrow> world \<Rightarrow> zval \<times> world" where
  "restore_resource t original ls w =
     (if ls \<noteq> t then
        (let zg = w_zg w t in
         case find (\<lambda>r. w_resource_ptr w r = w_resource_ptr w original) (zg_regular_list zg) of
           Some found \<Rightarrow> (IS_RESOURCE found, w)
         | None \<Rightarrow>
             (let w = set_zg t (zg\<lparr>zg_regular_list := zg_regular_list zg @ [original]\<rparr>) w;
                  (_, w) = pthreads_resources_keep t original ls w
              in (IS_RESOURCE original, w)))
      else (IS_RESOURCE original, w))"

text \<open>
  \<open>pthreads_store_convert\<close>. A closure is copied into the calling thread, so it is a new object.
  When the enum case does not exist an error is thrown, but the result stays \<open>SUCCESS\<close> and the
  cell keeps whatever it held.
\<close>

definition pthreads_store_convert ::
  "zend_engine \<Rightarrow> tid \<Rightarrow> pthreads_storage \<Rightarrow> world \<Rightarrow> ((zend_result \<times> zval) \<times> world) option" where
  "pthreads_store_convert E t storage w =
     (case storage of
        STORE_TYPE_STRING_PTR s owner \<Rightarrow>
          if ident_ls owner = t then Some ((SUCCESS, IS_STRING s), w)
          else (let (s, w) = pthreads_store_restore_string s w in Some ((SUCCESS, IS_STRING s), w))
      | STORE_TYPE_RESOURCE original ls \<Rightarrow>
          (let (v, w) = restore_resource t original ls w in Some ((SUCCESS, v), w))
      | STORE_TYPE_CLOSURE closure owner \<Rightarrow>
          (let (a, w) = alloc w in Some ((SUCCESS, IS_OBJECT (ClosureObject a)), w))
      | STORE_TYPE_PTHREADS threaded \<Rightarrow> do {
          ((ok, v), w) \<leftarrow> pthreads_globals_object_connect E t threaded None w;
          if ok then Some ((SUCCESS, v), w)
          else Some ((FAILURE, IS_NULL), throw t ConnectToDestroyed w) }
      | STORE_TYPE_SOCKET fd ty err blocking \<Rightarrow>
          (let (a, w) = alloc w in
           Some ((SUCCESS, IS_OBJECT (SocketObject a)), w\<lparr>w_sockets := (w_sockets w)(a \<mapsto>
             \<lparr>bsd_socket = fd, sock_type = ty, sock_error = err, sock_blocking = blocking,
              sock_zstream = False\<rparr>)\<rparr>))
      | STORE_TYPE_ENUM c m \<Rightarrow>
          (case enum_case E t (zs_val c) (zs_val m) of
             Some (c', m') \<Rightarrow> Some ((SUCCESS, IS_OBJECT (EnumObject c' m')), w)
           | None \<Rightarrow> Some ((SUCCESS, uninitialized E), throw t (EnumCaseMissing (zs_val c) (zs_val m)) w)))"

definition pthreads_store_restore_zval_ex ::
  "zend_engine \<Rightarrow> tid \<Rightarrow> zval \<Rightarrow> world \<Rightarrow> ((zval \<times> bool) \<times> world) option" where
  "pthreads_store_restore_zval_ex E t zstorage w =
     (case zstorage of
        IS_NULL \<Rightarrow> Some ((zstorage, False), w)
      | IS_FALSE \<Rightarrow> Some ((zstorage, False), w)
      | IS_TRUE \<Rightarrow> Some ((zstorage, False), w)
      | IS_LONG _ \<Rightarrow> Some ((zstorage, False), w)
      | IS_DOUBLE _ \<Rightarrow> Some ((zstorage, False), w)
      | IS_STRING s \<Rightarrow>
          (let (s, w) = pthreads_store_restore_string s w in Some ((IS_STRING s, False), w))
      | IS_PTR storage \<Rightarrow> do {
          ((_, v), w) \<leftarrow> pthreads_store_convert E t storage w;
          Some ((v, pthreads_store_storage_is_cacheable (Some zstorage)), w) }
      | _ \<Rightarrow> None)"

definition pthreads_store_restore_zval ::
  "zend_engine \<Rightarrow> tid \<Rightarrow> zval \<Rightarrow> world \<Rightarrow> (zval \<times> world) option" where
  "pthreads_store_restore_zval E t zstorage w = do {
     ((v, _), w) \<leftarrow> pthreads_store_restore_zval_ex E t zstorage w;
     Some (v, w) }"

section \<open>Reading\<close>

datatype fetch_type = BP_VAR_R | BP_VAR_W | BP_VAR_RW | BP_VAR_IS | BP_VAR_FUNC_ARG | BP_VAR_UNSET

text \<open>What the critical section of a read finds: a cached value, a restored one, or nothing.\<close>

datatype read_outcome = ReadCached zval | ReadStored zval | ReadNothing

definition storage_readable :: "fetch_type \<Rightarrow> zval \<Rightarrow> bool" where
  "storage_readable type zstorage \<longleftrightarrow> type = BP_VAR_R \<or> type = BP_VAR_IS \<or>
     (case zstorage of IS_PTR (STORE_TYPE_PTHREADS _) \<Rightarrow> True | _ \<Rightarrow> False)"

definition store_read_shared ::
  "zend_engine \<Rightarrow> tid \<Rightarrow> addr \<Rightarrow> addr \<Rightarrow> zkey \<Rightarrow> fetch_type \<Rightarrow> world \<Rightarrow> (read_outcome \<times> world) option" where
  "store_read_shared E t obj a member type w = do {
     threaded \<leftarrow> w_obj w obj;
     ts_obj \<leftarrow> w_ts w a;
     case zend_hash_find (store_hash (ts_props ts_obj)) member of
       None \<Rightarrow> Some (ReadNothing, w)
     | Some zstorage \<Rightarrow>
         if storage_readable type zstorage
         then do { (v, w) \<leftarrow> pthreads_store_restore_zval E t zstorage w; Some (ReadStored v, w) }
         else Some (ReadNothing, throw t (IndirectModification (zo_ce threaded)) w) }"

definition store_read_locked ::
  "zend_engine \<Rightarrow> tid \<Rightarrow> addr \<Rightarrow> addr \<Rightarrow> zkey \<Rightarrow> fetch_type \<Rightarrow> world \<Rightarrow> (read_outcome \<times> world) option" where
  "store_read_locked E t obj a member type w = do {
     threaded \<leftarrow> w_obj w obj;
     if zo_properties threaded \<noteq> None
     then do {
       w \<leftarrow> pthreads_store_sync_local_properties t obj w;
       threaded \<leftarrow> w_obj w obj;
       props \<leftarrow> zo_properties threaded;
       case zend_hash_find props member of
         Some property \<Rightarrow>
           if pthreads_store_valid_local_cache_item property
           then Some (ReadCached (ZVAL_DEINDIRECT property), w)
           else store_read_shared E t obj a member type w
       | None \<Rightarrow> store_read_shared E t obj a member type w }
     else store_read_shared E t obj a member type w }"

definition pthreads_store_read ::
  "zend_engine \<Rightarrow> tid \<Rightarrow> addr \<Rightarrow> zval \<Rightarrow> fetch_type \<Rightarrow> world \<Rightarrow> ((zend_result \<times> zval) \<times> world) option" where
  "pthreads_store_read E t obj key type w = do {
     threaded \<leftarrow> w_obj w obj;
     let a = zo_ts_obj threaded;
     let member = snd (pthreads_store_coerce E key);
     _ \<leftarrow> w_ts w a;
     (outcome, w) \<leftarrow> with_monitor t (LTs a) (store_read_locked E t obj a member type)
       (\<lambda>w. Some (ReadNothing, w)) w;
     case outcome of
       ReadCached v \<Rightarrow> Some ((SUCCESS, v), w)
     | ReadNothing \<Rightarrow> Some ((FAILURE, IS_UNDEF), w)
     | ReadStored v \<Rightarrow> do {
         w \<leftarrow> pthreads_store_update_local_property E obj member v w;
         Some ((SUCCESS, v), w) } }"

section \<open>Taking members out\<close>

text \<open>Removing a key from the shared table and from the local one.\<close>

definition take_out :: "addr \<Rightarrow> addr \<Rightarrow> zkey \<Rightarrow> world \<Rightarrow> world option" where
  "take_out obj a key w = do {
     ts_obj \<leftarrow> w_ts w a;
     w \<leftarrow> set_hash a (snd (zend_hash_del (store_hash (ts_props ts_obj)) key)) w;
     del_local obj key w }"

definition store_take ::
  "zend_engine \<Rightarrow> tid \<Rightarrow> addr \<Rightarrow> addr \<Rightarrow> (zkey \<times> zval) option \<Rightarrow> world \<Rightarrow> ((zend_result \<times> zval) \<times> world) option"
  where
  "store_take E t obj a bucket w =
     (case bucket of
        None \<Rightarrow> Some ((SUCCESS, IS_NULL), w)
      | Some (key, zstorage) \<Rightarrow> do {
          ((v, was_pthreads_object), w) \<leftarrow> pthreads_store_restore_zval_ex E t zstorage w;
          w \<leftarrow> take_out obj a key w;
          w \<leftarrow> (if was_pthreads_object then pthreads_store_bump_modcount_nolock obj w else Some w);
          Some ((SUCCESS, v), w) })"

definition first_bucket :: "hash \<Rightarrow> (zkey \<times> zval) option" where
  "first_bucket ht = (case ht_buckets ht of [] \<Rightarrow> None | p # _ \<Rightarrow> Some p)"

definition last_bucket :: "hash \<Rightarrow> (zkey \<times> zval) option" where
  "last_bucket ht = (if ht_buckets ht = [] then None else Some (last (ht_buckets ht)))"

definition pthreads_store_shift ::
  "zend_engine \<Rightarrow> tid \<Rightarrow> addr \<Rightarrow> world \<Rightarrow> ((zend_result \<times> zval) \<times> world) option" where
  "pthreads_store_shift E t obj w = do {
     threaded \<leftarrow> w_obj w obj;
     let a = zo_ts_obj threaded;
     _ \<leftarrow> w_ts w a;
     with_monitor t (LTs a)
       (\<lambda>w. do { ts_obj \<leftarrow> w_ts w a; store_take E t obj a (first_bucket (store_hash (ts_props ts_obj))) w })
       (\<lambda>w. Some ((FAILURE, IS_UNDEF), w)) w }"

definition pthreads_store_pop ::
  "zend_engine \<Rightarrow> tid \<Rightarrow> addr \<Rightarrow> world \<Rightarrow> ((zend_result \<times> zval) \<times> world) option" where
  "pthreads_store_pop E t obj w = do {
     threaded \<leftarrow> w_obj w obj;
     let a = zo_ts_obj threaded;
     _ \<leftarrow> w_ts w a;
     with_monitor t (LTs a)
       (\<lambda>w. do { ts_obj \<leftarrow> w_ts w a; store_take E t obj a (last_bucket (store_hash (ts_props ts_obj))) w })
       (\<lambda>w. Some ((FAILURE, IS_UNDEF), w)) w }"

text \<open>
  The loop of \<open>pthreads_store_chunk\<close>: members leave from the front until the chunk has the
  requested size or the table is empty. The flag \<open>preserve\<close> of the source is never read.
\<close>

partial_function (option) store_chunk_loop ::
  "zend_engine \<Rightarrow> tid \<Rightarrow> addr \<Rightarrow> addr \<Rightarrow> int \<Rightarrow> hash \<times> bool \<Rightarrow> world \<Rightarrow> ((hash \<times> bool) \<times> world) option" where
  "store_chunk_loop E t obj a limit state w = do {
     ts_obj \<leftarrow> w_ts w a;
     if int (zend_hash_num_elements (fst state)) < limit
     then (case first_bucket (store_hash (ts_props ts_obj)) of
         None \<Rightarrow> Some (state, w)
       | Some (key, zstorage) \<Rightarrow> do {
           ((v, was_pthreads_object), w) \<leftarrow> pthreads_store_restore_zval_ex E t zstorage w;
           w \<leftarrow> take_out obj a key w;
           store_chunk_loop E t obj a limit
             (zend_hash_update (fst state) key v, snd state \<or> was_pthreads_object) w })
     else Some (state, w) }"

declare store_chunk_loop.simps [code]

definition pthreads_store_chunk ::
  "zend_engine \<Rightarrow> tid \<Rightarrow> addr \<Rightarrow> zend_long \<Rightarrow> bool \<Rightarrow> world \<Rightarrow> ((zend_result \<times> zval) \<times> world) option" where
  "pthreads_store_chunk E t obj limit preserve w = do {
     threaded \<leftarrow> w_obj w obj;
     let a = zo_ts_obj threaded;
     _ \<leftarrow> w_ts w a;
     with_monitor t (LTs a)
       (\<lambda>w. do {
          ((chunk, removed), w) \<leftarrow> store_chunk_loop E t obj a (sint limit) (zend_hash_init, False) w;
          w \<leftarrow> (if removed then pthreads_store_bump_modcount_nolock obj w else Some w);
          Some ((SUCCESS, IS_ARRAY (ht_buckets chunk)), w) })
       (\<lambda>w. Some ((FAILURE, IS_UNDEF), w)) w }"

section \<open>Listing\<close>

text \<open>
  The loop of \<open>pthreads_store_tohash\<close>. \<open>own\<close> says that the target is the object's own property
  table; otherwise it is a table of the caller, which gets the cached values as well.
\<close>

fun tohash_entries ::
  "zend_engine \<Rightarrow> tid \<Rightarrow> bool \<Rightarrow> hash \<Rightarrow> (zkey \<times> zval) list \<Rightarrow> hash \<times> bool \<Rightarrow> world \<Rightarrow>
   ((hash \<times> bool) \<times> world) option" where
  "tohash_entries E t own props [] state w = Some (state, w)"
| "tohash_entries E t own props ((k, zstorage) # ps) (target, changed) w =
     (case zend_hash_find (if own then target else props) k of
        Some cached \<Rightarrow>
          if pthreads_store_valid_local_cache_item cached
          then tohash_entries E t own props ps
                 (if own then target else zend_hash_update target k cached, changed) w
          else do {
            (v, w) \<leftarrow> pthreads_store_restore_zval E t zstorage w;
            tohash_entries E t own props ps (zend_hash_update target k v, True) w }
      | None \<Rightarrow> do {
          (v, w) \<leftarrow> pthreads_store_restore_zval E t zstorage w;
          tohash_entries E t own props ps (zend_hash_update target k v, True) w })"

fun tohash_declared :: "property_info option list \<Rightarrow> hash \<times> bool \<Rightarrow> hash \<times> bool" where
  "tohash_declared [] state = state"
| "tohash_declared (None # infos) state = tohash_declared infos state"
| "tohash_declared (Some info # infos) (target, changed) =
     (if pi_static info then tohash_declared infos (target, changed)
      else if zend_hash_find target (KStr (zs_val (pi_name info))) = None
      then tohash_declared infos
        (zend_hash_update target (KStr (zs_val (pi_name info))) (IS_INDIRECT IS_UNDEF), True)
      else tohash_declared infos (target, changed))"

definition store_tohash_locked ::
  "zend_engine \<Rightarrow> tid \<Rightarrow> addr \<Rightarrow> addr \<Rightarrow> hash option \<Rightarrow> world \<Rightarrow> (hash option \<times> world) option" where
  "store_tohash_locked E t obj a target w = do {
     w \<leftarrow> pthreads_store_sync_local_properties t obj w;
     threaded \<leftarrow> w_obj w obj;
     props \<leftarrow> zo_properties threaded;
     ts_obj \<leftarrow> w_ts w a;
     let own = (target = None);
     (state, w) \<leftarrow> tohash_entries E t own props (ht_buckets (store_hash (ts_props ts_obj)))
       (case target of None \<Rightarrow> props | Some ht \<Rightarrow> ht, False) w;
     let (ht, changed) = tohash_declared (properties_info_table E (zo_ce threaded)) state;
     if own then do {
       threaded \<leftarrow> w_obj w obj;
       Some (None, set_obj obj (threaded\<lparr>zo_properties := Some ht, zo_local_props_modcount :=
         (if changed then store_modcount (ts_props ts_obj) - 1
          else zo_local_props_modcount threaded)\<rparr>) w) }
     else Some (Some ht, w) }"

text \<open>The target \<open>None\<close> is the object's own table; the result is then \<open>None\<close> as well.\<close>

definition pthreads_store_tohash ::
  "zend_engine \<Rightarrow> tid \<Rightarrow> addr \<Rightarrow> hash option \<Rightarrow> world \<Rightarrow> (hash option \<times> world) option" where
  "pthreads_store_tohash E t obj target w = do {
     threaded \<leftarrow> w_obj w obj;
     let a = zo_ts_obj threaded;
     w \<leftarrow> pthreads_store_init_local_properties E obj w;
     _ \<leftarrow> w_ts w a;
     with_monitor t (LTs a) (store_tohash_locked E t obj a target) (\<lambda>w. Some (target, w)) w }"

section \<open>Merging and writing arrays\<close>

fun merge_storage ::
  "addr \<Rightarrow> addr \<Rightarrow> bool \<Rightarrow> (zkey \<times> zval) list \<Rightarrow> bool \<Rightarrow> world \<Rightarrow> (bool \<times> world) option" where
  "merge_storage destination a overwrite [] overwrote w = Some (overwrote, w)"
| "merge_storage destination a overwrite ((key, storage) # ps) overwrote w = do {
     ts \<leftarrow> w_ts w a;
     if \<not> overwrite \<and> zend_hash_exists (store_hash (ts_props ts)) key
     then merge_storage destination a overwrite ps overwrote w
     else do {
       cacheable \<leftarrow> pthreads_store_member_is_cacheable destination key w;
       let (new_zstorage, w) = pthreads_store_hard_copy_storage storage w;
       (_, w) \<leftarrow> pthreads_store_update_shared_property a key new_zstorage w;
       w \<leftarrow> del_local destination key w;
       merge_storage destination a overwrite ps (overwrote \<or> cacheable) w } }"

text \<open>The branch of \<open>pthreads_store_merge\<close> for a ThreadedArray source.\<close>

definition store_merge_threaded ::
  "tid \<Rightarrow> addr \<Rightarrow> addr \<Rightarrow> bool \<Rightarrow> world \<Rightarrow> (zend_result \<times> world) option" where
  "store_merge_threaded t destination from overwrite w = do {
     d \<leftarrow> w_obj w destination;
     f \<leftarrow> w_obj w from;
     let a = zo_ts_obj d;
     let b = zo_ts_obj f;
     _ \<leftarrow> w_ts w a;
     _ \<leftarrow> w_ts w b;
     with_monitor t (LTs a)
       (\<lambda>w. with_monitor t (LTs b)
          (\<lambda>w. do {
             tb \<leftarrow> w_ts w b;
             (overwrote, w) \<leftarrow> merge_storage destination a overwrite
                                 (ht_buckets (store_hash (ts_props tb))) False w;
             w \<leftarrow> (if overwrote then pthreads_store_bump_modcount_nolock destination w else Some w);
             Some (SUCCESS, w) })
          (\<lambda>w. Some (SUCCESS, w)) w)
       (\<lambda>w. Some (FAILURE, w)) w }"

text \<open>
  \<open>pthreads_store_write\<close> with array coercion and the branch of \<open>pthreads_store_merge\<close> for plain
  tables call each other: an array becomes a new ThreadedArray into which its elements are
  merged.
\<close>

definition threaded_array_entry :: string where
  "threaded_array_entry = ''ThreadedArray''"

definition member_exists :: "addr \<Rightarrow> zkey \<Rightarrow> world \<Rightarrow> bool option" where
  "member_exists obj key w = do {
     ob \<leftarrow> w_obj w obj;
     ts \<leftarrow> w_ts w (zo_ts_obj ob);
     Some (zend_hash_exists (store_hash (ts_props ts)) key) }"

definition zval_of_key :: "zkey \<Rightarrow> zval" where
  "zval_of_key k = (case k of
      KLong n \<Rightarrow> IS_LONG n
    | KStr s \<Rightarrow> IS_STRING \<lparr>zs_addr = 0, zs_val = s, zs_interned = False, zs_permanent = False,
        zs_persistent = False\<rparr>)"

text \<open>The critical section in which the elements of a table are merged into \<open>destination\<close>.\<close>

definition in_store :: "tid \<Rightarrow> addr \<Rightarrow> (world \<Rightarrow> world option) \<Rightarrow> world \<Rightarrow> (zend_result \<times> world) option" where
  "in_store t destination body w = do {
     d \<leftarrow> w_obj w destination;
     _ \<leftarrow> w_ts w (zo_ts_obj d);
     with_monitor t (LTs (zo_ts_obj d)) (\<lambda>w. do { w \<leftarrow> body w; Some (SUCCESS, w) })
       (\<lambda>w. Some (SUCCESS, w)) w }"

fun pthreads_store_write ::
    "zend_engine \<Rightarrow> tid \<Rightarrow> addr \<Rightarrow> zval option \<Rightarrow> zval \<Rightarrow> bool \<Rightarrow> world \<Rightarrow> (zend_result \<times> world) option"
  and merge_table ::
    "zend_engine \<Rightarrow> tid \<Rightarrow> addr \<Rightarrow> (zkey \<times> zval) list \<Rightarrow> bool \<Rightarrow> bool \<Rightarrow> world \<Rightarrow> world option" where
  "pthreads_store_write E t obj key (IS_ARRAY ps) coerce w =
     (if coerce then do {
        (vol, w) \<leftarrow> object_init_ex E t threaded_array_entry w;
        (_, w) \<leftarrow> in_store t vol (merge_table E t vol ps True True) w;
        store_write_zval E t obj key (IS_OBJECT (ThreadedObject vol)) w }
      else store_write_zval E t obj key (IS_ARRAY ps) w)"
| "pthreads_store_write E t obj key v coerce w = store_write_zval E t obj key v w"
| "merge_table E t destination [] overwrite coerce w = Some w"
| "merge_table E t destination ((key, v) # ps) overwrite coerce w = do {
     exists \<leftarrow> member_exists destination key w;
     w \<leftarrow> (if \<not> overwrite \<and> exists then Some w
          else do {
            (_, w) \<leftarrow> pthreads_store_write E t destination (Some (zval_of_key key)) v coerce w;
            Some w });
     merge_table E t destination ps overwrite coerce w }"

text \<open>
  \<open>pthreads_store_merge\<close>. The properties of an object that is not a ThreadedArray are given by
  the engine as a table, the argument \<open>objprop\<close>; \<open>is_array\<close> tells the instances of ThreadedArray.
\<close>

definition pthreads_store_merge ::
  "zend_engine \<Rightarrow> (zobject \<Rightarrow> (zkey \<times> zval) list) \<Rightarrow> (zobject \<Rightarrow> addr option) \<Rightarrow> tid \<Rightarrow> addr \<Rightarrow> zval \<Rightarrow>
   bool \<Rightarrow> bool \<Rightarrow> world \<Rightarrow> (zend_result \<times> world) option" where
  "pthreads_store_merge E objprop is_array t destination from overwrite coerce w =
     (case from of
        IS_ARRAY ps \<Rightarrow> in_store t destination (merge_table E t destination ps overwrite coerce) w
      | IS_OBJECT ob \<Rightarrow>
          (case is_array ob of
             Some a \<Rightarrow> store_merge_threaded t destination a overwrite w
           | None \<Rightarrow> in_store t destination (merge_table E t destination (objprop ob) overwrite coerce) w)
      | _ \<Rightarrow> Some (FAILURE, w))"

end
