(* ===== verification/Read_Facts.thy ===== *)
theory Read_Facts
  imports Store_Access
begin

text \<open>
  How reading behaves: what restoring a stored cell gives, when a read is answered from the
  local cache and when from the shared table.
\<close>

section \<open>Cells that are restored without a connection\<close>

definition plain_storage :: "zval \<Rightarrow> bool" where
  "plain_storage z \<longleftrightarrow> (case z of
      IS_NULL \<Rightarrow> True | IS_FALSE \<Rightarrow> True | IS_TRUE \<Rightarrow> True | IS_LONG _ \<Rightarrow> True | IS_DOUBLE _ \<Rightarrow> True
    | IS_STRING _ \<Rightarrow> True
    | IS_PTR (STORE_TYPE_PTHREADS _) \<Rightarrow> False
    | IS_PTR _ \<Rightarrow> True
    | _ \<Rightarrow> False)"

text \<open>Restoring such a cell returns, and leaves objects, stores, globals and monitors alone.\<close>

definition restore_step :: "world \<Rightarrow> world \<Rightarrow> bool" where
  "restore_step w w' \<longleftrightarrow> w_obj w' = w_obj w \<and> w_ts w' = w_ts w \<and> w_globals w' = w_globals w \<and>
     w_monitors w' = w_monitors w \<and> w_workers w' = w_workers w \<and> w_heap w' = w_heap w \<and>
     w_next w \<le> w_next w'"

lemma restore_string_step:
  "pthreads_store_restore_string s w = (s', w') \<Longrightarrow> restore_step w w' \<and> zs_val s' = zs_val s \<and>
     (if zs_permanent s then s' = s else zs_addr s' = w_next w)"
  by (auto simp: pthreads_store_restore_string_def zend_string_init_def alloc_def restore_step_def
      split: if_splits)

lemma restore_resource_step: "restore_resource t r ls w = (v, w') \<Longrightarrow> restore_step w w'"
  by (auto simp: restore_resource_def restore_step_def Let_def pthreads_resources_keep_def
      split: if_splits option.splits prod.splits)

lemma plain_convert_step:
  assumes "\<forall>a. s \<noteq> STORE_TYPE_PTHREADS a"
  shows "\<exists>r v w'. pthreads_store_convert E t s w = Some ((r, v), w') \<and> restore_step w w'"
proof (cases s)
  case (STORE_TYPE_STRING_PTR str owner)
  then show ?thesis
    using restore_string_step [of str w]
    by (cases "pthreads_store_restore_string str w")
      (auto simp: pthreads_store_convert_def restore_step_def)
next
  case (STORE_TYPE_RESOURCE r ls)
  then show ?thesis
    using restore_resource_step [of t r ls w]
    by (cases "restore_resource t r ls w") (auto simp: pthreads_store_convert_def)
qed (use assms in \<open>auto simp: pthreads_store_convert_def restore_step_def alloc_def split: option.split\<close>)

lemma plain_restore_step:
  assumes "plain_storage z"
  shows "\<exists>v b w'. pthreads_store_restore_zval_ex E t z w = Some ((v, b), w') \<and> restore_step w w'"
proof (cases z)
  case (IS_STRING s)
  then show ?thesis
    using restore_string_step [of s w]
    by (cases "pthreads_store_restore_string s w") (auto simp: pthreads_store_restore_zval_ex_def)
next
  case (IS_PTR s)
  with assms have "\<forall>a. s \<noteq> STORE_TYPE_PTHREADS a" by (auto simp: plain_storage_def)
  from plain_convert_step [OF this, of E t w] IS_PTR show ?thesis
    by (auto simp: pthreads_store_restore_zval_ex_def)
qed (use assms in \<open>auto simp: plain_storage_def pthreads_store_restore_zval_ex_def restore_step_def\<close>)

lemma restore_flag:
  "pthreads_store_restore_zval_ex E t z w = Some ((v, b), w') \<Longrightarrow>
     b = pthreads_store_storage_is_cacheable (Some z)"
  by (cases z) (auto simp: pthreads_store_restore_zval_ex_def bind_Some_iff Let_def
      pthreads_store_storage_is_cacheable_def TRY_PTHREADS_STORAGE_PTR_P_def split: prod.splits)

text \<open>Holding a monitor makes no difference to the result.\<close>

lemma restore_string_lock:
  "pthreads_store_restore_string s (lock_w u l w) =
     map_prod id (lock_w u l) (pthreads_store_restore_string s w)"
  by (simp add: pthreads_store_restore_string_def)

lemma restore_resource_lock:
  "restore_resource t r ls (lock_w u l w) = map_prod id (lock_w u l) (restore_resource t r ls w)"
  by (simp add: restore_resource_def Let_def pthreads_resources_keep_def split: option.split)

lemma plain_convert_lock:
  assumes "\<forall>a. s \<noteq> STORE_TYPE_PTHREADS a"
  shows "pthreads_store_convert E t s (lock_w u l w) =
     map_option (map_prod id (lock_w u l)) (pthreads_store_convert E t s w)"
proof (cases s)
  case (STORE_TYPE_STRING_PTR str owner)
  then show ?thesis
    by (cases "pthreads_store_restore_string str w")
      (simp add: pthreads_store_convert_def restore_string_lock)
next
  case (STORE_TYPE_RESOURCE r ls)
  then show ?thesis
    by (cases "restore_resource t r ls w")
      (simp add: pthreads_store_convert_def restore_resource_lock)
next
  case (STORE_TYPE_SOCKET fd ty e b)
  then show ?thesis by (simp add: pthreads_store_convert_def alloc_def)
next
  case (STORE_TYPE_CLOSURE c i)
  then show ?thesis by (simp add: pthreads_store_convert_def alloc_def)
qed (use assms in \<open>simp_all add: pthreads_store_convert_def split: option.split\<close>)

lemma plain_restore_lock:
  assumes "plain_storage z"
  shows "pthreads_store_restore_zval_ex E t z (lock_w u l w) =
     map_option (map_prod id (lock_w u l)) (pthreads_store_restore_zval_ex E t z w)"
proof (cases z)
  case (IS_STRING s)
  then show ?thesis
    by (cases "pthreads_store_restore_string s w")
      (simp add: pthreads_store_restore_zval_ex_def restore_string_lock)
next
  case (IS_PTR s)
  with assms have "\<forall>a. s \<noteq> STORE_TYPE_PTHREADS a" by (auto simp: plain_storage_def)
  from plain_convert_lock [OF this] IS_PTR show ?thesis
    by (cases "pthreads_store_convert E t s w") (auto simp: pthreads_store_restore_zval_ex_def)
qed (use assms in \<open>simp_all add: plain_storage_def pthreads_store_restore_zval_ex_def\<close>)

section \<open>Reading\<close>

text \<open>The usable cache entry of an object for a key.\<close>

definition cached :: "pthreads_zend_object \<Rightarrow> zkey \<Rightarrow> zval option" where
  "cached ob k = (case zo_properties ob of
      None \<Rightarrow> None
    | Some ht \<Rightarrow> (case zend_hash_find ht k of
        Some c \<Rightarrow> if pthreads_store_valid_local_cache_item c then Some c else None
      | None \<Rightarrow> None))"

text \<open>A read synchronises the cache first when there is one.\<close>

definition reader_synced :: "tid \<Rightarrow> world \<Rightarrow> pthreads_store \<Rightarrow> pthreads_zend_object \<Rightarrow> pthreads_zend_object" where
  "reader_synced t w st ob = (if zo_properties ob = None then ob else synced t w st ob)"

lemma reader_synced_simps [simp]:
  "zo_ts_obj (reader_synced t w st ob) = zo_ts_obj ob" "zo_owner (reader_synced t w st ob) = zo_owner ob"
  "zo_ce (reader_synced t w st ob) = zo_ce ob"
  by (simp_all add: reader_synced_def)

lemma synced_properties: "(zo_properties (synced t w st ob) = None) = (zo_properties ob = None)"
  by (simp add: synced_def)

lemma valid_deindirect: "pthreads_store_valid_local_cache_item c \<Longrightarrow> ZVAL_DEINDIRECT c = c"
  by (cases c) (simp_all add: pthreads_store_valid_local_cache_item_def ZVAL_DEINDIRECT_def)

lemma store_read_locked_eq:
  fixes k :: zkey
  assumes "connected w obj ob ts" and "registry_ok w" and "cache_ok w ob"
    and "can_lock (Suc n) L t w" and "LGlobal \<in> L"
  defines "ob' \<equiv> reader_synced t w (ts_props ts) ob"
  shows "store_read_locked E t obj (zo_ts_obj ob) k type w =
    (case cached ob' k of
       Some c \<Rightarrow> Some (ReadCached c, set_obj obj ob' w)
     | None \<Rightarrow> store_read_shared E t obj (zo_ts_obj ob) k type (set_obj obj ob' w))"
proof (cases "zo_properties ob")
  case None
  with connectedD [OF assms(1)] show ?thesis
    by (simp add: store_read_locked_def ob'_def reader_synced_def cached_def set_obj_same)
next
  case (Some ht)
  then have ob': "ob' = synced t w (ts_props ts) ob" by (simp add: ob'_def reader_synced_def)
  from Some obtain ht' where ht': "zo_properties ob' = Some ht'"
    unfolding ob' using synced_properties [of t w "ts_props ts" ob] by auto
  show ?thesis
    using connectedD [OF assms(1)] Some ht' sync_local_ok [OF assms(1-5)]
    by (auto simp: store_read_locked_def ob'[symmetric] cached_def valid_deindirect split: option.split)
qed

lemma ready_can_lock:
  "store_ready (Suc n) t obj ob ts w \<Longrightarrow>
     can_lock n {LTs (zo_ts_obj ob), LGlobal} t (lock_w t l w)"
  by (simp add: store_ready_def can_lock_inside)

lemma reader_synced_lock [simp]: "reader_synced t (lock_w u l w) st ob = reader_synced t w st ob"
  using synced_same [of w "lock_w u l w"] same_objects_refl [of w]
  by (simp add: reader_synced_def)

lemma store_read_cached:
  fixes E :: zend_engine and key :: zval
  assumes ready: "store_ready (Suc (Suc n)) t obj ob ts w"
  defines "ob' \<equiv> reader_synced t w (ts_props ts) ob"
  assumes c: "cached ob' (snd (pthreads_store_coerce E key)) = Some c"
  shows "pthreads_store_read E t obj key type w = Some ((SUCCESS, c), set_obj obj ob' w)"
proof -
  note r = store_readyD [OF ready]
  note conn = connectedD [OF r(1)]
  let ?w = "lock_w t (LTs (zo_ts_obj ob)) w"
  have "store_read_locked E t obj (zo_ts_obj ob) (snd (pthreads_store_coerce E key)) type ?w =
      Some (ReadCached c, lock_w t (LTs (zo_ts_obj ob)) (set_obj obj ob' w))"
    using store_read_locked_eq [of ?w obj ob ts n _ t, OF _ _ _ ready_can_lock [OF ready]] r c
    by (simp add: ob'_def)
  then have "with_monitor t (LTs (zo_ts_obj ob))
      (store_read_locked E t obj (zo_ts_obj ob) (snd (pthreads_store_coerce E key)) type)
      (\<lambda>w. Some (ReadNothing, w)) w = Some (ReadCached c, set_obj obj ob' w)"
    by (intro with_monitor_ok [OF r(5)]) simp_all
  then show ?thesis by (simp add: pthreads_store_read_def conn Let_def)
qed

lemma store_read_missing:
  fixes E :: zend_engine and key :: zval
  assumes ready: "store_ready (Suc (Suc n)) t obj ob ts w"
  defines "ob' \<equiv> reader_synced t w (ts_props ts) ob" and "k \<equiv> snd (pthreads_store_coerce E key)"
  assumes c: "cached ob' k = None" and none: "zend_hash_find (store_hash (ts_props ts)) k = None"
  shows "pthreads_store_read E t obj key type w = Some ((FAILURE, IS_UNDEF), set_obj obj ob' w)"
proof -
  note r = store_readyD [OF ready]
  note conn = connectedD [OF r(1)]
  let ?w = "lock_w t (LTs (zo_ts_obj ob)) w"
  have "store_read_locked E t obj (zo_ts_obj ob) k type ?w =
      Some (ReadNothing, lock_w t (LTs (zo_ts_obj ob)) (set_obj obj ob' w))"
    using store_read_locked_eq [of ?w obj ob ts n _ t, OF _ _ _ ready_can_lock [OF ready]] r c conn none
    by (simp add: ob'_def store_read_shared_def)
  then have "with_monitor t (LTs (zo_ts_obj ob)) (store_read_locked E t obj (zo_ts_obj ob) k type)
      (\<lambda>w. Some (ReadNothing, w)) w = Some (ReadNothing, set_obj obj ob' w)"
    by (intro with_monitor_ok [OF r(5)]) simp_all
  then show ?thesis by (simp add: pthreads_store_read_def conn Let_def k_def)
qed

lemma store_read_stored:
  fixes E :: zend_engine and key :: zval
  assumes ready: "store_ready (Suc (Suc n)) t obj ob ts w"
  defines "ob' \<equiv> reader_synced t w (ts_props ts) ob" and "k \<equiv> snd (pthreads_store_coerce E key)"
  assumes c: "cached ob' k = None" and z: "zend_hash_find (store_hash (ts_props ts)) k = Some z"
    and plain: "plain_storage z" and type: "storage_readable type z"
    and restore: "pthreads_store_restore_zval_ex E t z (set_obj obj ob' w) = Some ((v, b), w')"
  shows "pthreads_store_read E t obj key type w =
    Some ((SUCCESS, v), set_obj obj (cache_put E k v ob') w')"
proof -
  note r = store_readyD [OF ready]
  note conn = connectedD [OF r(1)]
  let ?w = "lock_w t (LTs (zo_ts_obj ob)) w"
  have step: "restore_step (set_obj obj ob' w) w'"
    using plain_restore_step [OF plain, of E t "set_obj obj ob' w"] restore by auto
  have "store_read_locked E t obj (zo_ts_obj ob) k type ?w =
      Some (ReadStored v, lock_w t (LTs (zo_ts_obj ob)) w')"
    using store_read_locked_eq [of ?w obj ob ts n _ t, OF _ _ _ ready_can_lock [OF ready]]
      r c conn z type restore
    by (simp add: ob'_def store_read_shared_def pthreads_store_restore_zval_def
        plain_restore_lock [OF plain])
  then have "with_monitor t (LTs (zo_ts_obj ob)) (store_read_locked E t obj (zo_ts_obj ob) k type)
      (\<lambda>w. Some (ReadNothing, w)) w = Some (ReadStored v, w')"
    using step by (intro with_monitor_ok [OF r(5)]) (simp_all add: restore_step_def)
  moreover have "w_obj w' obj = Some ob'" using step by (simp add: restore_step_def)
  ultimately show ?thesis
    by (simp add: pthreads_store_read_def conn Let_def k_def update_local_ok)
qed

end
