(* ===== verification/Store_Props.thy ===== *)
theory Store_Props
  imports Read_Facts
begin

text \<open>
  Properties of the store: what a write, a read, a deletion and a test see of each other,
  on one connection and between connections of different threads.
\<close>

section \<open>States after a write\<close>

lemma rebuild_cache_ok: "cache_ok w ob \<Longrightarrow> cache_ok w (rebuild_object_properties E ob)"
proof -
  have "table_ok w (foldl (\<lambda>ht n. zend_hash_update ht (KStr n) (IS_INDIRECT IS_UNDEF)) ht ns)"
    if "table_ok w ht" for ht ns
    using that by (induction ns arbitrary: ht) (simp_all add: table_ok_update)
  then show "cache_ok w ob \<Longrightarrow> cache_ok w (rebuild_object_properties E ob)"
    by (auto simp: cache_ok_def rebuild_object_properties_def split: option.splits)
qed

lemma cache_put_ok:
  assumes "cache_ok w ob" and "zval_alive w v"
  shows "cache_ok w (cache_put E k v ob)"
  using rebuild_cache_ok [OF assms(1), of E] assms
  by (auto simp: cache_put_def cache_ok_def table_ok_update split: option.splits)

lemma cache_del_ok: "cache_ok w ob \<Longrightarrow> cache_ok w (cache_del k ob)"
  by (auto simp: cache_ok_def cache_del_def table_ok_del split: option.splits)

lemma writer_after_ok:
  "cache_ok w ob \<Longrightarrow> zval_alive w v \<Longrightarrow> cache_ok w (writer_after E t w k z v st ob)"
  by (simp add: writer_after_def cache_put_ok synced_cache_ok cache_ok_bumped)

lemma writer_after_simps [simp]:
  "zo_ts_obj (writer_after E t w k z v st ob) = zo_ts_obj ob"
  "zo_owner (writer_after E t w k z v st ob) = zo_owner ob"
  "zo_original_zobj (writer_after E t w k z v st ob) = zo_original_zobj ob"
  "zo_local_props_modcount (writer_after E t w k z v st ob) = store_modcount (store_put k z st)"
  by (simp_all add: writer_after_def)

text \<open>The state after a successful write, and that the object is ready again in it.\<close>

definition after_write ::
  "zend_engine \<Rightarrow> tid \<Rightarrow> addr \<Rightarrow> zkey \<Rightarrow> zval \<Rightarrow> zval \<Rightarrow> pthreads_zend_object \<Rightarrow> pthreads_object \<Rightarrow>
   world \<Rightarrow> world \<Rightarrow> world" where
  "after_write E t obj k z v ob ts w w\<^sub>1 =
     set_obj obj (writer_after E t w k z v (ts_props ts) ob)
       (set_ts (zo_ts_obj ob) (ts\<lparr>ts_props := store_put k z (ts_props ts)\<rparr>) w\<^sub>1)"

lemma after_write_same_objects:
  assumes "w_obj w obj = Some ob" and "globals_step w w\<^sub>1"
  shows "same_objects w (after_write E t obj k z v ob ts w w\<^sub>1)"
  using assms globals_stepD(7) [OF assms(2)]
  by (simp add: after_write_def same_objects_put)

lemma write_ready:
  assumes "store_ready n t obj ob ts w" and "globals_step w w\<^sub>1" and "zval_alive w v"
  shows "store_ready n t obj (writer_after E t w k z v (ts_props ts) ob)
    (ts\<lparr>ts_props := store_put k z (ts_props ts)\<rparr>) (after_write E t obj k z v ob ts w w\<^sub>1)"
proof -
  note r = store_readyD [OF assms(1)]
  have same: "same_objects w (after_write E t obj k z v ob ts w w\<^sub>1)"
    using after_write_same_objects connectedD(1) [OF r(1)] assms(2) by blast
  have "can_lock n {LTs (zo_ts_obj ob), LGlobal} t (after_write E t obj k z v ob ts w w\<^sub>1)"
    using globals_stepD(3) [OF assms(2)] r(5) by (simp add: after_write_def can_lock_def)
  then show ?thesis
    using r assms(3) same
    by (simp add: store_ready_def same_objects_registry same_objects_cache writer_after_ok)
      (simp add: connected_def after_write_def)
qed

lemma write_ready_other:
  assumes "store_ready n u obj' ob' ts w" and "globals_step w w\<^sub>1"
    and "connected w obj ob ts" and "obj' \<noteq> obj" and "zo_ts_obj ob' = zo_ts_obj ob"
  shows "store_ready n u obj' ob' (ts\<lparr>ts_props := store_put k z (ts_props ts)\<rparr>)
    (after_write E t obj k z v ob ts w w\<^sub>1)"
proof -
  note r = store_readyD [OF assms(1)]
  have same: "same_objects w (after_write E t obj k z v ob ts w w\<^sub>1)"
    using after_write_same_objects connectedD(1) [OF assms(3)] assms(2) by blast
  have "can_lock n {LTs (zo_ts_obj ob'), LGlobal} u (after_write E t obj k z v ob ts w w\<^sub>1)"
    using globals_stepD(3) [OF assms(2)] r(5) by (simp add: after_write_def can_lock_def)
  then show ?thesis
    using r assms(4,5) same globals_stepD(1) [OF assms(2)]
    by (simp add: store_ready_def same_objects_registry same_objects_cache)
      (simp add: connected_def after_write_def)
qed

lemma write_not_array:
  "\<forall>ps. v \<noteq> IS_ARRAY ps \<Longrightarrow> pthreads_store_write E t obj key v c w = store_write_zval E t obj key v w"
  by (cases v) simp_all

text \<open>A write of a value that can be saved, as one equation.\<close>

lemma write_saved:
  fixes E :: zend_engine and key :: "zval option"
  assumes ready: "store_ready (Suc (Suc n)) t obj ob ts w" and alive: "zval_alive w v"
    and saved: "saved t (zo_owner ob) v w = Some z"
  shows "\<exists>w\<^sub>1. globals_step w w\<^sub>1 \<and> store_write_zval E t obj key v w = Some (SUCCESS,
    after_write E t obj (key_of E (store_hash (ts_props ts)) key) z v ob ts w w\<^sub>1)"
proof -
  from save_zval_ok [OF store_readyD(5) [OF ready] _ alive] obtain r w1 where
    w1: "pthreads_store_save_zval t (zo_owner ob) v w = Some (r, w1)" "globals_step w w1"
    by blast
  with saved have "r = Some z" by (simp add: saved_def)
  with store_write_ok [OF ready _ w1(2), of v z E key] w1 show ?thesis
    by (auto simp: after_write_def)
qed

section \<open>Scalars\<close>

fun is_scalar :: "zval \<Rightarrow> bool" where
  "is_scalar IS_NULL = True" | "is_scalar IS_FALSE = True" | "is_scalar IS_TRUE = True"
| "is_scalar (IS_LONG _) = True" | "is_scalar (IS_DOUBLE _) = True" | "is_scalar _ = False"

lemma scalar_facts:
  assumes "is_scalar v"
  shows "saved t s v w = Some v" and "zval_alive w v" and "plain_storage v"
    and "\<not> pthreads_store_retain_in_local_cache v" and "\<forall>ps. v \<noteq> IS_ARRAY ps"
    and "pthreads_store_restore_zval_ex E t v w = Some ((v, False), w)"
    and "TRY_PTHREADS_STORAGE_PTR_P (Some v) = None"
  using assms
  by (cases v; simp add: saved_def pthreads_store_save_zval_def plain_storage_def
      pthreads_store_retain_in_local_cache_def view_defs pthreads_store_restore_zval_ex_def)+

lemma retained_valid:
  "pthreads_store_retain_in_local_cache v \<Longrightarrow> pthreads_store_valid_local_cache_item v"
  by (cases v) (simp_all add: pthreads_store_retain_in_local_cache_def view_defs
      pthreads_store_valid_local_cache_item_def)

lemma retained_not_array: "pthreads_store_retain_in_local_cache v \<Longrightarrow> \<forall>ps. v \<noteq> IS_ARRAY ps"
  by (auto simp: pthreads_store_retain_in_local_cache_def view_defs)

lemma cached_put:
  "pthreads_store_retain_in_local_cache v \<Longrightarrow> cached (cache_put E k v ob) k = Some v"
  using rebuild_simps(5) [of E ob] retained_valid [of v]
  by (auto simp: cached_def cache_put_def simp del: rebuild_simps(5))

lemma cached_put_not_retained:
  "\<not> pthreads_store_retain_in_local_cache v \<Longrightarrow> cache_put E k v ob = ob"
  by (simp add: cache_put_def)

lemma synced_in_step [simp]: "zo_local_props_modcount ob = store_modcount st \<Longrightarrow> synced t w st ob = ob"
  by (simp add: synced_def)

lemma reader_in_step [simp]:
  "zo_local_props_modcount ob = store_modcount st \<Longrightarrow> reader_synced t w st ob = ob"
  by (simp add: reader_synced_def)

text \<open>Synchronising never makes a new entry usable.\<close>

lemma map_of_filter_None: "map_of ps k = None \<Longrightarrow> map_of (filter P ps) k = None"
  by (auto simp: map_of_eq_None_iff)

lemma map_of_filter_distinct:
  "distinct (map fst ps) \<Longrightarrow> map_of (filter P ps) k =
     (case map_of ps k of None \<Rightarrow> None | Some v \<Rightarrow> if P (k, v) then Some v else None)"
  by (induction ps) (auto simp: map_of_eq_None_iff split: option.splits)

lemma cached_synced:
  assumes "cache_ok w ob" and "zo_local_props_modcount ob \<noteq> store_modcount st"
  shows "cached (synced t w' st ob) k =
    (case cached ob k of None \<Rightarrow> None
     | Some c \<Rightarrow> if keeps t w' (zend_hash_find (store_hash st) k) c then Some c else None)"
proof (cases "zo_properties ob")
  case (Some ht)
  with assms(1) have d: "distinct (map fst (ht_buckets ht))"
    by (simp add: cache_ok_def table_ok_def ht_ok_def)
  show ?thesis
    using Some assms(2)
    by (auto simp: cached_def synced_def zend_hash_find_def map_of_filter_distinct [OF d] split: option.split)
qed (simp add: cached_def synced_def)

lemma cached_bumped [simp]: "cached (bumped c st ob) = cached ob"
  by (simp add: cached_def fun_eq_iff)

lemma cached_synced_None: "cache_ok w ob \<Longrightarrow> cached ob k = None \<Longrightarrow> cached (synced t w' st ob) k = None"
  by (cases "zo_local_props_modcount ob = store_modcount st") (simp_all add: cached_synced)

section \<open>A small world for the witnesses\<close>

text \<open>
  Thread 1 owns the object at address 1, thread 2 has a connection to it at address 3; the
  shared part is at address 2.
\<close>

definition demo_ts :: "hash \<Rightarrow> int \<Rightarrow> pthreads_object" where
  "demo_ts ht m = \<lparr>ts_refcount = 2, ts_scope = PTHREADS_SCOPE_THREADED,
     ts_props = \<lparr>store_hash = ht, store_modcount = m\<rparr>,
     ts_creator = \<lparr>ident_id = 1, ident_ls = 1\<rparr>, ts_local = None\<rparr>"

definition demo_zobj :: "tid \<Rightarrow> addr option \<Rightarrow> int \<Rightarrow> hash option \<Rightarrow> pthreads_zend_object" where
  "demo_zobj t orig l props = \<lparr>zo_ts_obj = 2, zo_owner = \<lparr>ident_id = word_of_nat t, ident_ls = t\<rparr>,
     zo_original_zobj = orig, zo_local_props_modcount = l, zo_worker_data = None, zo_ce = ''T'',
     zo_properties = props, zo_recursive = False\<rparr>"

definition demo_table :: "(zkey \<times> zval) list \<Rightarrow> hash" where
  "demo_table ps = \<lparr>ht_buckets = ps, ht_next_free = ZEND_LONG_MIN\<rparr>"

definition demo_world :: "pthreads_object \<Rightarrow> pthreads_zend_object \<Rightarrow> pthreads_zend_object \<Rightarrow> world" where
  "demo_world ts ob\<^sub>1 ob\<^sub>2 = empty_world\<lparr>w_next := 10, w_ts := [2 \<mapsto> ts], w_obj := [1 \<mapsto> ob\<^sub>1, 3 \<mapsto> ob\<^sub>2],
     w_globals := empty_globals\<lparr>g_objects := {1, 3}\<rparr>\<rparr>"

lemma demo_world_simps [simp]:
  "w_next (demo_world ts ob\<^sub>1 ob\<^sub>2) = 10" "w_ts (demo_world ts ob\<^sub>1 ob\<^sub>2) = [2 \<mapsto> ts]"
  "w_obj (demo_world ts ob\<^sub>1 ob\<^sub>2) = [1 \<mapsto> ob\<^sub>1, 3 \<mapsto> ob\<^sub>2]"
  "g_objects (w_globals (demo_world ts ob\<^sub>1 ob\<^sub>2)) = {1, 3}"
  "zo_ts_obj (demo_zobj t orig l props) = 2" "zo_properties (demo_zobj t orig l props) = props"
  "zo_local_props_modcount (demo_zobj t orig l props) = l"
  "ident_ls (zo_owner (demo_zobj t orig l props)) = t"
  "ts_props (demo_ts ht m) = \<lparr>store_hash = ht, store_modcount = m\<rparr>"
  "ht_buckets (demo_table ps) = ps"
  by (simp_all add: demo_world_def demo_zobj_def demo_ts_def demo_table_def)

lemma demo_can_lock: "n \<le> 1000 \<Longrightarrow> can_lock n L t (demo_world ts ob\<^sub>1 ob\<^sub>2)"
  using empty_world_can_lock [of n L t] by (simp add: demo_world_def can_lock_def)

lemma demo_ready:
  assumes "cache_ok (demo_world ts ob\<^sub>1 ob\<^sub>2) ob" and "ht_ok (store_hash (ts_props ts))"
    and "zo_ts_obj ob = 2" and "obj = 1 \<and> ob = ob\<^sub>1 \<or> obj = 3 \<and> ob = ob\<^sub>2"
  shows "store_ready 2 t obj ob ts (demo_world ts ob\<^sub>1 ob\<^sub>2)"
  using assms by (auto simp: store_ready_def connected_def registry_ok_def demo_can_lock)

lemma demo_cache_ok:
  "distinct (map fst ps) \<Longrightarrow> \<forall>p\<in>set ps. zval_alive w (snd p) \<Longrightarrow>
     cache_ok w (demo_zobj t orig l (Some (demo_table ps)))"
  "cache_ok w (demo_zobj t orig l None)"
  by (simp_all add: cache_ok_def table_ok_def ht_ok_def)

lemma demo_coerce [simp]: "pthreads_store_coerce E (IS_LONG n) = (False, KLong n)"
  by (simp add: pthreads_store_coerce_def)

section \<open>One connection\<close>

text \<open>
  C2. What is written is read back: after a write of a string, closure, socket or threaded
  object (anything the local cache retains) the same object reads exactly that value; a
  null, boolean, integer or float is read back exactly when the local cache of the object
  has no entry for the key.
\<close>

theorem store_write_read:
  assumes "store_ready 2 t obj ob ts w" and "zval_alive w v" and "saved t (zo_owner ob) v w \<noteq> None"
    and "pthreads_store_retain_in_local_cache v \<or>
      is_scalar v \<and> cached ob (snd (pthreads_store_coerce E key)) = None"
    and "type = BP_VAR_R \<or> type = BP_VAR_IS"
  shows "\<exists>w\<^sub>1 w\<^sub>2. pthreads_store_write E t obj (Some key) v coerce w = Some (SUCCESS, w\<^sub>1) \<and>
    pthreads_store_read E t obj key type w\<^sub>1 = Some ((SUCCESS, v), w\<^sub>2)"
proof -
  have ready: "store_ready (Suc (Suc 0)) t obj ob ts w" using assms(1) by (simp add: numeral_2_eq_2)
  let ?k = "snd (pthreads_store_coerce E key)" and ?st = "ts_props ts"
  from assms(3) obtain z where z: "saved t (zo_owner ob) v w = Some z" by auto
  have na: "\<forall>ps. v \<noteq> IS_ARRAY ps" using assms(4) retained_not_array scalar_facts(5) by blast
  have key: "key_of E (store_hash ?st) (Some key) = ?k" by (simp add: key_of_def)
  from write_saved [OF ready assms(2) z, of E "Some key"] obtain w1 where
    w1: "globals_step w w1" "store_write_zval E t obj (Some key) v w =
      Some (SUCCESS, after_write E t obj ?k z v ob ts w w1)"
    by (auto simp: key)
  let ?w = "after_write E t obj ?k z v ob ts w w1" and ?ob = "writer_after E t w ?k z v ?st ob"
  note ready' = write_ready [OF ready w1(1) assms(2), of E ?k z]
  have step: "reader_synced t ?w (store_put ?k z ?st) ?ob = ?ob" by simp
  have "\<exists>w2. pthreads_store_read E t obj key type ?w = Some ((SUCCESS, v), w2)"
  proof (cases "pthreads_store_retain_in_local_cache v")
    case True
    then have "cached ?ob ?k = Some v" by (simp add: writer_after_def cached_put)
    with store_read_cached [OF ready', of E key v type] step show ?thesis by simp
  next
    case False
    with assms(4) have sc: "is_scalar v" and c: "cached ob ?k = None" by auto
    have zv: "z = v" using z scalar_facts(1) [OF sc] by simp
    have "cached ?ob ?k = None"
      using c cached_synced_None [OF cache_ok_bumped [OF store_readyD(3) [OF ready]]]
      by (simp add: writer_after_def cached_put_not_retained [OF False])
    with store_read_stored [OF ready', of E key v type v] step zv scalar_facts [OF sc] assms(5)
    show ?thesis by (auto simp: storage_readable_def)
  qed
  with w1 na show ?thesis by (simp add: write_not_array)
qed

theorem store_write_read_witness:
  "\<exists>w\<^sub>1 w\<^sub>2. pthreads_store_write demo_engine 1 1 (Some (IS_LONG 7)) (IS_OBJECT (ThreadedObject 3)) False
      (demo_world (demo_ts (demo_table []) 0) (demo_zobj 1 None (- 1) None) (demo_zobj 2 (Some 1) (- 1) None)) =
        Some (SUCCESS, w\<^sub>1) \<and>
    pthreads_store_read demo_engine 1 1 (IS_LONG 7) BP_VAR_R w\<^sub>1 = Some ((SUCCESS, IS_OBJECT (ThreadedObject 3)), w\<^sub>2)"
proof -
  let ?ob = "demo_zobj 1 None (- 1) None" and ?ts = "demo_ts (demo_table []) 0"
  let ?w = "demo_world ?ts ?ob (demo_zobj 2 (Some 1) (- 1) None)"
  let ?v = "IS_OBJECT (ThreadedObject 3)"
  have "store_ready 2 1 1 ?ob ?ts ?w"
    by (rule demo_ready) (simp_all add: demo_cache_ok ht_ok_def)
  moreover have "saved 1 (zo_owner ?ob) ?v ?w \<noteq> None"
    by (simp add: saved_def pthreads_store_save_zval_def)
  moreover have "pthreads_store_retain_in_local_cache ?v"
    by (simp add: pthreads_store_retain_in_local_cache_def view_defs)
  ultimately show ?thesis
    using store_write_read [of 1 1 ?ob ?ts ?w ?v demo_engine "IS_LONG 7" BP_VAR_R False] by simp
qed

text \<open>
  C6. A stale read on one connection: when the cache of an object is in step with the store and
  holds a value for a key, writing a null, boolean, integer or float under that key
  leaves the cached value in place, and the next read of the key through the same object
  returns the old value although the shared table holds the new one.
\<close>

theorem store_scalar_write_stale_read:
  assumes "store_ready 2 t obj ob ts w" and "is_scalar v"
    and "zo_local_props_modcount ob = store_modcount (ts_props ts)"
    and "cached ob (snd (pthreads_store_coerce E key)) = Some c"
  shows "\<exists>w\<^sub>1 w\<^sub>2. pthreads_store_write E t obj (Some key) v coerce w = Some (SUCCESS, w\<^sub>1) \<and>
    map_option (\<lambda>ts. zend_hash_find (store_hash (ts_props ts)) (snd (pthreads_store_coerce E key)))
      (w_ts w\<^sub>1 (zo_ts_obj ob)) = Some (Some v) \<and>
    pthreads_store_read E t obj key type w\<^sub>1 = Some ((SUCCESS, c), w\<^sub>2)"
proof -
  have ready: "store_ready (Suc (Suc 0)) t obj ob ts w" using assms(1) by (simp add: numeral_2_eq_2)
  let ?k = "snd (pthreads_store_coerce E key)" and ?st = "ts_props ts"
  note sc = scalar_facts [OF assms(2)]
  from write_saved [OF ready sc(2) sc(1), of E "Some key"] obtain w1 where
    w1: "globals_step w w1" "store_write_zval E t obj (Some key) v w =
      Some (SUCCESS, after_write E t obj ?k v v ob ts w w1)"
    by (auto simp: key_of_def)
  let ?w = "after_write E t obj ?k v v ob ts w w1" and ?ob = "writer_after E t w ?k v v ?st ob"
  note ready' = write_ready [OF ready w1(1) sc(2), of E ?k v]
  have "synced t w (store_put ?k v ?st) (bumped (pthreads_store_storage_is_cacheable
      (zend_hash_find (store_hash ?st) ?k)) ?st ob) =
      bumped (pthreads_store_storage_is_cacheable (zend_hash_find (store_hash ?st) ?k)) ?st ob"
    using assms(3) by (intro synced_in_step) (simp add: bumped_local store_put_modcount)
  then have "cached ?ob ?k = Some c"
    using assms(4) by (simp add: writer_after_def cached_put_not_retained sc)
  moreover have "reader_synced t ?w (store_put ?k v ?st) ?ob = ?ob" by simp
  ultimately show ?thesis
    using store_read_cached [OF ready', of E key c type] w1(2)
    by (simp add: write_not_array sc) (simp add: after_write_def)
qed

theorem store_scalar_write_stale_read_witness:
  "\<exists>w\<^sub>1 w\<^sub>2. pthreads_store_write demo_engine 1 1 (Some (IS_LONG 7)) (IS_LONG 5) False
      (demo_world (demo_ts (demo_table [(KLong 7, IS_PTR (STORE_TYPE_PTHREADS 3))]) 0)
        (demo_zobj 1 None 0 (Some (demo_table [(KLong 7, IS_OBJECT (ThreadedObject 3))])))
        (demo_zobj 2 (Some 1) (- 1) None)) = Some (SUCCESS, w\<^sub>1) \<and>
    pthreads_store_read demo_engine 1 1 (IS_LONG 7) BP_VAR_R w\<^sub>1 =
      Some ((SUCCESS, IS_OBJECT (ThreadedObject 3)), w\<^sub>2)"
proof -
  let ?ob = "demo_zobj 1 None 0 (Some (demo_table [(KLong 7, IS_OBJECT (ThreadedObject 3))]))"
  let ?ts = "demo_ts (demo_table [(KLong 7, IS_PTR (STORE_TYPE_PTHREADS 3))]) 0"
  let ?w = "demo_world ?ts ?ob (demo_zobj 2 (Some 1) (- 1) None)"
  have "store_ready 2 1 1 ?ob ?ts ?w"
    by (rule demo_ready) (simp_all add: demo_cache_ok ht_ok_def)
  moreover have "cached ?ob (KLong 7) = Some (IS_OBJECT (ThreadedObject 3))"
    by (simp add: cached_def zend_hash_find_def pthreads_store_valid_local_cache_item_def)
  ultimately show ?thesis
    using store_scalar_write_stale_read [of 1 1 ?ob ?ts ?w "IS_LONG 5" demo_engine "IS_LONG 7"
        "IS_OBJECT (ThreadedObject 3)" False BP_VAR_R] by auto
qed

section \<open>Two connections\<close>

text \<open>
  A value handed to another thread: scalars are equal; strings have the same bytes and are
  either permanent or a fresh copy.
\<close>

definition isolated_copy :: "addr \<Rightarrow> zval \<Rightarrow> zval \<Rightarrow> bool" where
  "isolated_copy fresh v r \<longleftrightarrow>
     (case v of
        IS_STRING s \<Rightarrow> (\<exists>s'. r = IS_STRING s' \<and> zs_val s' = zs_val s \<and>
          (zs_permanent s \<and> s' = s \<or> fresh \<le> zs_addr s'))
      | _ \<Rightarrow> r = v)"

fun is_scalar_or_string :: "zval \<Rightarrow> bool" where
  "is_scalar_or_string (IS_STRING _) = True" | "is_scalar_or_string v = is_scalar v"

lemma scalar_or_string_cases:
  assumes "is_scalar_or_string v"
  obtains "is_scalar v" | s where "v = IS_STRING s"
  using assms by (cases v) auto

lemma saved_string:
  "saved t owner (IS_STRING s) w =
     Some (if zs_permanent s then IS_STRING s else IS_PTR (STORE_TYPE_STRING_PTR s owner))"
  by (simp add: saved_def pthreads_store_save_zval_def)

text \<open>What thread \<open>u\<close> gets from a scalar or string that thread \<open>t\<close> saved.\<close>

lemma restore_saved:
  assumes "is_scalar_or_string v" and "ident_ls owner = t" and "t \<noteq> u"
    and "saved t owner v w = Some z"
  shows "\<exists>r b w'. pthreads_store_restore_zval_ex E u z w\<^sub>0 = Some ((r, b), w') \<and>
      isolated_copy (w_next w\<^sub>0) v r"
  using assms(1)
proof (cases rule: scalar_or_string_cases)
  case 1
  then have z: "z = v" using assms(4) by (simp add: scalar_facts(1))
  have "isolated_copy n v v" for n using 1 by (cases v) (simp_all add: isolated_copy_def)
  then show ?thesis by (auto simp: z scalar_facts(6) [OF 1])
next
  case (2 s)
  have z: "z = (if zs_permanent s then IS_STRING s else IS_PTR (STORE_TYPE_STRING_PTR s owner))"
    using assms(4) by (simp add: 2 saved_string)
  obtain s' w' where r: "pthreads_store_restore_string s w\<^sub>0 = (s', w')" by fastforce
  show ?thesis
    using restore_string_step [OF r] assms(2,3) r
    by (auto simp: z 2 pthreads_store_restore_zval_ex_def pthreads_store_convert_def isolated_copy_def
        split: if_splits)
qed

lemma saved_not_kept:
  assumes "is_scalar_or_string v" and "ident_ls owner = t" and "t \<noteq> u"
    and "saved t owner v w = Some z"
  shows "plain_storage z \<and> \<not> keeps u w\<^sub>1 (Some z) c"
  using assms(1)
proof (cases rule: scalar_or_string_cases)
  case 1
  then have z: "z = v" using assms(4) by (simp add: scalar_facts(1))
  show ?thesis by (simp add: z scalar_facts(3,7) [OF 1] keeps_def)
next
  case (2 s)
  then have "z = IS_STRING s \<or> z = IS_PTR (STORE_TYPE_STRING_PTR s owner)"
    using assms(4) by (auto simp: saved_string split: if_splits)
  then show ?thesis
    using assms(2,3)
    by (auto simp: keeps_def TRY_PTHREADS_STORAGE_PTR_P_def plain_storage_def Let_def split: option.splits)
qed

lemma saved_scalar_or_string:
  assumes "is_scalar_or_string v"
  shows "saved t owner v w \<noteq> None" and "zval_alive w v" and "\<forall>ps. v \<noteq> IS_ARRAY ps"
proof -
  show "saved t owner v w \<noteq> None"
    using assms by (cases rule: scalar_or_string_cases) (simp_all add: scalar_facts(1) saved_string)
  show "zval_alive w v" "\<forall>ps. v \<noteq> IS_ARRAY ps"
    using assms by (cases v; simp)+
qed

text \<open>After a counted change every other connection drops what it cached under the key.\<close>

lemma remote_cache_dropped:
  assumes "cache_ok w ob" and "zo_local_props_modcount ob < store_modcount st"
    and "\<And>c. \<not> keeps u w (zend_hash_find (store_hash st) k) c"
  shows "cached (reader_synced u w st ob) k = None"
proof (cases "zo_properties ob")
  case None
  then show ?thesis by (simp add: reader_synced_def cached_def)
next
  case (Some ht)
  have "zo_local_props_modcount ob \<noteq> store_modcount st" using assms(2) by simp
  from cached_synced [OF assms(1) this, of u w k] Some show ?thesis
    by (simp add: reader_synced_def assms(3) split: option.split)
qed

text \<open>
  C3. An overwrite is seen by the other threads: when the cell stored under a key is a threaded
  object, closure, socket or string and one thread overwrites it with a scalar or a string,
  another thread that reads the key through its own connection gets the new value,
  whatever it had cached before; a string arrives as a fresh copy with the same bytes
  unless it is permanent.
\<close>

theorem store_remote_overwrite_visible:
  assumes "store_ready 2 t obj ob ts w" and "store_ready 2 u obj' ob' ts w"
    and "obj' \<noteq> obj" and "zo_ts_obj ob' = zo_ts_obj ob" and "t \<noteq> u"
    and "ident_ls (zo_owner ob) = t" and "is_scalar_or_string v"
    and "pthreads_store_storage_is_cacheable
      (zend_hash_find (store_hash (ts_props ts)) (snd (pthreads_store_coerce E key)))"
    and "zo_local_props_modcount ob' \<le> store_modcount (ts_props ts)"
    and "type = BP_VAR_R \<or> type = BP_VAR_IS"
  shows "\<exists>w\<^sub>1 r w\<^sub>2. pthreads_store_write E t obj (Some key) v coerce w = Some (SUCCESS, w\<^sub>1) \<and>
    pthreads_store_read E u obj' key type w\<^sub>1 = Some ((SUCCESS, r), w\<^sub>2) \<and>
    isolated_copy (w_next w\<^sub>1) v r"
proof -
  have ready: "store_ready (Suc (Suc 0)) t obj ob ts w" "store_ready (Suc (Suc 0)) u obj' ob' ts w"
    using assms(1,2) by (simp_all add: numeral_2_eq_2)
  let ?k = "snd (pthreads_store_coerce E key)" and ?st = "ts_props ts"
  note sv = saved_scalar_or_string [OF assms(7)]
  from sv(1) obtain z where z: "saved t (zo_owner ob) v w = Some z" by blast
  from write_saved [OF ready(1) sv(2) z, of E "Some key"] obtain w1 where
    w1: "globals_step w w1" "store_write_zval E t obj (Some key) v w =
      Some (SUCCESS, after_write E t obj ?k z v ob ts w w1)"
    by (auto simp: key_of_def)
  let ?w = "after_write E t obj ?k z v ob ts w w1" and ?st' = "store_put ?k z ?st"
  note ready' = write_ready_other [OF ready(2) w1(1) store_readyD(1) [OF ready(1)] assms(3,4),
      where E = E and t = t and k = ?k and z = z and v = v]
  note res = restore_saved [OF assms(7,6,5) z] and kept = saved_not_kept [OF assms(7,6,5) z]
  have "cached (reader_synced u ?w ?st' ob') ?k = None"
    using store_readyD(3) [OF ready'] kept assms(8,9)
    by (intro remote_cache_dropped) (simp_all add: store_put_modcount)
  moreover obtain r b w2 where r:
    "pthreads_store_restore_zval_ex E u z (set_obj obj' (reader_synced u ?w ?st' ob') ?w) = Some ((r, b), w2)"
    "isolated_copy (w_next ?w) v r"
    using res [of E "set_obj obj' (reader_synced u ?w ?st' ob') ?w"] by auto
  ultimately have "\<exists>w3. pthreads_store_read E u obj' key type ?w = Some ((SUCCESS, r), w3)"
    using store_read_stored [OF ready', of E key z type r b w2] kept assms(10)
    by (auto simp: storage_readable_def)
  with r(2) w1(2) sv(3) show ?thesis by (auto simp: write_not_array)
qed

theorem store_remote_overwrite_visible_witness:
  "\<exists>w\<^sub>1 r w\<^sub>2. pthreads_store_write demo_engine 1 1 (Some (IS_LONG 7)) (IS_STRING (demo_string 50 ''new'')) False
      (demo_world (demo_ts (demo_table [(KLong 7, IS_PTR (STORE_TYPE_PTHREADS 3))]) 0)
        (demo_zobj 1 None 0 None)
        (demo_zobj 2 (Some 1) 0 (Some (demo_table [(KLong 7, IS_OBJECT (ThreadedObject 3))])))) = Some (SUCCESS, w\<^sub>1) \<and>
    pthreads_store_read demo_engine 2 3 (IS_LONG 7) BP_VAR_R w\<^sub>1 = Some ((SUCCESS, IS_STRING r), w\<^sub>2) \<and>
    zs_val r = ''new''"
proof -
  let ?ob = "demo_zobj 1 None 0 None"
  let ?ob' = "demo_zobj 2 (Some 1) 0 (Some (demo_table [(KLong 7, IS_OBJECT (ThreadedObject 3))]))"
  let ?ts = "demo_ts (demo_table [(KLong 7, IS_PTR (STORE_TYPE_PTHREADS 3))]) 0"
  let ?w = "demo_world ?ts ?ob ?ob'"
  have "store_ready 2 1 1 ?ob ?ts ?w" "store_ready 2 2 3 ?ob' ?ts ?w"
    by (rule demo_ready; simp add: demo_cache_ok ht_ok_def)+
  moreover have "pthreads_store_storage_is_cacheable (zend_hash_find (store_hash (ts_props ?ts)) (KLong 7))"
    by (simp add: pthreads_store_storage_is_cacheable_def view_defs zend_hash_find_def)
  ultimately show ?thesis
    using store_remote_overwrite_visible [of 1 1 ?ob ?ts ?w 2 3 ?ob' "IS_STRING (demo_string 50 ''new'')"
        demo_engine "IS_LONG 7" BP_VAR_R False]
    by (fastforce simp: isolated_copy_def demo_string_def)
qed

lemma remove_same_objects:
  "w_obj w obj = Some ob \<Longrightarrow> same_objects w (after_remove obj k ob ts w)"
  by (simp add: after_remove_def same_objects_put same_objects_refl)

lemma remove_ready_other:
  assumes "store_ready n u obj' ob' ts w" and "connected w obj ob ts" and "obj' \<noteq> obj"
    and "zo_ts_obj ob' = zo_ts_obj ob"
  shows "store_ready n u obj' ob' (ts\<lparr>ts_props := store_remove k (ts_props ts)\<rparr>) (after_remove obj k ob ts w)"
proof -
  note r = store_readyD [OF assms(1)]
  have same: "same_objects w (after_remove obj k ob ts w)"
    using connectedD(1) [OF assms(2)] by (rule remove_same_objects)
  have "can_lock n {LTs (zo_ts_obj ob'), LGlobal} u (after_remove obj k ob ts w)"
    using r(5) by (simp add: after_remove_def can_lock_def)
  then show ?thesis
    using r assms(3,4) same
    by (simp add: store_ready_def same_objects_registry same_objects_cache)
      (simp add: connected_def after_remove_def)
qed

lemma remove_ready:
  assumes "store_ready n t obj ob ts w"
  shows "store_ready n t obj (cache_del k (bumped (pthreads_store_storage_is_cacheable
      (zend_hash_find (store_hash (ts_props ts)) k)) (ts_props ts) ob))
    (ts\<lparr>ts_props := store_remove k (ts_props ts)\<rparr>) (after_remove obj k ob ts w)"
proof -
  note r = store_readyD [OF assms]
  have same: "same_objects w (after_remove obj k ob ts w)"
    using connectedD(1) [OF r(1)] by (rule remove_same_objects)
  have "can_lock n {LTs (zo_ts_obj ob), LGlobal} t (after_remove obj k ob ts w)"
    using r(5) by (simp add: after_remove_def can_lock_def)
  then show ?thesis
    using r same
    by (simp add: store_ready_def same_objects_registry same_objects_cache cache_del_ok cache_ok_bumped)
      (simp add: connected_def after_remove_def)
qed

lemma cacheable_exists:
  "pthreads_store_storage_is_cacheable (zend_hash_find ht k) \<Longrightarrow> zend_hash_exists ht k"
  by (cases "zend_hash_find ht k") (simp_all add: zend_hash_exists_def
      pthreads_store_storage_is_cacheable_def TRY_PTHREADS_STORAGE_PTR_P_def)

lemma filter_replaced:
  "filter (\<lambda>p. fst p \<noteq> k) (map (\<lambda>(k', z'). (k', if k' = k then z else z')) ps) =
     filter (\<lambda>p. fst p \<noteq> k) ps"
  by (induction ps) auto

lemma keeps_None [simp]: "\<not> keeps t w None c"
  by (simp add: keeps_def TRY_PTHREADS_STORAGE_PTR_P_def)

text \<open>
  C4. A deletion is seen by every connection: after one thread unsets a key, its own object
  no longer has the member, neither in the shared table nor in its cache; and when the
  deleted cell was a threaded object, closure, socket or string, a read by another thread
  through its own connection finds nothing, whatever it had cached.
\<close>

theorem store_delete_visible:
  assumes "store_ready 2 t obj ob ts w" and "store_ready 2 u obj' ob' ts w"
    and "obj' \<noteq> obj" and "zo_ts_obj ob' = zo_ts_obj ob"
    and "zo_local_props_modcount ob' \<le> store_modcount (ts_props ts)"
    and "pthreads_store_storage_is_cacheable
      (zend_hash_find (store_hash (ts_props ts)) (snd (pthreads_store_coerce E key)))"
  shows "\<exists>w\<^sub>1 w\<^sub>2 w\<^sub>3. pthreads_store_delete E t obj key w = Some (SUCCESS, w\<^sub>1) \<and>
    pthreads_store_isset E t obj key ZEND_PROPERTY_EXISTS w\<^sub>1 = Some (False, w\<^sub>1) \<and>
    pthreads_store_read E t obj key type w\<^sub>1 = Some ((FAILURE, IS_UNDEF), w\<^sub>2) \<and>
    pthreads_store_read E u obj' key type w\<^sub>1 = Some ((FAILURE, IS_UNDEF), w\<^sub>3)"
proof -
  have ready: "store_ready (Suc (Suc 0)) t obj ob ts w" "store_ready (Suc (Suc 0)) u obj' ob' ts w"
    using assms(1,2) by (simp_all add: numeral_2_eq_2)
  let ?k = "snd (pthreads_store_coerce E key)" and ?st = "ts_props ts"
  let ?w = "after_remove obj ?k ob ts w" and ?st' = "store_remove ?k ?st"
  let ?c = "pthreads_store_storage_is_cacheable (zend_hash_find (store_hash ?st) ?k)"
  let ?ob = "cache_del ?k (bumped ?c ?st ob)"
  note r1 = remove_ready [OF ready(1), of ?k]
  note r2 = remove_ready_other [OF ready(2) store_readyD(1) [OF ready(1)] assms(3,4), of ?k]
  have "zend_hash_exists (store_hash ?st) ?k"
    using assms(6) by (rule cacheable_exists)
  then have del: "pthreads_store_delete E t obj key w = Some (SUCCESS, ?w)"
    using store_delete_ok [OF ready(1), of E key] by simp
  have isset: "pthreads_store_isset E t obj key ZEND_PROPERTY_EXISTS ?w = Some (False, ?w)"
    using store_isset_ok [OF r1, of E key] by (simp add: storage_isset_def)
  have "cached ?ob ?k = None"
    by (simp add: cached_def cache_del_def split: option.split)
  then have "cached (reader_synced t ?w ?st' ?ob) ?k = None"
    using cached_synced_None [OF store_readyD(3) [OF r1]] by (simp add: reader_synced_def)
  from store_read_missing [OF r1, of E key type] this have "\<exists>w2. pthreads_store_read E t obj key type ?w =
      Some ((FAILURE, IS_UNDEF), w2)" by simp
  moreover have "cached (reader_synced u ?w ?st' ob') ?k = None"
    using store_readyD(3) [OF r2] assms(5,6)
    by (intro remote_cache_dropped) (simp_all add: store_put_modcount)
  with store_read_missing [OF r2, of E key type] have "\<exists>w3. pthreads_store_read E u obj' key type ?w =
      Some ((FAILURE, IS_UNDEF), w3)" by simp
  ultimately show ?thesis using del isset by blast
qed

theorem store_delete_visible_witness:
  "\<exists>w\<^sub>1 w\<^sub>2 w\<^sub>3. pthreads_store_delete demo_engine 1 1 (IS_LONG 7)
      (demo_world (demo_ts (demo_table [(KLong 7, IS_PTR (STORE_TYPE_PTHREADS 3))]) 0)
        (demo_zobj 1 None 0 None)
        (demo_zobj 2 (Some 1) 0 (Some (demo_table [(KLong 7, IS_OBJECT (ThreadedObject 3))])))) = Some (SUCCESS, w\<^sub>1) \<and>
    pthreads_store_read demo_engine 1 1 (IS_LONG 7) BP_VAR_R w\<^sub>1 = Some ((FAILURE, IS_UNDEF), w\<^sub>2) \<and>
    pthreads_store_read demo_engine 2 3 (IS_LONG 7) BP_VAR_R w\<^sub>1 = Some ((FAILURE, IS_UNDEF), w\<^sub>3)"
proof -
  let ?ob = "demo_zobj 1 None 0 None"
  let ?ob' = "demo_zobj 2 (Some 1) 0 (Some (demo_table [(KLong 7, IS_OBJECT (ThreadedObject 3))]))"
  let ?ts = "demo_ts (demo_table [(KLong 7, IS_PTR (STORE_TYPE_PTHREADS 3))]) 0"
  let ?w = "demo_world ?ts ?ob ?ob'"
  have "store_ready 2 1 1 ?ob ?ts ?w" "store_ready 2 2 3 ?ob' ?ts ?w"
    by (rule demo_ready; simp add: demo_cache_ok ht_ok_def)+
  moreover have "pthreads_store_storage_is_cacheable (zend_hash_find (store_hash (ts_props ?ts)) (KLong 7))"
    by (simp add: pthreads_store_storage_is_cacheable_def view_defs zend_hash_find_def)
  ultimately show ?thesis
    using store_delete_visible [of 1 1 ?ob ?ts ?w 2 3 ?ob' demo_engine "IS_LONG 7" BP_VAR_R]
    by simp blast
qed

section \<open>The shared table as an ordered dictionary\<close>

text \<open>
  C1. The store is an ordered dictionary: a write under a new key appends an entry, a write
  under an existing key replaces its cell in place, a deletion removes the entry and keeps
  the order of the others; the count is the number of entries; and no other thread-safe
  object changes.
\<close>

theorem store_is_ordered_dictionary:
  assumes "store_ready 2 t obj ob ts w" and "zval_alive w v"
    and "saved t (zo_owner ob) v w = Some z" and "\<forall>ps. v \<noteq> IS_ARRAY ps"
    and "k = snd (pthreads_store_coerce E key)" and "ps = ht_buckets (store_hash (ts_props ts))"
  shows "\<exists>w\<^sub>1 r w\<^sub>2 ts\<^sub>1 ts\<^sub>2.
    pthreads_store_write E t obj (Some key) v coerce w = Some (SUCCESS, w\<^sub>1) \<and>
    w_ts w\<^sub>1 = (w_ts w)(zo_ts_obj ob \<mapsto> ts\<^sub>1) \<and>
    ht_buckets (store_hash (ts_props ts\<^sub>1)) =
      (if k \<in> fst ` set ps then map (\<lambda>(k', z'). (k', if k' = k then z else z')) ps else ps @ [(k, z)]) \<and>
    pthreads_store_count t obj w\<^sub>1 = Some (length ps + (if k \<in> fst ` set ps then 0 else 1), w\<^sub>1) \<and>
    pthreads_store_delete E t obj key w\<^sub>1 = Some (r, w\<^sub>2) \<and> r = SUCCESS \<and>
    w_ts w\<^sub>2 = (w_ts w)(zo_ts_obj ob \<mapsto> ts\<^sub>2) \<and>
    ht_buckets (store_hash (ts_props ts\<^sub>2)) = filter (\<lambda>p. fst p \<noteq> k) ps"
proof -
  have ready: "store_ready (Suc (Suc 0)) t obj ob ts w" using assms(1) by (simp add: numeral_2_eq_2)
  let ?st = "ts_props ts" let ?ht = "store_hash ?st"
  have ok: "ht_ok ?ht" by (rule store_readyD(4) [OF ready])
  from write_saved [OF ready assms(2,3), of E "Some key"] obtain w1 where
    w1: "globals_step w w1" "store_write_zval E t obj (Some key) v w =
      Some (SUCCESS, after_write E t obj k z v ob ts w w1)"
    by (auto simp: key_of_def assms(5))
  let ?w = "after_write E t obj k z v ob ts w w1" and ?ob = "writer_after E t w k z v ?st ob"
  let ?ts = "ts\<lparr>ts_props := store_put k z ?st\<rparr>"
  note ready' = write_ready [OF ready w1(1) assms(2), of E k z]
  have mem: "k \<in> fst ` set ps \<longleftrightarrow> zend_hash_find ?ht k \<noteq> None"
    by (simp add: assms(6) zend_hash_find_def map_of_eq_None_iff)
  have tsw: "w_ts ?w = (w_ts w)(zo_ts_obj ob \<mapsto> ?ts)"
    using globals_stepD(2) [OF w1(1)] by (simp add: after_write_def)
  have put: "ht_buckets (zend_hash_update ?ht k z) =
      (if k \<in> fst ` set ps then map (\<lambda>(k', z'). (k', if k' = k then z else z')) ps else ps @ [(k, z)])"
    using zht.update_old [OF ok, of k z] zht.update_new [OF ok, of k z] mem assms(6) by auto
  have count: "pthreads_store_count t obj ?w =
      Some (length ps + (if k \<in> fst ` set ps then 0 else 1), ?w)"
    using store_count_ok [OF ready'] put by (simp add: zend_hash_num_elements_def)
  have "zend_hash_exists (zend_hash_update ?ht k z) k" by (simp add: zend_hash_exists_def)
  then have del: "pthreads_store_delete E t obj key ?w =
      Some (SUCCESS, after_remove obj k ?ob ?ts ?w)"
    using store_delete_ok [OF ready', of E key] by (simp add: assms(5))
  have ok': "ht_ok (zend_hash_update ?ht k z)" using ok by simp
  have "filter (\<lambda>p. fst p \<noteq> k) (ht_buckets (zend_hash_update ?ht k z)) = filter (\<lambda>p. fst p \<noteq> k) ps"
    unfolding put by (simp add: filter_replaced)
  then have rest: "ht_buckets (store_hash (store_remove k (store_put k z ?st))) = filter (\<lambda>p. fst p \<noteq> k) ps"
    using zht.del_entries [OF ok', of k] by simp
  let ?w2 = "after_remove obj k ?ob ?ts ?w" and ?ts2 = "ts\<lparr>ts_props := store_remove k (store_put k z ?st)\<rparr>"
  have tsw2: "w_ts ?w2 = (w_ts w)(zo_ts_obj ob \<mapsto> ?ts2)" by (simp add: after_remove_def tsw)
  show ?thesis
    by (intro exI [of _ ?w] exI [of _ SUCCESS] exI [of _ ?w2] exI [of _ ?ts] exI [of _ ?ts2] conjI)
      (use w1(2) assms(4) put rest in \<open>simp_all add: write_not_array tsw tsw2 count del\<close>)
qed

theorem store_is_ordered_dictionary_witness:
  "\<exists>w\<^sub>1 w\<^sub>2. pthreads_store_write demo_engine 1 1 (Some (IS_LONG 7)) (IS_LONG 5) False
      (demo_world (demo_ts (demo_table [(KLong 1, IS_TRUE), (KLong 7, IS_NULL), (KLong 9, IS_FALSE)]) 0)
        (demo_zobj 1 None 0 None) (demo_zobj 2 (Some 1) 0 None)) = Some (SUCCESS, w\<^sub>1) \<and>
    pthreads_store_count 1 1 w\<^sub>1 = Some (3, w\<^sub>1) \<and>
    pthreads_store_delete demo_engine 1 1 (IS_LONG 7) w\<^sub>1 = Some (SUCCESS, w\<^sub>2)"
proof -
  let ?ps = "[(KLong 1, IS_TRUE), (KLong 7, IS_NULL), (KLong 9, IS_FALSE)]"
  let ?ob = "demo_zobj 1 None 0 None" and ?ts = "demo_ts (demo_table ?ps) 0"
  let ?w = "demo_world ?ts ?ob (demo_zobj 2 (Some 1) 0 None)"
  have ready: "store_ready 2 1 1 ?ob ?ts ?w"
    by (rule demo_ready) (simp_all add: demo_cache_ok ht_ok_def)
  have sv: "saved 1 (zo_owner ?ob) (IS_LONG 5) ?w = Some (IS_LONG 5)"
    by (rule scalar_facts(1)) simp
  have len: "length ?ps + (if KLong 7 \<in> fst ` set ?ps then 0 else 1) = 3" by simp
  show ?thesis
    by (rule exE [OF store_is_ordered_dictionary [OF ready _ sv, where E = demo_engine and
          key = "IS_LONG 7" and k = "KLong 7" and ps = ?ps and coerce = False]])
      (simp, simp, simp, simp, (erule exE conjE)+, (rule exI)+, intro conjI, assumption, simp only: len, simp)
qed

end
