(* ===== verification/Code_Copy.thy ===== *)
theory Code_Copy
  imports Object
begin

text \<open>
  src/copy.c: values, syntax trees and functions of the engine are copied into the memory of the
  calling thread. Syntax trees, functions, their reference counts and closures live in maps from
  addresses; a syntax tree node is a cell at a byte address. Blocks of code are pairs of the
  address and the contents of an array. The branches are those of PHP 8.2; \<open>abs_addr\<close> selects
  between the 32-bit build, whose operands hold addresses, and the 64-bit build, whose operands hold
  distances. The calls that recurse through pointers take a bound \<open>n\<close> on the depth;
  \<open>None\<close> covers a depth that exceeds it, and the fatal error of \<open>pthreads_copy_attribute\<close>.
\<close>

section \<open>Data of the engine\<close>

text \<open>Sizes of the structs, the bits of the kind of a node, and the choice of opcode handlers.\<close>

datatype opcode =
    ZEND_SEND_VAL | ZEND_SEND_VAL_EX | ZEND_QM_ASSIGN | ZEND_JMP | ZEND_FAST_CALL | ZEND_JMPZ | ZEND_JMPNZ
  | ZEND_JMPZ_EX | ZEND_JMPNZ_EX | ZEND_JMP_SET | ZEND_COALESCE | ZEND_FE_RESET_R | ZEND_FE_RESET_RW
  | ZEND_ASSERT_CHECK | ZEND_JMP_NULL | ZEND_CATCH | ZEND_FE_FETCH_R | ZEND_FE_FETCH_RW | ZEND_SWITCH_LONG
  | ZEND_SWITCH_STRING | ZEND_MATCH | OtherOpcode nat

datatype op_type = IS_CONST | IS_TMP_VAR | IS_VAR | IS_UNUSED | IS_CV

record zend_op =
  op_handler :: nat
  op1 :: "32 word"
  op2 :: "32 word"
  op_result :: "32 word"
  extended_value :: "32 word"
  op_opcode :: opcode
  op1_type :: op_type
  op2_type :: op_type

record zend_layout =
  sizeof_ast :: nat
  sizeof_ast_list :: nat
  sizeof_ast_zval :: nat
  sizeof_ast_ref :: nat
  sizeof_ptr :: nat
  sizeof_zval :: nat
  sizeof_op :: nat
  mm_aligned :: "nat \<Rightarrow> nat"
  AST_ZVAL :: nat
  AST_CONSTANT :: nat
  ast_is_list :: "nat \<Rightarrow> bool"
  ast_num_children :: "nat \<Rightarrow> nat"
  abs_addr :: bool
  LAST_CATCH :: "32 word"
  vm_handler :: "zend_op \<Rightarrow> zval option \<Rightarrow> nat"

text \<open>
  A node: \<open>zend_ast\<close>, \<open>zend_ast_list\<close> and \<open>zend_ast_zval\<close> in one record. The children are the pointers
  of the array \<open>child\<close>, with \<open>None\<close> for a null pointer.
\<close>

record zend_ast =
  ast_kind :: nat
  ast_attr :: nat
  ast_val :: zval
  ast_child :: "addr option list"

record zend_attribute =
  attr_name :: zend_string
  attr_flags :: nat
  attr_offset :: nat
  attr_lineno :: nat
  attr_args :: "(zend_string option \<times> zval) list"

datatype zend_type = TypeMask nat | TypeName nat zend_string | TypeList nat bool "zend_type list"

record zend_arg_info =
  ai_name :: "zend_string option"
  ai_type :: zend_type

datatype fn_flag =
    ZEND_ACC_IMMUTABLE | ZEND_ACC_CLOSURE | ZEND_ACC_HAS_RETURN_TYPE | ZEND_ACC_VARIADIC | ZEND_ACC_HEAP_RT_CACHE
  | ZEND_ACC_DONE_PASS_TWO | ZEND_ACC_ARENA_ALLOCATED | ZEND_ACC_LINKED | ZEND_ACC_ANON_CLASS | ZEND_ACC_PRELOADED
  | OtherFlag nat

datatype function_type = ZEND_USER_FUNCTION | ZEND_INTERNAL_FUNCTION

text \<open>
  \<open>zend_function\<close>. A pointer to an array is the address with the contents; \<open>arg_info\<close> is the array with
  the index that the pointer designates, because the type of the result stands in front of it.
\<close>

record zend_function =
  fn_type :: function_type
  fn_flags :: "fn_flag set"
  function_name :: zend_string
  fn_scope :: "addr option"
  prototype :: "addr option"
  fn_refcount :: "addr option"
  run_time_cache :: "addr option"
  doc_comment :: "zend_string option"
  filename :: zend_string
  literals :: "(addr \<times> zval list) option"
  opcodes :: "addr \<times> zend_op list"
  num_args :: nat
  arg_info :: "(zend_arg_info list \<times> nat) option"
  live_range :: "(nat \<times> nat \<times> nat) list option"
  try_catch_array :: "(nat \<times> nat \<times> nat \<times> nat) list option"
  fn_vars :: "zend_string list option"
  fn_attributes :: "zend_attribute list option"
  dynamic_func_defs :: "addr list"
  static_variables :: "(string \<times> zval) list option"
  static_variables_ptr :: "addr option"

record zend_closure =
  cl_func :: addr
  cl_scope :: "addr option"
  cl_called_scope :: "addr option"

record code_state =
  cs_world :: world
  cs_asts :: "addr \<rightharpoonup> zend_ast"
  cs_funs :: "addr \<rightharpoonup> zend_function"
  cs_refcounts :: "addr \<rightharpoonup> nat"
  cs_closures :: "addr \<rightharpoonup> zend_closure"
  cs_interned :: "tid \<Rightarrow> string \<rightharpoonup> zend_string"
  cs_filenames :: "tid \<Rightarrow> string \<rightharpoonup> zend_string"
  cs_function_table :: "tid \<Rightarrow> (string \<times> addr) list"

type_synonym 'a copying = "code_state \<Rightarrow> ('a \<times> code_state) option"

text \<open>A block of \<open>k\<close> bytes.\<close>

definition emalloc :: "nat \<Rightarrow> code_state \<Rightarrow> addr \<times> code_state" where
  "emalloc k s =
     (let w = cs_world s in (w_next w, s\<lparr>cs_world := w\<lparr>w_next := w_next w + k\<rparr>\<rparr>))"

section \<open>Strings\<close>

definition string_init :: "string \<Rightarrow> bool \<Rightarrow> code_state \<Rightarrow> zend_string \<times> code_state" where
  "string_init v persistent s =
     (let (str, w) = zend_string_init v persistent (cs_world s) in (str, s\<lparr>cs_world := w\<rparr>))"

text \<open>
  \<open>zend_new_interned_string\<close> during a request: a permanent string or one the thread has interned
  already, with the same bytes, replaces the argument; otherwise the argument is interned.
\<close>

definition zend_new_interned_string :: "zend_engine \<Rightarrow> tid \<Rightarrow> zend_string \<Rightarrow> code_state \<Rightarrow> zend_string \<times> code_state" where
  "zend_new_interned_string E t str s =
     (case find_permanent E (zs_val str) of
        Some p \<Rightarrow> (p, s)
      | None \<Rightarrow>
          (case cs_interned s t (zs_val str) of
             Some i \<Rightarrow> (i, s)
           | None \<Rightarrow>
               (let str = str\<lparr>zs_interned := True\<rparr> in
                (str, s\<lparr>cs_interned := (cs_interned s)(t := (cs_interned s t)(zs_val str \<mapsto> str))\<rparr>))))"

definition pthreads_copy_string :: "zend_engine \<Rightarrow> tid \<Rightarrow> zend_string \<Rightarrow> code_state \<Rightarrow> zend_string \<times> code_state" where
  "pthreads_copy_string E t str s =
     (if zs_interned str
      then if zs_permanent str then (str, s)
        else (let (copy, s) = string_init (zs_val str) (zs_persistent str) s in zend_new_interned_string E t copy s)
      else string_init (zs_val str) (zs_persistent str) s)"

definition copy_string_option ::
  "zend_engine \<Rightarrow> tid \<Rightarrow> zend_string option \<Rightarrow> code_state \<Rightarrow> zend_string option \<times> code_state" where
  "copy_string_option E t str s =
     (case str of None \<Rightarrow> (None, s) | Some str \<Rightarrow> (let (copy, s) = pthreads_copy_string E t str s in (Some copy, s)))"

fun pthreads_copy_variables ::
  "zend_engine \<Rightarrow> tid \<Rightarrow> zend_string list \<Rightarrow> code_state \<Rightarrow> zend_string list \<times> code_state" where
  "pthreads_copy_variables E t [] s = ([], s)"
| "pthreads_copy_variables E t (v # vs) s =
     (let (copy, s) = pthreads_copy_string E t v s; (copies, s) = pthreads_copy_variables E t vs s in (copy # copies, s))"

section \<open>Tables of values\<close>

text \<open>
  These take the copier \<open>cz\<close> of values as a parameter, which is \<open>pthreads_copy_zval\<close>. Its result is
  \<open>None\<close> for \<open>FAILURE\<close>. The keys of a table are modelled by their bytes, so their copies are the keys.
\<close>

fun pthreads_copy_hash ::
  "(zval \<Rightarrow> zval option copying) \<Rightarrow> (zkey \<times> zval) list \<Rightarrow> (zkey \<times> zval) list \<Rightarrow> (zkey \<times> zval) list copying" where
  "pthreads_copy_hash cz [] ht s = Some (ht, s)"
| "pthreads_copy_hash cz ((k, v) # source) ht s = do {
     (newzval, s) \<leftarrow> cz v s;
     case newzval of
       None \<Rightarrow> pthreads_copy_hash cz source ht s
     | Some v \<Rightarrow> pthreads_copy_hash cz source (AList.update k v ht) s }"

fun strip_references :: "zval \<Rightarrow> zval" where
  "strip_references (IS_REFERENCE v) = strip_references v"
| "strip_references v = v"

text \<open>\<open>zend_hash_add\<close> keeps an entry that exists; an element that cannot be copied becomes null.\<close>

definition hash_add :: "'k \<Rightarrow> 'v \<Rightarrow> ('k \<times> 'v) list \<Rightarrow> ('k \<times> 'v) list" where
  "hash_add k v ht = (if map_of ht k = None then ht @ [(k, v)] else ht)"

fun copy_statics_entries ::
  "(zval \<Rightarrow> zval option copying) \<Rightarrow> (string \<times> zval) list \<Rightarrow> (string \<times> zval) list \<Rightarrow> (string \<times> zval) list copying" where
  "copy_statics_entries cz [] statics s = Some (statics, s)"
| "copy_statics_entries cz ((key, value) # old) statics s = do {
     (copy, s) \<leftarrow> cz (strip_references value) s;
     copy_statics_entries cz old (hash_add key (case copy of Some v \<Rightarrow> v | None \<Rightarrow> IS_NULL) statics) s }"

definition pthreads_copy_statics ::
  "(zval \<Rightarrow> zval option copying) \<Rightarrow> (string \<times> zval) list option \<Rightarrow> (string \<times> zval) list option copying" where
  "pthreads_copy_statics cz old s =
     (case old of
        None \<Rightarrow> Some (None, s)
      | Some old \<Rightarrow> do { (statics, s) \<leftarrow> copy_statics_entries cz old [] s; Some (Some statics, s) })"

fun pthreads_copy_literals :: "(zval \<Rightarrow> zval option copying) \<Rightarrow> zval list \<Rightarrow> zval list copying" where
  "pthreads_copy_literals cz [] s = Some ([], s)"
| "pthreads_copy_literals cz (v # old) s = do {
     (copy, s) \<leftarrow> cz v s;
     (literals, s) \<leftarrow> pthreads_copy_literals cz old s;
     Some ((case copy of Some v \<Rightarrow> v | None \<Rightarrow> IS_NULL) # literals, s) }"

section \<open>Attributes\<close>

fun copy_attribute_args ::
  "zend_engine \<Rightarrow> (zval \<Rightarrow> zval option copying) \<Rightarrow> tid \<Rightarrow> (zend_string option \<times> zval) list \<Rightarrow>
   (zend_string option \<times> zval) list copying" where
  "copy_attribute_args E cz t [] s = Some ([], s)"
| "copy_attribute_args E cz t ((name, value) # args) s = do {
     (copy, s) \<leftarrow> cz value s;
     case copy of
       None \<Rightarrow> None
     | Some value \<Rightarrow> do {
         let (name, s) = copy_string_option E t name s;
         (args, s) \<leftarrow> copy_attribute_args E cz t args s;
         Some ((name, value) # args, s) } }"

definition pthreads_copy_attribute ::
  "zend_engine \<Rightarrow> (zval \<Rightarrow> zval option copying) \<Rightarrow> tid \<Rightarrow> zend_attribute \<Rightarrow> zend_attribute copying" where
  "pthreads_copy_attribute E cz t attr s = do {
     let (name, s) = pthreads_copy_string E t (attr_name attr) s;
     (args, s) \<leftarrow> copy_attribute_args E cz t (attr_args attr) s;
     Some (attr\<lparr>attr_name := name, attr_args := args\<rparr>, s) }"

fun copy_attribute_list ::
  "zend_engine \<Rightarrow> (zval \<Rightarrow> zval option copying) \<Rightarrow> tid \<Rightarrow> zend_attribute list \<Rightarrow> zend_attribute list copying" where
  "copy_attribute_list E cz t [] s = Some ([], s)"
| "copy_attribute_list E cz t (a # old) s = do {
     (copy, s) \<leftarrow> pthreads_copy_attribute E cz t a s;
     (new, s) \<leftarrow> copy_attribute_list E cz t old s;
     Some (copy # new, s) }"

definition pthreads_copy_attributes ::
  "zend_engine \<Rightarrow> (zval \<Rightarrow> zval option copying) \<Rightarrow> tid \<Rightarrow> zend_attribute list option \<Rightarrow>
   zend_attribute list option copying" where
  "pthreads_copy_attributes E cz t old s =
     (case old of
        None \<Rightarrow> Some (None, s)
      | Some old \<Rightarrow> do {
          (new, s) \<leftarrow> copy_attribute_list E cz t old s;
          Some (if new = [] then None else Some new, s) })"

section \<open>Syntax trees\<close>

definition zend_ast_size :: "zend_layout \<Rightarrow> nat \<Rightarrow> nat" where
  "zend_ast_size L children = sizeof_ast L - sizeof_ptr L + sizeof_ptr L * children"

definition zend_ast_list_size :: "zend_layout \<Rightarrow> nat \<Rightarrow> nat" where
  "zend_ast_list_size L children = sizeof_ast_list L - sizeof_ptr L + sizeof_ptr L * children"

fun children_size :: "(addr \<Rightarrow> nat option) \<Rightarrow> addr option list \<Rightarrow> nat \<Rightarrow> nat option" where
  "children_size ts [] sz = Some sz"
| "children_size ts (None # cs) sz = children_size ts cs sz"
| "children_size ts (Some c # cs) sz = do { k \<leftarrow> ts c; children_size ts cs (sz + k) }"

fun zend_ast_tree_size :: "nat \<Rightarrow> zend_layout \<Rightarrow> (addr \<rightharpoonup> zend_ast) \<Rightarrow> addr \<Rightarrow> nat option" where
  "zend_ast_tree_size 0 L mem p = None"
| "zend_ast_tree_size (Suc n) L mem p = do {
     ast \<leftarrow> mem p;
     if ast_kind ast = AST_ZVAL L \<or> ast_kind ast = AST_CONSTANT L then Some (sizeof_ast_zval L)
     else if ast_is_list L (ast_kind ast)
     then children_size (zend_ast_tree_size n L mem) (ast_child ast) (zend_ast_list_size L (length (ast_child ast)))
     else children_size (zend_ast_tree_size n L mem) (take (ast_num_children L (ast_kind ast)) (ast_child ast))
       (zend_ast_size L (ast_num_children L (ast_kind ast))) }"

definition put_ast :: "addr \<Rightarrow> zend_ast \<Rightarrow> code_state \<Rightarrow> code_state" where
  "put_ast p ast s = s\<lparr>cs_asts := (cs_asts s)(p \<mapsto> ast)\<rparr>"

text \<open>\<open>new->child[i] = child\<close>, for the indices in order.\<close>

definition push_child :: "addr \<Rightarrow> addr option \<Rightarrow> code_state \<Rightarrow> code_state option" where
  "push_child new child s = do {
     ast \<leftarrow> cs_asts s new;
     Some (put_ast new (ast\<lparr>ast_child := ast_child ast @ [child]\<rparr>) s) }"

fun copy_children ::
  "(addr \<Rightarrow> addr \<Rightarrow> addr copying) \<Rightarrow> addr \<Rightarrow> addr option list \<Rightarrow> addr \<Rightarrow> addr copying" where
  "copy_children ct new [] buf s = Some (buf, s)"
| "copy_children ct new (None # cs) buf s = do {
     s \<leftarrow> push_child new None s;
     copy_children ct new cs buf s }"
| "copy_children ct new (Some c # cs) buf s = do {
     s \<leftarrow> push_child new (Some buf) s;
     (buf, s) \<leftarrow> ct c buf s;
     copy_children ct new cs buf s }"

fun pthreads_copy_ast_tree ::
  "nat \<Rightarrow> zend_layout \<Rightarrow> zend_engine \<Rightarrow> (zval \<Rightarrow> zval option copying) \<Rightarrow> tid \<Rightarrow> addr \<Rightarrow> addr \<Rightarrow> addr copying" where
  "pthreads_copy_ast_tree 0 L E cz t p buf s = None"
| "pthreads_copy_ast_tree (Suc n) L E cz t p buf s = do {
     ast \<leftarrow> cs_asts s p;
     if ast_kind ast = AST_ZVAL L then do {
       (v, s) \<leftarrow> cz (ast_val ast) s;
       Some (buf + sizeof_ast_zval L,
         put_ast buf \<lparr>ast_kind = AST_ZVAL L, ast_attr = ast_attr ast,
           ast_val = (case v of Some v \<Rightarrow> v | None \<Rightarrow> uninitialized E), ast_child = []\<rparr> s) }
     else if ast_kind ast = AST_CONSTANT L then do {
       name \<leftarrow> (case ast_val ast of IS_STRING name \<Rightarrow> Some name | _ \<Rightarrow> None);
       let (name, s) = pthreads_copy_string E t name s;
       Some (buf + sizeof_ast_zval L,
         put_ast buf \<lparr>ast_kind = AST_CONSTANT L, ast_attr = ast_attr ast, ast_val = IS_STRING name, ast_child = []\<rparr> s) }
     else do {
       let is_list = ast_is_list L (ast_kind ast);
       let children = (if is_list then ast_child ast
         else take (ast_num_children L (ast_kind ast)) (ast_child ast));
       let new = buf;
       let s = put_ast new \<lparr>ast_kind = ast_kind ast, ast_attr = ast_attr ast, ast_val = uninitialized E, ast_child = []\<rparr> s;
       let buf = buf + (if is_list then zend_ast_list_size L (length children)
         else zend_ast_size L (ast_num_children L (ast_kind ast)));
       copy_children (pthreads_copy_ast_tree n L E cz t) new children buf s } }"

text \<open>The reference in front of the tree has the address that is returned.\<close>

definition GC_AST :: "zend_layout \<Rightarrow> addr \<Rightarrow> addr" where
  "GC_AST L ref = ref + sizeof_ast_ref L"

definition pthreads_copy_ast ::
  "nat \<Rightarrow> zend_layout \<Rightarrow> zend_engine \<Rightarrow> (zval \<Rightarrow> zval option copying) \<Rightarrow> tid \<Rightarrow> addr \<Rightarrow> addr copying" where
  "pthreads_copy_ast n L E cz t ast s = do {
     tree_size \<leftarrow> zend_ast_tree_size n L (cs_asts s) ast;
     let (ref, s) = emalloc (tree_size + sizeof_ast_ref L) s;
     (_, s) \<leftarrow> pthreads_copy_ast_tree n L E cz t ast (GC_AST L ref) s;
     Some (ref, s) }"

section \<open>Opcodes\<close>

text \<open>
  The operands are relocated. \<open>i\<close> is the index of the instruction; \<open>ops\<close> and \<open>lits\<close> are the addresses of
  the old arrays, \<open>copy\<close> and \<open>newlits\<close> those of the new ones. Differences of pointers are divided by
  the size of an element.
\<close>

definition relocate_const :: "zend_layout \<Rightarrow> addr \<Rightarrow> addr \<Rightarrow> addr \<Rightarrow> addr \<Rightarrow> nat \<Rightarrow> 32 word \<Rightarrow> 32 word" where
  "relocate_const L ops lits copy newlits i constant =
     (if abs_addr L then word_of_int (uint constant + (int newlits - int lits))
      else word_of_int (int newlits + int (sizeof_zval L) *
             ((int ops + int (i * sizeof_op L) + sint constant - int lits) div int (sizeof_zval L)) -
           (int copy + int (i * sizeof_op L))))"

definition relocate_jump :: "zend_layout \<Rightarrow> addr \<Rightarrow> addr \<Rightarrow> 32 word \<Rightarrow> 32 word" where
  "relocate_jump L ops copy jmp_addr =
     word_of_int (int copy + int (sizeof_op L) * ((uint jmp_addr - int ops) div int (sizeof_op L)))"

text \<open>The literal that a relocated operand designates, which selects the handler in the 32-bit build.\<close>

definition literal_at :: "zend_layout \<Rightarrow> addr \<Rightarrow> zval list \<Rightarrow> 32 word \<Rightarrow> zval option" where
  "literal_at L newlits vs zv =
     (let k = nat ((uint zv - int newlits) div int (sizeof_zval L)) in if k < length vs then Some (vs ! k) else None)"

definition checks_refcount :: "opcode \<Rightarrow> bool" where
  "checks_refcount code \<longleftrightarrow> code \<in> {ZEND_SEND_VAL, ZEND_SEND_VAL_EX, ZEND_QM_ASSIGN}"

definition copy_op_consts ::
  "zend_layout \<Rightarrow> addr \<Rightarrow> addr \<Rightarrow> addr \<Rightarrow> addr \<Rightarrow> zval list \<Rightarrow> nat \<Rightarrow> zend_op \<Rightarrow> zend_op" where
  "copy_op_consts L ops lits copy newlits vs i opline =
     (let opline = (if op1_type opline = IS_CONST
            then (let opline = opline\<lparr>op1 := relocate_const L ops lits copy newlits i (op1 opline)\<rparr> in
              if checks_refcount (op_opcode opline)
              then opline\<lparr>op_handler := vm_handler L opline
                (if abs_addr L then literal_at L newlits vs (op1 opline) else None)\<rparr>
              else opline)
            else opline)
      in if op2_type opline = IS_CONST
         then opline\<lparr>op2 := relocate_const L ops lits copy newlits i (op2 opline)\<rparr> else opline)"

definition jumps_by_op2 :: "opcode \<Rightarrow> bool" where
  "jumps_by_op2 code \<longleftrightarrow> code \<in> {ZEND_JMPZ, ZEND_JMPNZ, ZEND_JMPZ_EX, ZEND_JMPNZ_EX, ZEND_JMP_SET, ZEND_COALESCE,
     ZEND_FE_RESET_R, ZEND_FE_RESET_RW, ZEND_ASSERT_CHECK, ZEND_JMP_NULL}"

definition copy_op_jumps :: "zend_layout \<Rightarrow> addr \<Rightarrow> addr \<Rightarrow> zend_op \<Rightarrow> zend_op" where
  "copy_op_jumps L ops copy opline =
     (if op_opcode opline \<in> {ZEND_JMP, ZEND_FAST_CALL}
      then opline\<lparr>op1 := relocate_jump L ops copy (op1 opline)\<rparr>
      else if jumps_by_op2 (op_opcode opline) \<or>
        op_opcode opline = ZEND_CATCH \<and> and (extended_value opline) (LAST_CATCH L) = 0
      then opline\<lparr>op2 := relocate_jump L ops copy (op2 opline)\<rparr>
      else opline)"

definition pthreads_copy_opcodes ::
  "zend_layout \<Rightarrow> bool \<Rightarrow> addr \<times> zend_op list \<Rightarrow> addr \<Rightarrow> addr \<Rightarrow> zval list \<Rightarrow> addr \<Rightarrow> addr \<times> zend_op list" where
  "pthreads_copy_opcodes L done_pass_two ops lits newlits vs memory =
     (memory, map (\<lambda>(i, opline).
        let opline = copy_op_consts L (fst ops) lits memory newlits vs i opline in
        if abs_addr L \<and> done_pass_two then copy_op_jumps L (fst ops) memory opline else opline)
      (enumerate 0 (snd ops)))"

section \<open>Types and arguments\<close>

fun pthreads_copy_zend_type :: "zend_engine \<Rightarrow> tid \<Rightarrow> zend_type \<Rightarrow> code_state \<Rightarrow> zend_type \<times> code_state"
  and copy_zend_types :: "zend_engine \<Rightarrow> tid \<Rightarrow> zend_type list \<Rightarrow> code_state \<Rightarrow> zend_type list \<times> code_state" where
  "pthreads_copy_zend_type E t (TypeMask m) s = (TypeMask m, s)"
| "pthreads_copy_zend_type E t (TypeName m name) s =
     (let (name, s) = pthreads_copy_string E t name s in (TypeName m name, s))"
| "pthreads_copy_zend_type E t (TypeList m arena ts) s =
     (let (ts, s) = copy_zend_types E t ts s in (TypeList m arena ts, s))"
| "copy_zend_types E t [] s = ([], s)"
| "copy_zend_types E t (ty # ts) s =
     (let (ty, s) = pthreads_copy_zend_type E t ty s; (ts, s) = copy_zend_types E t ts s in (ty # ts, s))"

fun copy_arg_infos ::
  "zend_engine \<Rightarrow> tid \<Rightarrow> zend_arg_info list \<Rightarrow> code_state \<Rightarrow> zend_arg_info list \<times> code_state" where
  "copy_arg_infos E t [] s = ([], s)"
| "copy_arg_infos E t (a # old) s =
     (let (name, s) = copy_string_option E t (ai_name a) s;
          (ty, s) = pthreads_copy_zend_type E t (ai_type a) s;
          (info, s) = copy_arg_infos E t old s
      in (\<lparr>ai_name = name, ai_type = ty\<rparr> # info, s))"

definition pthreads_copy_arginfo ::
  "zend_engine \<Rightarrow> tid \<Rightarrow> fn_flag set \<Rightarrow> zend_arg_info list \<times> nat \<Rightarrow> nat \<Rightarrow> code_state \<Rightarrow>
   (zend_arg_info list \<times> nat) \<times> code_state" where
  "pthreads_copy_arginfo E t flags old num s =
     (let ret = ZEND_ACC_HAS_RETURN_TYPE \<in> flags;
          start = (if ret then snd old - 1 else snd old);
          end = num + (if ret then 1 else 0) + (if ZEND_ACC_VARIADIC \<in> flags then 1 else 0);
          (info, s) = copy_arg_infos E t (take end (drop start (fst old))) s
      in ((info, if ret then 1 else 0), s))"

section \<open>Functions\<close>

fun pthreads_copy_dynamic_func_defs :: "(addr \<Rightarrow> addr copying) \<Rightarrow> addr list \<Rightarrow> addr list copying" where
  "pthreads_copy_dynamic_func_defs cf [] s = Some ([], s)"
| "pthreads_copy_dynamic_func_defs cf (f # old) s = do {
     (copy, s) \<leftarrow> cf f s;
     (new, s) \<leftarrow> pthreads_copy_dynamic_func_defs cf old s;
     Some (copy # new, s) }"

text \<open>The file names of a thread are shared between its functions.\<close>

definition copy_filename :: "zend_engine \<Rightarrow> tid \<Rightarrow> zend_string \<Rightarrow> code_state \<Rightarrow> zend_string \<times> code_state" where
  "copy_filename E t name s =
     (case cs_filenames s t (zs_val name) of
        Some copy \<Rightarrow> (copy, s)
      | None \<Rightarrow>
          (let (copy, s) = pthreads_copy_string E t name s in
           (copy, s\<lparr>cs_filenames := (cs_filenames s)(t := (cs_filenames s t)(zs_val copy \<mapsto> copy))\<rparr>)))"

text \<open>Addresses of the new blocks of opcodes and literals: one block after pass two of the 64-bit build.\<close>

definition code_blocks :: "zend_layout \<Rightarrow> zend_function \<Rightarrow> code_state \<Rightarrow> (addr \<times> addr) \<times> code_state" where
  "code_blocks L fn s =
     (let opsize = sizeof_op L * length (snd (opcodes fn));
          litsize = sizeof_zval L * (case literals fn of None \<Rightarrow> 0 | Some (_, vs) \<Rightarrow> length vs)
      in if \<not> abs_addr L \<and> ZEND_ACC_DONE_PASS_TWO \<in> fn_flags fn
         then (let (m, s) = emalloc (mm_aligned L opsize + litsize) s in ((m, m + mm_aligned L opsize), s))
         else (let (m, s) = emalloc opsize s; (m', s) = emalloc litsize s in ((m, m'), s)))"

definition copy_code ::
  "zend_layout \<Rightarrow> zend_engine \<Rightarrow> (zval \<Rightarrow> zval option copying) \<Rightarrow> (addr \<Rightarrow> addr copying) \<Rightarrow> tid \<Rightarrow> zend_function \<Rightarrow>
   zend_function copying" where
  "copy_code L E cz cf t fn s = do {
     let ((opcodes_memory, literals_memory), s) = code_blocks L fn s;
     (lits, s) \<leftarrow> (case literals fn of
         None \<Rightarrow> Some (None, s)
       | Some (_, vs) \<Rightarrow> do { (vs, s) \<leftarrow> pthreads_copy_literals cz vs s; Some (Some (literals_memory, vs), s) });
     let ops = pthreads_copy_opcodes L (ZEND_ACC_DONE_PASS_TWO \<in> fn_flags fn) (opcodes fn)
       (case literals fn of None \<Rightarrow> 0 | Some (a, _) \<Rightarrow> a)
       (case lits of None \<Rightarrow> 0 | Some (a, _) \<Rightarrow> a) (case lits of None \<Rightarrow> [] | Some (_, vs) \<Rightarrow> vs) opcodes_memory;
     let (args, s) = (case arg_info fn of
         None \<Rightarrow> (None, s)
       | Some old \<Rightarrow> (let (new, s) = pthreads_copy_arginfo E t (fn_flags fn) old (num_args fn) s in (Some new, s)));
     let (vars, s) = (case fn_vars fn of
         None \<Rightarrow> (None, s)
       | Some old \<Rightarrow> (let (new, s) = pthreads_copy_variables E t old s in (Some new, s)));
     (attrs, s) \<leftarrow> pthreads_copy_attributes E cz t (fn_attributes fn) s;
     (defs, s) \<leftarrow> pthreads_copy_dynamic_func_defs cf (dynamic_func_defs fn) s;
     Some (fn\<lparr>literals := lits, opcodes := ops, arg_info := args, fn_vars := vars, fn_attributes := attrs,
       dynamic_func_defs := defs\<rparr>, s) }"

definition pthreads_copy_user_function ::
  "zend_layout \<Rightarrow> zend_engine \<Rightarrow> (zval \<Rightarrow> zval option copying) \<Rightarrow> (addr \<Rightarrow> addr copying) \<Rightarrow> tid \<Rightarrow> zend_function \<Rightarrow>
   addr copying" where
  "pthreads_copy_user_function L E cz cf t function s = do {
     let (copy, s) = emalloc 1 s;
     let (name, s) = pthreads_copy_string E t (function_name function) s;
     let fn = function\<lparr>function_name := name, prototype := None\<rparr>;
     let (fn, s) = (case fn_refcount function of
         None \<Rightarrow> (fn, s)
       | Some _ \<Rightarrow> (let (r, s) = emalloc 1 s in
           (fn\<lparr>fn_refcount := Some r\<rparr>, s\<lparr>cs_refcounts := (cs_refcounts s)(r \<mapsto> 1)\<rparr>)));
     let (fn, s) = (if ZEND_ACC_HEAP_RT_CACHE \<in> fn_flags fn
         then (let (c, s) = emalloc 1 s in (fn\<lparr>run_time_cache := Some c\<rparr>, s))
         else (fn\<lparr>run_time_cache := None\<rparr>, s));
     let (doc, s) = copy_string_option E t (doc_comment fn) s;
     let (file, s) = copy_filename E t (filename fn) s;
     let fn = fn\<lparr>doc_comment := doc, filename := file\<rparr>;
     (fn, s) \<leftarrow> (case fn_refcount fn of None \<Rightarrow> Some (fn, s) | Some _ \<Rightarrow> copy_code L E cz cf t fn s);
     (statics, s) \<leftarrow> pthreads_copy_statics cz (static_variables fn) s;
     let fn = fn\<lparr>static_variables := statics, static_variables_ptr := None\<rparr>;
     Some (copy, s\<lparr>cs_funs := (cs_funs s)(copy \<mapsto> fn)\<rparr>) }"

definition pthreads_copy_internal_function :: "zend_function \<Rightarrow> addr copying" where
  "pthreads_copy_internal_function function s =
     (let (copy, s) = emalloc 1 s in
      Some (copy, s\<lparr>cs_funs := (cs_funs s)(copy \<mapsto> function\<lparr>fn_flags := insert ZEND_ACC_ARENA_ALLOCATED (fn_flags function)\<rparr>)\<rparr>))"

text \<open>The thread's table \<open>resolve\<close>, which also holds the connections of \<open>Object\<close>.\<close>

definition resolve :: "tid \<Rightarrow> code_state \<Rightarrow> addr \<rightharpoonup> addr" where
  "resolve t s = zg_resolve (w_zg (cs_world s) t)"

definition set_resolve :: "tid \<Rightarrow> addr \<Rightarrow> addr \<Rightarrow> code_state \<Rightarrow> code_state" where
  "set_resolve t f copy s =
     (let w = cs_world s; zg = w_zg w t in
      s\<lparr>cs_world := set_zg t (zg\<lparr>zg_resolve := (zg_resolve zg)(f \<mapsto> copy)\<rparr>) w\<rparr>)"

definition reuse_copy :: "addr \<Rightarrow> addr copying" where
  "reuse_copy copy s = do {
     fn \<leftarrow> cs_funs s copy;
     case (fn_type fn, fn_refcount fn) of
       (ZEND_USER_FUNCTION, Some r) \<Rightarrow> do {
         k \<leftarrow> cs_refcounts s r;
         Some (copy, s\<lparr>cs_refcounts := (cs_refcounts s)(r \<mapsto> Suc k)\<rparr>) }
     | _ \<Rightarrow> Some (copy, s) }"

definition copy_function_with ::
  "zend_layout \<Rightarrow> zend_engine \<Rightarrow> (zval \<Rightarrow> zval option copying) \<Rightarrow> (addr \<Rightarrow> addr copying) \<Rightarrow> tid \<Rightarrow> addr \<Rightarrow> addr copying" where
  "copy_function_with L E cz cf t f s = do {
     function \<leftarrow> cs_funs s f;
     if ZEND_ACC_IMMUTABLE \<in> fn_flags function then Some (f, s)
     else case (if ZEND_ACC_CLOSURE \<in> fn_flags function then None else resolve t s f) of
       Some copy \<Rightarrow> reuse_copy copy s
     | None \<Rightarrow> do {
         (copy, s) \<leftarrow> (if fn_type function = ZEND_USER_FUNCTION
             then pthreads_copy_user_function L E cz cf t function s
             else pthreads_copy_internal_function function s);
         Some (copy, if ZEND_ACC_CLOSURE \<in> fn_flags function then s else set_resolve t f copy s) } }"

section \<open>Values\<close>

text \<open>
  \<open>zend_create_closure\<close>: a closure object with its own function structure, which shares the parts of
  the function it is given. \<open>closure_name\<close> prints the address of that structure.
\<close>

definition zend_create_closure :: "addr \<Rightarrow> addr option \<Rightarrow> addr option \<Rightarrow> (addr \<times> addr) copying" where
  "zend_create_closure func scope called_scope s = do {
     fn \<leftarrow> cs_funs s func;
     let (a, s) = emalloc 1 s;
     let (def, s) = emalloc 1 s;
     Some ((a, def), s\<lparr>cs_funs := (cs_funs s)(def \<mapsto> fn),
       cs_closures := (cs_closures s)(a \<mapsto> \<lparr>cl_func = def, cl_scope = scope, cl_called_scope = called_scope\<rparr>)\<rparr>) }"

definition copy_closure :: "(addr \<Rightarrow> string) \<Rightarrow> (addr \<Rightarrow> addr copying) \<Rightarrow> tid \<Rightarrow> addr \<Rightarrow> zval copying" where
  "copy_closure closure_name cf t c s = do {
     closure_obj \<leftarrow> cs_closures s c;
     (closure, s) \<leftarrow> cf (cl_func closure_obj) s;
     fn \<leftarrow> cs_funs s closure;
     ((dest, def), s) \<leftarrow> zend_create_closure closure (fn_scope fn) (cl_called_scope closure_obj) s;
     Some (IS_OBJECT (ClosureObject dest),
       s\<lparr>cs_function_table := (cs_function_table s)(t := AList.update (closure_name def) closure (cs_function_table s t))\<rparr>) }"

text \<open>A call that writes nothing to its result on failure, as the connection to an object that is gone.\<close>

definition copy_threaded :: "zend_engine \<Rightarrow> tid \<Rightarrow> addr \<Rightarrow> zval copying" where
  "copy_threaded E t a s = do {
     ((valid, v), w) \<leftarrow> pthreads_globals_object_connect E t a None (cs_world s);
     Some (if valid then v else uninitialized E, s\<lparr>cs_world := w\<rparr>) }"

definition copied :: "('a \<Rightarrow> zval) \<Rightarrow> ('a \<times> code_state) option \<Rightarrow> (zval option \<times> code_state) option" where
  "copied f r = do { (x, s) \<leftarrow> r; Some (Some (f x), s) }"

fun pthreads_copy_zval :: "nat \<Rightarrow> zend_layout \<Rightarrow> zend_engine \<Rightarrow> (addr \<Rightarrow> string) \<Rightarrow> tid \<Rightarrow> zval \<Rightarrow> zval option copying"
  and pthreads_copy_function :: "nat \<Rightarrow> zend_layout \<Rightarrow> zend_engine \<Rightarrow> (addr \<Rightarrow> string) \<Rightarrow> tid \<Rightarrow> addr \<Rightarrow> addr copying" where
  "pthreads_copy_zval 0 L E nm t source s = None"
| "pthreads_copy_zval (Suc n) L E nm t source s =
     (case source of
        IS_INDIRECT v \<Rightarrow> pthreads_copy_zval n L E nm t v s
      | IS_REFERENCE v \<Rightarrow> pthreads_copy_zval n L E nm t v s
      | IS_NULL \<Rightarrow> Some (Some source, s)
      | IS_TRUE \<Rightarrow> Some (Some source, s)
      | IS_FALSE \<Rightarrow> Some (Some source, s)
      | IS_LONG _ \<Rightarrow> Some (Some source, s)
      | IS_DOUBLE _ \<Rightarrow> Some (Some source, s)
      | IS_STRING str \<Rightarrow> copied IS_STRING (Some (pthreads_copy_string E t str s))
      | IS_ARRAY ps \<Rightarrow> copied IS_ARRAY (pthreads_copy_hash (pthreads_copy_zval n L E nm t) ps [] s)
      | IS_OBJECT (ThreadedObject a) \<Rightarrow> copied id (copy_threaded E t a s)
      | IS_OBJECT (ClosureObject c) \<Rightarrow> copied id (copy_closure nm (pthreads_copy_function n L E nm t) t c s)
      | IS_CONSTANT_AST ref \<Rightarrow>
          copied IS_CONSTANT_AST (pthreads_copy_ast n L E (pthreads_copy_zval n L E nm t) t (GC_AST L ref) s)
      | _ \<Rightarrow> Some (None, s))"
| "pthreads_copy_function 0 L E nm t f s = None"
| "pthreads_copy_function (Suc n) L E nm t f s =
     copy_function_with L E (pthreads_copy_zval n L E nm t) (pthreads_copy_function n L E nm t) t f s"

end
