(* ===== verification/Code_Facts.thy ===== *)
theory Code_Facts
  imports Code_Copy
begin

text \<open>
  What the copies of src/copy.c share with their sources: the bytes of strings, the shape of arrays
  and syntax trees, but no string that belongs to the memory of another thread.
\<close>

section \<open>States of the copier\<close>

text \<open>The tables of interned strings hold strings with the bytes they are filed under.\<close>

definition strings_ok :: "zend_engine \<Rightarrow> code_state \<Rightarrow> bool" where
  "strings_ok E s \<longleftrightarrow> (\<forall>v p. find_permanent E v = Some p \<longrightarrow> zs_val p = v \<and> zs_permanent p) \<and>
     (\<forall>t v i. cs_interned s t v = Some i \<longrightarrow> zs_val i = v)"

text \<open>
  Copying values and trees only allocates, interns strings that it has allocated for the thread, and writes nodes.
\<close>

definition copy_step :: "zend_engine \<Rightarrow> tid \<Rightarrow> code_state \<Rightarrow> code_state \<Rightarrow> bool" where
  "copy_step E t s s' \<longleftrightarrow> cs_world s' = (cs_world s)\<lparr>w_next := w_next (cs_world s')\<rparr> \<and>
     cs_funs s' = cs_funs s \<and> cs_refcounts s' = cs_refcounts s \<and> cs_closures s' = cs_closures s \<and>
     cs_filenames s' = cs_filenames s \<and> cs_function_table s' = cs_function_table s \<and>
     w_next (cs_world s) \<le> w_next (cs_world s') \<and> (strings_ok E s \<longrightarrow> strings_ok E s') \<and>
     (\<forall>u v c. cs_interned s' u v = Some c \<longrightarrow>
        cs_interned s u v = Some c \<or> u = t \<and> w_next (cs_world s) \<le> zs_addr c)"

lemma copy_step_refl [simp]: "copy_step E t s s"
  by (simp add: copy_step_def)

lemma world_next_trans:
  "w' = w\<lparr>w_next := a\<rparr> \<Longrightarrow> w'' = w'\<lparr>w_next := b\<rparr> \<Longrightarrow> w'' = w\<lparr>w_next := b\<rparr>"
  by simp

lemma copy_step_trans:
  assumes "copy_step E t s s'" and "copy_step E t s' s''"
  shows "copy_step E t s s''"
proof -
  have "cs_interned s u v = Some c \<or> u = t \<and> w_next (cs_world s) \<le> zs_addr c" if "cs_interned s'' u v = Some c" for u v c
    using assms that unfolding copy_step_def by (meson le_trans)
  moreover have "cs_world s'' = (cs_world s)\<lparr>w_next := w_next (cs_world s'')\<rparr>"
    using assms world_next_trans [where w = "cs_world s" and w' = "cs_world s'" and w'' = "cs_world s''"] unfolding copy_step_def by blast
  ultimately show ?thesis using assms by (simp add: copy_step_def)
qed

lemma copy_step_facts:
  assumes "copy_step E t s s'"
  shows "w_next (cs_world s) \<le> w_next (cs_world s')" and "strings_ok E s \<Longrightarrow> strings_ok E s'"
    and "cs_funs s' = cs_funs s" and "cs_closures s' = cs_closures s" and "cs_refcounts s' = cs_refcounts s"
    and "w_zg (cs_world s') = w_zg (cs_world s)" and "cs_filenames s' = cs_filenames s"
    and "cs_function_table s' = cs_function_table s"
proof -
  have "w_zg (cs_world s') = w_zg ((cs_world s)\<lparr>w_next := w_next (cs_world s')\<rparr>)"
    using assms unfolding copy_step_def by metis
  then show "w_zg (cs_world s') = w_zg (cs_world s)" by simp
qed (use assms in \<open>auto simp: copy_step_def\<close>)

lemma copy_step_asts [simp]: "copy_step E t s (s'\<lparr>cs_asts := m\<rparr>) = copy_step E t s s'"
  by (simp add: copy_step_def strings_ok_def)

lemma put_ast_step [simp]: "copy_step E t s (put_ast p a s') = copy_step E t s s'"
  by (simp add: put_ast_def)

text \<open>A string that thread \<open>t\<close> may keep: permanent, allocated since \<open>s\<close>, or interned by \<open>t\<close> before.\<close>

definition own_string :: "tid \<Rightarrow> code_state \<Rightarrow> zend_string \<Rightarrow> bool" where
  "own_string t s c \<longleftrightarrow> zs_permanent c \<or> w_next (cs_world s) \<le> zs_addr c \<or> (\<exists>v. cs_interned s t v = Some c)"

lemma own_string_step:
  assumes "copy_step E t s s'" and "own_string t s' c"
  shows "own_string t s c"
  using assms unfolding copy_step_def own_string_def by (meson le_trans)

section \<open>Strings\<close>

lemma emalloc_step: "emalloc k s = (a, s') \<Longrightarrow> copy_step E t s s' \<and> a = w_next (cs_world s) \<and>
    w_next (cs_world s') = a + k \<and> cs_asts s' = cs_asts s"
  by (auto simp: copy_step_def emalloc_def Let_def strings_ok_def)

lemma string_init_step:
  "string_init v b s = (c, s') \<Longrightarrow> copy_step E t s s' \<and> zs_val c = v \<and> zs_addr c = w_next (cs_world s) \<and>
     cs_asts s' = cs_asts s \<and> cs_interned s' = cs_interned s"
  by (auto simp: copy_step_def string_init_def zend_string_init_def alloc_def Let_def strings_ok_def)

lemma intern_step:
  assumes "zend_new_interned_string E t c s\<^sub>1 = (c', s')" and "strings_ok E s\<^sub>1"
    and "copy_step E t s s\<^sub>1" "w_next (cs_world s) \<le> zs_addr c" "cs_interned s\<^sub>1 = cs_interned s"
  shows "zs_val c' = zs_val c \<and> copy_step E t s s' \<and> own_string t s c' \<and> cs_asts s' = cs_asts s\<^sub>1"
proof (cases "find_permanent E (zs_val c) = None \<and> cs_interned s\<^sub>1 t (zs_val c) = None")
  case True
  then have c': "c' = c\<lparr>zs_interned := True\<rparr>"
    and s': "s' = s\<^sub>1\<lparr>cs_interned := (cs_interned s\<^sub>1)(t := (cs_interned s\<^sub>1 t)(zs_val c \<mapsto> c'))\<rparr>"
    using assms(1) by (auto simp: zend_new_interned_string_def Let_def)
  have "strings_ok E s'" using assms(2) by (auto simp: s' c' strings_ok_def)
  then show ?thesis using assms(3-5) by (auto simp: copy_step_def s' c' own_string_def)
next
  case False
  then have "s' = s\<^sub>1 \<and> (find_permanent E (zs_val c) = Some c' \<or> cs_interned s\<^sub>1 t (zs_val c) = Some c')"
    using assms(1) by (auto simp: zend_new_interned_string_def Let_def split: option.splits)
  then show ?thesis using assms(2,3,5) by (auto simp: strings_ok_def own_string_def)
qed

lemma copy_string:
  assumes "pthreads_copy_string E t str s = (c, s')" and "strings_ok E s"
  shows "zs_val c = zs_val str \<and> copy_step E t s s' \<and> own_string t s c \<and> cs_asts s' = cs_asts s"
proof (cases "zs_interned str \<and> \<not> zs_permanent str")
  case True
  obtain d s1 where d: "string_init (zs_val str) (zs_persistent str) s = (d, s1)" by force
  note st = string_init_step [OF d, of E t]
  from True assms(1) d have "zend_new_interned_string E t d s1 = (c, s')" by (simp add: pthreads_copy_string_def)
  from intern_step [OF this, of s] st assms(2) copy_step_facts(2) show ?thesis by auto
next
  case False
  then show ?thesis
    using assms string_init_step [of "zs_val str" "zs_persistent str" s c s' E t]
    by (auto simp: pthreads_copy_string_def own_string_def split: if_splits)
qed

section \<open>Values\<close>

text \<open>The values of literals: scalars, strings and arrays of them.\<close>

fun literal :: "zval \<Rightarrow> bool" where
  "literal IS_NULL = True" | "literal IS_FALSE = True" | "literal IS_TRUE = True"
| "literal (IS_LONG n) = True" | "literal (IS_DOUBLE d) = True" | "literal (IS_STRING str) = True"
| "literal (IS_ARRAY ps) \<longleftrightarrow> distinct (map fst ps) \<and> (\<forall>p\<in>set ps. literal (snd p))"
| "literal v = False"

fun zdepth :: "zval \<Rightarrow> nat" where
  "zdepth (IS_ARRAY ps) = Suc (Max (insert 0 (set (map (\<lambda>p. zdepth (snd p)) ps))))"
| "zdepth v = 0"

text \<open>A value up to the identity of its strings.\<close>

definition bytes_of :: "zend_string \<Rightarrow> zend_string" where
  "bytes_of str = \<lparr>zs_addr = 0, zs_val = zs_val str, zs_interned = False, zs_permanent = False, zs_persistent = False\<rparr>"

fun value_view :: "zval \<Rightarrow> zval" where
  "value_view (IS_STRING str) = IS_STRING (bytes_of str)"
| "value_view (IS_ARRAY ps) = IS_ARRAY (map (\<lambda>p. (fst p, value_view (snd p))) ps)"
| "value_view v = v"

fun value_strings :: "zval \<Rightarrow> zend_string set" where
  "value_strings (IS_STRING str) = {str}"
| "value_strings (IS_ARRAY ps) = (\<Union>p\<in>set ps. value_strings (snd p))"
| "value_strings v = {}"

lemma bytes_of_eq: "bytes_of c = bytes_of d \<longleftrightarrow> zs_val c = zs_val d"
  by (simp add: bytes_of_def)

lemma zdepth_element: "p \<in> set ps \<Longrightarrow> zdepth (snd p) < zdepth (IS_ARRAY ps)"
  by (auto simp: less_Suc_eq_le intro: Max_ge)

text \<open>
  The contract of a copier of values that the copiers of trees and functions rely on: on the
  values it is good for, it returns a copy that agrees with the source up to the identity of
  strings, keeps only strings of the thread, and leaves the nodes of syntax trees alone.
\<close>

definition copy_of :: "zend_engine \<Rightarrow> tid \<Rightarrow> code_state \<Rightarrow> zval \<Rightarrow> zval \<Rightarrow> code_state \<Rightarrow> bool" where
  "copy_of E t s v v' s' \<longleftrightarrow> value_view v' = value_view v \<and> copy_step E t s s' \<and> cs_asts s' = cs_asts s \<and>
     (\<forall>c\<in>value_strings v'. own_string t s c)"

locale value_copier =
  fixes E :: zend_engine and t :: tid and cz :: "zval \<Rightarrow> zval option copying" and good :: "zval \<Rightarrow> bool"
  assumes copies: "good v \<Longrightarrow> strings_ok E s \<Longrightarrow> \<exists>v' s'. cz v s = Some (Some v', s') \<and> copy_of E t s v v' s'"
begin

lemma copies_hash:
  assumes "\<forall>p\<in>set ps. good (snd p)" and "distinct (map fst (ht @ ps))" and "strings_ok E s"
  shows "\<exists>qs s'. pthreads_copy_hash cz ps ht s = Some (ht @ qs, s') \<and>
    map (\<lambda>p. (fst p, value_view (snd p))) qs = map (\<lambda>p. (fst p, value_view (snd p))) ps \<and>
    copy_step E t s s' \<and> cs_asts s' = cs_asts s \<and> (\<forall>p\<in>set qs. \<forall>c\<in>value_strings (snd p). own_string t s c)"
  using assms
proof (induction ps arbitrary: ht s)
  case (Cons p ps)
  obtain k v where p: "p = (k, v)" by force
  obtain v' s1 where v: "cz v s = Some (Some v', s1)" "copy_of E t s v v' s1"
    using copies [of v s] Cons.prems p by auto
  have fresh: "AList.update k v' ht = ht @ [(k, v')]"
    using Cons.prems(2) p by (intro update_append_fresh) auto
  have ok: "strings_ok E s1" using v(2) Cons.prems(3) by (auto simp: copy_of_def copy_step_facts)
  from Cons.IH [of "ht @ [(k, v')]" s1] Cons.prems ok p obtain qs s' where
    q: "pthreads_copy_hash cz ps (ht @ [(k, v')]) s1 = Some (ht @ (k, v') # qs, s')"
      "map (\<lambda>p. (fst p, value_view (snd p))) qs = map (\<lambda>p. (fst p, value_view (snd p))) ps"
      "copy_step E t s1 s'" "cs_asts s' = cs_asts s1" "\<forall>p\<in>set qs. \<forall>c\<in>value_strings (snd p). own_string t s1 c"
    by auto
  have "\<forall>p\<in>set ((k, v') # qs). \<forall>c\<in>value_strings (snd p). own_string t s c"
    using q(5) v(2) own_string_step by (auto simp: copy_of_def)
  moreover have "copy_step E t s s'" using v(2) q(3) copy_step_trans by (auto simp: copy_of_def)
  ultimately show ?case
    using p v q(1,2,4) by (auto simp: fresh copy_of_def intro!: exI [of _ "(k, v') # qs"])
qed simp

lemma copies_literals:
  assumes "\<forall>v\<in>set vs. good v" and "strings_ok E s"
  shows "\<exists>ws s'. pthreads_copy_literals cz vs s = Some (ws, s') \<and> map value_view ws = map value_view vs \<and>
    copy_step E t s s' \<and> cs_asts s' = cs_asts s \<and> (\<forall>v\<in>set ws. \<forall>c\<in>value_strings v. own_string t s c)"
  using assms
proof (induction vs arbitrary: s)
  case (Cons v vs)
  obtain v' s1 where v: "cz v s = Some (Some v', s1)" "copy_of E t s v v' s1"
    using copies [of v s] Cons.prems by auto
  have ok: "strings_ok E s1" using v(2) Cons.prems(2) by (auto simp: copy_of_def copy_step_facts)
  from Cons.IH [OF _ ok] Cons.prems obtain ws s' where w: "pthreads_copy_literals cz vs s1 = Some (ws, s')"
    "map value_view ws = map value_view vs" "copy_step E t s1 s'" "cs_asts s' = cs_asts s1"
    "\<forall>v\<in>set ws. \<forall>c\<in>value_strings v. own_string t s1 c" by auto
  have "copy_step E t s s'" using v(2) w(3) copy_step_trans by (auto simp: copy_of_def)
  moreover have "\<forall>v\<in>set (v' # ws). \<forall>c\<in>value_strings v. own_string t s c"
    using w(5) v(2) own_string_step by (auto simp: copy_of_def)
  ultimately show ?case using v w by (auto simp: copy_of_def)
qed simp

end

lemma copy_literal:
  assumes "literal v" and "zdepth v < n" and "strings_ok E s"
  shows "\<exists>v' s'. pthreads_copy_zval n L E nm t v s = Some (Some v', s') \<and> copy_of E t s v v' s'"
  using assms
proof (induction n arbitrary: v s)
  case (Suc n)
  show ?case
  proof (cases v)
    case (IS_STRING str)
    with copy_string [of E t str s] Suc.prems show ?thesis
      by (cases "pthreads_copy_string E t str s") (auto simp: copied_def copy_of_def bytes_of_eq)
  next
    case (IS_ARRAY ps)
    have "value_copier E t (pthreads_copy_zval n L E nm t) (\<lambda>v. literal v \<and> zdepth v < n)"
      using Suc.IH by unfold_locales auto
    moreover have "\<forall>p\<in>set ps. literal (snd p) \<and> zdepth (snd p) < n"
      using Suc.prems IS_ARRAY zdepth_element by fastforce
    ultimately obtain qs s' where "pthreads_copy_hash (pthreads_copy_zval n L E nm t) ps [] s = Some (qs, s')"
      "map (\<lambda>p. (fst p, value_view (snd p))) qs = map (\<lambda>p. (fst p, value_view (snd p))) ps"
      "copy_step E t s s'" "cs_asts s' = cs_asts s" "\<forall>p\<in>set qs. \<forall>c\<in>value_strings (snd p). own_string t s c"
      using value_copier.copies_hash [of E t _ "\<lambda>v. literal v \<and> zdepth v < n" ps "[]" s] Suc.prems IS_ARRAY by force
    then show ?thesis by (simp add: IS_ARRAY copied_def copy_of_def)
  qed (use Suc.prems in \<open>simp_all add: copy_of_def\<close>)
qed simp

interpretation literals: value_copier E t "pthreads_copy_zval n L E nm t" "\<lambda>v. literal v \<and> zdepth v < n"
  for E t n L nm
  using copy_literal by unfold_locales blast

end
