(* ===== verification/Growth.thy ===== *)
theory Growth
  imports Code_Facts
begin

text \<open>
  Memory is handed out once: no operation on which the copies of src/copy.c rely lowers the next free
  address. The facts are collected in \<open>next_mono\<close>.
\<close>

named_theorems next_mono \<open>the next free address never decreases\<close>

lemmas access_next = set_obj_def set_ts_def set_zg_def set_globals_def throw_def

section \<open>Monitors and globals\<close>

lemma monitor_lock_next [next_mono]: "monitor_lock t l w = Some (ok, w') \<Longrightarrow> w_next w \<le> w_next w'"
  by (auto simp: monitor_lock_def bind_Some_iff)

lemma monitor_unlock_next [simp]: "w_next (monitor_unlock t l w) = w_next w"
  by (simp add: monitor_unlock_def)

text \<open>
  A relation between the states before and after that does not look at the monitors holds of
  a critical section when it holds of its branches.
\<close>

locale monitor_closed =
  fixes R :: "world \<Rightarrow> world \<Rightarrow> bool"
  assumes R_trans: "R w w' \<Longrightarrow> R w' w'' \<Longrightarrow> R w w''"
    and R_monitors: "R w (w\<lparr>w_monitors := m\<rparr>)"
begin

lemma section_R:
  assumes "with_monitor t l body els w = Some (r, w')"
    and "\<And>w r w'. body w = Some (r, w') \<Longrightarrow> R w w'" and "\<And>w r w'. els w = Some (r, w') \<Longrightarrow> R w w'"
  shows "R w w'"
proof -
  from assms(1) obtain ok w\<^sub>1 where lock: "monitor_lock t l w = Some (ok, w\<^sub>1)"
    and rest: "(if ok then do { (r, w) \<leftarrow> body w\<^sub>1; Some (r, monitor_unlock t l w) } else els w\<^sub>1) = Some (r, w')"
    by (auto simp: with_monitor_def bind_Some_iff)
  from lock have "R w w\<^sub>1" by (auto simp: monitor_lock_def bind_Some_iff intro: R_monitors)
  moreover have "R w\<^sub>1 w'"
  proof (cases ok)
    case True
    with rest obtain w\<^sub>2 where "body w\<^sub>1 = Some (r, w\<^sub>2)" and w': "w' = monitor_unlock t l w\<^sub>2"
      by (auto simp: bind_Some_iff)
    then have "R w\<^sub>1 w\<^sub>2" by (intro assms(2))
    moreover have "R w\<^sub>2 w'" unfolding w' monitor_unlock_def by (rule R_monitors)
    ultimately show ?thesis by (rule R_trans)
  qed (use rest assms(3) in simp)
  ultimately show ?thesis by (rule R_trans)
qed

end

interpretation growth: monitor_closed "\<lambda>w w'. w_next w \<le> w_next w'"
  by unfold_locales simp_all

lemmas with_monitor_next = growth.section_R

lemma alloc_next [next_mono]: "alloc w = (a, w') \<Longrightarrow> w_next w \<le> w_next w'"
  by (auto simp: alloc_def)

lemma zend_string_init_next [next_mono]: "zend_string_init v p w = (str, w') \<Longrightarrow> w_next w \<le> w_next w'"
  by (auto simp: zend_string_init_def Let_def alloc_def)

lemma object_valid_next [next_mono]: "pthreads_globals_object_valid t a w = Some (r, w') \<Longrightarrow> w_next w \<le> w_next w'"
  by (auto simp: pthreads_globals_object_valid_def split: if_splits elim!: with_monitor_next)

lemma socket_track_next [next_mono]: "pthreads_globals_shared_socket_track t socket w = Some (r, w') \<Longrightarrow> w_next w \<le> w_next w'"
  by (auto simp: pthreads_globals_shared_socket_track_def set_globals_def split: if_splits elim!: with_monitor_next)

lemma object_alloc_next [next_mono]: "pthreads_globals_object_alloc t w = Some (a, w') \<Longrightarrow> w_next w \<le> w_next w'"
  by (auto simp: pthreads_globals_object_alloc_def bind_Some_iff access_next split: prod.splits dest!: alloc_next with_monitor_next)

lemma find_interned_next [next_mono]: "pthreads_globals_find_interned_string E t str w = Some (r, w') \<Longrightarrow> w_next w \<le> w_next w'"
  by (auto simp: pthreads_globals_find_interned_string_def split: if_splits option.splits dest!: with_monitor_next)

lemma add_interned_next [next_mono]: "pthreads_globals_add_interned_string E t str w = Some (r, w') \<Longrightarrow> w_next w \<le> w_next w'"
  by (auto simp: pthreads_globals_add_interned_string_def bind_Some_iff Let_def set_globals_def
      split: if_splits option.splits prod.splits dest!: with_monitor_next find_interned_next zend_string_init_next)

section \<open>The store\<close>

lemma set_hash_next [next_mono]: "set_hash a ht w = Some w' \<Longrightarrow> w_next w \<le> w_next w'"
  by (auto simp: set_hash_def bind_Some_iff access_next)

lemma sync_keeps_next [next_mono]: "sync_keeps t z v w = Some (k, w') \<Longrightarrow> w_next w \<le> w_next w'"
  by (auto simp: sync_keeps_def bind_Some_iff Let_def split: option.splits pthreads_storage.splits if_splits dest!: next_mono)

lemma sync_entries_next [next_mono]: "sync_entries t shared ps w = Some (qs, w') \<Longrightarrow> w_next w \<le> w_next w'"
proof (induction ps arbitrary: w qs)
  case (Cons p ps)
  obtain k v where "p = (k, v)" by force
  with Cons.prems show ?case by (auto simp: bind_Some_iff dest!: Cons.IH next_mono)
qed simp

lemma sync_local_next [next_mono]: "pthreads_store_sync_local_properties t obj w = Some w' \<Longrightarrow> w_next w \<le> w_next w'"
  by (auto simp: pthreads_store_sync_local_properties_def bind_Some_iff access_next split: if_splits option.splits dest!: next_mono)

lemma bump_next [next_mono]: "pthreads_store_bump_modcount_nolock obj w = Some w' \<Longrightarrow> w_next w \<le> w_next w'"
  by (auto simp: pthreads_store_bump_modcount_nolock_def bind_Some_iff Let_def access_next)

lemma update_shared_next [next_mono]: "pthreads_store_update_shared_property a k z w = Some (r, w') \<Longrightarrow> w_next w \<le> w_next w'"
  by (auto simp: pthreads_store_update_shared_property_def bind_Some_iff dest!: next_mono)

lemma update_local_next [next_mono]: "pthreads_store_update_local_property E obj k v w = Some w' \<Longrightarrow> w_next w \<le> w_next w'"
  by (auto simp: pthreads_store_update_local_property_def pthreads_store_init_local_properties_def bind_Some_iff access_next
      split: if_splits)

lemma save_string_next [next_mono]: "pthreads_store_save_string s w = (s', w') \<Longrightarrow> w_next w \<le> w_next w'"
  using save_string_step [of s w] by auto

lemma store_create_next [next_mono]: "pthreads_store_create t source v w = Some (r, w') \<Longrightarrow> w_next w \<le> w_next w'"
  by (induction t source v w rule: pthreads_store_create.induct)
    (auto simp: bind_Some_iff split: if_splits prod.splits dest!: next_mono)

lemma save_zval_next [next_mono]: "pthreads_store_save_zval t source v w = Some (r, w') \<Longrightarrow> w_next w \<le> w_next w'"
  by (cases v) (auto simp: pthreads_store_save_zval_def bind_Some_iff split: if_splits dest!: next_mono)

lemma write_locked_next [next_mono]: "store_write_locked t obj a m z w = Some (r, w') \<Longrightarrow> w_next w \<le> w_next w'"
  by (auto simp: store_write_locked_def bind_Some_iff split: if_splits dest!: next_mono)

lemma write_zval_next [next_mono]: "store_write_zval E t obj k v w = Some (r, w') \<Longrightarrow> w_next w \<le> w_next w'"
  by (auto simp: store_write_zval_def bind_Some_iff Let_def access_next split: option.splits dest!: next_mono with_monitor_next)

section \<open>Objects\<close>

lemma base_init_class_next [next_mono]:
  "base_init_class E t base ce infos slots w = Some (r, w') \<Longrightarrow> w_next w \<le> w_next w'"
proof (induction infos arbitrary: slots w)
  case (Cons i infos)
  from Cons.prems show ?case by (auto simp: bind_Some_iff access_next split: if_splits dest!: Cons.IH next_mono)
qed simp

lemma base_init_chain_next [next_mono]: "base_init_chain E t base chain slots w = Some w' \<Longrightarrow> w_next w \<le> w_next w'"
proof (induction chain arbitrary: slots w)
  case (Cons c chain)
  obtain ce infos where "c = (ce, infos)" by force
  with Cons.prems show ?case by (auto simp: bind_Some_iff dest!: Cons.IH next_mono)
qed simp

lemma base_ctor_next [next_mono]: "pthreads_base_ctor E t base ce scope w = Some w' \<Longrightarrow> w_next w \<le> w_next w'"
  by (auto simp: pthreads_base_ctor_def pthreads_base_init_def pthreads_ts_object_ctor_def bind_Some_iff Let_def access_next alloc_def
      dest!: next_mono)

lemma object_init_next [next_mono]: "object_init_ex E t ce w = Some (a, w') \<Longrightarrow> w_next w \<le> w_next w'"
  by (auto simp: object_init_ex_def pthreads_thread_ctor_def pthreads_worker_ctor_def pthreads_threaded_base_ctor_def
      pthreads_threaded_array_ctor_def pthreads_worker_data_alloc_def set_worker_def bind_Some_iff Let_def access_next alloc_def
      split: class_kind.splits dest!: next_mono)

lemma worker_free_next [next_mono]: "pthreads_worker_data_free t a w = Some (r, w') \<Longrightarrow> w_next w \<le> w_next w'"
  by (auto simp: pthreads_worker_data_free_def bind_Some_iff set_heap_def dest!: with_monitor_next)

lemma release_next [next_mono]: "release_ts t a w = Some (r, w') \<Longrightarrow> w_next w \<le> w_next w'"
  by (auto simp: release_ts_def pthreads_ts_object_free_def bind_Some_iff Let_def access_next split: if_splits
      dest!: next_mono with_monitor_next)

lemma connect_next [next_mono]: "pthreads_connect_nolock t a b w = Some (r, w') \<Longrightarrow> w_next w \<le> w_next w'"
  by (auto simp: pthreads_connect_nolock_def bind_Some_iff Let_def access_next split: if_splits option.splits dest!: next_mono)

lemma object_connect_next [next_mono]: "pthreads_globals_object_connect E t a ce w = Some (r, w') \<Longrightarrow> w_next w \<le> w_next w'"
  by (auto simp: pthreads_globals_object_connect_def object_connect_locked_def bind_Some_iff Let_def access_next
      split: if_splits option.splits dest!: with_monitor_next next_mono)

section \<open>Code\<close>

lemma case_pairE:
  assumes "(case p of (a, b) \<Rightarrow> f a b) = Some r"
  obtains a b where "p = (a, b)" and "f a b = Some r"
  using assms by (cases p) auto

abbreviation code_next :: "code_state \<Rightarrow> addr" where "code_next s \<equiv> w_next (cs_world s)"

lemma emalloc_next [next_mono]: "emalloc k s = (a, s') \<Longrightarrow> code_next s \<le> code_next s'"
  by (auto simp: emalloc_def Let_def)

lemma string_init_next [next_mono]: "string_init v p s = (str, s') \<Longrightarrow> code_next s \<le> code_next s'"
  by (auto simp: string_init_def split: prod.splits dest!: next_mono)

lemma new_interned_next [next_mono]: "zend_new_interned_string E t str s = (c, s') \<Longrightarrow> code_next s \<le> code_next s'"
  by (auto simp: zend_new_interned_string_def Let_def split: option.splits)

lemma copy_string_next [next_mono]: "pthreads_copy_string E t str s = (c, s') \<Longrightarrow> code_next s \<le> code_next s'"
  by (auto simp: pthreads_copy_string_def Let_def split: if_splits prod.splits dest!: next_mono)

lemma copy_string_option_next [next_mono]: "copy_string_option E t str s = (c, s') \<Longrightarrow> code_next s \<le> code_next s'"
  by (auto simp: copy_string_option_def split: option.splits prod.splits dest!: next_mono)

lemma copy_variables_next [next_mono]: "pthreads_copy_variables E t vs s = (cs, s') \<Longrightarrow> code_next s \<le> code_next s'"
  by (induction vs arbitrary: s cs) (fastforce split: prod.splits dest!: next_mono)+

lemma copy_type_next [next_mono]:
  "pthreads_copy_zend_type E t ty s = (ty', s') \<Longrightarrow> code_next s \<le> code_next s'"
  "copy_zend_types E t ts s = (ts', s') \<Longrightarrow> code_next s \<le> code_next s'"
  by (induction E t ty s and E t ts s arbitrary: ty' s' and ts' s' rule: pthreads_copy_zend_type_copy_zend_types.induct)
    (fastforce split: prod.splits dest!: next_mono)+

lemma copy_arg_infos_next [next_mono]: "copy_arg_infos E t old s = (new, s') \<Longrightarrow> code_next s \<le> code_next s'"
  by (induction old arbitrary: s new) (fastforce split: prod.splits dest!: next_mono)+

lemma copy_arginfo_next [next_mono]: "pthreads_copy_arginfo E t flags old num s = (new, s') \<Longrightarrow> code_next s \<le> code_next s'"
  by (auto simp: pthreads_copy_arginfo_def Let_def split: prod.splits dest!: next_mono)

lemma copy_filename_next [next_mono]: "copy_filename E t name s = (c, s') \<Longrightarrow> code_next s \<le> code_next s'"
  by (auto simp: copy_filename_def split: option.splits prod.splits dest!: next_mono)

lemma code_blocks_next [next_mono]: "code_blocks L fn s = (m, s') \<Longrightarrow> code_next s \<le> code_next s'"
  by (auto simp: code_blocks_def Let_def split: if_splits prod.splits dest!: next_mono)

lemma put_ast_next [simp]: "code_next (put_ast p a s) = code_next s"
  by (simp add: put_ast_def)

lemma push_child_next [next_mono]: "push_child new c s = Some s' \<Longrightarrow> code_next s \<le> code_next s'"
  by (auto simp: push_child_def bind_Some_iff)

lemma create_closure_next [next_mono]: "zend_create_closure f sc csc s = Some (r, s') \<Longrightarrow> code_next s \<le> code_next s'"
  by (auto simp: zend_create_closure_def bind_Some_iff Let_def emalloc_def)

lemma copy_threaded_next [next_mono]: "copy_threaded E t a s = Some (r, s') \<Longrightarrow> code_next s \<le> code_next s'"
  by (auto simp: copy_threaded_def bind_Some_iff dest!: next_mono)

lemma set_resolve_next [simp]: "code_next (set_resolve t f c s) = code_next s"
  by (simp add: set_resolve_def Let_def)

lemma reuse_next [next_mono]: "reuse_copy c s = Some (r, s') \<Longrightarrow> code_next s \<le> code_next s'"
proof -
  assume r: "reuse_copy c s = Some (r, s')"
  then obtain fn where fn: "cs_funs s c = Some fn" by (auto simp: reuse_copy_def bind_Some_iff)
  with r show "code_next s \<le> code_next s'"
    by (cases "fn_type fn"; cases "fn_refcount fn") (auto simp: reuse_copy_def bind_Some_iff)
qed

text \<open>What a structure is copied with: copiers of values and of functions that never lower the next free address.\<close>

locale growing_copiers =
  fixes cz :: "zval \<Rightarrow> zval option copying" and cf :: "addr \<Rightarrow> addr copying"
  assumes zval_next: "cz v s = Some (r, s') \<Longrightarrow> code_next s \<le> code_next s'"
    and function_next: "cf f s = Some (c, s') \<Longrightarrow> code_next s \<le> code_next s'"
begin

lemma hash_next: "pthreads_copy_hash cz ps ht s = Some (r, s') \<Longrightarrow> code_next s \<le> code_next s'"
proof (induction ps arbitrary: ht s)
  case (Cons p ps)
  obtain k v where "p = (k, v)" by force
  with Cons.prems show ?case by (auto simp: bind_Some_iff split: option.splits dest!: Cons.IH zval_next)
qed simp

lemma statics_next: "pthreads_copy_statics cz old s = Some (r, s') \<Longrightarrow> code_next s \<le> code_next s'"
proof -
  have "copy_statics_entries cz ps st s = Some (r, s') \<Longrightarrow> code_next s \<le> code_next s'" for ps st s r
  proof (induction ps arbitrary: st s)
    case (Cons p ps)
    obtain k v where "p = (k, v)" by force
    with Cons.prems show ?case by (auto simp: bind_Some_iff dest!: Cons.IH zval_next)
  qed simp
  then show "pthreads_copy_statics cz old s = Some (r, s') \<Longrightarrow> code_next s \<le> code_next s'"
    by (auto simp: pthreads_copy_statics_def bind_Some_iff split: option.splits)
qed

lemma literals_next: "pthreads_copy_literals cz vs s = Some (r, s') \<Longrightarrow> code_next s \<le> code_next s'"
  by (induction vs arbitrary: s r) (fastforce simp: bind_Some_iff dest!: zval_next)+

lemma attributes_next: "pthreads_copy_attributes E cz t old s = Some (r, s') \<Longrightarrow> code_next s \<le> code_next s'"
proof -
  have args: "copy_attribute_args E cz t args s = Some (r, s') \<Longrightarrow> code_next s \<le> code_next s'" for args s r s'
  proof (induction args arbitrary: s r)
    case (Cons a args)
    obtain n v where "a = (n, v)" by force
    with Cons.prems obtain y b where 1: "cz v s = Some (Some y, b)" by (auto simp: bind_Some_iff split: option.splits)
    obtain m b' where 2: "copy_string_option E t n b = (m, b')" by force
    from Cons.prems \<open>a = (n, v)\<close> 1 2 obtain r' where "copy_attribute_args E cz t args b' = Some (r', s')" by (auto simp: bind_Some_iff)
    from Cons.IH [OF this] zval_next [OF 1] copy_string_option_next [OF 2] show ?case by simp
  qed simp
  have one: "pthreads_copy_attribute E cz t a s = Some (r, s') \<Longrightarrow> code_next s \<le> code_next s'" for a s r s'
    by (auto simp: pthreads_copy_attribute_def bind_Some_iff split: prod.splits dest!: args next_mono)
  have list: "copy_attribute_list E cz t as s = Some (r, s') \<Longrightarrow> code_next s \<le> code_next s'" for as s r s'
    by (induction as arbitrary: s r) (fastforce simp: bind_Some_iff dest!: one)+
  show "pthreads_copy_attributes E cz t old s = Some (r, s') \<Longrightarrow> code_next s \<le> code_next s'"
    by (auto simp: pthreads_copy_attributes_def bind_Some_iff split: option.splits dest!: list)
qed

lemma func_defs_next: "pthreads_copy_dynamic_func_defs cf fs s = Some (r, s') \<Longrightarrow> code_next s \<le> code_next s'"
  by (induction fs arbitrary: s r) (fastforce simp: bind_Some_iff dest!: function_next)+

lemma ast_next: "pthreads_copy_ast n L E cz t p s = Some (r, s') \<Longrightarrow> code_next s \<le> code_next s'"
proof -
  have children: "copy_children ct new cs buf s = Some (r, s') \<Longrightarrow> code_next s \<le> code_next s'"
    if "\<And>c buf s r s'. ct c buf s = Some (r, s') \<Longrightarrow> code_next s \<le> code_next s'" for ct new cs buf s r s'
  proof (induction cs arbitrary: buf s)
    case (Cons c cs)
    then show ?case by (cases c) (auto simp: bind_Some_iff dest!: Cons.IH that next_mono)
  qed simp
  have tree: "pthreads_copy_ast_tree n L E cz t p buf s = Some (r, s') \<Longrightarrow> code_next s \<le> code_next s'" for n p buf s r s'
  proof (induction n arbitrary: p buf s r s')
    case (Suc n)
    have nodes: "copy_children (pthreads_copy_ast_tree n L E cz t) new cs buf s = Some (r, s') \<Longrightarrow> code_next s \<le> code_next s'"
      for new cs buf s r s'
      by (rule children [where ct = "pthreads_copy_ast_tree n L E cz t"]) (rule Suc.IH)
    from Suc.prems show ?case
      by (auto simp: bind_Some_iff Let_def split: if_splits zval.splits prod.splits dest!: zval_next next_mono nodes)
  qed simp
  show "pthreads_copy_ast n L E cz t p s = Some (r, s') \<Longrightarrow> code_next s \<le> code_next s'"
    unfolding pthreads_copy_ast_def Let_def by (elim bind_eq_SomeE case_pairE) (auto dest!: tree next_mono)
qed

lemma code_next: "copy_code L E cz cf t fn s = Some (r, s') \<Longrightarrow> code_next s \<le> code_next s'"
proof -
  assume run: "copy_code L E cz cf t fn s = Some (r, s')"
  obtain m m' s1 where b: "code_blocks L fn s = ((m, m'), s1)" by (metis surj_pair)
  from run obtain lits s2 args s3 vars s4 attrs s5 defs where c:
    "(case literals fn of None \<Rightarrow> Some (None, s1)
       | Some (_, vs) \<Rightarrow> do { (vs, s) \<leftarrow> pthreads_copy_literals cz vs s1; Some (Some (m', vs), s) }) = Some (lits, s2)"
    "(case arg_info fn of None \<Rightarrow> (None, s2)
       | Some old \<Rightarrow> (case pthreads_copy_arginfo E t (fn_flags fn) old (num_args fn) s2 of (new, s) \<Rightarrow> (Some new, s))) = (args, s3)"
    "(case fn_vars fn of None \<Rightarrow> (None, s3)
       | Some old \<Rightarrow> (case pthreads_copy_variables E t old s3 of (new, s) \<Rightarrow> (Some new, s))) = (vars, s4)"
    "pthreads_copy_attributes E cz t (fn_attributes fn) s4 = Some (attrs, s5)"
    "pthreads_copy_dynamic_func_defs cf (dynamic_func_defs fn) s5 = Some (defs, s')"
    unfolding copy_code_def Let_def b prod.case 
    by (elim bind_eq_SomeE case_pairE) (hypsubst, unfold option.inject prod.inject, elim conjE, hypsubst, rule that)
  have "code_next s1 \<le> code_next s2" using c(1) by (auto simp: bind_Some_iff split: option.splits dest!: literals_next)
  moreover have "code_next s2 \<le> code_next s3" using c(2) by (auto split: option.splits prod.splits dest!: next_mono)
  moreover have "code_next s3 \<le> code_next s4" using c(3) by (auto split: option.splits prod.splits dest!: next_mono)
  ultimately show ?thesis using code_blocks_next [OF b] attributes_next [OF c(4)] func_defs_next [OF c(5)] by simp
qed

lemma user_function_next: "pthreads_copy_user_function L E cz cf t fn s = Some (r, s') \<Longrightarrow> code_next s \<le> code_next s'"
proof -
  assume run: "pthreads_copy_user_function L E cz cf t fn s = Some (r, s')"
  obtain c s1 where c: "emalloc 1 s = (c, s1)" by force
  obtain name s2 where n: "pthreads_copy_string E t (function_name fn) s1 = (name, s2)" by force
  obtain fn1 s3 where f1: "(case fn_refcount fn of None \<Rightarrow> (fn\<lparr>function_name := name, prototype := None\<rparr>, s2)
       | Some _ \<Rightarrow> (case emalloc 1 s2 of (r, s) \<Rightarrow>
           (fn\<lparr>function_name := name, prototype := None, fn_refcount := Some r\<rparr>, s\<lparr>cs_refcounts := (cs_refcounts s)(r \<mapsto> 1)\<rparr>))) = (fn1, s3)"
    by force
  obtain fn2 s4 where f2: "(if ZEND_ACC_HEAP_RT_CACHE \<in> fn_flags fn1 then (case emalloc 1 s3 of (c, s) \<Rightarrow> (fn1\<lparr>run_time_cache := Some c\<rparr>, s))
         else (fn1\<lparr>run_time_cache := None\<rparr>, s3)) = (fn2, s4)" by force
  obtain doc s5 where d: "copy_string_option E t (doc_comment fn2) s4 = (doc, s5)" by force
  obtain fname s6 where fl: "copy_filename E t (filename fn2) s5 = (fname, s6)" by force
  define fn3 where "fn3 = fn2\<lparr>doc_comment := doc, filename := fname\<rparr>"
  from run obtain fn4 s7 st s8 where g: "(case fn_refcount fn3 of None \<Rightarrow> Some (fn3, s6) | Some _ \<Rightarrow> copy_code L E cz cf t fn3 s6) = Some (fn4, s7)"
    "pthreads_copy_statics cz (static_variables fn4) s7 = Some (st, s8)" "code_next s' = code_next s8"
    unfolding pthreads_copy_user_function_def Let_def c n prod.case f1 f2 d fl fn3_def [symmetric]
    by (elim bind_eq_SomeE case_pairE) auto
  have "code_next s2 \<le> code_next s3" using f1 by (auto split: option.splits prod.splits dest!: next_mono)
  moreover have "code_next s3 \<le> code_next s4" using f2 by (auto split: if_splits prod.splits dest!: next_mono)
  moreover have "code_next s6 \<le> code_next s7" using g(1) by (auto split: option.splits dest!: code_next)
  ultimately show ?thesis
    using emalloc_next [OF c] copy_string_next [OF n] copy_string_option_next [OF d] copy_filename_next [OF fl] statics_next [OF g(2)] g(3)
    by simp
qed

lemma copy_function_with_next: "copy_function_with L E cz cf t f s = Some (r, s') \<Longrightarrow> code_next s \<le> code_next s'"
  by (auto simp: copy_function_with_def pthreads_copy_internal_function_def bind_Some_iff
      split: if_splits option.splits prod.splits dest!: next_mono user_function_next)

lemma closure_next: "copy_closure nm cf t c s = Some (r, s') \<Longrightarrow> code_next s \<le> code_next s'"
  by (auto simp: copy_closure_def bind_Some_iff dest!: function_next next_mono)

end

text \<open>The copiers of values and functions are such copiers, whatever they are given.\<close>

lemma copiers_grow:
  "pthreads_copy_zval n L E nm t v s = Some (r, s') \<Longrightarrow> code_next s \<le> code_next s'"
  "pthreads_copy_function n L E nm t f s = Some (c, s') \<Longrightarrow> code_next s \<le> code_next s'"
proof (induction n arbitrary: v s r s' f c)
  case (Suc n)
  have g: "growing_copiers (pthreads_copy_zval n L E nm t) (pthreads_copy_function n L E nm t)"
    by unfold_locales (rule Suc.IH, assumption)+
  {
    case 1
    then show ?case
      by (auto simp: copied_def bind_Some_iff split: zval.splits zobject.splits prod.splits
          dest!: Suc.IH(1) copy_string_next copy_threaded_next growing_copiers.hash_next [OF g] growing_copiers.closure_next [OF g]
            growing_copiers.ast_next [OF g])
  next
    case 2
    then show ?case by (auto dest!: growing_copiers.copy_function_with_next [OF g])
  }
qed simp_all

interpretation thread_copiers: growing_copiers "pthreads_copy_zval n L E nm t" "pthreads_copy_function n L E nm t"
  by unfold_locales (rule copiers_grow, assumption)+

end
