(* ===== verification/Store_Memory.thy ===== *)
theory Store_Memory
  imports Growth Read_Facts "HOL-Library.Multiset"
begin

text \<open>
  Who frees the strings of the store. A cell owns the persistent strings that the destructor
  of src/store.c gives back to the allocator: the string stored in place, and the two names
  of an enum case. The destructor runs when a cell is replaced or deleted and when the table
  is destroyed, so a string is freed twice when two cells own it.
\<close>

section \<open>The destructor\<close>

text \<open>
  \<open>zend_string_free\<close> and, for a string with one reference, \<open>zend_string_release_ex\<close> free every
  string that is not interned. The strings of a cell have one reference: restoring a cell and
  copying it make strings of their own. The result is the list of freed addresses.
\<close>

definition zend_string_free :: "zend_string \<Rightarrow> addr list" where
  "zend_string_free s = (if zs_interned s then [] else [zs_addr s])"

definition pthreads_store_storage_dtor :: "zval option \<Rightarrow> addr list" where
  "pthreads_store_storage_dtor zstorage =
     (case zstorage of
        None \<Rightarrow> []
      | Some (IS_PTR storage) \<Rightarrow>
          (case storage of
             STORE_TYPE_CLOSURE _ _ \<Rightarrow> []
           | STORE_TYPE_PTHREADS _ \<Rightarrow> []
           | STORE_TYPE_RESOURCE _ _ \<Rightarrow> []
           | STORE_TYPE_SOCKET _ _ _ _ \<Rightarrow> []
           | STORE_TYPE_STRING_PTR _ _ \<Rightarrow> []
           | STORE_TYPE_ENUM class_name member_name \<Rightarrow>
               zend_string_free class_name @ zend_string_free member_name)
      | Some (IS_STRING str) \<Rightarrow> zend_string_free str
      | Some _ \<Rightarrow> [])"

definition cells_dtor :: "(zkey \<times> zval) list \<Rightarrow> addr list" where
  "cells_dtor ps = concat (map (\<lambda>p. pthreads_store_storage_dtor (Some (snd p))) ps)"

text \<open>\<open>zend_hash_destroy\<close> runs the destructor on every cell, in order.\<close>

definition pthreads_store_destroy :: "pthreads_store \<Rightarrow> addr list" where
  "pthreads_store_destroy store = cells_dtor (ht_buckets (store_hash store))"

lemma cells_dtor_simps [simp]:
  "cells_dtor [] = []"
  "cells_dtor (p # ps) = pthreads_store_storage_dtor (Some (snd p)) @ cells_dtor ps"
  "cells_dtor (ps @ qs) = cells_dtor ps @ cells_dtor qs"
  by (simp_all add: cells_dtor_def)

text \<open>
  The ledger of a table: what the destructor of the replaced or deleted cell frees, the table
  no longer frees, and what the new cell owns is added.
\<close>

lemma update_ledger:
  "mset (cells_dtor (ht_buckets (zend_hash_update ht k z))) + mset (pthreads_store_storage_dtor (zend_hash_find ht k)) =
     mset (cells_dtor (ht_buckets ht)) + mset (pthreads_store_storage_dtor (Some z))"
proof -
  have "mset (cells_dtor (AList.update k z ps)) + mset (pthreads_store_storage_dtor (map_of ps k)) =
      mset (cells_dtor ps) + mset (pthreads_store_storage_dtor (Some z))" for ps
    by (induction ps) (auto simp: pthreads_store_storage_dtor_def [of None] ac_simps)
  then show ?thesis by (simp add: zend_hash_update_def zend_hash_find_def)
qed

lemma delete_ledger:
  assumes "ht_ok ht"
  shows "mset (cells_dtor (ht_buckets (snd (zend_hash_del ht k)))) + mset (pthreads_store_storage_dtor (zend_hash_find ht k)) =
    mset (cells_dtor (ht_buckets ht))"
proof -
  have none: "pthreads_store_storage_dtor None = []" by (simp add: pthreads_store_storage_dtor_def)
  have "mset (cells_dtor (filter (\<lambda>p. fst p \<noteq> k) ps)) + mset (pthreads_store_storage_dtor (map_of ps k)) = mset (cells_dtor ps)"
    if "distinct (map fst ps)" for ps
    using that
  proof (induction ps)
    case (Cons p ps)
    then show ?case
    proof (cases "fst p = k")
      case True
      with Cons.prems have "k \<notin> fst ` set ps" by simp
      then have "filter (\<lambda>p. fst p \<noteq> k) ps = ps" by (auto simp: filter_id_conv)
      with True show ?thesis by (simp add: ac_simps)
    qed (simp add: ac_simps)
  qed (simp add: none)
  with assms zht.del_entries [OF assms, of k] show ?thesis by (simp add: zend_hash_find_def ht_ok_def)
qed

section \<open>Who owns what\<close>

text \<open>The shared tables of a state, and the strings the cells of each of them own.\<close>

definition w_hash :: "world \<Rightarrow> addr \<Rightarrow> hash option" where
  "w_hash w a = map_option (\<lambda>ts. store_hash (ts_props ts)) (w_ts w a)"

definition owned :: "world \<Rightarrow> addr \<Rightarrow> addr list" where
  "owned w a = (case w_ts w a of None \<Rightarrow> [] | Some ts \<Rightarrow> pthreads_store_destroy (ts_props ts))"

definition all_owned :: "world \<Rightarrow> addr set" where
  "all_owned w = (\<Union>a. set (owned w a))"

text \<open>
  In the engine every permanent string is interned. \<open>engine_strings\<close> says so of the strings that the
  store looks at in a value or in a cell.
\<close>

definition engine_string :: "zend_string \<Rightarrow> bool" where
  "engine_string s \<longleftrightarrow> (zs_permanent s \<longrightarrow> zs_interned s)"

fun engine_strings :: "zval \<Rightarrow> bool" where
  "engine_strings (IS_STRING s) = engine_string s"
| "engine_strings (IS_ARRAY ps) = list_all (\<lambda>p. engine_strings (snd p)) ps"
| "engine_strings (IS_REFERENCE v) = engine_strings v"
| "engine_strings (IS_INDIRECT v) = engine_strings v"
| "engine_strings (IS_OBJECT (EnumObject c m)) = (engine_string c \<and> engine_string m)"
| "engine_strings (IS_PTR (STORE_TYPE_ENUM c m)) = (engine_string c \<and> engine_string m)"
| "engine_strings (IS_PTR (STORE_TYPE_STRING_PTR s _)) = engine_string s"
| "engine_strings v = True"

text \<open>No string is owned by two cells, and memory that was never handed out is owned by none.\<close>

definition memory_ok :: "world \<Rightarrow> bool" where
  "memory_ok w \<longleftrightarrow>
     (\<forall>a. distinct (owned w a) \<and> (\<forall>x\<in>set (owned w a). x < w_next w)) \<and>
     (\<forall>a b. a \<noteq> b \<longrightarrow> set (owned w a) \<inter> set (owned w b) = {}) \<and>
     (\<forall>a ht. w_hash w a = Some ht \<longrightarrow> (\<forall>p\<in>set (ht_buckets ht). engine_strings (snd p)))"

text \<open>
  What an operation may do to the memory of the store: the invariant is kept, and a string
  the cells own afterwards is one they owned before or one that was handed out meanwhile.
\<close>

definition memory_step :: "world \<Rightarrow> world \<Rightarrow> bool" where
  "memory_step w w' \<longleftrightarrow> w_next w \<le> w_next w' \<and>
     (memory_ok w \<longrightarrow> memory_ok w' \<and> all_owned w' \<subseteq> all_owned w \<union> {w_next w..})"

lemma owned_hash: "owned w a = (case w_hash w a of None \<Rightarrow> [] | Some ht \<Rightarrow> cells_dtor (ht_buckets ht))"
  by (simp add: owned_def w_hash_def pthreads_store_destroy_def split: option.split)

lemma memory_ok_cells:
  "memory_ok w \<Longrightarrow> w_hash w a = Some ht \<Longrightarrow> p \<in> set (ht_buckets ht) \<Longrightarrow> engine_strings (snd p)"
  by (simp add: memory_ok_def)

lemma same_memory_step: "w_hash w' = w_hash w \<Longrightarrow> w_next w \<le> w_next w' \<Longrightarrow> memory_step w w'"
  by (auto simp: memory_step_def memory_ok_def all_owned_def owned_hash intro: less_le_trans)

lemma memory_step_refl: "memory_step w w"
  by (simp add: same_memory_step)

lemma memory_step_trans: "memory_step w w' \<Longrightarrow> memory_step w' w'' \<Longrightarrow> memory_step w w''"
  by (force simp: memory_step_def)

lemma distinct_submset:
  assumes "mset xs \<subseteq># mset ys" and "distinct ys"
  shows "distinct xs"
proof -
  have "count (mset xs) x = (if x \<in> set xs then 1 else 0)" for x
  proof (cases "x \<in> set xs")
    case True
    then have "0 < count (mset xs) x" by simp
    moreover have "count (mset ys) x \<le> 1" using assms(2) by (simp add: distinct_count_atmost_1)
    ultimately have "count (mset xs) x = 1" using mset_subset_eq_count [OF assms(1), of x] by linarith
    with True show ?thesis by simp
  qed (simp add: count_eq_zero_iff)
  then show ?thesis by (simp add: distinct_count_atmost_1)
qed

interpretation memory: monitor_closed memory_step
  by unfold_locales (erule (1) memory_step_trans, rule same_memory_step, simp_all add: w_hash_def fun_eq_iff)

text \<open>
  One table is replaced by one whose cells own some of what they owned before and strings
  handed out meanwhile.
\<close>

lemma memory_step_table:
  assumes h: "w_hash w' = (w_hash w)(a := h)" and n: "w_next w \<le> w_next w'"
    and sub: "memory_ok w \<Longrightarrow> mset (owned w' a) \<subseteq># mset (owned w a) + mset X"
    and X: "distinct X" "set X \<subseteq> {w_next w..<w_next w'}"
    and cells: "\<And>ht p. memory_ok w \<Longrightarrow> h = Some ht \<Longrightarrow> p \<in> set (ht_buckets ht) \<Longrightarrow> engine_strings (snd p)"
  shows "memory_step w w'"
proof -
  have other: "owned w' b = owned w b" if "b \<noteq> a" for b using h that by (simp add: owned_hash)
  {
    assume ok: "memory_ok w"
    have below: "x < w_next w" if "x \<in> set (owned w b)" for x b using ok that by (simp add: memory_ok_def)
    from mset_subset_eqD [OF sub [OF ok]] have elems: "set (owned w' a) \<subseteq> set (owned w a) \<union> set X" by auto
    have "mset (owned w a) + mset X = mset (owned w a @ X)" by simp
    moreover have "distinct (owned w a @ X)" using ok X below by (fastforce simp: memory_ok_def)
    ultimately have "distinct (owned w' a)"
      using sub [OF ok] by (metis distinct_submset)
    moreover have "set (owned w' a) \<inter> set (owned w b) = {}" if "b \<noteq> a" for b
      using elems X(2) below ok that unfolding memory_ok_def by fastforce
    moreover have "x < w_next w'" if "x \<in> set (owned w' b)" for x b
      using that elems X(2) below n other [of b] by (cases "b = a") fastforce+
    moreover have "engine_strings (snd p)" if "w_hash w' b = Some ht" "p \<in> set (ht_buckets ht)" for b ht p
      using that h cells [OF ok] memory_ok_cells [OF ok] by (cases "b = a") auto
    ultimately have "memory_ok w'"
      using ok other unfolding memory_ok_def by (metis inf_commute)
    moreover have "all_owned w' \<subseteq> all_owned w \<union> {w_next w..}"
    proof
      fix x
      assume "x \<in> all_owned w'"
      then obtain b where "x \<in> set (owned w' b)" by (auto simp: all_owned_def)
      then show "x \<in> all_owned w \<union> {w_next w..}"
        using elems X(2) other [of b] by (cases "b = a") (fastforce simp: all_owned_def)+
    qed
    ultimately have "memory_ok w' \<and> all_owned w' \<subseteq> all_owned w \<union> {w_next w..}" ..
  }
  with n show ?thesis by (simp add: memory_step_def)
qed

section \<open>Operations that leave the tables alone\<close>

named_theorems hash_same \<open>the shared tables are unchanged\<close>

lemma w_hash_simps [simp]:
  "w_hash (set_obj a b w) = w_hash w" "w_hash (set_zg t z w) = w_hash w" "w_hash (set_globals g w) = w_hash w"
  "w_hash (throw t e w) = w_hash w" "w_hash (w\<lparr>w_monitors := m\<rparr>) = w_hash w" "w_hash (w\<lparr>w_next := n\<rparr>) = w_hash w"
  "w_hash (w\<lparr>w_sockets := s\<rparr>) = w_hash w" "w_hash (w\<lparr>w_obj := f\<rparr>) = w_hash w" "w_hash (w\<lparr>w_workers := d\<rparr>) = w_hash w"
  "w_hash (w\<lparr>w_heap := h\<rparr>) = w_hash w" "w_hash (monitor_unlock t l w) = w_hash w"
  "w_hash (set_ts a c w) = (w_hash w)(a \<mapsto> store_hash (ts_props c))"
  by (simp_all add: w_hash_def fun_eq_iff access_defs monitor_unlock_def)

lemma w_hash_ts: "w_ts w a = Some ts \<Longrightarrow> w_hash w a = Some (store_hash (ts_props ts))"
  by (simp add: w_hash_def)

lemma monitor_lock_hash [hash_same]: "monitor_lock t l w = Some (ok, w') \<Longrightarrow> w_hash w' = w_hash w"
  by (auto simp: monitor_lock_def bind_Some_iff)

interpretation tables: monitor_closed "\<lambda>w w'. w_hash w' = w_hash w"
  by unfold_locales simp_all

lemmas with_monitor_hash = tables.section_R

lemma object_valid_hash [hash_same]: "pthreads_globals_object_valid t a w = Some (r, w') \<Longrightarrow> w_hash w' = w_hash w"
  by (auto simp: pthreads_globals_object_valid_def split: if_splits elim!: with_monitor_hash)

lemma object_delete_hash [hash_same]: "pthreads_globals_object_delete t a w = Some (r, w') \<Longrightarrow> w_hash w' = w_hash w"
  by (auto simp: pthreads_globals_object_delete_def split: if_splits elim!: with_monitor_hash)

lemma object_delete_next [next_mono]: "pthreads_globals_object_delete t a w = Some (r, w') \<Longrightarrow> w_next w \<le> w_next w'"
  by (auto simp: pthreads_globals_object_delete_def access_next split: if_splits elim!: with_monitor_next)

lemma socket_track_hash [hash_same]: "pthreads_globals_shared_socket_track t s w = Some (r, w') \<Longrightarrow> w_hash w' = w_hash w"
  by (auto simp: pthreads_globals_shared_socket_track_def split: if_splits elim!: with_monitor_hash)

lemma object_alloc_hash [hash_same]: "pthreads_globals_object_alloc t w = Some (a, w') \<Longrightarrow> w_hash w' = w_hash w"
  by (auto simp: pthreads_globals_object_alloc_def bind_Some_iff alloc_def dest!: with_monitor_hash)

lemma find_interned_hash [hash_same]: "pthreads_globals_find_interned_string E t str w = Some (r, w') \<Longrightarrow> w_hash w' = w_hash w"
  by (auto simp: pthreads_globals_find_interned_string_def split: if_splits option.splits dest!: with_monitor_hash)

lemma string_init_hash [hash_same]: "zend_string_init v p w = (s, w') \<Longrightarrow> w_hash w' = w_hash w"
  by (auto simp: zend_string_init_def alloc_def)

lemma add_interned_hash [hash_same]: "pthreads_globals_add_interned_string E t str w = Some (r, w') \<Longrightarrow> w_hash w' = w_hash w"
  by (auto simp: pthreads_globals_add_interned_string_def bind_Some_iff Let_def
      split: if_splits option.splits prod.splits dest!: with_monitor_hash hash_same)

lemma worker_free_hash [hash_same]: "pthreads_worker_data_free t a w = Some (r, w') \<Longrightarrow> w_hash w' = w_hash w"
  by (auto simp: pthreads_worker_data_free_def bind_Some_iff set_heap_def dest!: with_monitor_hash)

lemma save_string_hash [hash_same]: "pthreads_store_save_string s w = (s', w') \<Longrightarrow> w_hash w' = w_hash w"
  using save_string_step [of s w] by auto

lemma restore_string_hash [hash_same]: "pthreads_store_restore_string s w = (s', w') \<Longrightarrow> w_hash w' = w_hash w"
  by (auto simp: pthreads_store_restore_string_def split: if_splits dest!: hash_same)

lemma restore_string_next [next_mono]: "pthreads_store_restore_string s w = (s', w') \<Longrightarrow> w_next w \<le> w_next w'"
  by (auto simp: pthreads_store_restore_string_def split: if_splits dest!: next_mono)

lemma sync_keeps_hash [hash_same]: "sync_keeps t z v w = Some (k, w') \<Longrightarrow> w_hash w' = w_hash w"
  by (auto simp: sync_keeps_def bind_Some_iff Let_def split: option.splits pthreads_storage.splits if_splits dest!: hash_same)

lemma sync_entries_hash [hash_same]: "sync_entries t shared ps w = Some (qs, w') \<Longrightarrow> w_hash w' = w_hash w"
proof (induction ps arbitrary: w qs)
  case (Cons p ps)
  obtain k v where "p = (k, v)" by force
  with Cons.prems show ?case by (auto simp: bind_Some_iff dest!: Cons.IH hash_same)
qed simp

lemma sync_local_hash [hash_same]: "pthreads_store_sync_local_properties t obj w = Some w' \<Longrightarrow> w_hash w' = w_hash w"
  by (auto simp: pthreads_store_sync_local_properties_def bind_Some_iff split: if_splits option.splits dest!: hash_same)

lemma bump_hash [hash_same]: "pthreads_store_bump_modcount_nolock obj w = Some w' \<Longrightarrow> w_hash w' = w_hash w"
  by (auto simp: pthreads_store_bump_modcount_nolock_def bind_Some_iff Let_def fun_upd_idem_iff w_hash_ts)

lemma update_local_hash [hash_same]: "pthreads_store_update_local_property E obj k v w = Some w' \<Longrightarrow> w_hash w' = w_hash w"
  by (auto simp: pthreads_store_update_local_property_def pthreads_store_init_local_properties_def bind_Some_iff split: if_splits)

lemma update_local_same:
  "pthreads_store_update_local_property E obj k v w = Some w' \<Longrightarrow> w_hash w' = w_hash w \<and> w_next w \<le> w_next w'"
  using update_local_hash update_local_next by blast

lemma init_local_hash [hash_same]: "pthreads_store_init_local_properties E obj w = Some w' \<Longrightarrow> w_hash w' = w_hash w"
  and init_local_next [next_mono]: "pthreads_store_init_local_properties E obj w = Some w' \<Longrightarrow> w_next w \<le> w_next w'"
  by (auto simp: pthreads_store_init_local_properties_def bind_Some_iff)

lemma del_local_hash [hash_same]: "del_local obj k w = Some w' \<Longrightarrow> w_hash w' = w_hash w"
  and del_local_next [next_mono]: "del_local obj k w = Some w' \<Longrightarrow> w_next w \<le> w_next w'"
  by (auto simp: del_local_def bind_Some_iff split: option.splits)

lemma set_hash_table: "set_hash a ht w = Some w' \<Longrightarrow> w_hash w' = (w_hash w)(a \<mapsto> ht)"
  by (auto simp: set_hash_def bind_Some_iff)

section \<open>Writing\<close>

text \<open>A cell made between two states: it owns only strings handed out in between.\<close>

definition new_cell :: "world \<Rightarrow> world \<Rightarrow> zval \<Rightarrow> bool" where
  "new_cell w w' z \<longleftrightarrow> engine_strings z \<and> distinct (pthreads_store_storage_dtor (Some z)) \<and>
     set (pthreads_store_storage_dtor (Some z)) \<subseteq> {w_next w..<w_next w'}"

lemma save_string_new:
  "pthreads_store_save_string s w = (s', w') \<Longrightarrow> engine_string s \<Longrightarrow>
     engine_string s' \<and> set (zend_string_free s') \<subseteq> {w_next w..<w_next w'} \<and> w_next w \<le> w_next w'"
  by (auto simp: pthreads_store_save_string_def zend_string_init_def alloc_def zend_string_free_def engine_string_def
      split: if_splits)

lemma free_distinct [simp]: "distinct (zend_string_free s)"
  by (simp add: zend_string_free_def)

lemma store_create_new:
  "pthreads_store_create t source v w = Some (r, w') \<Longrightarrow> engine_strings v \<Longrightarrow>
     w_hash w' = w_hash w \<and> (\<forall>s. r = Some s \<longrightarrow> new_cell w w' (IS_PTR s))"
proof (induction t source v w rule: pthreads_store_create.induct)
  case (5 t source c m w)
  obtain c' w\<^sub>1 where c: "pthreads_store_save_string c w = (c', w\<^sub>1)" by force
  obtain m' w\<^sub>2 where m: "pthreads_store_save_string m w\<^sub>1 = (m', w\<^sub>2)" by force
  from "5.prems" c m have r: "r = Some (STORE_TYPE_ENUM c' m')" "w' = w\<^sub>2" by auto
  from save_string_new [OF c] save_string_new [OF m] "5.prems"(2)
  have "set (zend_string_free c') \<subseteq> {w_next w..<w_next w\<^sub>1}" "set (zend_string_free m') \<subseteq> {w_next w\<^sub>1..<w_next w\<^sub>2}"
    "engine_string c'" "engine_string m'" "w_next w \<le> w_next w\<^sub>1" "w_next w\<^sub>1 \<le> w_next w\<^sub>2"
    by simp_all
  then have "new_cell w w' (IS_PTR (STORE_TYPE_ENUM c' m'))"
    by (fastforce simp: new_cell_def pthreads_store_storage_dtor_def r)
  with r save_string_hash [OF c] save_string_hash [OF m] show ?case by simp
qed (auto simp: bind_Some_iff new_cell_def pthreads_store_storage_dtor_def split: if_splits dest!: hash_same)

lemma new_cell_direct [simp]:
  "new_cell w w' IS_NULL" "new_cell w w' IS_FALSE" "new_cell w w' IS_TRUE" "new_cell w w' (IS_LONG n)" "new_cell w w' (IS_DOUBLE d)"
  "zs_permanent s \<Longrightarrow> new_cell w w' (IS_STRING s) = engine_string s"
  "new_cell w w' (IS_PTR (STORE_TYPE_STRING_PTR s i)) = engine_string s" "new_cell w w' (IS_PTR (STORE_TYPE_RESOURCE x u))"
  by (auto simp: new_cell_def pthreads_store_storage_dtor_def zend_string_free_def engine_string_def)

lemma save_zval_new:
  "pthreads_store_save_zval t source v w = Some (r, w') \<Longrightarrow> engine_strings v \<Longrightarrow>
     w_hash w' = w_hash w \<and> (\<forall>z. r = Some z \<longrightarrow> new_cell w w' z)"
  by (cases v) (auto simp: pthreads_store_save_zval_def bind_Some_iff split: if_splits dest!: store_create_new)

text \<open>A table gets a new cell; the cell it replaces is destroyed.\<close>

lemma engine_strings_update:
  "\<forall>p\<in>set ps. engine_strings (snd p) \<Longrightarrow> engine_strings z \<Longrightarrow> \<forall>p\<in>set (AList.update k z ps). engine_strings (snd p)"
  by (induction ps) auto

lemma put_step:
  assumes h: "w_hash w\<^sub>1 = w_hash w" and a: "w_hash w a = Some ht" and new: "new_cell w w\<^sub>1 z"
    and h': "w_hash w' = (w_hash w)(a \<mapsto> zend_hash_update ht k z)"
    and n: "w_next w \<le> w_next w\<^sub>1" "w_next w\<^sub>1 \<le> w_next w'"
  shows "memory_step w w'"
proof (rule memory_step_table [OF h' order_trans [OF n], where X = "pthreads_store_storage_dtor (Some z)"])
  show "mset (owned w' a) \<subseteq># mset (owned w a) + mset (pthreads_store_storage_dtor (Some z))"
    using update_ledger [of ht k z] a by (simp add: owned_hash h') (metis mset_subset_eq_add_left)
  fix ht' p
  assume "memory_ok w" and "Some (zend_hash_update ht k z) = Some ht'" and "p \<in> set (ht_buckets ht')"
  then show "engine_strings (snd p)"
    using engine_strings_update [of "ht_buckets ht" z k] memory_ok_cells [OF _ a] new
    by (auto simp: new_cell_def zend_hash_update_def)
qed (use new n in \<open>auto simp: new_cell_def\<close>)

lemma write_locked_table:
  assumes "store_write_locked t obj a k z w = Some (r, w')"
  shows "\<exists>ht. w_hash w a = Some ht \<and> w_hash w' = (w_hash w)(a \<mapsto> zend_hash_update ht k z)"
  using assms
  by (auto simp: store_write_locked_def pthreads_store_update_shared_property_def bind_Some_iff w_hash_ts
      split: if_splits dest!: hash_same set_hash_table)

text \<open>Entering and leaving a section, for facts that relate the states before and after.\<close>

lemma section_cases:
  assumes "with_monitor t l body els w = Some (r, w')"
  obtains w\<^sub>1 w\<^sub>2 where "w_hash w\<^sub>1 = w_hash w" "w_next w\<^sub>1 = w_next w" "body w\<^sub>1 = Some (r, w\<^sub>2)"
      "w_hash w' = w_hash w\<^sub>2" "w_next w' = w_next w\<^sub>2"
  | w\<^sub>1 where "w_hash w\<^sub>1 = w_hash w" "w_next w\<^sub>1 = w_next w" "els w\<^sub>1 = Some (r, w')"
proof -
  from assms obtain ok m where "(if ok
      then do { (r, w) \<leftarrow> body (w\<lparr>w_monitors := m\<rparr>); Some (r, monitor_unlock t l w) } else els (w\<lparr>w_monitors := m\<rparr>)) = Some (r, w')"
    by (auto simp: with_monitor_def monitor_lock_def bind_Some_iff)
  then show ?thesis
    using that(1) [of "w\<lparr>w_monitors := m\<rparr>"] that(2) [of "w\<lparr>w_monitors := m\<rparr>"]
    by (cases ok) (auto simp: bind_Some_iff)
qed

lemma write_zval_step:
  assumes run: "store_write_zval E t obj key v w = Some (r, w')" and v: "engine_strings v"
  shows "memory_step w w'"
proof -
  from run obtain threaded :: pthreads_zend_object and z w\<^sub>1 where save: "pthreads_store_save_zval t (zo_owner threaded) v w = Some (z, w\<^sub>1)"
    and rest: "(case z of None \<Rightarrow> Some (FAILURE, throw t UnsupportedDataType w\<^sub>1)
     | Some zstorage \<Rightarrow> do {
         _ \<leftarrow> w_ts w\<^sub>1 (zo_ts_obj threaded);
         (outcome, w) \<leftarrow> with_monitor t (LTs (zo_ts_obj threaded))
           (\<lambda>w. do {
              ts_obj \<leftarrow> w_ts w (zo_ts_obj threaded);
              store_write_locked t obj (zo_ts_obj threaded) (key_of E (store_hash (ts_props ts_obj)) key) zstorage w })
           (\<lambda>w. Some (None, w)) w\<^sub>1;
         case outcome of
           None \<Rightarrow> Some (FAILURE, w)
         | Some member \<Rightarrow> do {
             w \<leftarrow> pthreads_store_update_local_property E obj member v w;
             Some (SUCCESS, w) } }) = Some (r, w')"
    unfolding store_write_zval_def Let_def by (elim bind_eq_SomeE case_pairE) (hypsubst, rule that, assumption, assumption)
  note saved = save_zval_new [OF save v] and n = save_zval_next [OF save]
  show ?thesis
  proof (cases z)
    case None
    with rest saved n show ?thesis by (auto intro: same_memory_step)
  next
    case (Some zs)
    with rest obtain outcome w\<^sub>2 where sec: "with_monitor t (LTs (zo_ts_obj threaded))
           (\<lambda>w. do {
              ts_obj \<leftarrow> w_ts w (zo_ts_obj threaded);
              store_write_locked t obj (zo_ts_obj threaded) (key_of E (store_hash (ts_props ts_obj)) key) zs w })
           (\<lambda>w. Some (None, w)) w\<^sub>1 = Some (outcome, w\<^sub>2)"
      and "w_hash w' = w_hash w\<^sub>2" "w_next w\<^sub>2 \<le> w_next w'"
      by (auto simp: bind_Some_iff split: option.splits dest!: update_local_same)
    moreover from sec have "memory_step w w\<^sub>2"
    proof (cases rule: section_cases)
      case (1 w\<^sub>3 w\<^sub>4)
      then obtain k where locked: "store_write_locked t obj (zo_ts_obj threaded) k zs w\<^sub>3 = Some (outcome, w\<^sub>4)"
        by (auto simp: bind_Some_iff)
      with write_locked_table [OF this] write_locked_next [OF this] 1 saved Some n show ?thesis
        by (auto intro!: put_step [of w\<^sub>1 w])
    qed (use saved n in \<open>auto intro: same_memory_step\<close>)
    ultimately show ?thesis by (metis memory_step_trans same_memory_step)
  qed
qed

named_theorems memory_steps \<open>operations keep the memory of the store in order\<close>

lemma frame_steps [memory_steps]:
  "pthreads_store_bump_modcount_nolock obj w = Some w' \<Longrightarrow> memory_step w w'"
  "pthreads_store_sync_local_properties t obj w = Some w' \<Longrightarrow> memory_step w w'"
  "pthreads_store_update_local_property E obj k v w = Some w' \<Longrightarrow> memory_step w w'"
  "pthreads_store_init_local_properties E obj w = Some w' \<Longrightarrow> memory_step w w'"
  "del_local obj k w = Some w' \<Longrightarrow> memory_step w w'"
  by (auto intro: same_memory_step dest: hash_same next_mono)

lemma global_steps [memory_steps]:
  "pthreads_globals_object_valid t a w = Some (b, w') \<Longrightarrow> memory_step w w'"
  "pthreads_globals_object_alloc t w = Some (a, w') \<Longrightarrow> memory_step w w'"
  "pthreads_globals_object_delete t a w = Some (b, w') \<Longrightarrow> memory_step w w'"
  "pthreads_globals_add_interned_string E t str w = Some (r, w') \<Longrightarrow> memory_step w w'"
  "pthreads_worker_data_free t a w = Some (u, w') \<Longrightarrow> memory_step w w'"
  by (auto intro: same_memory_step dest: hash_same next_mono)

section \<open>Deleting\<close>

lemma filter_cells: "mset (cells_dtor (filter P ps)) \<subseteq># mset (cells_dtor ps)"
  by (induction ps) (auto intro: subset_mset.add_mono subset_mset.add_increasing)

lemma del_step:
  assumes "w_hash w a = Some ht" and "w_hash w' = (w_hash w)(a \<mapsto> snd (zend_hash_del ht k))" and "w_next w \<le> w_next w'"
  shows "memory_step w w'"
proof (rule memory_step_table [OF assms(2,3), where X = "[]"])
  have del: "ht_buckets (snd (zend_hash_del ht k)) = filter (\<lambda>p. fst p \<noteq> k) (ht_buckets ht) \<or>
      snd (zend_hash_del ht k) = ht"
    by (simp add: zend_hash_del_def AList_delete_filter)
  then show "mset (owned w' a) \<subseteq># mset (owned w a) + mset []"
    using filter_cells [of "\<lambda>p. fst p \<noteq> k" "ht_buckets ht"] assms(1,2) by (auto simp: owned_hash)
  fix ht' p
  assume "memory_ok w" and "Some (snd (zend_hash_del ht k)) = Some ht'" and "p \<in> set (ht_buckets ht')"
  then show "engine_strings (snd p)" using del memory_ok_cells [of w a ht p] assms(1) by auto
qed simp_all

lemma delete_locked_step [memory_steps]:
  assumes "store_delete_locked obj a k w = Some (r, w')"
  shows "memory_step w w'"
proof -
  from assms obtain ts w\<^sub>1 where "w_ts w a = Some ts" and
    w1: "set_hash a (snd (zend_hash_del (store_hash (ts_props ts)) k)) w = Some w\<^sub>1" and "memory_step w\<^sub>1 w'"
    by (auto simp: store_delete_locked_def bind_Some_iff split_beta memory_step_refl split: if_splits dest!: frame_steps)
  moreover from this have "memory_step w w\<^sub>1"
    using set_hash_table [OF w1] set_hash_next [OF w1] by (intro del_step) (auto simp: w_hash_ts)
  ultimately show ?thesis by (blast intro: memory_step_trans)
qed

lemma delete_step [memory_steps]:
  assumes "pthreads_store_delete E t obj key w = Some (r, w')"
  shows "memory_step w w'"
proof -
  from assms obtain a k r w\<^sub>1 where sec: "with_monitor t (LTs a) (store_delete_locked obj a k) (\<lambda>w. Some (FAILURE, w)) w = Some (r, w\<^sub>1)"
    and "memory_step w\<^sub>1 w'"
    by (cases "pthreads_store_coerce E key")
      (auto simp: pthreads_store_delete_def bind_Some_iff Let_def memory_step_refl split: if_splits dest!: frame_steps)
  moreover have "memory_step w w\<^sub>1"
    by (rule memory.section_R [OF sec]) (auto simp: memory_step_refl intro: memory_steps)
  ultimately show ?thesis by (blast intro: memory_step_trans)
qed

section \<open>Making strings persistent\<close>

lemma memory_stepI: "w_next w \<le> w_next w' \<Longrightarrow> (memory_ok w \<Longrightarrow> memory_step w w') \<Longrightarrow> memory_step w w'"
  by (simp add: memory_step_def)

lemma persist_new:
  assumes "persist_storage t z w = (z', w')" and "engine_strings z"
  shows "w_hash w' = w_hash w \<and> w_next w \<le> w_next w' \<and> (z' = z \<or> new_cell w w' z')"
proof (cases "z' = z \<and> w' = w")
  case False
  with assms(1) obtain s i where z: "z = IS_PTR (STORE_TYPE_STRING_PTR s i)"
    by (auto simp: persist_storage_def view_defs split: zval.splits pthreads_storage.splits if_splits)
  with False assms(1) obtain s' where "pthreads_store_save_string s w = (s', w')" and z': "z' = IS_STRING s'"
    by (auto simp: persist_storage_def view_defs split: if_splits prod.splits)
  with save_string_new [OF this(1)] save_string_hash [OF this(1)] assms(2) z show ?thesis
    by (simp add: new_cell_def pthreads_store_storage_dtor_def)
qed simp

lemma persist_entries_next: "persist_entries t ps w = (ps', w') \<Longrightarrow> w_next w \<le> w_next w'"
proof (induction ps arbitrary: w ps' w')
  case (Cons p ps)
  obtain k z where "p = (k, z)" by force
  moreover have "w_next w \<le> w_next w\<^sub>1" if "persist_storage t z w = (z', w\<^sub>1)" for z' w\<^sub>1
    using that by (auto simp: persist_storage_def view_defs split: zval.splits pthreads_storage.splits if_splits prod.splits dest!: next_mono)
  ultimately show ?case using Cons.prems by (fastforce split: prod.splits dest!: Cons.IH)
qed simp

lemma persist_entries_new:
  "persist_entries t ps w = (ps', w') \<Longrightarrow> \<forall>p\<in>set ps. engine_strings (snd p) \<Longrightarrow>
     w_hash w' = w_hash w \<and> w_next w \<le> w_next w' \<and> (\<forall>p\<in>set ps'. engine_strings (snd p)) \<and>
     (\<exists>X. distinct X \<and> set X \<subseteq> {w_next w..<w_next w'} \<and> mset (cells_dtor ps') \<subseteq># mset (cells_dtor ps) + mset X)"
proof (induction ps arbitrary: w ps' w')
  case Nil
  then show ?case by (auto intro: exI [of _ "[]"])
next
  case (Cons p ps)
  obtain k z where p: "p = (k, z)" by force
  obtain z' w\<^sub>1 where one: "persist_storage t z w = (z', w\<^sub>1)" by force
  obtain qs w\<^sub>2 where rest: "persist_entries t ps w\<^sub>1 = (qs, w\<^sub>2)" by force
  from Cons.prems p one rest have ps': "ps' = (k, z') # qs" "w' = w\<^sub>2" by auto
  from Cons.prems p have ok: "engine_strings z" "\<forall>p\<in>set ps. engine_strings (snd p)" by auto
  note new = persist_new [OF one ok(1)]
  from Cons.IH [OF rest ok(2)] obtain X where ih: "w_hash w\<^sub>2 = w_hash w\<^sub>1" "w_next w\<^sub>1 \<le> w_next w\<^sub>2"
      "\<forall>p\<in>set qs. engine_strings (snd p)"
    and X: "distinct X" "set X \<subseteq> {w_next w\<^sub>1..<w_next w\<^sub>2}" "mset (cells_dtor qs) \<subseteq># mset (cells_dtor ps) + mset X"
    by blast
  define Y where "Y = (if z' = z then X else pthreads_store_storage_dtor (Some z') @ X)"
  have "distinct Y \<and> set Y \<subseteq> {w_next w..<w_next w'}"
  proof (cases "z' = z")
    case True
    with new ih(2) X(1,2) ps' show ?thesis by (auto simp: Y_def intro: order_trans)
  next
    case False
    with new have z': "distinct (pthreads_store_storage_dtor (Some z'))"
      "set (pthreads_store_storage_dtor (Some z')) \<subseteq> {w_next w..<w_next w\<^sub>1}" by (auto simp: new_cell_def)
    with X(2) have "set (pthreads_store_storage_dtor (Some z')) \<inter> set X = {}" by fastforce
    with False z' new ih(2) X(1,2) ps' show ?thesis by (fastforce simp: Y_def)
  qed
  moreover have "mset (cells_dtor ps') \<subseteq># mset (cells_dtor (p # ps)) + mset Y"
    using X(3) by (auto simp: Y_def ps' p add.assoc intro: subset_mset.add_mono subset_mset.order_trans
        subset_mset.add_increasing)
  ultimately show ?case using new ih ps' ok by (auto simp: new_cell_def)
qed

lemma persist_step [memory_steps]:
  assumes "pthreads_store_persist_local_properties t obj w = Some (u, w')"
  shows "memory_step w w'"
proof -
  have body: "memory_step w w'" if "(do {
          ts_obj \<leftarrow> w_ts w a;
          let ht = store_hash (ts_props ts_obj);
          let (ps, w) = persist_entries t (ht_buckets ht) w;
          w \<leftarrow> set_hash a (ht\<lparr>ht_buckets := ps\<rparr>) w;
          Some ((), w) }) = Some (u, w')" for a w u w'
  proof -
    from that obtain ts ps w\<^sub>1 where ts: "w_ts w a = Some ts"
      and ps: "persist_entries t (ht_buckets (store_hash (ts_props ts))) w = (ps, w\<^sub>1)"
      and set: "set_hash a ((store_hash (ts_props ts))\<lparr>ht_buckets := ps\<rparr>) w\<^sub>1 = Some w'"
      by (auto simp: bind_Some_iff Let_def split_beta) (metis surj_pair fst_conv snd_conv)
    have grow: "w_next w \<le> w_next w\<^sub>1" using persist_entries_next [OF ps] .
    show ?thesis
    proof (rule memory_stepI)
      assume ok: "memory_ok w"
      from persist_entries_new [OF ps] memory_ok_cells [OF ok w_hash_ts [OF ts]] obtain X where
        "w_hash w\<^sub>1 = w_hash w" and cells: "\<forall>p\<in>set ps. engine_strings (snd p)" and X: "distinct X" "set X \<subseteq> {w_next w..<w_next w\<^sub>1}"
        "mset (cells_dtor ps) \<subseteq># mset (cells_dtor (ht_buckets (store_hash (ts_props ts)))) + mset X"
        by blast
      then have h: "w_hash w' = (w_hash w)(a \<mapsto> (store_hash (ts_props ts))\<lparr>ht_buckets := ps\<rparr>)"
        using set_hash_table [OF set] by simp
      show "memory_step w w'"
        by (rule memory_step_table [OF h _ _ X(1)])
          (use grow set_hash_next [OF set] X cells w_hash_ts [OF ts] in \<open>auto simp: owned_hash h\<close>)
    qed (use grow set_hash_next [OF set] in simp)
  qed
  from assms obtain a where "with_monitor t (LTs a) (\<lambda>w. do {
          ts_obj \<leftarrow> w_ts w a;
          let ht = store_hash (ts_props ts_obj);
          let (ps, w) = persist_entries t (ht_buckets ht) w;
          w \<leftarrow> set_hash a (ht\<lparr>ht_buckets := ps\<rparr>) w;
          Some ((), w) }) (\<lambda>w. Some ((), w)) w = Some (u, w')"
    by (auto simp: pthreads_store_persist_local_properties_def bind_Some_iff Let_def)
  then show ?thesis by (rule memory.section_R) (erule body, simp add: memory_step_refl)
qed

end
