(* ===== verification/Store_Ownership.thy ===== *)
theory Store_Ownership
  imports Store_Memory
begin

text \<open>
  Every operation that touches the store keeps the ownership of its strings in order: new
  objects, connections, reading, taking members out, merging and writing arrays. Then any
  sequence of operations does, except that the merge of an array that holds an enum case
  makes two cells own the names of the case.
\<close>

section \<open>Objects\<close>

text \<open>A table that becomes empty, or goes away with its object.\<close>

lemma empty_step:
  "w_hash w' = (w_hash w)(a := h) \<Longrightarrow> h = None \<or> h = Some zend_hash_init \<Longrightarrow> w_next w \<le> w_next w' \<Longrightarrow> memory_step w w'"
  by (rule memory_step_table [where X = "[]"]) (auto simp: owned_hash zend_hash_init_def)

lemma ts_object_ctor_step: "pthreads_ts_object_ctor E t scope w = (a, w') \<Longrightarrow> memory_step w w'"
  by (rule empty_step [of _ _ a "Some zend_hash_init"])
    (auto simp: pthreads_ts_object_ctor_def alloc_def pthreads_store_init_def)

lemma base_init_class_step:
  "base_init_class E t base ce infos slots w = Some (slots', w') \<Longrightarrow> \<forall>n. engine_strings (slots n) \<Longrightarrow>
     memory_step w w' \<and> (\<forall>n. engine_strings (slots' n))"
proof (induction infos arbitrary: slots w)
  case (Cons i infos)
  show ?case
  proof (cases "pi_static i")
    case False
    with Cons.prems(1) obtain name w\<^sub>1 where name: "pthreads_globals_add_interned_string E t (pi_name i) w = Some (Some name, w\<^sub>1)"
      and rest: "(if slots (pi_offset i) = IS_UNDEF then base_init_class E t base ce infos slots w\<^sub>1
        else do {
          (result, w) \<leftarrow> store_write_zval E t base (Some (IS_STRING name)) (slots (pi_offset i)) w\<^sub>1;
          if result = FAILURE
          then Some (slots, throw t (NonThreadSafeDefault ce (zs_val name)) w)
          else base_init_class E t base ce infos (slots(pi_offset i := IS_UNDEF)) w }) = Some (slots', w')"
      by (auto simp: bind_Some_iff)
    have "memory_step w\<^sub>1 w' \<and> (\<forall>n. engine_strings (slots' n))"
    proof (cases "slots (pi_offset i) = IS_UNDEF")
      case False
      with rest obtain r w\<^sub>2 where w2: "store_write_zval E t base (Some (IS_STRING name)) (slots (pi_offset i)) w\<^sub>1 = Some (r, w\<^sub>2)"
        and last: "(if r = FAILURE then Some (slots, throw t (NonThreadSafeDefault ce (zs_val name)) w\<^sub>2)
          else base_init_class E t base ce infos (slots(pi_offset i := IS_UNDEF)) w\<^sub>2) = Some (slots', w')"
        by (auto simp: bind_Some_iff)
      have "memory_step w\<^sub>1 w\<^sub>2" using write_zval_step [OF w2] Cons.prems(2) by simp
      moreover have "memory_step w\<^sub>2 w' \<and> (\<forall>n. engine_strings (slots' n))"
      proof (cases "r = FAILURE")
        case True
        with last Cons.prems(2) show ?thesis by (auto intro: same_memory_step)
      next
        case False
        with last have "base_init_class E t base ce infos (slots(pi_offset i := IS_UNDEF)) w\<^sub>2 = Some (slots', w')" by simp
        then show ?thesis by (rule Cons.IH) (simp add: Cons.prems(2))
      qed
      ultimately show ?thesis by (blast intro: memory_step_trans)
    qed (use rest Cons in auto)
    with global_steps(4) [OF name] show ?thesis by (blast intro: memory_step_trans)
  qed (use Cons in auto)
qed (auto simp: memory_step_refl)

lemma base_init_chain_step:
  "base_init_chain E t base chain slots w = Some w' \<Longrightarrow> \<forall>n. engine_strings (slots n) \<Longrightarrow> memory_step w w'"
proof (induction chain arbitrary: slots w)
  case (Cons c chain)
  obtain ce infos where "c = (ce, infos)" by force
  with Cons.prems show ?case
    by (auto simp: bind_Some_iff dest!: Cons.IH base_init_class_step intro: memory_step_trans)
qed (simp add: memory_step_refl)

text \<open>The default values of the properties of a class, as the engine keeps them.\<close>

definition defaults_ok :: "zend_engine \<Rightarrow> bool" where
  "defaults_ok E \<longleftrightarrow> (\<forall>ce n. engine_strings (default_properties E ce n))"

lemma set_obj_step: "memory_step w w' \<Longrightarrow> memory_step w (set_obj a b w')"
  by (erule memory_step_trans) (rule same_memory_step, simp_all)

lemma throw_step: "memory_step w w' \<Longrightarrow> memory_step w (throw t e w')"
  by (erule memory_step_trans) (rule same_memory_step, simp_all)

lemma base_ctor_step:
  assumes "pthreads_base_ctor E t base ce scope w = Some w'" and "defaults_ok E"
  shows "memory_step w w'"
proof -
  obtain a w\<^sub>1 where ts: "pthreads_ts_object_ctor E t scope w = (a, w\<^sub>1)" by force
  with assms(1) obtain ob w\<^sub>2 b where "pthreads_base_init E t base (set_obj base ob w\<^sub>1) = Some w\<^sub>2"
    and w': "w' = set_obj base b w\<^sub>2"
    by (auto simp: pthreads_base_ctor_def bind_Some_iff)
  then have "memory_step (set_obj base ob w\<^sub>1) w\<^sub>2"
    using assms(2) by (auto simp: pthreads_base_init_def bind_Some_iff defaults_ok_def dest!: base_init_chain_step)
  then have "memory_step w w\<^sub>2"
    using set_obj_step [OF ts_object_ctor_step [OF ts]] by (blast intro: memory_step_trans)
  then show ?thesis by (simp add: w' set_obj_step)
qed

lemma object_init_step:
  assumes "object_init_ex E t ce w = Some (a, w')" and "defaults_ok E"
  shows "memory_step w w'"
proof -
  from assms(1) obtain scope w\<^sub>1 w\<^sub>2 where "pthreads_globals_object_alloc t w = Some (a, w\<^sub>1)"
    and "pthreads_base_ctor E t a ce scope w\<^sub>1 = Some w\<^sub>2" and "w_hash w' = w_hash w\<^sub>2 \<and> w_next w\<^sub>2 \<le> w_next w'"
    by (auto simp: object_init_ex_def pthreads_thread_ctor_def pthreads_worker_ctor_def pthreads_threaded_base_ctor_def
        pthreads_threaded_array_ctor_def pthreads_worker_data_alloc_def set_worker_def alloc_def bind_Some_iff Let_def
        split: class_kind.splits)
  then show ?thesis
    using base_ctor_step assms(2) global_steps(2) by (blast intro: memory_step_trans same_memory_step)
qed

lemma set_ts_refcount_step:
  "w_ts w a = Some ts \<Longrightarrow> memory_step w (set_ts a (ts\<lparr>ts_refcount := n\<rparr>) w)"
  by (rule same_memory_step) (simp_all add: fun_upd_idem_iff w_hash_ts)

lemma ts_object_free_step:
  assumes "pthreads_ts_object_free t a w = Some w'"
  shows "memory_step w w'"
proof -
  from assms obtain u w\<^sub>1 where sec: "with_monitor t (LTs a)
       (\<lambda>w. do { w \<leftarrow> set_hash a zend_hash_init w; Some ((), w) }) (\<lambda>w. Some ((), w)) w = Some (u, w\<^sub>1)"
    and w': "w' = w\<^sub>1\<lparr>w_ts := (w_ts w\<^sub>1)(a := None)\<rparr>"
    by (auto simp: pthreads_ts_object_free_def bind_Some_iff)
  from sec have "memory_step w w\<^sub>1"
    by (rule memory.section_R)
      (auto simp: bind_Some_iff memory_step_refl intro!: empty_step [of _ _ a "Some zend_hash_init"] dest: set_hash_table set_hash_next)
  moreover have "memory_step w\<^sub>1 w'"
    by (rule empty_step [of _ _ a None]) (auto simp: w' w_hash_def)
  ultimately show ?thesis by (rule memory_step_trans)
qed

lemma release_step [memory_steps]: "release_ts t a w = Some (r, w') \<Longrightarrow> memory_step w w'"
  by (auto simp: release_ts_def bind_Some_iff Let_def split: if_splits
      dest!: ts_object_free_step intro: memory_step_trans set_ts_refcount_step)

lemma worker_release_step:
  "(case d of None \<Rightarrow> Some w | Some wd \<Rightarrow> do { (_, w) \<leftarrow> pthreads_worker_data_free t wd w; Some w }) = Some w' \<Longrightarrow> memory_step w w'"
  by (auto simp: memory_step_refl bind_Some_iff split: option.splits dest!: global_steps)

lemma connect_nolock_step [memory_steps]:
  assumes "pthreads_connect_nolock t src dst w = Some (r, w')"
  shows "memory_step w w'"
proof (cases "src \<noteq> 0 \<and> dst \<noteq> 0")
  case True
  with assms obtain d :: pthreads_zend_object and s :: pthreads_zend_object and ts w\<^sub>1 w\<^sub>2 b where
    1: "(case zo_worker_data d of None \<Rightarrow> Some w
          | Some wd \<Rightarrow> do { (_, w) \<leftarrow> pthreads_worker_data_free t wd w; Some w }) = Some w\<^sub>1"
    and 2: "(if zo_ts_obj d \<noteq> 0 then do { (_, w) \<leftarrow> release_ts t (zo_ts_obj d) w\<^sub>1; Some w } else Some w\<^sub>1) = Some w\<^sub>2"
    and 3: "w_ts w\<^sub>2 (zo_ts_obj s) = Some ts"
    and 4: "w' = set_obj dst b (set_ts (zo_ts_obj s) (ts\<lparr>ts_refcount := Suc (ts_refcount ts)\<rparr>) w\<^sub>2)"
    unfolding pthreads_connect_nolock_def Let_def if_P [OF True] by (elim bind_eq_SomeE) auto
  from 2 have "memory_step w\<^sub>1 w\<^sub>2" by (auto simp: memory_step_refl bind_Some_iff split: if_splits dest!: release_step)
  moreover have "memory_step w\<^sub>2 w'" unfolding 4 by (rule set_obj_step) (rule set_ts_refcount_step [OF 3])
  ultimately show ?thesis using worker_release_step [OF 1] by (blast intro: memory_step_trans)
qed (use assms in \<open>auto simp: pthreads_connect_nolock_def memory_step_refl\<close>)

lemma connect_step: "pthreads_connect t src dst w = Some (r, w') \<Longrightarrow> memory_step w w'"
  unfolding pthreads_connect_def by (erule memory.section_R) (auto simp: memory_step_refl intro: memory_steps)

lemma object_connect_locked_step:
  assumes "object_connect_locked E t a ce w = Some (r, w')" and "defaults_ok E"
  shows "memory_step w w'"
proof -
  from assms(1) obtain valid w\<^sub>1 where v: "pthreads_globals_object_valid t a w = Some (valid, w\<^sub>1)" 
    and rest: "w' = w\<^sub>1 \<or> (\<exists>c connection w\<^sub>2 x w\<^sub>3 z. object_init_ex E t c w\<^sub>1 = Some (connection, w\<^sub>2) \<and>
       pthreads_connect_nolock t a connection w\<^sub>2 = Some (x, w\<^sub>3) \<and> w' = set_zg t z w\<^sub>3)"
    unfolding object_connect_locked_def
    by (auto simp: bind_Some_iff Let_def split: if_splits option.splits) blast+
  from rest have "memory_step w\<^sub>1 w'"
  proof (elim disjE exE conjE)
    fix c connection w\<^sub>2 x w\<^sub>3 z
    assume "object_init_ex E t c w\<^sub>1 = Some (connection, w\<^sub>2)" "pthreads_connect_nolock t a connection w\<^sub>2 = Some (x, w\<^sub>3)"
      and w': "w' = set_zg t z w\<^sub>3"
    then have "memory_step w\<^sub>1 w\<^sub>3" using object_init_step assms(2) connect_nolock_step by (blast intro: memory_step_trans)
    moreover have "memory_step w\<^sub>3 w'" unfolding w' by (rule same_memory_step) simp_all
    ultimately show ?thesis by (rule memory_step_trans)
  qed (simp add: memory_step_refl)
  with global_steps(1) [OF v] show ?thesis by (rule memory_step_trans)
qed

lemma object_connect_step:
  assumes "pthreads_globals_object_connect E t a ce w = Some (r, w')" and "defaults_ok E"
  shows "memory_step w w'"
  using assms(1) unfolding pthreads_globals_object_connect_def
  by (rule memory.section_R) (auto simp: memory_step_refl dest: object_connect_locked_step [OF _ assms(2)])

lemma base_free_step:
  assumes "pthreads_base_free t obj w = Some w'"
  shows "memory_step w w'"
proof -
  have locked: "memory_step w w'" if "base_free_locked t obj a w = Some (u, w')" for a w u w'
  proof -
    from that obtain freed w\<^sub>1 w\<^sub>2 b where 1: "release_ts t a w = Some (freed, w\<^sub>1)"
      and 2: "(if freed then Some w\<^sub>1 else do { (_, w) \<leftarrow> pthreads_store_persist_local_properties t obj w\<^sub>1; Some w }) = Some w\<^sub>2"
      and 3: "pthreads_globals_object_delete t obj w\<^sub>2 = Some (b, w')"
      unfolding base_free_locked_def by (elim bind_eq_SomeE case_pairE) auto
    from 2 have "memory_step w\<^sub>1 w\<^sub>2" by (auto simp: memory_step_refl bind_Some_iff split: if_splits dest!: persist_step)
    with release_step [OF 1] global_steps(3) [OF 3] show ?thesis by (blast intro: memory_step_trans)
  qed
  from assms obtain base :: pthreads_zend_object and w\<^sub>1 u w\<^sub>3 where
    1: "(case zo_worker_data base of None \<Rightarrow> Some w
       | Some wd \<Rightarrow> do { (_, w) \<leftarrow> pthreads_worker_data_free t wd w; Some w }) = Some w\<^sub>1"
    and 3: "with_monitor t LGlobal (base_free_locked t obj (zo_ts_obj base)) (\<lambda>w. Some ((), w))
       (if zg_resolve (w_zg w\<^sub>1 t) (zo_ts_obj base) = Some obj
        then set_zg t ((w_zg w\<^sub>1 t)\<lparr>zg_resolve := (zg_resolve (w_zg w\<^sub>1 t))(zo_ts_obj base := None)\<rparr>) w\<^sub>1 else w\<^sub>1) = Some (u, w\<^sub>3)"
       (is "with_monitor _ _ _ _ ?w\<^sub>2 = _")
    and 4: "w' = w\<^sub>3\<lparr>w_obj := (w_obj w\<^sub>3)(obj := None)\<rparr>"
    unfolding pthreads_base_free_def Let_def by (elim bind_eq_SomeE case_pairE) auto
  have "memory_step w\<^sub>1 ?w\<^sub>2" by (auto intro: same_memory_step memory_step_refl)
  moreover from 3 have "memory_step ?w\<^sub>2 w\<^sub>3" by (rule memory.section_R) (auto simp: memory_step_refl intro: locked)
  moreover have "memory_step w\<^sub>3 w'" by (rule same_memory_step) (simp_all add: 4)
  ultimately show ?thesis using worker_release_step [OF 1] by (blast intro: memory_step_trans)
qed

section \<open>Restoring and reading\<close>

lemma convert_step:
  assumes "pthreads_store_convert E t s w = Some (r, w')" and "defaults_ok E"
  shows "memory_step w w'"
proof (cases "\<exists>a. s = STORE_TYPE_PTHREADS a")
  case True
  with assms(1) show ?thesis
    by (auto simp: pthreads_store_convert_def bind_Some_iff split: if_splits
        dest!: object_connect_step [OF _ assms(2)] intro: throw_step)
next
  case False
  then have "restore_step w w'" using plain_convert_step [of s E t w] assms(1) by auto
  then show ?thesis by (intro same_memory_step) (auto simp: restore_step_def w_hash_def)
qed

lemma restore_ex_step:
  "pthreads_store_restore_zval_ex E t z w = Some (r, w') \<Longrightarrow> defaults_ok E \<Longrightarrow> memory_step w w'"
  by (cases z) (auto simp: pthreads_store_restore_zval_ex_def bind_Some_iff memory_step_refl Let_def
      split: prod.splits intro: convert_step same_memory_step dest: restore_string_hash restore_string_next)

lemma restore_zval_step:
  "pthreads_store_restore_zval E t z w = Some (v, w') \<Longrightarrow> defaults_ok E \<Longrightarrow> memory_step w w'"
  by (auto simp: pthreads_store_restore_zval_def bind_Some_iff intro: restore_ex_step)

lemma read_shared_step:
  assumes "store_read_shared E t obj a k type w = Some (r, w')" and "defaults_ok E"
  shows "memory_step w w'"
proof -
  from assms(1) obtain threaded :: pthreads_zend_object and ts :: pthreads_object where
    found: "(case zend_hash_find (store_hash (ts_props ts)) k of
       None \<Rightarrow> Some (ReadNothing, w)
     | Some zstorage \<Rightarrow>
         if storage_readable type zstorage
         then do { (v, w) \<leftarrow> pthreads_store_restore_zval E t zstorage w; Some (ReadStored v, w) }
         else Some (ReadNothing, throw t (IndirectModification (zo_ce threaded)) w)) = Some (r, w')"
    unfolding store_read_shared_def by (elim bind_eq_SomeE) (rule that)
  show ?thesis
  proof (cases "zend_hash_find (store_hash (ts_props ts)) k")
    case (Some z)
    with found show ?thesis
      by (auto simp: bind_Some_iff split: if_splits intro: restore_zval_step [OF _ assms(2)] throw_step memory_step_refl)
  qed (use found in \<open>simp add: memory_step_refl\<close>)
qed

lemma read_locked_step:
  assumes "store_read_locked E t obj a k type w = Some (r, w')" and "defaults_ok E"
  shows "memory_step w w'"
proof -
  from assms(1) obtain threaded w\<^sub>1 where "w_obj w obj = Some threaded"
    and sync: "w\<^sub>1 = w \<or> pthreads_store_sync_local_properties t obj w = Some w\<^sub>1"
    and "w' = w\<^sub>1 \<or> store_read_shared E t obj a k type w\<^sub>1 = Some (r, w')"
    unfolding store_read_locked_def by (elim bind_eq_SomeE) (auto simp: bind_Some_iff split: if_splits option.splits)
  then have "memory_step w\<^sub>1 w'" by (auto simp: memory_step_refl intro: read_shared_step [OF _ assms(2)])
  moreover have "memory_step w w\<^sub>1" using sync by (auto simp: memory_step_refl dest: frame_steps)
  ultimately show ?thesis by (blast intro: memory_step_trans)
qed

lemma read_step:
  assumes "pthreads_store_read E t obj key type w = Some (r, w')" and "defaults_ok E"
  shows "memory_step w w'"
proof -
  from assms(1) obtain a k r w\<^sub>1 where sec: "with_monitor t (LTs a) (store_read_locked E t obj a k type) (\<lambda>w. Some (ReadNothing, w)) w = Some (r, w\<^sub>1)"
    and "memory_step w\<^sub>1 w'"
    unfolding pthreads_store_read_def Let_def
    by (elim bind_eq_SomeE case_pairE) (auto simp: bind_Some_iff memory_step_refl split: read_outcome.splits dest!: frame_steps)
  moreover from sec have "memory_step w w\<^sub>1"
    by (rule memory.section_R) (auto simp: memory_step_refl intro: read_locked_step [OF _ assms(2)])
  ultimately show ?thesis by (blast intro: memory_step_trans)
qed

lemma take_out_step: "take_out obj a k w = Some w' \<Longrightarrow> memory_step w w'"
  unfolding take_out_def
  by (auto simp: bind_Some_iff w_hash_ts intro!: memory_step_trans [OF del_step frame_steps(5)] dest: set_hash_table set_hash_next)

lemma take_step:
  assumes "store_take E t obj a b w = Some (r, w')" and "defaults_ok E"
  shows "memory_step w w'"
proof (cases b)
  case (Some p)
  obtain k z where "p = (k, z)" by force
  with Some assms(1) obtain v w\<^sub>1 w\<^sub>2 c where "pthreads_store_restore_zval_ex E t z w = Some (v, w\<^sub>1)" "take_out obj a k w\<^sub>1 = Some w\<^sub>2"
    and last: "(if c then pthreads_store_bump_modcount_nolock obj w\<^sub>2 else Some w\<^sub>2) = Some w'"
    by (auto simp: store_take_def bind_Some_iff)
  then have "memory_step w w\<^sub>2" using restore_ex_step assms(2) take_out_step by (blast intro: memory_step_trans)
  moreover from last have "memory_step w\<^sub>2 w'" by (auto simp: memory_step_refl split: if_splits dest: frame_steps)
  ultimately show ?thesis by (rule memory_step_trans)
qed (use assms in \<open>simp add: store_take_def memory_step_refl\<close>)

lemma shift_step:
  assumes "pthreads_store_shift E t obj w = Some (r, w')" and "defaults_ok E"
  shows "memory_step w w'"
  using assms(1)
  by (auto simp: pthreads_store_shift_def bind_Some_iff Let_def memory_step_refl
      elim!: memory.section_R dest!: take_step [OF _ assms(2)])

lemma pop_step:
  assumes "pthreads_store_pop E t obj w = Some (r, w')" and "defaults_ok E"
  shows "memory_step w w'"
  using assms(1)
  by (auto simp: pthreads_store_pop_def bind_Some_iff Let_def memory_step_refl
      elim!: memory.section_R dest!: take_step [OF _ assms(2)])

lemma chunk_loop_step:
  assumes "store_chunk_loop E t obj a limit state w = Some (r, w')" and "defaults_ok E"
  shows "memory_step w w'"
proof -
  from assms(1) have "defaults_ok E \<longrightarrow> memory_step w (snd (r, w'))"
  proof (rule store_chunk_loop.raw_induct [where P = "\<lambda>E t obj a limit state w y. defaults_ok E \<longrightarrow> memory_step w (snd y)", rotated])
    fix loop E t obj a limit state w and y :: "(hash \<times> bool) \<times> world"
    assume ih: "\<And>E t obj a limit state w y. loop E t obj a limit state w = Some y \<Longrightarrow> defaults_ok E \<longrightarrow> memory_step w (snd y)"
      and run: "do {
         ts_obj \<leftarrow> w_ts w a;
         if int (zend_hash_num_elements (fst state)) < limit
         then (case first_bucket (store_hash (ts_props ts_obj)) of
             None \<Rightarrow> Some (state, w)
           | Some (key, zstorage) \<Rightarrow> do {
               ((v, was_pthreads_object), w) \<leftarrow> pthreads_store_restore_zval_ex E t zstorage w;
               w \<leftarrow> take_out obj a key w;
               loop E t obj a limit (zend_hash_update (fst state) key v, snd state \<or> was_pthreads_object) w })
         else Some (state, w) } = Some y"
    show "defaults_ok E \<longrightarrow> memory_step w (snd y)"
    proof
      assume d: "defaults_ok E"
      from run obtain ts where ts: "w_ts w a = Some ts" by (auto simp: bind_Some_iff)
      show "memory_step w (snd y)"
      proof (cases "snd y = w")
        case False
        with run ts obtain k z where "first_bucket (store_hash (ts_props ts)) = Some (k, z)" "int (zend_hash_num_elements (fst state)) < limit"
          by (auto split: if_splits option.splits)
        with run ts obtain v w\<^sub>1 w\<^sub>2 s where "pthreads_store_restore_zval_ex E t z w = Some (v, w\<^sub>1)" "take_out obj a k w\<^sub>1 = Some w\<^sub>2"
          and l: "loop E t obj a limit s w\<^sub>2 = Some y"
          by (auto simp: bind_Some_iff)
        then have "memory_step w w\<^sub>2" using restore_ex_step d take_out_step by (blast intro: memory_step_trans)
        with ih [OF l] d show ?thesis by (blast intro: memory_step_trans)
      qed (simp add: memory_step_refl)
    qed
  qed
  with assms(2) show ?thesis by simp
qed

lemma chunk_step:
  assumes "pthreads_store_chunk E t obj limit preserve w = Some (r, w')" and "defaults_ok E"
  shows "memory_step w w'"
proof -
  have body: "memory_step w w'" if "(do {
          ((chunk, removed), w) \<leftarrow> store_chunk_loop E t obj a (sint limit) (zend_hash_init, False) w;
          w \<leftarrow> (if removed then pthreads_store_bump_modcount_nolock obj w else Some w);
          Some ((SUCCESS, IS_ARRAY (ht_buckets chunk)), w) }) = Some (r, w')" for a w r w'
  proof -
    from that obtain s w\<^sub>1 b where "store_chunk_loop E t obj a (sint limit) (zend_hash_init, False) w = Some (s, w\<^sub>1)"
      and last: "(if b then pthreads_store_bump_modcount_nolock obj w\<^sub>1 else Some w\<^sub>1) = Some w'"
      by (auto simp: bind_Some_iff)
    from this(1) assms(2) have "memory_step w w\<^sub>1" by (rule chunk_loop_step)
    moreover from last have "memory_step w\<^sub>1 w'" by (auto simp: memory_step_refl split: if_splits dest: frame_steps)
    ultimately show ?thesis by (rule memory_step_trans)
  qed
  from assms(1) show ?thesis
    unfolding pthreads_store_chunk_def Let_def
    by (elim bind_eq_SomeE) (erule memory.section_R, erule body, simp add: memory_step_refl)
qed

lemma tohash_entries_step:
  "tohash_entries E t own props ps state w = Some (r, w') \<Longrightarrow> defaults_ok E \<Longrightarrow> memory_step w w'"
proof (induction ps arbitrary: state w)
  case (Cons p ps)
  obtain k z where p: "p = (k, z)" by force
  obtain target changed where state: "state = (target, changed)" by force
  from Cons.prems(1) obtain st w\<^sub>1 where "tohash_entries E t own props ps st w\<^sub>1 = Some (r, w')"
    and "w\<^sub>1 = w \<or> (\<exists>v. pthreads_store_restore_zval E t z w = Some (v, w\<^sub>1))"
    unfolding p state tohash_entries.simps by (auto simp: bind_Some_iff split: option.splits if_splits)
  with Cons.IH [OF _ Cons.prems(2)] restore_zval_step [OF _ Cons.prems(2)] show ?case
    by (blast intro: memory_step_trans)
qed (simp add: memory_step_refl)

lemma tohash_locked_step:
  assumes "store_tohash_locked E t obj a target w = Some (r, w')" and "defaults_ok E"
  shows "memory_step w w'"
  using assms(1) unfolding store_tohash_locked_def Let_def
  by (elim bind_eq_SomeE case_pairE)
    (auto simp: bind_Some_iff split: if_splits prod.splits
      dest!: frame_steps(2) tohash_entries_step [OF _ assms(2)] intro!: set_obj_step elim: memory_step_trans)

lemma tohash_step:
  assumes "pthreads_store_tohash E t obj target w = Some (r, w')" and "defaults_ok E"
  shows "memory_step w w'"
proof -
  from assms(1) obtain a w\<^sub>1 where "pthreads_store_init_local_properties E obj w = Some w\<^sub>1"
    and sec: "with_monitor t (LTs a) (store_tohash_locked E t obj a target) (\<lambda>w. Some (target, w)) w\<^sub>1 = Some (r, w')"
    unfolding pthreads_store_tohash_def Let_def by (elim bind_eq_SomeE) auto
  moreover from sec have "memory_step w\<^sub>1 w'"
    by (rule memory.section_R) (auto simp: memory_step_refl intro: tohash_locked_step [OF _ assms(2)])
  ultimately show ?thesis using frame_steps(4) by (blast intro: memory_step_trans)
qed

section \<open>Merging\<close>

definition is_enum_cell :: "zval \<Rightarrow> bool" where
  "is_enum_cell z \<longleftrightarrow> (case z of IS_PTR (STORE_TYPE_ENUM _ _) \<Rightarrow> True | _ \<Rightarrow> False)"

lemma hard_copy_new:
  assumes "pthreads_store_hard_copy_storage z w = (z', w')" and "engine_strings z" and "\<not> is_enum_cell z"
  shows "new_cell w w' z'"
proof (cases "(\<exists>s. z = IS_STRING s) \<or> (\<exists>s i. z = IS_PTR (STORE_TYPE_STRING_PTR s i))")
  case True
  then obtain s where "engine_string s" and copy: "pthreads_store_hard_copy_storage z w =
      (let (copy, w) = pthreads_store_save_string s w in (IS_STRING copy, w))"
    using assms(2) by (auto simp: pthreads_store_hard_copy_storage_def)
  with assms(1) show ?thesis
    by (auto simp: new_cell_def pthreads_store_storage_dtor_def split: prod.splits dest!: save_string_new)
next
  case False
  then have "z' = z" using assms(1)
    by (cases z) (auto simp: pthreads_store_hard_copy_storage_def split: pthreads_storage.splits)
  moreover have "pthreads_store_storage_dtor (Some z) = []"
    using False assms(3)
    by (cases z) (auto simp: pthreads_store_storage_dtor_def is_enum_cell_def split: pthreads_storage.splits)
  ultimately show ?thesis using assms(2) by (simp add: new_cell_def)
qed

lemma hard_copy_frame:
  assumes "pthreads_store_hard_copy_storage z w = (z', w')"
  shows "w_hash w' = w_hash w \<and> w_next w \<le> w_next w'"
proof -
  have "w' = w \<or> (\<exists>s s'. pthreads_store_save_string s w = (s', w'))"
    using assms by (auto simp: pthreads_store_hard_copy_storage_def split: zval.splits pthreads_storage.splits prod.splits)
  then show ?thesis by (auto dest: save_string_hash save_string_next)
qed

lemma hard_copy_world:
  assumes "pthreads_store_hard_copy_storage z w = (z', w')"
  shows "w_obj w' = w_obj w \<and> w_ts w' = w_ts w"
proof -
  have "w' = w \<or> (\<exists>s s'. pthreads_store_save_string s w = (s', w'))"
    using assms by (auto simp: pthreads_store_hard_copy_storage_def split: zval.splits pthreads_storage.splits prod.splits)
  moreover have "w_obj w' = w_obj w \<and> w_ts w' = w_ts w" if "pthreads_store_save_string s w = (s', w')" for s s'
    using save_string_step [of s w] that by auto
  ultimately show ?thesis by blast
qed

text \<open>One element of the source is merged.\<close>

lemma merge_element:
  assumes "merge_storage d a overwrite ((k, z) # ps) b w = Some (r, w')"
  obtains ht where "merge_storage d a overwrite ps b w = Some (r, w')" "\<not> overwrite" "w_hash w a = Some ht" "zend_hash_exists ht k"
  | c z\<^sub>1 w\<^sub>1 w\<^sub>2 ht where "pthreads_store_hard_copy_storage z w = (z\<^sub>1, w\<^sub>1)" "w_hash w\<^sub>1 a = Some ht"
      "w_hash w\<^sub>2 = (w_hash w\<^sub>1)(a \<mapsto> zend_hash_update ht k z\<^sub>1)" "w_next w\<^sub>1 \<le> w_next w\<^sub>2"
      "merge_storage d a overwrite ps c w\<^sub>2 = Some (r, w')"
proof -
  from assms obtain ts where ts: "w_ts w a = Some ts" by (auto simp: bind_Some_iff)
  show thesis
  proof (cases "\<not> overwrite \<and> zend_hash_exists (store_hash (ts_props ts)) k")
    case False
    obtain z\<^sub>1 w\<^sub>1 where copy: "pthreads_store_hard_copy_storage z w = (z\<^sub>1, w\<^sub>1)" by force
    from assms ts False copy obtain c u w\<^sub>2 w\<^sub>3 where
      put: "pthreads_store_update_shared_property a k z\<^sub>1 w\<^sub>1 = Some (u, w\<^sub>2)" and del: "del_local d k w\<^sub>2 = Some w\<^sub>3"
      and rest: "merge_storage d a overwrite ps c w\<^sub>3 = Some (r, w')"
      by (auto simp: bind_Some_iff)
    from put obtain ht where "w_hash w\<^sub>1 a = Some ht" "w_hash w\<^sub>2 = (w_hash w\<^sub>1)(a \<mapsto> zend_hash_update ht k z\<^sub>1)"
      by (auto simp: pthreads_store_update_shared_property_def bind_Some_iff w_hash_ts dest!: set_hash_table)
    with that(2) [OF copy] rest del_local_hash [OF del] del_local_next [OF del] update_shared_next [OF put] show thesis
      by simp
  qed (use assms ts that(1) in \<open>auto simp: w_hash_ts\<close>)
qed

lemma merge_storage_next: "merge_storage d a overwrite ps b w = Some (r, w') \<Longrightarrow> w_next w \<le> w_next w'"
proof (induction ps arbitrary: b w)
  case (Cons p ps)
  obtain k z where "p = (k, z)" by force
  with Cons.prems have "merge_storage d a overwrite ((k, z) # ps) b w = Some (r, w')" by simp
  then show ?case
  proof (cases rule: merge_element)
    case (2 c z\<^sub>1 w\<^sub>1 w\<^sub>2 ht)
    then show ?thesis using Cons.IH [OF 2(5)] hard_copy_frame [OF 2(1)] by simp
  qed (auto intro: Cons.IH)
qed simp

lemma merge_storage_step:
  "merge_storage d a overwrite ps b w = Some (r, w') \<Longrightarrow> \<forall>p\<in>set ps. engine_strings (snd p) \<and> \<not> is_enum_cell (snd p) \<Longrightarrow>
     memory_step w w'"
proof (induction ps arbitrary: b w)
  case (Cons p ps)
  obtain k z where p: "p = (k, z)" by force
  with Cons.prems have "merge_storage d a overwrite ((k, z) # ps) b w = Some (r, w')" by simp
  then show ?case
  proof (cases rule: merge_element)
    case (2 c z\<^sub>1 w\<^sub>1 w\<^sub>2 ht)
    have "new_cell w w\<^sub>1 z\<^sub>1" using hard_copy_new [OF 2(1)] Cons.prems(2) p by simp
    then have "memory_step w w\<^sub>2"
      using 2 hard_copy_frame [OF 2(1)] by (intro put_step [of w\<^sub>1 w a ht z\<^sub>1]) simp_all
    moreover have "memory_step w\<^sub>2 w'" using Cons.IH [OF 2(5)] Cons.prems(2) by simp
    ultimately show ?thesis by (rule memory_step_trans)
  qed (use Cons in simp)
qed (simp add: memory_step_refl)

text \<open>The table of the source holds no enum case.\<close>

definition no_enum_cells :: "addr \<Rightarrow> world \<Rightarrow> bool" where
  "no_enum_cells b w \<longleftrightarrow> (\<forall>ht. w_hash w b = Some ht \<longrightarrow> (\<forall>p\<in>set (ht_buckets ht). \<not> is_enum_cell (snd p)))"

lemma merge_threaded_step:
  assumes run: "store_merge_threaded t d f overwrite w = Some (r, w')"
    and enums: "\<forall>fo. w_obj w f = Some fo \<longrightarrow> no_enum_cells (zo_ts_obj fo) w"
  shows "memory_step w w'"
proof -
  define body where "body a b = (\<lambda>w. do {
             tb \<leftarrow> w_ts w b;
             (overwrote, w) \<leftarrow> merge_storage d a overwrite (ht_buckets (store_hash (ts_props tb))) False w;
             w \<leftarrow> (if overwrote then pthreads_store_bump_modcount_nolock d w else Some w);
             Some (SUCCESS, w) })" for a b
  have body_step: "memory_step w\<^sub>1 w\<^sub>2" if run: "body a b w\<^sub>1 = Some (r, w\<^sub>2)" and e: "no_enum_cells b w\<^sub>1" for a b w\<^sub>1 r w\<^sub>2
  proof -
    from run obtain tb o\<^sub>1 w\<^sub>3 where tb: "w_ts w\<^sub>1 b = Some tb"
      and m: "merge_storage d a overwrite (ht_buckets (store_hash (ts_props tb))) False w\<^sub>1 = Some (o\<^sub>1, w\<^sub>3)"
      and last: "(if o\<^sub>1 then pthreads_store_bump_modcount_nolock d w\<^sub>3 else Some w\<^sub>3) = Some w\<^sub>2"
      by (auto simp: body_def bind_Some_iff)
    have "memory_step w\<^sub>1 w\<^sub>3"
    proof (rule memory_stepI [OF merge_storage_next [OF m]])
      assume "memory_ok w\<^sub>1"
      then show "memory_step w\<^sub>1 w\<^sub>3"
        using merge_storage_step [OF m] memory_ok_cells [OF _ w_hash_ts [OF tb]] e w_hash_ts [OF tb]
        unfolding no_enum_cells_def by blast
    qed
    moreover from last have "memory_step w\<^sub>3 w\<^sub>2" by (auto simp: memory_step_refl split: if_splits dest: frame_steps)
    ultimately show ?thesis by (rule memory_step_trans)
  qed
  from run obtain dob fo :: pthreads_zend_object where f: "w_obj w f = Some fo"
    and outer: "with_monitor t (LTs (zo_ts_obj dob)) (\<lambda>w. with_monitor t (LTs (zo_ts_obj fo))
       (body (zo_ts_obj dob) (zo_ts_obj fo)) (\<lambda>w. Some (SUCCESS, w)) w) (\<lambda>w. Some (FAILURE, w)) w = Some (r, w')"
    unfolding store_merge_threaded_def Let_def by (elim bind_eq_SomeE) (rule that, assumption, unfold body_def, assumption)
  have e: "no_enum_cells (zo_ts_obj fo) w" using enums f by blast
  have same: "memory_step w w\<^sub>1" if "w_hash w\<^sub>1 = w_hash w" "w_next w\<^sub>1 = w_next w" for w w\<^sub>1
    using that by (intro same_memory_step) simp_all
  from outer show ?thesis
  proof (cases rule: section_cases)
    case (1 w\<^sub>1 w\<^sub>2)
    from 1(3) have "memory_step w\<^sub>1 w\<^sub>2"
    proof (cases rule: section_cases)
      case i: (1 w\<^sub>3 w\<^sub>4)
      have "memory_step w\<^sub>3 w\<^sub>4" using body_step [OF i(3)] e i(1) 1(1) by (simp add: no_enum_cells_def)
      then show ?thesis using same i by (metis memory_step_trans)
    next
      case (2 w\<^sub>3)
      then show ?thesis using same by auto
    qed
    then show ?thesis using same 1 by (metis memory_step_trans)
  next
    case (2 w\<^sub>1)
    then show ?thesis using same by auto
  qed
qed

section \<open>Writing arrays\<close>

lemma in_store_step:
  assumes "in_store t d body w = Some (r, w')" and "\<And>w w'. body w = Some w' \<Longrightarrow> memory_step w w'"
  shows "memory_step w w'"
  using assms(1) unfolding in_store_def
  by (elim bind_eq_SomeE) (erule memory.section_R, auto simp: bind_Some_iff memory_step_refl intro: assms(2))

lemma write_and_merge_step:
  "pthreads_store_write E t obj key v coerce w = Some (r, w') \<Longrightarrow> engine_strings v \<Longrightarrow> defaults_ok E \<Longrightarrow> memory_step w w'"
  "merge_table E t d ps overwrite coerce w = Some w' \<Longrightarrow> list_all (\<lambda>p. engine_strings (snd p)) ps \<Longrightarrow> defaults_ok E \<Longrightarrow> memory_step w w'"
proof (induction E t obj key v coerce w and E t d ps overwrite coerce w arbitrary: r w' and w'
    rule: pthreads_store_write_merge_table.induct)
  case (1 E t obj key ps coerce w)
  show ?case
  proof (cases coerce)
    case True
    with "1.prems"(1) obtain vol w\<^sub>1 x w\<^sub>2 where new: "object_init_ex E t threaded_array_entry w = Some (vol, w\<^sub>1)"
      and fill: "in_store t vol (merge_table E t vol ps True True) w\<^sub>1 = Some (x, w\<^sub>2)"
      and put: "store_write_zval E t obj key (IS_OBJECT (ThreadedObject vol)) w\<^sub>2 = Some (r, w')"
      by (auto simp: bind_Some_iff)
    have "memory_step w\<^sub>1 w\<^sub>2"
      by (rule in_store_step [OF fill]) (use "1.IH" [OF True] "1.prems" new in auto)
    with object_init_step [OF new "1.prems"(3)] write_zval_step [OF put] show ?thesis
      by (auto intro: memory_step_trans)
  qed (use "1.prems" in \<open>auto dest: write_zval_step\<close>)
next
  case (4 E t d key v ps overwrite coerce w)
  from "4.prems"(1) obtain e w\<^sub>1 where e: "member_exists d key w = Some e"
    and w1: "(if \<not> overwrite \<and> e then Some w
          else do { (_, w) \<leftarrow> pthreads_store_write E t d (Some (zval_of_key key)) v coerce w; Some w }) = Some w\<^sub>1"
    and rest: "merge_table E t d ps overwrite coerce w\<^sub>1 = Some w'"
    by (auto simp: bind_Some_iff)
  have "memory_step w w\<^sub>1"
    using w1 "4.IH"(1) [OF e] "4.prems"(2,3) by (auto simp: bind_Some_iff memory_step_refl split: if_splits)
  moreover have "memory_step w\<^sub>1 w'" using "4.IH"(2) [OF e w1 rest] "4.prems"(2,3) by auto
  ultimately show ?case by (rule memory_step_trans)
qed (auto simp: memory_step_refl dest: write_zval_step)

lemmas write_step = write_and_merge_step(1)

lemma merge_step:
  assumes run: "pthreads_store_merge E objprop is_array t d from overwrite coerce w = Some (r, w')"
    and v: "engine_strings from" "\<forall>ob. list_all (\<lambda>p. engine_strings (snd p)) (objprop ob)" "defaults_ok E"
    and enums: "\<forall>ob f fo. from = IS_OBJECT ob \<longrightarrow> is_array ob = Some f \<longrightarrow> w_obj w f = Some fo \<longrightarrow> no_enum_cells (zo_ts_obj fo) w"
  shows "memory_step w w'"
proof -
  have table: "memory_step w w'" if "in_store t d (merge_table E t d ps overwrite coerce) w = Some (r, w')"
    "list_all (\<lambda>p. engine_strings (snd p)) ps" for ps
    using that v(3) by (auto intro: in_store_step write_and_merge_step(2))
  show ?thesis
  proof (cases "\<exists>ob f. from = IS_OBJECT ob \<and> is_array ob = Some f")
    case True
    with run enums show ?thesis by (auto simp: pthreads_store_merge_def intro: merge_threaded_step)
  next
    case False
    with run v(1,2) show ?thesis
      by (cases "from") (auto simp: pthreads_store_merge_def memory_step_refl split: option.splits intro: table)
  qed
qed

section \<open>Any sequence of operations\<close>

text \<open>
  The operations of the store and of its objects, by any thread on any object. A merge of a
  ThreadedArray is an operation here when the source holds no enum case.
\<close>

inductive store_op :: "zend_engine \<Rightarrow> world \<Rightarrow> world \<Rightarrow> bool" for E where
  create: "object_init_ex E t ce w = Some (a, w') \<Longrightarrow> store_op E w w'"
| connect: "pthreads_globals_object_connect E t a ce w = Some (r, w') \<Longrightarrow> store_op E w w'"
| join_objects: "pthreads_connect t src dst w = Some (r, w') \<Longrightarrow> store_op E w w'"
| free: "pthreads_base_free t obj w = Some w' \<Longrightarrow> store_op E w w'"
| set_member: "engine_strings v \<Longrightarrow> pthreads_store_write E t obj key v coerce w = Some (r, w') \<Longrightarrow> store_op E w w'"
| get_member: "pthreads_store_read E t obj key' type w = Some (r, w') \<Longrightarrow> store_op E w w'"
| unset_member: "pthreads_store_delete E t obj key' w = Some (r, w') \<Longrightarrow> store_op E w w'"
| shift: "pthreads_store_shift E t obj w = Some (r, w') \<Longrightarrow> store_op E w w'"
| pop: "pthreads_store_pop E t obj w = Some (r, w') \<Longrightarrow> store_op E w w'"
| chunk: "pthreads_store_chunk E t obj limit preserve w = Some (r, w') \<Longrightarrow> store_op E w w'"
| tohash: "pthreads_store_tohash E t obj target w = Some (r, w') \<Longrightarrow> store_op E w w'"
| persist: "pthreads_store_persist_local_properties t obj w = Some (u, w') \<Longrightarrow> store_op E w w'"
| merge: "engine_strings v \<Longrightarrow> \<forall>ob. list_all (\<lambda>p. engine_strings (snd p)) (objprop ob) \<Longrightarrow>
    \<forall>ob f fo. v = IS_OBJECT ob \<longrightarrow> is_array ob = Some f \<longrightarrow> w_obj w f = Some fo \<longrightarrow> no_enum_cells (zo_ts_obj fo) w \<Longrightarrow>
    pthreads_store_merge E objprop is_array t obj v overwrite coerce w = Some (r, w') \<Longrightarrow> store_op E w w'"

lemma store_op_step: "store_op E w w' \<Longrightarrow> defaults_ok E \<Longrightarrow> memory_step w w'"
  by (induction rule: store_op.induct)
    (blast intro: object_init_step object_connect_step connect_step base_free_step write_step read_step delete_step
      shift_step pop_step chunk_step tohash_step persist_step merge_step)+

lemma store_ops_step: "(store_op E)\<^sup>*\<^sup>* w w' \<Longrightarrow> defaults_ok E \<Longrightarrow> memory_step w w'"
  by (induction rule: rtranclp_induct) (blast intro: memory_step_refl memory_step_trans store_op_step)+

lemma memory_ok_concat:
  assumes "memory_ok w" and "distinct objs"
  shows "distinct (concat (map (owned w) objs))"
  using assms(2)
proof (induction objs)
  case (Cons a objs)
  moreover have "set (owned w a) \<inter> set (owned w b) = {}" if "b \<in> set objs" for b
    using assms(1) Cons.prems that unfolding memory_ok_def by (metis distinct.simps(2))
  ultimately show ?case using assms(1) by (auto simp: memory_ok_def)
qed simp

lemma empty_world_memory: "memory_ok empty_world"
  by (simp add: memory_ok_def owned_hash w_hash_def empty_world_def)


text \<open>An enum case is written to a new object, and then another one under the same key.\<close>

definition memory_demo :: "(world \<times> world) option" where
  "memory_demo = do {
     (a, w) \<leftarrow> object_init_ex demo_engine 1 ''ThreadedArray'' empty_world;
     (_, w) \<leftarrow> pthreads_store_write demo_engine 1 a (Some (IS_LONG 0))
       (IS_OBJECT (EnumObject (demo_string 500 ''Suit'') (demo_string 501 ''Hearts''))) True w;
     (_, w') \<leftarrow> pthreads_store_write demo_engine 1 a (Some (IS_LONG 0))
       (IS_OBJECT (EnumObject (demo_string 500 ''Suit'') (demo_string 502 ''Spades''))) True w;
     Some (w, w') }"

lemma memory_demo_owned: "map_option (\<lambda>(w, w'). (owned w 2, owned w' 2)) memory_demo = Some ([3, 4], [5, 6])"
  by code_simp

lemma memory_demo_ops:
  "memory_demo = Some (w, w') \<Longrightarrow> (store_op demo_engine)\<^sup>*\<^sup>* empty_world w \<and> (store_op demo_engine)\<^sup>*\<^sup>* w w'"
proof -
  have v: "engine_strings (IS_OBJECT (EnumObject (demo_string a c) (demo_string b m)))" for a b c m
    by (simp add: engine_string_def demo_string_def)
  assume "memory_demo = Some (w, w')"
  then obtain a w\<^sub>0 r r' where 0: "object_init_ex demo_engine 1 ''ThreadedArray'' empty_world = Some (a, w\<^sub>0)"
    and 1: "pthreads_store_write demo_engine 1 a (Some (IS_LONG 0))
       (IS_OBJECT (EnumObject (demo_string 500 ''Suit'') (demo_string 501 ''Hearts''))) True w\<^sub>0 = Some (r, w)"
    and 2: "pthreads_store_write demo_engine 1 a (Some (IS_LONG 0))
       (IS_OBJECT (EnumObject (demo_string 500 ''Suit'') (demo_string 502 ''Spades''))) True w = Some (r', w')"
    unfolding memory_demo_def by (auto simp: bind_Some_iff simp del: pthreads_store_write.simps)
  have "store_op demo_engine empty_world w\<^sub>0" using 0 by (rule store_op.create)
  moreover have "store_op demo_engine w\<^sub>0 w" using v 1 by (rule store_op.set_member)
  moreover have "store_op demo_engine w w'" using v 2 by (rule store_op.set_member)
  ultimately show ?thesis by (meson converse_rtranclp_into_rtranclp rtranclp.rtrancl_refl)
qed


section \<open>Enum cases\<close>

text \<open>A section that can be entered runs its body.\<close>

lemma section_runs:
  assumes "can_lock (Suc n) L t w" and "l \<in> L" and "body (lock_w t l w) = Some (r, w')"
  shows "with_monitor t l body els w = Some (r, monitor_unlock t l w')"
proof -
  from can_lockD [OF assms(1,2)] have "monitor_lock t l w = Some (True, lock_w t l w)"
    by (simp add: monitor_lock_def monitor_lock_ok lock_w_def)
  then show ?thesis by (simp add: with_monitor_def assms(3))
qed

text \<open>The merge of a table returns, and changes no other table.\<close>

lemma merge_storage_total:
  assumes "w_obj w d = Some ob" and "w_ts w (zo_ts_obj ob) = Some ts"
  shows "\<exists>r w'. merge_storage d (zo_ts_obj ob) overwrite ps b w = Some (r, w') \<and>
    (\<exists>ob' ts'. w_obj w' d = Some ob' \<and> w_ts w' (zo_ts_obj ob') = Some ts')"
  using assms
proof (induction ps arbitrary: b w ob ts)
  case (Cons p ps)
  obtain k z where p: "p = (k, z)" by force
  show ?case
  proof (cases "\<not> overwrite \<and> zend_hash_exists (store_hash (ts_props ts)) k")
    case False
    obtain z\<^sub>1 w\<^sub>1 where copy: "pthreads_store_hard_copy_storage z w = (z\<^sub>1, w\<^sub>1)" by force
    then have w1: "w_obj w\<^sub>1 = w_obj w" "w_ts w\<^sub>1 = w_ts w" using hard_copy_world by blast+
    define ts\<^sub>2 where "ts\<^sub>2 = ts\<lparr>ts_props := (ts_props ts)\<lparr>store_hash := zend_hash_update (store_hash (ts_props ts)) k z\<^sub>1\<rparr>\<rparr>"
    define w\<^sub>2 where "w\<^sub>2 = set_ts (zo_ts_obj ob) ts\<^sub>2 w\<^sub>1"
    obtain w\<^sub>3 ob\<^sub>3 where w3: "del_local d k w\<^sub>2 = Some w\<^sub>3" "w_obj w\<^sub>3 d = Some ob\<^sub>3" "zo_ts_obj ob\<^sub>3 = zo_ts_obj ob" "w_ts w\<^sub>3 = w_ts w\<^sub>2"
      using Cons.prems(1) w1 by (cases "zo_properties ob") (auto simp: del_local_def w\<^sub>2_def)
    have "w_ts w\<^sub>3 (zo_ts_obj ob\<^sub>3) = Some ts\<^sub>2" by (simp add: w3 w\<^sub>2_def)
    from Cons.IH [OF w3(2) this] False show ?thesis
      by (auto simp: p Cons.prems copy w1 w3 pthreads_store_member_is_cacheable_def pthreads_store_update_shared_property_def
          set_hash_def ts\<^sub>2_def [symmetric] w\<^sub>2_def [symmetric])
  qed (use Cons in \<open>auto simp: p\<close>)
qed auto

lemma merge_storage_other:
  "merge_storage d a overwrite ps b w = Some (r, w') \<Longrightarrow> x \<noteq> a \<Longrightarrow> w_hash w' x = w_hash w x"
proof (induction ps arbitrary: b w)
  case (Cons p ps)
  obtain k z where "p = (k, z)" by force
  with Cons.prems have "merge_storage d a overwrite ((k, z) # ps) b w = Some (r, w')" by simp
  then show ?case
  proof (cases rule: merge_element)
    case (2 c z\<^sub>1 w\<^sub>1 w\<^sub>2 ht)
    with Cons.IH [OF 2(5) Cons.prems(2)] hard_copy_frame [OF 2(1)] Cons.prems(2) show ?thesis by simp
  qed (use Cons in auto)
qed simp

text \<open>
  An enum cell of the source whose key the destination does not have, or may overwrite, is in
  the table of the destination afterwards, with the same strings.
\<close>

lemma merge_storage_keeps:
  "merge_storage d a overwrite ps b w = Some (r, w') \<Longrightarrow> w_hash w a = Some ht \<Longrightarrow> k \<notin> fst ` set ps \<Longrightarrow>
     \<exists>ht'. w_hash w' a = Some ht' \<and> zend_hash_find ht' k = zend_hash_find ht k"
proof (induction ps arbitrary: b w ht)
  case (Cons p ps)
  obtain k' z where p: "p = (k', z)" by force
  with Cons.prems have "merge_storage d a overwrite ((k', z) # ps) b w = Some (r, w')" by simp
  then show ?case
  proof (cases rule: merge_element)
    case (2 c z\<^sub>1 w\<^sub>1 w\<^sub>2 ht\<^sub>1)
    with hard_copy_frame [OF 2(1)] Cons.prems(2) have "w_hash w\<^sub>2 a = Some (zend_hash_update ht k' z\<^sub>1)" by simp
    from Cons.IH [OF 2(5) this] Cons.prems(3) p show ?thesis by auto
  qed (use Cons in auto)
qed simp

lemma merge_storage_enum:
  "merge_storage d a overwrite ps b w = Some (r, w') \<Longrightarrow> w_hash w a = Some ht \<Longrightarrow> distinct (map fst ps) \<Longrightarrow>
     (k, IS_PTR (STORE_TYPE_ENUM c m)) \<in> set ps \<Longrightarrow> overwrite \<or> zend_hash_find ht k = None \<Longrightarrow>
     \<exists>ht'. w_hash w' a = Some ht' \<and> zend_hash_find ht' k = Some (IS_PTR (STORE_TYPE_ENUM c m))"
proof (induction ps arbitrary: b w ht)
  case (Cons p ps)
  obtain k' z where p: "p = (k', z)" by force
  with Cons.prems have "merge_storage d a overwrite ((k', z) # ps) b w = Some (r, w')" by simp
  then show ?case
  proof (cases rule: merge_element)
    case (1 ht\<^sub>1)
    then have "k \<noteq> k'" using Cons.prems(2,5) by (auto simp: zend_hash_exists_def)
    then show ?thesis using Cons.IH [OF 1(1) Cons.prems(2)] Cons.prems(3-5) p by auto
  next
    case (2 c\<^sub>1 z\<^sub>1 w\<^sub>1 w\<^sub>2 ht\<^sub>1)
    with hard_copy_frame [OF 2(1)] Cons.prems(2) have h: "w_hash w\<^sub>2 a = Some (zend_hash_update ht k' z\<^sub>1)" by simp
    show ?thesis
    proof (cases "k = k'")
      case True
      with Cons.prems(3,4) p have "z = IS_PTR (STORE_TYPE_ENUM c m)" by force
      then have "z\<^sub>1 = IS_PTR (STORE_TYPE_ENUM c m)" using 2(1) by (simp add: pthreads_store_hard_copy_storage_def)
      moreover have "k \<notin> fst ` set ps" using Cons.prems(3) p True by auto
      ultimately show ?thesis using merge_storage_keeps [OF 2(5) h, of k] True by auto
    next
      case False
      then show ?thesis using Cons.IH [OF 2(5) h] Cons.prems(3-5) p by auto
    qed
  qed
qed simp

lemma found_owned:
  "zend_hash_find ht k = Some z \<Longrightarrow> set (pthreads_store_storage_dtor (Some z)) \<subseteq> set (cells_dtor (ht_buckets ht))"
  by (force simp: zend_hash_find_def cells_dtor_def dest: map_of_SomeD)

lemma bump_total:
  assumes "w_obj w d = Some ob" and "w_ts w (zo_ts_obj ob) = Some ts"
  shows "\<exists>w'. (if c then pthreads_store_bump_modcount_nolock d w else Some w) = Some w' \<and> w_hash w' = w_hash w"
proof -
  obtain w' where "pthreads_store_bump_modcount_nolock d w = Some w'"
    using assms by (auto simp: pthreads_store_bump_modcount_nolock_def Let_def)
  with bump_hash [OF this] show ?thesis by auto
qed


text \<open>An empty array and one that holds an enum case.\<close>

definition demo_table :: "hash \<Rightarrow> pthreads_object" where
  "demo_table ht = \<lparr>ts_refcount = 1, ts_scope = PTHREADS_SCOPE_THREADED, ts_props = \<lparr>store_hash = ht, store_modcount = 0\<rparr>,
     ts_creator = self_ident demo_engine 1, ts_local = None\<rparr>"

definition enum_demo :: world where
  "enum_demo = empty_world\<lparr>w_obj := [1 \<mapsto> zero_object\<lparr>zo_ts_obj := 3\<rparr>, 2 \<mapsto> zero_object\<lparr>zo_ts_obj := 4\<rparr>],
     w_ts := [3 \<mapsto> demo_table zend_hash_init, 4 \<mapsto> demo_table (zend_hash_update zend_hash_init (KLong 0)
       (IS_PTR (STORE_TYPE_ENUM (demo_string 500 ''Suit'') (demo_string 501 ''Hearts''))))]\<rparr>"


end
