(* ===== verification/Worker.thy ===== *)
theory Worker
  imports Store_Access
begin

text \<open>
  The operations of src/worker.c that look into tasks, and the full synchronisation of
  src/store.c they use. Synchronisation follows threaded objects recursively, so it runs on
  fuel: \<open>None\<close> is also a run that needs more.
\<close>

section \<open>Full synchronisation\<close>

definition set_recursive :: "addr \<Rightarrow> bool \<Rightarrow> world \<Rightarrow> world option" where
  "set_recursive obj b w = do { ob \<leftarrow> w_obj w obj; Some (set_obj obj (ob\<lparr>zo_recursive := b\<rparr>) w) }"

definition put_local :: "addr \<Rightarrow> zkey \<Rightarrow> zval \<Rightarrow> world \<Rightarrow> world option" where
  "put_local obj k v w = do {
     ob \<leftarrow> w_obj w obj;
     props \<leftarrow> zo_properties ob;
     Some (set_obj obj (ob\<lparr>zo_properties := Some (zend_hash_update props k v)\<rparr>) w) }"

definition locally_cached :: "addr \<Rightarrow> zkey \<Rightarrow> world \<Rightarrow> bool option" where
  "locally_cached obj k w = do {
     ob \<leftarrow> w_obj w obj;
     props \<leftarrow> zo_properties ob;
     Some (case zend_hash_find props k of
         None \<Rightarrow> False | Some c \<Rightarrow> pthreads_store_valid_local_cache_item c) }"

definition lifted :: "(world \<Rightarrow> world option) \<Rightarrow> world \<Rightarrow> (unit \<times> world) option" where
  "lifted f w = do { w \<leftarrow> f w; Some ((), w) }"

definition skip_lock :: "world \<Rightarrow> (unit \<times> world) option" where
  "skip_lock w = Some ((), w)"

text \<open>
  The body of the synchronisation of one object: \<open>entries\<close> goes through the shared table and
  \<open>tasks\<close> through the finished tasks of a worker.
\<close>

definition sync_gc_tasks ::
  "tid \<Rightarrow> addr \<Rightarrow> (zval list \<Rightarrow> world \<Rightarrow> world option) \<Rightarrow> world \<Rightarrow> (zend_result \<times> world) option" where
  "sync_gc_tasks t a tasks w = do {
     d \<leftarrow> w_workers w a;
     with_monitor t (wd_monitor d)
       (\<lambda>w. do {
          d \<leftarrow> w_workers w a;
          vs \<leftarrow> values_from (q_head (wd_gc d)) (w_heap w);
          w \<leftarrow> tasks vs w;
          Some (SUCCESS, w) })
       (\<lambda>w. Some (FAILURE, w)) w }"

definition full_sync_locked ::
  "zend_engine \<Rightarrow> tid \<Rightarrow> addr \<Rightarrow> pthreads_zend_object \<Rightarrow> ((zkey \<times> zval) list \<Rightarrow> world \<Rightarrow> world option) \<Rightarrow>
   (zval list \<Rightarrow> world \<Rightarrow> world option) \<Rightarrow> world \<Rightarrow> world option" where
  "full_sync_locked E t obj threaded entries tasks w = do {
     w \<leftarrow> set_recursive obj True w;
     w \<leftarrow> pthreads_store_sync_local_properties t obj w;
     w \<leftarrow> pthreads_store_init_local_properties E obj w;
     ts_obj \<leftarrow> w_ts w (zo_ts_obj threaded);
     w \<leftarrow> entries (ht_buckets (store_hash (ts_props ts_obj))) w;
     w \<leftarrow> (case zo_worker_data threaded of
         None \<Rightarrow> Some w
       | Some a \<Rightarrow> do { (_, w) \<leftarrow> sync_gc_tasks t a tasks w; Some w });
     set_recursive obj False w }"

definition full_sync_object ::
  "zend_engine \<Rightarrow> tid \<Rightarrow> addr \<Rightarrow> ((zkey \<times> zval) list \<Rightarrow> world \<Rightarrow> world option) \<Rightarrow>
   (zval list \<Rightarrow> world \<Rightarrow> world option) \<Rightarrow> world \<Rightarrow> world option" where
  "full_sync_object E t obj entries tasks w = do {
     threaded \<leftarrow> w_obj w obj;
     if zo_recursive threaded then Some w
     else do {
       _ \<leftarrow> w_ts w (zo_ts_obj threaded);
       (_, w) \<leftarrow> with_monitor t (LTs (zo_ts_obj threaded))
         (lifted (full_sync_locked E t obj threaded entries tasks)) skip_lock w;
       Some w } }"

definition full_sync_entry ::
  "zend_engine \<Rightarrow> tid \<Rightarrow> addr \<Rightarrow> (addr \<Rightarrow> world \<Rightarrow> world option) \<Rightarrow> zkey \<Rightarrow> zval \<Rightarrow> world \<Rightarrow> world option" where
  "full_sync_entry E t obj sync k zstorage w = do {
     present \<leftarrow> locally_cached obj k w;
     if present \<or> \<not> pthreads_store_storage_is_cacheable (Some zstorage) then Some w
     else do {
       (v, w) \<leftarrow> pthreads_store_restore_zval E t zstorage w;
       w \<leftarrow> (case IS_PTHREADS_OBJECT v of None \<Rightarrow> Some w | Some a \<Rightarrow> sync a w);
       put_local obj k v w } }"

definition full_sync_task :: "tid \<Rightarrow> (addr \<Rightarrow> world \<Rightarrow> world option) \<Rightarrow> zval \<Rightarrow> world \<Rightarrow> world option" where
  "full_sync_task t sync v w = do {
     a \<leftarrow> IS_PTHREADS_OBJECT v;
     threaded \<leftarrow> w_obj w a;
     _ \<leftarrow> w_ts w (zo_ts_obj threaded);
     (_, w) \<leftarrow> with_monitor t (LTs (zo_ts_obj threaded)) (lifted (sync a)) skip_lock w;
     Some w }"

text \<open>Running one step for each element of a list.\<close>

fun for_each :: "('a \<Rightarrow> 's \<Rightarrow> 's option) \<Rightarrow> 'a list \<Rightarrow> 's \<Rightarrow> 's option" where
  "for_each f [] w = Some w"
| "for_each f (x # xs) w = do { w \<leftarrow> f x w; for_each f xs w }"

fun pthreads_store_full_sync_local_properties ::
  "nat \<Rightarrow> zend_engine \<Rightarrow> tid \<Rightarrow> addr \<Rightarrow> world \<Rightarrow> world option" where
  "pthreads_store_full_sync_local_properties 0 E t obj w = None"
| "pthreads_store_full_sync_local_properties (Suc n) E t obj w =
     full_sync_object E t obj
       (for_each (\<lambda>(k, z). full_sync_entry E t obj (pthreads_store_full_sync_local_properties n E t) k z))
       (for_each (full_sync_task t (pthreads_store_full_sync_local_properties n E t))) w"

definition full_sync_tasks :: "nat \<Rightarrow> zend_engine \<Rightarrow> tid \<Rightarrow> zval list \<Rightarrow> world \<Rightarrow> world option" where
  "full_sync_tasks n E t = for_each (full_sync_task t (pthreads_store_full_sync_local_properties n E t))"

section \<open>Collecting finished tasks\<close>

definition pthreads_worker_sync_collectable_tasks ::
  "nat \<Rightarrow> zend_engine \<Rightarrow> tid \<Rightarrow> addr \<Rightarrow> world \<Rightarrow> (zend_result \<times> world) option" where
  "pthreads_worker_sync_collectable_tasks n E t a w = sync_gc_tasks t a (full_sync_tasks n E t) w"

text \<open>
  The loop of \<open>pthreads_worker_collect_tasks\<close>. The collector is a PHP callback; it is a
  parameter that maps the task and the state to its verdict and a new state. The loop ends
  at the first task the collector does not accept.
\<close>

type_synonym collector = "zval \<Rightarrow> world \<Rightarrow> (bool \<times> world) option"

partial_function (option) collect_loop ::
  "nat \<Rightarrow> zend_engine \<Rightarrow> tid \<Rightarrow> addr \<Rightarrow> collector \<Rightarrow> addr option \<Rightarrow> nat \<Rightarrow> world \<Rightarrow> (nat \<times> world) option" where
  "collect_loop n E t a collect item collected w =
     (case item of
        None \<Rightarrow> Some (collected, w)
      | Some p \<Rightarrow> do {
          it \<leftarrow> qh_items (w_heap w) p;
          obj \<leftarrow> IS_PTHREADS_OBJECT (qi_value it);
          w \<leftarrow> pthreads_store_full_sync_local_properties n E t obj w;
          (ok, w) \<leftarrow> collect (qi_value it) w;
          if ok then do {
            it \<leftarrow> qh_items (w_heap w) p;
            d \<leftarrow> w_workers w a;
            (_, _, gc, h) \<leftarrow> pthreads_queue_shift (wd_gc d) False PTHREADS_STACK_FREE (w_heap w);
            collect_loop n E t a collect (qi_next it) (Suc collected)
              (set_worker a (d\<lparr>wd_gc := gc\<rparr>) (set_heap h w)) }
          else Some (collected, w) })"

declare collect_loop.simps [code]

definition set_monitor :: "lock_id \<Rightarrow> pthreads_monitor \<Rightarrow> world \<Rightarrow> world" where
  "set_monitor l m w = w\<lparr>w_monitors := (w_monitors w)(l := m)\<rparr>"

definition pthreads_worker_collect_tasks ::
  "nat \<Rightarrow> zend_engine \<Rightarrow> tid \<Rightarrow> addr \<Rightarrow> collector \<Rightarrow> world \<Rightarrow> (int \<times> world) option" where
  "pthreads_worker_collect_tasks n E t a collect w = do {
     d \<leftarrow> w_workers w a;
     with_monitor t (wd_monitor d)
       (\<lambda>w. do {
          d \<leftarrow> w_workers w a;
          (collected, w) \<leftarrow> collect_loop n E t a collect (q_head (wd_gc d)) 0 w;
          d \<leftarrow> w_workers w a;
          w \<leftarrow> (if 0 < collected then do {
              let w = set_worker a (d\<lparr>wd_tasks_collected := wd_tasks_collected d + collected\<rparr>) w;
              m \<leftarrow> pthreads_monitor_add t PTHREADS_MONITOR_COLLECT_GARBAGE (w_monitors w (wd_monitor d));
              Some (set_monitor (wd_monitor d) m w) }
            else Some w);
          d \<leftarrow> w_workers w a;
          Some (q_size (wd_queue d) + q_size (wd_gc d) + (if wd_running d \<noteq> None then 1 else 0), w) })
       (\<lambda>w. Some (0, w)) w }"

text \<open>
  \<open>pthreads_worker_collect_function\<close>: the verdict of the PHP callback. \<open>call\<close> is the engine's
  \<open>zend_call_function\<close>: its result code and the returned value; \<open>is_true\<close> is \<open>zend_is_true\<close>.
\<close>

definition pthreads_worker_collect_function ::
  "(zval \<Rightarrow> world \<Rightarrow> ((zend_result \<times> zval) \<times> world) option) \<Rightarrow> (zval \<Rightarrow> bool) \<Rightarrow> collector" where
  "pthreads_worker_collect_function call is_true collectable w = do {
     ((code, result), w) \<leftarrow> call collectable w;
     Some (code = SUCCESS \<and> result \<noteq> IS_UNDEF \<and> is_true result, w) }"

end
