(* ===== verification/Handlers.thy ===== *)
theory Handlers
  imports Worker
begin

text \<open>
  src/handlers.c: the object handlers the engine calls for property and array access. The
  magic methods of a class, the lookup of a declared property (which depends on the
  calling scope) and the check of a property type belong to the engine and are parameters.
\<close>

unbundle bit_operations_syntax

definition IN_GET :: "32 word" where "IN_GET = push_bit 0 1"
definition IN_SET :: "32 word" where "IN_SET = push_bit 1 1"
definition IN_UNSET :: "32 word" where "IN_UNSET = push_bit 2 1"
definition IN_ISSET :: "32 word" where "IN_ISSET = push_bit 3 1"

datatype property_lookup = WrongProperty | DynamicProperty | DeclaredProperty property_info

record magic_methods =
  magic_get :: "string \<Rightarrow> (addr \<Rightarrow> string \<Rightarrow> world \<Rightarrow> (zval \<times> world) option) option"
  magic_set :: "string \<Rightarrow> (addr \<Rightarrow> string \<Rightarrow> zval \<Rightarrow> world \<Rightarrow> world option) option"
  magic_isset :: "string \<Rightarrow> (addr \<Rightarrow> string \<Rightarrow> world \<Rightarrow> (zval \<times> world) option) option"
  magic_unset :: "string \<Rightarrow> (addr \<Rightarrow> string \<Rightarrow> world \<Rightarrow> world option) option"
  get_property_info :: "string \<Rightarrow> string \<Rightarrow> property_lookup"
  verify_property_type :: "property_info \<Rightarrow> zval \<Rightarrow> bool"
  is_true :: "zval \<Rightarrow> bool"

definition set_guard :: "addr \<Rightarrow> string \<Rightarrow> 32 word \<Rightarrow> world \<Rightarrow> world" where
  "set_guard obj member g w = w\<lparr>w_guards := (w_guards w)(obj := (w_guards w obj)(member := g))\<rparr>"

text \<open>Run \<open>body\<close> with a flag raised in the guard of a property.\<close>

definition guarded :: "addr \<Rightarrow> string \<Rightarrow> 32 word \<Rightarrow> (world \<Rightarrow> ('a \<times> world) option) \<Rightarrow> world \<Rightarrow>
  ('a \<times> world) option" where
  "guarded obj member flag body w = do {
     (r, w) \<leftarrow> body (set_guard obj member (w_guards w obj member OR flag) w);
     Some (r, set_guard obj member (w_guards w obj member AND NOT flag) w) }"

definition guard_free :: "addr \<Rightarrow> string \<Rightarrow> 32 word \<Rightarrow> world \<Rightarrow> bool" where
  "guard_free obj member flag w \<longleftrightarrow> w_guards w obj member AND flag = 0"

definition name_zval :: "zend_string \<Rightarrow> zval" where
  "name_zval s = IS_STRING s"

text \<open>The member name a handler looks up: the mangled name of a declared property.\<close>

definition member_zval :: "property_lookup \<Rightarrow> zend_string \<Rightarrow> zval" where
  "member_zval info member =
     (case info of
        DeclaredProperty i \<Rightarrow> IS_STRING (if pi_static i then member else pi_name i)
      | _ \<Rightarrow> IS_STRING member)"

section \<open>Arrays\<close>

definition pthreads_count_properties :: "tid \<Rightarrow> addr \<Rightarrow> world \<Rightarrow> (nat \<times> world) option" where
  "pthreads_count_properties t obj w = pthreads_store_count t obj w"

definition pthreads_read_debug :: "zend_engine \<Rightarrow> tid \<Rightarrow> addr \<Rightarrow> world \<Rightarrow> (hash \<times> world) option" where
  "pthreads_read_debug E t obj w = do {
     (r, w) \<leftarrow> pthreads_store_tohash E t obj (Some zend_hash_init) w;
     table \<leftarrow> r;
     Some (table, w) }"

definition pthreads_read_properties :: "zend_engine \<Rightarrow> tid \<Rightarrow> addr \<Rightarrow> world \<Rightarrow> (hash \<times> world) option" where
  "pthreads_read_properties E t obj w = do {
     ob \<leftarrow> w_obj w obj;
     (_, w) \<leftarrow> pthreads_store_tohash E t obj None (set_obj obj (rebuild_object_properties E ob) w);
     ob \<leftarrow> w_obj w obj;
     props \<leftarrow> zo_properties ob;
     Some (props, w) }"

definition pthreads_get_property_ptr_ptr_stub :: "addr \<Rightarrow> zend_string \<Rightarrow> addr option" where
  "pthreads_get_property_ptr_ptr_stub obj member = None"

definition pthreads_read_dimension ::
  "zend_engine \<Rightarrow> tid \<Rightarrow> addr \<Rightarrow> zval \<Rightarrow> fetch_type \<Rightarrow> world \<Rightarrow> (zval \<times> world) option" where
  "pthreads_read_dimension E t obj member type w = do {
     ((_, rv), w) \<leftarrow> pthreads_store_read E t obj member type w;
     Some (rv, w) }"

definition pthreads_write_dimension ::
  "zend_engine \<Rightarrow> tid \<Rightarrow> addr \<Rightarrow> zval option \<Rightarrow> zval \<Rightarrow> world \<Rightarrow> world option" where
  "pthreads_write_dimension E t obj member val w = do {
     (r, w) \<leftarrow> pthreads_store_write E t obj member val False w;
     Some (if r = FAILURE then throw t NonThreadSafeAssign w else w) }"

definition pthreads_has_dimension ::
  "zend_engine \<Rightarrow> tid \<Rightarrow> addr \<Rightarrow> zval \<Rightarrow> has_set_exists \<Rightarrow> world \<Rightarrow> (bool \<times> world) option" where
  "pthreads_has_dimension E t obj member mode w = pthreads_store_isset E t obj member mode w"

definition pthreads_unset_dimension :: "zend_engine \<Rightarrow> tid \<Rightarrow> addr \<Rightarrow> zval \<Rightarrow> world \<Rightarrow> world option" where
  "pthreads_unset_dimension E t obj member w = do {
     (_, w) \<leftarrow> pthreads_store_delete E t obj member w;
     Some w }"

section \<open>Properties\<close>

text \<open>
  Reading past the magic method. A warning for an undefined dynamic property is recorded
  like an error; the value is then null, the engine's uninitialised zval.
\<close>

definition read_declared ::
  "zend_engine \<Rightarrow> magic_methods \<Rightarrow> tid \<Rightarrow> addr \<Rightarrow> string \<Rightarrow> zend_string \<Rightarrow> fetch_type \<Rightarrow> world \<Rightarrow>
   (zval \<times> world) option" where
  "read_declared E M t obj ce member type w =
     (case get_property_info M ce (zs_val member) of
        WrongProperty \<Rightarrow> Some (IS_NULL, w)
      | info \<Rightarrow> do {
          ((_, rv), w) \<leftarrow> pthreads_store_read E t obj (member_zval info member) type w;
          if rv = IS_UNDEF
          then Some (IS_NULL, if type = BP_VAR_IS then w
            else (case info of
                DeclaredProperty i \<Rightarrow>
                  if pi_static i then throw t (UndefinedProperty ce (zs_val member)) w
                  else throw t (UninitializedProperty ce (zs_val member)) w
              | _ \<Rightarrow> throw t (UndefinedProperty ce (zs_val member)) w))
          else Some (rv, w) })"

definition pthreads_read_property ::
  "zend_engine \<Rightarrow> magic_methods \<Rightarrow> tid \<Rightarrow> addr \<Rightarrow> zend_string \<Rightarrow> fetch_type \<Rightarrow> world \<Rightarrow>
   (zval \<times> world) option" where
  "pthreads_read_property E M t obj member type w = do {
     ob \<leftarrow> w_obj w obj;
     case magic_get M (zo_ce ob) of
       Some get \<Rightarrow>
         if guard_free obj (zs_val member) IN_GET w
         then guarded obj (zs_val member) IN_GET (get obj (zs_val member)) w
         else read_declared E M t obj (zo_ce ob) member type w
     | None \<Rightarrow> read_declared E M t obj (zo_ce ob) member type w }"

text \<open>Writing past the magic method: the type check, then the store.\<close>

definition write_declared ::
  "zend_engine \<Rightarrow> magic_methods \<Rightarrow> tid \<Rightarrow> addr \<Rightarrow> string \<Rightarrow> zend_string \<Rightarrow> zval \<Rightarrow> world \<Rightarrow> world option"
  where
  "write_declared E M t obj ce member val w =
     (case get_property_info M ce (zs_val member) of
        WrongProperty \<Rightarrow> Some w
      | info \<Rightarrow>
          if (case info of DeclaredProperty i \<Rightarrow> \<not> pi_static i \<and> \<not> verify_property_type M i val | _ \<Rightarrow> False)
          then Some w
          else do {
            (r, w) \<leftarrow> pthreads_store_write E t obj (Some (member_zval info member)) val False w;
            Some (if r = FAILURE then throw t (NonThreadSafeProperty ce (zs_val member)) w else w) })"

definition pthreads_write_property ::
  "zend_engine \<Rightarrow> magic_methods \<Rightarrow> tid \<Rightarrow> addr \<Rightarrow> zend_string \<Rightarrow> zval \<Rightarrow> world \<Rightarrow> world option" where
  "pthreads_write_property E M t obj member val w = do {
     ob \<leftarrow> w_obj w obj;
     case magic_set M (zo_ce ob) of
       Some setter \<Rightarrow>
         if guard_free obj (zs_val member) IN_SET w
         then do {
           (_, w) \<leftarrow> guarded obj (zs_val member) IN_SET (lifted (setter obj (zs_val member) val)) w;
           Some w }
         else write_declared E M t obj (zo_ce ob) member val w
     | None \<Rightarrow> write_declared E M t obj (zo_ce ob) member val w }"

definition has_declared ::
  "zend_engine \<Rightarrow> magic_methods \<Rightarrow> tid \<Rightarrow> addr \<Rightarrow> string \<Rightarrow> zend_string \<Rightarrow> has_set_exists \<Rightarrow> world \<Rightarrow>
   (bool \<times> world) option" where
  "has_declared E M t obj ce member mode w =
     (case get_property_info M ce (zs_val member) of
        WrongProperty \<Rightarrow> Some (False, w)
      | info \<Rightarrow> pthreads_store_isset E t obj (member_zval info member) mode w)"

text \<open>
  \<open>pthreads_has_property\<close>: when the magic method returns nothing the result variable is never
  written; it is the argument \<open>junk\<close> here.
\<close>

definition pthreads_has_property ::
  "zend_engine \<Rightarrow> magic_methods \<Rightarrow> bool \<Rightarrow> tid \<Rightarrow> addr \<Rightarrow> zend_string \<Rightarrow> has_set_exists \<Rightarrow> world \<Rightarrow>
   (bool \<times> world) option" where
  "pthreads_has_property E M junk t obj member mode w = do {
     ob \<leftarrow> w_obj w obj;
     case magic_isset M (zo_ce ob) of
       Some isset \<Rightarrow>
         if guard_free obj (zs_val member) IN_ISSET w
         then do {
           (rv, w) \<leftarrow> guarded obj (zs_val member) IN_ISSET (isset obj (zs_val member)) w;
           Some (if rv \<noteq> IS_UNDEF then is_true M rv else junk, w) }
         else has_declared E M t obj (zo_ce ob) member mode w
     | None \<Rightarrow> has_declared E M t obj (zo_ce ob) member mode w }"

definition unset_declared ::
  "zend_engine \<Rightarrow> magic_methods \<Rightarrow> tid \<Rightarrow> addr \<Rightarrow> string \<Rightarrow> zend_string \<Rightarrow> world \<Rightarrow> world option" where
  "unset_declared E M t obj ce member w =
     (case get_property_info M ce (zs_val member) of
        WrongProperty \<Rightarrow> Some w
      | info \<Rightarrow> do {
          (_, w) \<leftarrow> pthreads_store_delete E t obj (member_zval info member) w;
          Some w })"

definition pthreads_unset_property ::
  "zend_engine \<Rightarrow> magic_methods \<Rightarrow> tid \<Rightarrow> addr \<Rightarrow> zend_string \<Rightarrow> world \<Rightarrow> world option" where
  "pthreads_unset_property E M t obj member w = do {
     ob \<leftarrow> w_obj w obj;
     case magic_unset M (zo_ce ob) of
       Some unset \<Rightarrow>
         if guard_free obj (zs_val member) IN_UNSET w
         then do {
           (_, w) \<leftarrow> guarded obj (zs_val member) IN_UNSET (lifted (unset obj (zs_val member))) w;
           Some w }
         else unset_declared E M t obj (zo_ce ob) member w
     | None \<Rightarrow> unset_declared E M t obj (zo_ce ob) member w }"

section \<open>Casting and comparing\<close>

text \<open>
  A cast to an array fills the given table; every other cast is left to the engine's own
  handler, which is a parameter.
\<close>

definition pthreads_cast_object ::
  "zend_engine \<Rightarrow> (addr \<Rightarrow> world \<Rightarrow> (zval \<times> world) option) \<Rightarrow> tid \<Rightarrow> addr \<Rightarrow> bool \<Rightarrow> hash \<Rightarrow> world \<Rightarrow>
   (zval \<times> world) option" where
  "pthreads_cast_object E engine_cast t from to_array to w =
     (if to_array then do {
        (r, w) \<leftarrow> pthreads_store_tohash E t from (Some to) w;
        table \<leftarrow> r;
        Some (IS_ARRAY (ht_buckets table), w) }
      else engine_cast from w)"

definition pthreads_compare_objects :: "addr \<Rightarrow> addr \<Rightarrow> world \<Rightarrow> int option" where
  "pthreads_compare_objects op1 op2 w = do {
     l \<leftarrow> w_obj w op1;
     r \<leftarrow> w_obj w op2;
     Some (if zo_ts_obj l = zo_ts_obj r then 0 else 1) }"

end
