(* ===== verification/Lifecycle.thy ===== *)
theory Lifecycle
  imports Handlers
begin

text \<open>
  Starting, running and joining threads (src/object.c and the entry point of
  src/prepare.c). First the operations of the creator and of the thread up to the points
  where they wait; then the protocol between the two as a step relation on the monitor of
  the object and the monitor of the start-up handshake.
\<close>

unbundle bit_operations_syntax

section \<open>Starting\<close>

definition add_flag :: "tid \<Rightarrow> lock_id \<Rightarrow> monitor_state \<Rightarrow> world \<Rightarrow> world option" where
  "add_flag t l state w = do {
     m \<leftarrow> pthreads_monitor_add t state (w_monitors w l);
     Some (set_monitor l m w) }"

definition remove_flag :: "tid \<Rightarrow> lock_id \<Rightarrow> monitor_state \<Rightarrow> world \<Rightarrow> world option" where
  "remove_flag t l state w = do {
     m \<leftarrow> pthreads_monitor_remove t state (w_monitors w l);
     Some (set_monitor l m w) }"

definition PTHREADS_IN_CREATOR :: "tid \<Rightarrow> pthreads_object \<Rightarrow> bool" where
  "PTHREADS_IN_CREATOR t ts \<longleftrightarrow> ident_ls (ts_creator ts) = t"

definition PTHREADS_IS_THREAD :: "pthreads_object \<Rightarrow> bool" where
  "PTHREADS_IS_THREAD ts \<longleftrightarrow> ts_scope ts AND PTHREADS_SCOPE_THREAD \<noteq> 0"

definition PTHREADS_IS_WORKER :: "pthreads_object \<Rightarrow> bool" where
  "PTHREADS_IS_WORKER ts \<longleftrightarrow> ts_scope ts AND PTHREADS_SCOPE_WORKER \<noteq> 0"

definition pthreads_routine_init :: "tid \<Rightarrow> addr \<Rightarrow> addr \<Rightarrow> world \<Rightarrow> world option" where
  "pthreads_routine_init t routine a w =
     add_flag t (LTs a) PTHREADS_MONITOR_STARTED (set_monitor (LReady routine) fresh_monitor w)"

text \<open>
  \<open>pthreads_routine_wait\<close>, up to the point where the creator sleeps and from the point where it wakes up: when the new thread is ready, the
  monitor of the handshake is destroyed. The result says whether the wait is over.
\<close>

definition routine_done :: "bool \<times> pthreads_monitor \<Rightarrow> (bool \<times> pthreads_monitor) option" where
  "routine_done r = (if fst r then do { _ \<leftarrow> pthreads_monitor_destroy (snd r); Some r } else Some r)"

definition pthreads_routine_wait :: "tid \<Rightarrow> pthreads_monitor \<Rightarrow> (bool \<times> pthreads_monitor) option" where
  "pthreads_routine_wait t ready = Option.bind (pthreads_monitor_wait_until t PTHREADS_MONITOR_READY ready) routine_done"

definition routine_wait_resume :: "tid \<Rightarrow> pthreads_monitor \<Rightarrow> (bool \<times> pthreads_monitor) option" where
  "routine_wait_resume t ready = Option.bind (wait_until_resume t PTHREADS_MONITOR_READY ready) routine_done"

definition pthreads_routine_free :: "tid \<Rightarrow> addr \<Rightarrow> addr \<Rightarrow> world \<Rightarrow> world option" where
  "pthreads_routine_free t routine a w = remove_flag t (LTs a) PTHREADS_MONITOR_STARTED w"

datatype start_result = StartRefused | StartFailed | StartWaits

text \<open>
  \<open>pthreads_start\<close> up to the wait for the new thread; \<open>create\<close> is the result of \<open>pthread_create\<close>.
  The routine argument lives on the creator's stack and is named by the object.
\<close>

definition pthreads_start :: "int \<Rightarrow> tid \<Rightarrow> addr \<Rightarrow> world \<Rightarrow> (start_result \<times> world) option" where
  "pthreads_start create t obj w = do {
     thread \<leftarrow> w_obj w obj;
     ts_obj \<leftarrow> w_ts w (zo_ts_obj thread);
     if \<not> PTHREADS_IN_CREATOR t ts_obj \<or> zo_original_zobj thread \<noteq> None
     then Some (StartRefused, throw t (OnlyCreatorMay ''start'') w)
     else if pthreads_monitor_check (w_monitors w (LTs (zo_ts_obj thread))) PTHREADS_MONITOR_STARTED \<noteq> 0
     then Some (StartRefused, throw t AlreadyStarted w)
     else do {
       w \<leftarrow> pthreads_routine_init t obj (zo_ts_obj thread) w;
       if create = 0 then Some (StartWaits, w)
       else do {
         w \<leftarrow> pthreads_routine_free t obj (zo_ts_obj thread)
               (throw t (if create = EAGAIN then OutOfResources else UnknownStartError) w);
         Some (StartFailed, w) } } }"

datatype join_result = JoinRefused | JoinWaits

text \<open>\<open>pthreads_join\<close> up to the wait for the thread to stop running PHP code.\<close>

definition pthreads_join_begin :: "tid \<Rightarrow> addr \<Rightarrow> world \<Rightarrow> (join_result \<times> world) option" where
  "pthreads_join_begin t obj w = do {
     thread \<leftarrow> w_obj w obj;
     ts_obj \<leftarrow> w_ts w (zo_ts_obj thread);
     let m = w_monitors w (LTs (zo_ts_obj thread));
     if \<not> PTHREADS_IN_CREATOR t ts_obj \<or> zo_original_zobj thread \<noteq> None
     then Some (JoinRefused, throw t (OnlyCreatorMay ''join'') w)
     else if pthreads_monitor_check m PTHREADS_MONITOR_JOINED \<noteq> 0
     then Some (JoinRefused, throw t AlreadyJoined w)
     else if pthreads_monitor_check m PTHREADS_MONITOR_STARTED = 0
     then Some (JoinRefused, throw t NotStarted w)
     else do {
       w \<leftarrow> add_flag t (LTs (zo_ts_obj thread)) PTHREADS_MONITOR_JOINED w;
       Some (JoinWaits, w) } }"

text \<open>The rest of \<open>pthreads_join\<close>, after the wait: synchronise, then let the thread exit.\<close>

definition pthreads_join_end :: "nat \<Rightarrow> zend_engine \<Rightarrow> tid \<Rightarrow> addr \<Rightarrow> world \<Rightarrow> world option" where
  "pthreads_join_end n E t obj w = do {
     thread \<leftarrow> w_obj w obj;
     _ \<leftarrow> w_ts w (zo_ts_obj thread);
     (_, w) \<leftarrow> with_monitor t (LTs (zo_ts_obj thread))
       (lifted (pthreads_store_full_sync_local_properties n E t obj)) skip_lock w;
     w \<leftarrow> (case zo_worker_data thread of
         None \<Rightarrow> Some w
       | Some a \<Rightarrow> do { (_, w) \<leftarrow> pthreads_worker_sync_collectable_tasks n E t a w; Some w });
     add_flag t (LTs (zo_ts_obj thread)) PTHREADS_MONITOR_EXIT w }"

text \<open>Whether the destructor of an object joins its thread first.\<close>

definition base_dtor_joins :: "tid \<Rightarrow> addr \<Rightarrow> world \<Rightarrow> bool option" where
  "base_dtor_joins t obj w = do {
     base \<leftarrow> w_obj w obj;
     ts \<leftarrow> w_ts w (zo_ts_obj base);
     let m = w_monitors w (LTs (zo_ts_obj base));
     Some (zo_original_zobj base = None \<and> PTHREADS_IN_CREATOR t ts \<and>
       (PTHREADS_IS_THREAD ts \<or> PTHREADS_IS_WORKER ts) \<and>
       pthreads_monitor_check m PTHREADS_MONITOR_STARTED \<noteq> 0 \<and>
       pthreads_monitor_check m PTHREADS_MONITOR_JOINED = 0) }"

section \<open>The thread\<close>

text \<open>The preparation steps of \<open>pthreads_prepared_startup\<close>, in order, for the inheritance options.\<close>

datatype prepare_step =
    PrepareSapi | PrepareIni | PrepareConstants | PrepareFunctions | PrepareClosures
  | PrepareClasses | CreateEntry | LateBindings | PrepareIncludes | PrepareResourceDestructor

definition PTHREADS_INHERIT_INI :: zend_ulong where "PTHREADS_INHERIT_INI = 0x1"
definition PTHREADS_INHERIT_CONSTANTS :: zend_ulong where "PTHREADS_INHERIT_CONSTANTS = 0x10"
definition PTHREADS_INHERIT_FUNCTIONS :: zend_ulong where "PTHREADS_INHERIT_FUNCTIONS = 0x100"
definition PTHREADS_INHERIT_CLASSES :: zend_ulong where "PTHREADS_INHERIT_CLASSES = 0x1000"
definition PTHREADS_INHERIT_INCLUDES :: zend_ulong where "PTHREADS_INHERIT_INCLUDES = 0x10000"
definition PTHREADS_INHERIT_COMMENTS :: zend_ulong where "PTHREADS_INHERIT_COMMENTS = 0x100000"
definition PTHREADS_INHERIT_ALL :: zend_ulong where "PTHREADS_INHERIT_ALL = 0x111111"

definition prepared_startup_steps :: "zend_ulong \<Rightarrow> prepare_step list" where
  "prepared_startup_steps options =
     [PrepareSapi]
     @ (if options AND PTHREADS_INHERIT_INI \<noteq> 0 then [PrepareIni] else [])
     @ (if options AND PTHREADS_INHERIT_CONSTANTS \<noteq> 0 then [PrepareConstants] else [])
     @ (if options AND PTHREADS_INHERIT_FUNCTIONS \<noteq> 0 then [PrepareFunctions] else [PrepareClosures])
     @ (if options AND PTHREADS_INHERIT_CLASSES \<noteq> 0 then [PrepareClasses] else [CreateEntry, LateBindings])
     @ (if options AND PTHREADS_INHERIT_INCLUDES \<noteq> 0 then [PrepareIncludes] else [])
     @ [PrepareResourceDestructor]"

text \<open>
  How the PHP method \<open>run\<close> ends: normally (an exception that a user handler takes counts as
  normal), with an exception nobody handles, or with a bail-out of the engine.
\<close>

datatype run_end = RunReturns | RunUncaught | RunBailout

definition run_worker_key :: zval where
  "run_worker_key = IS_STRING \<lparr>zs_addr = 0, zs_val = strings_worker pthreads_globals_strings, zs_interned = True,
     zs_permanent = True, zs_persistent = True\<rparr>"

definition pthreads_routine_run_function ::
  "zend_engine \<Rightarrow> (addr \<Rightarrow> world \<Rightarrow> (run_end \<times> world) option) \<Rightarrow> tid \<Rightarrow> addr \<Rightarrow> addr \<Rightarrow> addr option \<Rightarrow> world \<Rightarrow>
   (bool \<times> world) option" where
  "pthreads_routine_run_function E run t object connection work w = do {
     (r, w) \<leftarrow> pthreads_connect t object connection w;
     if r \<noteq> SUCCESS then Some (False, w)
     else do {
       ob \<leftarrow> w_obj w object;
       let l = LTs (zo_ts_obj ob);
       if pthreads_monitor_check (w_monitors w l) PTHREADS_MONITOR_ERROR \<noteq> 0 then Some (False, w)
       else do {
         w \<leftarrow> add_flag t l PTHREADS_MONITOR_RUNNING w;
         w \<leftarrow> (case work of
             None \<Rightarrow> Some w
           | Some a \<Rightarrow> do {
               (_, w) \<leftarrow> pthreads_store_write E t a (Some run_worker_key) (zg_this (w_zg w t)) False w;
               Some w });
         (e, w) \<leftarrow> run connection w;
         w \<leftarrow> (if e = RunReturns then Some w else add_flag t l PTHREADS_MONITOR_ERROR w);
         w \<leftarrow> remove_flag t l PTHREADS_MONITOR_RUNNING w;
         Some (True, w) } } }"

section \<open>The protocol of creator and thread\<close>

text \<open>
  The two sides of a thread or worker object meet in its monitor, in the monitor of the
  start-up handshake and, for a worker, in its task queue. A state of the protocol has the
  two monitors, whether the object is a worker, how many tasks wait in its queue, and the
  point each side has reached.
\<close>

datatype creator_pc = C_New | C_CheckReady | C_SleepReady | C_Started | C_CheckAwait
  | C_SleepAwait | C_Sync | C_PthreadJoin | C_Joined

datatype thread_pc = T_None | T_Startup | T_Ready | T_Running | T_Done | T_Task | T_SleepTask
  | T_Stop | T_CheckExit | T_SleepExit | T_Cleanup | T_Exited

record lifecycle =
  lc_monitor :: pthreads_monitor
  lc_ready :: pthreads_monitor
  lc_worker :: bool
  lc_tasks :: nat
  lc_creator :: creator_pc
  lc_thread :: thread_pc

text \<open>
  Each step is one critical section of the code. First those of the creator \<open>c\<close>: \<open>pthreads_start\<close>,
  \<open>pthreads_join\<close>, and \<open>pthreads_worker_add_task\<close> and \<open>pthreads_worker_dequeue_task\<close>, which the
  creator alone may call.
\<close>

inductive creator_step :: "tid \<Rightarrow> lifecycle \<Rightarrow> lifecycle \<Rightarrow> bool" for c where
  start: "lc_creator s = C_New \<Longrightarrow>
    pthreads_monitor_add c PTHREADS_MONITOR_STARTED (lc_monitor s) = Some m \<Longrightarrow>
    creator_step c s (s\<lparr>lc_monitor := m, lc_creator := C_CheckReady, lc_thread := T_Startup\<rparr>)"
| start_failed: "lc_creator s = C_New \<Longrightarrow>
    pthreads_monitor_add c PTHREADS_MONITOR_STARTED (lc_monitor s) = Some m \<Longrightarrow>
    pthreads_monitor_remove c PTHREADS_MONITOR_STARTED m = Some m' \<Longrightarrow>
    creator_step c s (s\<lparr>lc_monitor := m'\<rparr>)"
| wait_ready: "lc_creator s = C_CheckReady \<Longrightarrow>
    pthreads_routine_wait c (lc_ready s) = Some (b, m) \<Longrightarrow>
    creator_step c s (s\<lparr>lc_ready := m, lc_creator := if b then C_Started else C_SleepReady\<rparr>)"
| resume_ready: "lc_creator s = C_SleepReady \<Longrightarrow>
    routine_wait_resume c (lc_ready s) = Some (b, m) \<Longrightarrow>
    creator_step c s (s\<lparr>lc_ready := m, lc_creator := if b then C_Started else C_SleepReady\<rparr>)"
| stack: "lc_creator s \<in> {C_New, C_Started, C_Joined} \<Longrightarrow> lc_worker s \<Longrightarrow>
    m = (if lc_tasks s = 0 then snd (pthreads_monitor_notify (lc_monitor s)) else lc_monitor s) \<Longrightarrow>
    creator_step c s (s\<lparr>lc_monitor := m, lc_tasks := Suc (lc_tasks s)\<rparr>)"
| unstack: "lc_creator s \<in> {C_New, C_Started, C_Joined} \<Longrightarrow> lc_worker s \<Longrightarrow>
    creator_step c s (s\<lparr>lc_tasks := lc_tasks s - 1\<rparr>)"
| join: "lc_creator s = C_Started \<Longrightarrow>
    pthreads_monitor_add c PTHREADS_MONITOR_JOINED (lc_monitor s) = Some m \<Longrightarrow>
    creator_step c s (s\<lparr>lc_monitor := m, lc_creator := C_CheckAwait\<rparr>)"
| wait_await: "lc_creator s = C_CheckAwait \<Longrightarrow>
    pthreads_monitor_wait_until c PTHREADS_MONITOR_AWAIT_JOIN (lc_monitor s) = Some (b, m) \<Longrightarrow>
    creator_step c s (s\<lparr>lc_monitor := m, lc_creator := if b then C_Sync else C_SleepAwait\<rparr>)"
| resume_await: "lc_creator s = C_SleepAwait \<Longrightarrow>
    wait_until_resume c PTHREADS_MONITOR_AWAIT_JOIN (lc_monitor s) = Some (b, m) \<Longrightarrow>
    creator_step c s (s\<lparr>lc_monitor := m, lc_creator := if b then C_Sync else C_SleepAwait\<rparr>)"
| let_exit: "lc_creator s = C_Sync \<Longrightarrow>
    pthreads_monitor_add c PTHREADS_MONITOR_EXIT (lc_monitor s) = Some m \<Longrightarrow>
    creator_step c s (s\<lparr>lc_monitor := m, lc_creator := C_PthreadJoin\<rparr>)"
| joined: "lc_creator s = C_PthreadJoin \<Longrightarrow> lc_thread s = T_Exited \<Longrightarrow>
    creator_step c s (s\<lparr>lc_creator := C_Joined\<rparr>)"

text \<open>
  One round of \<open>pthreads_worker_next_task\<close> with the monitor taken: a task is taken, or the
  worker stops because it is joined, or it sleeps.
\<close>

definition next_round :: "tid \<Rightarrow> nat \<Rightarrow> pthreads_monitor \<Rightarrow> thread_pc \<times> nat \<times> pthreads_monitor" where
  "next_round t tasks m =
     (if tasks \<noteq> 0 then (T_Task, tasks - 1, snd (pthreads_monitor_unlock t m))
      else if pthreads_monitor_check m PTHREADS_MONITOR_JOINED \<noteq> 0
      then (T_Stop, tasks, snd (pthreads_monitor_unlock t m))
      else (T_SleepTask, tasks, snd (cond_wait_enter t m)))"

text \<open>
  The steps of the new thread \<open>t\<close> (\<open>pthreads_routine\<close>). The method \<open>run\<close> is skipped when the object
  cannot be connected or is in error; a bail-out of the engine outside \<open>run\<close> leaves the loop.
\<close>

inductive thread_step :: "tid \<Rightarrow> lifecycle \<Rightarrow> lifecycle \<Rightarrow> bool" for t where
  ready: "lc_thread s = T_Startup \<Longrightarrow>
    pthreads_monitor_add t PTHREADS_MONITOR_READY (lc_ready s) = Some m \<Longrightarrow>
    thread_step t s (s\<lparr>lc_ready := m, lc_thread := T_Ready\<rparr>)"
| run: "lc_thread s = T_Ready \<Longrightarrow>
    pthreads_monitor_add t PTHREADS_MONITOR_RUNNING (lc_monitor s) = Some m \<Longrightarrow>
    thread_step t s (s\<lparr>lc_monitor := m, lc_thread := T_Running\<rparr>)"
| skip_run: "lc_thread s = T_Ready \<Longrightarrow> thread_step t s (s\<lparr>lc_thread := T_Done\<rparr>)"
| ran: "lc_thread s = T_Running \<Longrightarrow>
    pthreads_monitor_remove t PTHREADS_MONITOR_RUNNING (lc_monitor s) = Some m \<Longrightarrow>
    thread_step t s (s\<lparr>lc_monitor := m, lc_thread := T_Done\<rparr>)"
| stop: "lc_thread s = T_Done \<Longrightarrow> \<not> lc_worker s \<Longrightarrow> thread_step t s (s\<lparr>lc_thread := T_Stop\<rparr>)"
| next_task: "lc_thread s = T_Done \<Longrightarrow> lc_worker s \<Longrightarrow>
    pthreads_monitor_lock t (lc_monitor s) = Some (True, m) \<Longrightarrow> next_round t (lc_tasks s) m = (q, n, m') \<Longrightarrow>
    thread_step t s (s\<lparr>lc_monitor := m', lc_tasks := n, lc_thread := q\<rparr>)"
| resume_task: "lc_thread s = T_SleepTask \<Longrightarrow>
    cond_wait_leave t (lc_monitor s) = Some m \<Longrightarrow> next_round t (lc_tasks s) m = (q, n, m') \<Longrightarrow>
    thread_step t s (s\<lparr>lc_monitor := m', lc_tasks := n, lc_thread := q\<rparr>)"
| task_done: "lc_thread s = T_Task \<Longrightarrow> thread_step t s (s\<lparr>lc_thread := T_Done\<rparr>)"
| bailout: "lc_thread s \<in> {T_Ready, T_Task} \<Longrightarrow> thread_step t s (s\<lparr>lc_thread := T_Stop\<rparr>)"
| await_join: "lc_thread s = T_Stop \<Longrightarrow>
    pthreads_monitor_add t PTHREADS_MONITOR_AWAIT_JOIN (lc_monitor s) = Some m \<Longrightarrow>
    thread_step t s (s\<lparr>lc_monitor := m, lc_thread := T_CheckExit\<rparr>)"
| wait_exit: "lc_thread s = T_CheckExit \<Longrightarrow>
    pthreads_monitor_wait_until t PTHREADS_MONITOR_EXIT (lc_monitor s) = Some (b, m) \<Longrightarrow>
    thread_step t s (s\<lparr>lc_monitor := m, lc_thread := if b then T_Cleanup else T_SleepExit\<rparr>)"
| resume_exit: "lc_thread s = T_SleepExit \<Longrightarrow>
    wait_until_resume t PTHREADS_MONITOR_EXIT (lc_monitor s) = Some (b, m) \<Longrightarrow>
    thread_step t s (s\<lparr>lc_monitor := m, lc_thread := if b then T_Cleanup else T_SleepExit\<rparr>)"
| cleanup: "lc_thread s = T_Cleanup \<Longrightarrow> thread_step t s (s\<lparr>lc_thread := T_Exited\<rparr>)"

text \<open>
  What happens around them: a sleeper wakes up without a notification; some thread notifies
  the monitor, or sets or clears a flag the protocol does not use (\<open>ERROR\<close> after an uncaught
  exception, \<open>COLLECT_GARBAGE\<close>).
\<close>

definition protocol_flags :: monitor_state where
  "protocol_flags = PTHREADS_MONITOR_STARTED OR PTHREADS_MONITOR_RUNNING OR PTHREADS_MONITOR_JOINED OR
     PTHREADS_MONITOR_EXIT OR PTHREADS_MONITOR_AWAIT_JOIN"

inductive other_step :: "lifecycle \<Rightarrow> lifecycle \<Rightarrow> bool" where
  spurious: "u \<in> set (m_waiting (lc_monitor s)) \<Longrightarrow>
    other_step s (s\<lparr>lc_monitor := spurious_wakeup u (lc_monitor s)\<rparr>)"
| spurious_ready: "u \<in> set (m_waiting (lc_ready s)) \<Longrightarrow>
    other_step s (s\<lparr>lc_ready := spurious_wakeup u (lc_ready s)\<rparr>)"
| notify: "other_step s (s\<lparr>lc_monitor := snd (pthreads_monitor_notify (lc_monitor s))\<rparr>)"
| notify_one: "other_step s (s\<lparr>lc_monitor := snd (pthreads_monitor_notify_one (lc_monitor s))\<rparr>)"
| set_flag: "f AND protocol_flags = 0 \<Longrightarrow> pthreads_monitor_add u f (lc_monitor s) = Some m \<Longrightarrow>
    other_step s (s\<lparr>lc_monitor := m\<rparr>)"
| clear_flag: "f AND protocol_flags = 0 \<Longrightarrow> pthreads_monitor_remove u f (lc_monitor s) = Some m \<Longrightarrow>
    other_step s (s\<lparr>lc_monitor := m\<rparr>)"

inductive lc_step :: "tid \<Rightarrow> tid \<Rightarrow> lifecycle \<Rightarrow> lifecycle \<Rightarrow> bool" for c t where
  by_creator: "creator_step c s s' \<Longrightarrow> lc_step c t s s'"
| by_thread: "thread_step t s s' \<Longrightarrow> lc_step c t s s'"
| by_other: "other_step s s' \<Longrightarrow> lc_step c t s s'"

definition lc_init :: "bool \<Rightarrow> lifecycle" where
  "lc_init worker = \<lparr>lc_monitor = fresh_monitor, lc_ready = fresh_monitor, lc_worker = worker,
     lc_tasks = 0, lc_creator = C_New, lc_thread = T_None\<rparr>"

inductive lc_reachable :: "tid \<Rightarrow> tid \<Rightarrow> lifecycle \<Rightarrow> bool" for c t where
  lc_start: "lc_reachable c t (lc_init worker)"
| lc_more: "lc_reachable c t s \<Longrightarrow> lc_step c t s s' \<Longrightarrow> lc_reachable c t s'"

end
