(* ===== verification/Lifecycle_Props.thy ===== *)
theory Lifecycle_Props
  imports Lifecycle
begin

text \<open>
  The invariant of the protocol between a creator and its thread, and what follows from
  it: the order of start, ready, join and exit, and that nobody sleeps on a flag that is
  already set.
\<close>

section \<open>Operations on a free monitor\<close>

lemma free_lockable: "m_mutex m = mutex_init \<Longrightarrow> monitor_lockable (Suc 0) t m"
  by (simp add: monitor_lockable_def mutex_defs)

text \<open>What the operations do to a free monitor, as functions.\<close>

definition notified :: "monitor_state \<Rightarrow> pthreads_monitor \<Rightarrow> pthreads_monitor" where
  "notified s m = m\<lparr>m_state := s, m_waiting := [], m_woken := m_woken m @ m_waiting m\<rparr>"

definition asleep :: "tid \<Rightarrow> pthreads_monitor \<Rightarrow> pthreads_monitor" where
  "asleep t m = m\<lparr>m_waiting := m_waiting m @ [t]\<rparr>"

definition awake :: "tid \<Rightarrow> pthreads_monitor \<Rightarrow> pthreads_monitor" where
  "awake t m = m\<lparr>m_woken := remove1 t (m_woken m)\<rparr>"

definition sleepers :: "pthreads_monitor \<Rightarrow> tid set" where
  "sleepers m = set (m_waiting m) \<union> set (m_woken m)"

definition queue_ok :: "pthreads_monitor \<Rightarrow> bool" where
  "queue_ok m \<longleftrightarrow> distinct (m_waiting m @ m_woken m)"

definition unnotified :: "pthreads_monitor \<Rightarrow> tid set" where
  "unnotified m = set (m_waiting m)"

lemmas sleep_defs = notified_def asleep_def awake_def sleepers_def queue_ok_def unnotified_def
  spurious_wakeup_def

lemma monitor_updates [simp]:
  "m_state (notified f m) = f" "m_mutex (notified f m) = m_mutex m"
  "m_state (asleep t m) = m_state m" "m_mutex (asleep t m) = m_mutex m"
  "m_state (awake t m) = m_state m" "m_mutex (awake t m) = m_mutex m"
  "m_state (spurious_wakeup t m) = m_state m" "m_mutex (spurious_wakeup t m) = m_mutex m"
  by (simp_all add: sleep_defs)

lemma sleepers_updates [simp]:
  "sleepers (notified f m) = sleepers m" "queue_ok (notified f m) = queue_ok m"
  "unnotified (notified f m) = {}"
  "sleepers (asleep t m) = insert t (sleepers m)" "unnotified (asleep t m) = insert t (unnotified m)"
  "queue_ok (asleep t m) = (queue_ok m \<and> t \<notin> sleepers m)" "unnotified (awake t m) = unnotified m"
  by (auto simp: sleep_defs)

lemma notify_notified: "snd (pthreads_monitor_notify m) = notified (m_state m) m"
  by (simp add: pthreads_monitor_notify_def notified_def)

lemma notify_one_updates [simp]:
  "m_state (snd (pthreads_monitor_notify_one m)) = m_state m"
  "m_mutex (snd (pthreads_monitor_notify_one m)) = m_mutex m"
  "sleepers (snd (pthreads_monitor_notify_one m)) = sleepers m"
  "queue_ok (snd (pthreads_monitor_notify_one m)) = queue_ok m"
  "u \<in> unnotified (snd (pthreads_monitor_notify_one m)) \<Longrightarrow> u \<in> unnotified m"
  by (auto simp: pthreads_monitor_notify_one_def sleep_defs split: list.splits)

lemma awake_updates:
  assumes "queue_ok m" and "t \<in> sleepers m" and "t \<notin> unnotified m"
  shows "sleepers (awake t m) = sleepers m - {t}" and "queue_ok (awake t m)"
  using assms by (auto simp: sleep_defs set_remove1_eq)

lemma spurious_updates:
  assumes "queue_ok m" and "t \<in> unnotified m"
  shows "sleepers (spurious_wakeup t m) = sleepers m" and "queue_ok (spurious_wakeup t m)"
    and "unnotified (spurious_wakeup t m) = unnotified m - {t}"
  using assms by (auto simp: sleep_defs set_remove1_eq)

lemma woken_iff: "queue_ok m \<Longrightarrow> t \<in> set (m_woken m) \<longleftrightarrow> t \<in> sleepers m \<and> t \<notin> unnotified m"
  by (auto simp: sleep_defs)

lemma unnotified_sleepers: "t \<in> unnotified m \<Longrightarrow> t \<in> sleepers m"
  by (simp add: sleep_defs)

lemma add_free:
  "m_mutex m = mutex_init \<Longrightarrow> pthreads_monitor_add t f m = Some (notified (m_state m OR f) m)"
  unfolding notified_def by (rule monitor_add_ok [OF free_lockable])

lemma remove_free:
  "m_mutex m = mutex_init \<Longrightarrow> pthreads_monitor_remove t f m = Some (notified (m_state m AND NOT f) m)"
  unfolding notified_def by (rule monitor_remove_ok [OF free_lockable])

lemma wait_until_free:
  "m_mutex m = mutex_init \<Longrightarrow> pthreads_monitor_wait_until t f m =
    Some (if pthreads_monitor_check m f \<noteq> 0 then (True, m) else (False, asleep t m))"
  by (cases m) (simp add: pthreads_monitor_wait_until_def wait_until_check_def cond_wait_enter_def asleep_def
      pthreads_monitor_lock_def pthreads_monitor_unlock_def pthreads_monitor_check_def mutex_defs)

lemma resume_free:
  "m_mutex m = mutex_init \<Longrightarrow> wait_until_resume t f m =
    (if t \<in> set (m_woken m)
     then Some (if pthreads_monitor_check m f \<noteq> 0 then (True, awake t m) else (False, asleep t (awake t m)))
     else None)"
  by (cases m) (simp add: wait_until_resume_def wait_until_check_def cond_wait_enter_def cond_wait_leave_def
      asleep_def awake_def pthreads_monitor_lock_def pthreads_monitor_unlock_def pthreads_monitor_check_def
      mutex_defs)

text \<open>The monitor of the handshake is destroyed once nobody sleeps on it.\<close>

lemma destroy_free: "m_mutex m = mutex_init \<Longrightarrow> sleepers m = {} \<Longrightarrow> pthreads_monitor_destroy m = Some ()"
  by (simp add: pthreads_monitor_destroy_def mutex_init_def sleepers_def)

lemma routine_waitD:
  "pthreads_routine_wait t m = Some (b, m') \<Longrightarrow> pthreads_monitor_wait_until t PTHREADS_MONITOR_READY m = Some (b, m')"
  "routine_wait_resume t m = Some (b, m') \<Longrightarrow> wait_until_resume t PTHREADS_MONITOR_READY m = Some (b, m')"
  by (auto simp: pthreads_routine_wait_def routine_wait_resume_def routine_done_def bind_eq_Some_conv split: if_splits)

lemma next_round_locked:
  assumes "m_mutex m = mutex_init"
  shows "next_round t n (locked_by t m) =
    (if n \<noteq> 0 then (T_Task, n - 1, m)
     else if pthreads_monitor_check m PTHREADS_MONITOR_JOINED \<noteq> 0 then (T_Stop, n, m)
     else (T_SleepTask, n, asleep t m))"
  using assms by (cases m) (simp add: next_round_def cond_wait_enter_def asleep_def locked_by_def
      pthreads_monitor_unlock_def pthreads_monitor_check_def mutex_defs)

lemma lock_free_monitor: "m_mutex m = mutex_init \<Longrightarrow> pthreads_monitor_lock t m = Some (True, locked_by t m)"
  by (rule monitor_lock_ok [OF free_lockable])

lemma leave_free:
  "m_mutex m = mutex_init \<Longrightarrow>
    cond_wait_leave t m = (if t \<in> set (m_woken m) then Some (locked_by t (awake t m)) else None)"
  by (cases m) (simp add: cond_wait_leave_def awake_def locked_by_def mutex_defs)

section \<open>The invariant\<close>

fun creator_flags :: "creator_pc \<Rightarrow> monitor_state" where
  "creator_flags C_New = 0"
| "creator_flags C_CheckReady = PTHREADS_MONITOR_STARTED"
| "creator_flags C_SleepReady = PTHREADS_MONITOR_STARTED"
| "creator_flags C_Started = PTHREADS_MONITOR_STARTED"
| "creator_flags C_CheckAwait = PTHREADS_MONITOR_STARTED OR PTHREADS_MONITOR_JOINED"
| "creator_flags C_SleepAwait = PTHREADS_MONITOR_STARTED OR PTHREADS_MONITOR_JOINED"
| "creator_flags C_Sync = PTHREADS_MONITOR_STARTED OR PTHREADS_MONITOR_JOINED"
| "creator_flags C_PthreadJoin = PTHREADS_MONITOR_STARTED OR PTHREADS_MONITOR_JOINED OR PTHREADS_MONITOR_EXIT"
| "creator_flags C_Joined = PTHREADS_MONITOR_STARTED OR PTHREADS_MONITOR_JOINED OR PTHREADS_MONITOR_EXIT"

definition joining :: "creator_pc \<Rightarrow> bool" where
  "joining p \<longleftrightarrow> p \<notin> {C_New, C_CheckReady, C_SleepReady, C_Started}"

definition awaiting :: "thread_pc \<Rightarrow> bool" where
  "awaiting q \<longleftrightarrow> q \<in> {T_CheckExit, T_SleepExit, T_Cleanup, T_Exited}"

definition thread_flags :: "thread_pc \<Rightarrow> monitor_state" where
  "thread_flags q = (if q = T_Running then PTHREADS_MONITOR_RUNNING
     else if awaiting q then PTHREADS_MONITOR_AWAIT_JOIN else 0)"

definition ready_flags :: "thread_pc \<Rightarrow> monitor_state" where
  "ready_flags q = (if q = T_None \<or> q = T_Startup then 0 else PTHREADS_MONITOR_READY)"

lemma joining_simps [simp]:
  "\<not> joining C_New" "\<not> joining C_CheckReady" "\<not> joining C_SleepReady" "\<not> joining C_Started"
  "joining C_CheckAwait" "joining C_SleepAwait" "joining C_Sync" "joining C_PthreadJoin" "joining C_Joined"
  by (simp_all add: joining_def)

lemma awaiting_simps [simp]:
  "\<not> awaiting T_None" "\<not> awaiting T_Startup" "\<not> awaiting T_Ready" "\<not> awaiting T_Running"
  "\<not> awaiting T_Done" "\<not> awaiting T_Task" "\<not> awaiting T_SleepTask" "\<not> awaiting T_Stop"
  "awaiting T_CheckExit" "awaiting T_SleepExit" "awaiting T_Cleanup" "awaiting T_Exited"
  by (simp_all add: awaiting_def)

text \<open>The flags of the protocol that are set.\<close>

definition flags :: "pthreads_monitor \<Rightarrow> monitor_state" where
  "flags m = m_state m AND protocol_flags"

text \<open>Which control points of the two sides occur together.\<close>

definition pcs_ok :: "creator_pc \<Rightarrow> thread_pc \<Rightarrow> bool" where
  "pcs_ok p q \<longleftrightarrow> (p = C_New \<longleftrightarrow> q = T_None) \<and>
     (p \<notin> {C_New, C_CheckReady, C_SleepReady} \<longrightarrow> q \<noteq> T_Startup) \<and>
     (p \<in> {C_Sync, C_PthreadJoin, C_Joined} \<longrightarrow> awaiting q) \<and>
     (q \<in> {T_Cleanup, T_Exited} \<longrightarrow> p \<in> {C_PthreadJoin, C_Joined}) \<and>
     (p = C_Joined \<longrightarrow> q = T_Exited)"

definition monitors_ok :: "lifecycle \<Rightarrow> bool" where
  "monitors_ok s \<longleftrightarrow> m_mutex (lc_monitor s) = mutex_init \<and> m_mutex (lc_ready s) = mutex_init \<and>
     flags (lc_monitor s) = creator_flags (lc_creator s) OR thread_flags (lc_thread s) \<and>
     m_state (lc_ready s) = ready_flags (lc_thread s)"

text \<open>
  Who sleeps where: a sleeping thread is queued exactly once; and it is in the waiting part
  of the queue only while there is nothing for it to do.
\<close>

definition sleepers_ok :: "tid \<Rightarrow> tid \<Rightarrow> lifecycle \<Rightarrow> bool" where
  "sleepers_ok c t s \<longleftrightarrow> queue_ok (lc_monitor s) \<and> queue_ok (lc_ready s) \<and>
     sleepers (lc_ready s) = (if lc_creator s = C_SleepReady then {c} else {}) \<and>
     sleepers (lc_monitor s) = (if lc_creator s = C_SleepAwait then {c} else {}) \<union>
       (if lc_thread s = T_SleepExit \<or> lc_thread s = T_SleepTask then {t} else {})"

definition no_lost_wakeup :: "tid \<Rightarrow> tid \<Rightarrow> lifecycle \<Rightarrow> bool" where
  "no_lost_wakeup c t s \<longleftrightarrow>
     (c \<in> unnotified (lc_ready s) \<longrightarrow> lc_thread s = T_Startup) \<and>
     (c \<in> unnotified (lc_monitor s) \<longrightarrow> \<not> awaiting (lc_thread s)) \<and>
     (t \<in> unnotified (lc_monitor s) \<and> lc_thread s = T_SleepExit \<longrightarrow> lc_creator s \<notin> {C_PthreadJoin, C_Joined}) \<and>
     (t \<in> unnotified (lc_monitor s) \<and> lc_thread s = T_SleepTask \<longrightarrow> lc_tasks s = 0 \<and> \<not> joining (lc_creator s))"

definition lc_inv :: "tid \<Rightarrow> tid \<Rightarrow> lifecycle \<Rightarrow> bool" where
  "lc_inv c t s \<longleftrightarrow> pcs_ok (lc_creator s) (lc_thread s) \<and> monitors_ok s \<and> sleepers_ok c t s \<and>
     no_lost_wakeup c t s \<and> (lc_thread s = T_SleepTask \<longrightarrow> lc_worker s)"

lemma flag_values:
  "PTHREADS_MONITOR_STARTED = 1" "PTHREADS_MONITOR_RUNNING = 2" "PTHREADS_MONITOR_JOINED = 4"
  "PTHREADS_MONITOR_READY = 16" "PTHREADS_MONITOR_EXIT = 64" "PTHREADS_MONITOR_AWAIT_JOIN = 128"
  by (simp_all add: monitor_flag_defs)

lemma protocol_flags_value: "protocol_flags = 199"
  by (simp add: protocol_flags_def flag_values)

lemma flags_same [simp]:
  "flags (notified (m_state m) m') = flags m" "flags (asleep t m) = flags m" "flags (awake t m) = flags m"
  "flags (spurious_wakeup t m) = flags m" "flags (snd (pthreads_monitor_notify_one m)) = flags m"
  by (simp_all add: flags_def)

lemma flags_add: "f AND protocol_flags = f \<Longrightarrow> flags (notified (m_state m OR f) m) = flags m OR f"
  by (simp add: flags_def and.commute bit.conj_disj_distrib)

lemma flags_remove: "flags (notified (m_state m AND NOT f) m) = flags m AND NOT f"
  by (simp add: flags_def ac_simps)

lemma flags_other:
  assumes "f AND protocol_flags = 0"
  shows "flags (notified (m_state m OR f) m) = flags m" and "flags (notified (m_state m AND NOT f) m) = flags m"
  using assms by (auto simp: flags_def bit_eq_iff bit_simps)

lemma in_protocol:
  "PTHREADS_MONITOR_STARTED AND protocol_flags = PTHREADS_MONITOR_STARTED"
  "PTHREADS_MONITOR_RUNNING AND protocol_flags = PTHREADS_MONITOR_RUNNING"
  "PTHREADS_MONITOR_JOINED AND protocol_flags = PTHREADS_MONITOR_JOINED"
  "PTHREADS_MONITOR_EXIT AND protocol_flags = PTHREADS_MONITOR_EXIT"
  "PTHREADS_MONITOR_AWAIT_JOIN AND protocol_flags = PTHREADS_MONITOR_AWAIT_JOIN"
  by (simp_all add: protocol_flags_value flag_values)

lemmas flags_added = in_protocol [THEN flags_add]

lemma check_flags: "f AND protocol_flags = f \<Longrightarrow> pthreads_monitor_check m f = flags m AND f"
  by (metis and.assoc and.commute flags_def pthreads_monitor_check_def)

lemma flag_tests:
  "pthreads_monitor_check m PTHREADS_MONITOR_READY \<noteq> 0 \<longleftrightarrow> q \<noteq> T_None \<and> q \<noteq> T_Startup"
  if "m_state m = ready_flags q" for m
  using that by (simp add: pthreads_monitor_check_def ready_flags_def flag_values)

lemma monitor_tests:
  assumes "flags m = creator_flags p OR thread_flags q"
  shows "pthreads_monitor_check m PTHREADS_MONITOR_AWAIT_JOIN \<noteq> 0 \<longleftrightarrow> awaiting q"
    and "pthreads_monitor_check m PTHREADS_MONITOR_EXIT \<noteq> 0 \<longleftrightarrow> p \<in> {C_PthreadJoin, C_Joined}"
    and "pthreads_monitor_check m PTHREADS_MONITOR_JOINED \<noteq> 0 \<longleftrightarrow> joining p"
  using assms by (simp_all only: check_flags [OF in_protocol(5)] check_flags [OF in_protocol(4)]
      check_flags [OF in_protocol(3)])
    ((cases p; cases q; simp add: thread_flags_def awaiting_def joining_def flag_values)+)

text \<open>The flags after each step that changes them.\<close>

lemma flag_steps:
  "(creator_flags C_New OR thread_flags T_None) OR PTHREADS_MONITOR_STARTED =
     creator_flags C_CheckReady OR thread_flags T_Startup"
  "(creator_flags C_Started OR thread_flags q) OR PTHREADS_MONITOR_JOINED =
     creator_flags C_CheckAwait OR thread_flags q"
  "(creator_flags C_Sync OR thread_flags q) OR PTHREADS_MONITOR_EXIT =
     creator_flags C_PthreadJoin OR thread_flags q"
  "(creator_flags p OR thread_flags T_Ready) OR PTHREADS_MONITOR_RUNNING =
     creator_flags p OR thread_flags T_Running"
  "(creator_flags p OR thread_flags T_Stop) OR PTHREADS_MONITOR_AWAIT_JOIN =
     creator_flags p OR thread_flags T_CheckExit"
  by (simp_all add: thread_flags_def awaiting_def flag_values or.assoc or.commute or.left_commute)

lemma flag_removals:
  "((creator_flags C_New OR thread_flags T_None) OR PTHREADS_MONITOR_STARTED) AND NOT PTHREADS_MONITOR_STARTED =
     creator_flags C_New OR thread_flags T_None"
  "(creator_flags p OR thread_flags T_Running) AND NOT PTHREADS_MONITOR_RUNNING =
     creator_flags p OR thread_flags T_Done"
proof -
  show "((creator_flags C_New OR thread_flags T_None) OR PTHREADS_MONITOR_STARTED) AND NOT PTHREADS_MONITOR_STARTED =
     creator_flags C_New OR thread_flags T_None"
    by (simp add: thread_flags_def awaiting_def)
  have "creator_flags p AND PTHREADS_MONITOR_RUNNING = 0"
    by (cases p) (simp_all add: flag_values)
  then have "creator_flags p AND NOT PTHREADS_MONITOR_RUNNING = creator_flags p"
    by (auto simp: bit_eq_iff bit_simps)
  then show "(creator_flags p OR thread_flags T_Running) AND NOT PTHREADS_MONITOR_RUNNING =
     creator_flags p OR thread_flags T_Done"
    by (simp add: thread_flags_def awaiting_def and.commute bit.conj_disj_distrib)
qed

lemma sleep_flags:
  "creator_flags C_SleepReady = creator_flags C_CheckReady"
  "creator_flags C_Started = creator_flags C_CheckReady"
  "creator_flags C_SleepAwait = creator_flags C_CheckAwait"
  "creator_flags C_Sync = creator_flags C_CheckAwait"
  "creator_flags C_Joined = creator_flags C_PthreadJoin"
  "thread_flags T_SleepExit = thread_flags T_CheckExit"
  "thread_flags T_Cleanup = thread_flags T_CheckExit"
  "thread_flags T_Exited = thread_flags T_CheckExit"
  "thread_flags T_Startup = thread_flags T_None" "thread_flags T_Ready = thread_flags T_None"
  "thread_flags T_Done = thread_flags T_None" "thread_flags T_Task = thread_flags T_None"
  "thread_flags T_SleepTask = thread_flags T_None" "thread_flags T_Stop = thread_flags T_None"
  by (simp_all add: thread_flags_def awaiting_def)

declare creator_flags.simps [simp del]

lemma lc_invD:
  assumes "lc_inv c t s"
  shows "pcs_ok (lc_creator s) (lc_thread s)" and "monitors_ok s" and "sleepers_ok c t s"
    and "m_mutex (lc_monitor s) = mutex_init" and "m_mutex (lc_ready s) = mutex_init"
    and "flags (lc_monitor s) = creator_flags (lc_creator s) OR thread_flags (lc_thread s)"
    and "m_state (lc_ready s) = ready_flags (lc_thread s)"
    and "queue_ok (lc_monitor s)" and "queue_ok (lc_ready s)"
  using assms by (simp_all add: lc_inv_def monitors_ok_def sleepers_ok_def)

lemma lc_sleep:
  assumes "lc_inv c t s"
  shows "c \<in> unnotified (lc_ready s) \<Longrightarrow> lc_thread s = T_Startup"
    and "c \<in> unnotified (lc_monitor s) \<Longrightarrow> \<not> awaiting (lc_thread s)"
    and "t \<in> unnotified (lc_monitor s) \<Longrightarrow> lc_thread s = T_SleepExit \<Longrightarrow> lc_creator s \<notin> {C_PthreadJoin, C_Joined}"
    and "t \<in> unnotified (lc_monitor s) \<Longrightarrow> lc_thread s = T_SleepTask \<Longrightarrow> lc_tasks s = 0 \<and> \<not> joining (lc_creator s)"
    and "sleepers (lc_ready s) = (if lc_creator s = C_SleepReady then {c} else {})"
    and "sleepers (lc_monitor s) = (if lc_creator s = C_SleepAwait then {c} else {}) \<union>
       (if lc_thread s = T_SleepExit \<or> lc_thread s = T_SleepTask then {t} else {})"
  using assms unfolding lc_inv_def no_lost_wakeup_def sleepers_ok_def by blast+

lemmas lc_defs = lc_inv_def pcs_ok_def monitors_ok_def sleepers_ok_def no_lost_wakeup_def

text \<open>Changes of the two monitors that keep the flags and the sleepers keep the invariant.\<close>

lemma lc_inv_monitor:
  assumes "lc_inv c t s" and "m_mutex m = m_mutex (lc_monitor s)" and "flags m = flags (lc_monitor s)"
    and "sleepers m = sleepers (lc_monitor s)" and "queue_ok m" and "unnotified m \<subseteq> unnotified (lc_monitor s)"
  shows "lc_inv c t (s\<lparr>lc_monitor := m\<rparr>)"
  using assms by (simp add: lc_inv_def monitors_ok_def sleepers_ok_def no_lost_wakeup_def) blast

lemma lc_inv_ready:
  assumes "lc_inv c t s" and "m_mutex m = m_mutex (lc_ready s)" and "m_state m = m_state (lc_ready s)"
    and "sleepers m = sleepers (lc_ready s)" and "queue_ok m" and "unnotified m \<subseteq> unnotified (lc_ready s)"
  shows "lc_inv c t (s\<lparr>lc_ready := m\<rparr>)"
  using assms by (simp add: lc_inv_def monitors_ok_def sleepers_ok_def no_lost_wakeup_def) blast

lemma creator_step_inv:
  assumes "creator_step c s s'" and inv: "lc_inv c t s" and "c \<noteq> t"
  shows "lc_inv c t s'"
proof -
  note free = lc_invD(4,5) [OF inv] and state = lc_invD(6,7) [OF inv] and queue = lc_invD(8,9) [OF inv]
  note tests = flag_tests [OF state(2)] monitor_tests(1) [OF state(1)]
  note ops = add_free [OF free(1)] remove_free [OF free(1)] wait_until_free [OF free(1)] resume_free [OF free(1)]
    wait_until_free [OF free(2)] resume_free [OF free(2)]
  note wake = woken_iff [OF queue(1)] woken_iff [OF queue(2)]
  from assms(1) show ?thesis
  proof (cases rule: creator_step.cases)
    case (start m)
    have q: "lc_thread s = T_None" using inv start by (simp add: lc_defs)
    have m: "m = notified (m_state (lc_monitor s) OR PTHREADS_MONITOR_STARTED) (lc_monitor s)"
      using start(3) ops(1) by simp
    show ?thesis using inv start(1,2) q flag_steps(1) unfolding m
      by (simp add: lc_defs flags_added ready_flags_def)
  next
    case (start_failed m m')
    have q: "lc_thread s = T_None" using inv start_failed by (simp add: lc_defs)
    have m: "m = notified (m_state (lc_monitor s) OR PTHREADS_MONITOR_STARTED) (lc_monitor s)"
      using start_failed(3) ops(1) by simp
    then have "m' = notified (m_state m AND NOT PTHREADS_MONITOR_STARTED) m"
      using start_failed(4) remove_free [of m c PTHREADS_MONITOR_STARTED] free(1) by simp
    then have m': "sleepers m' = sleepers (lc_monitor s)" "queue_ok m'" "unnotified m' = {}" "m_mutex m' = mutex_init"
      "flags m' = (flags (lc_monitor s) OR PTHREADS_MONITOR_STARTED) AND NOT PTHREADS_MONITOR_STARTED"
      using queue free m flags_remove [of m PTHREADS_MONITOR_STARTED] flags_added(1) [of "lc_monitor s"] by simp_all
    show ?thesis using inv start_failed(1,2) q flag_removals(1) m' by (simp add: lc_defs ready_flags_def)
  next
    case (wait_ready b m)
    note wait_ready = wait_ready(1,2) routine_waitD(1) [OF wait_ready(3)]
    show ?thesis
    proof (cases "lc_thread s = T_Startup")
      case True
      then have "b = False" "m = asleep c (lc_ready s)" using wait_ready ops(5) tests(1) by (simp_all split: if_splits)
      then show ?thesis using inv wait_ready(1,2) True by (simp add: lc_defs sleep_flags ready_flags_def)
    next
      case False
      moreover have "lc_thread s \<noteq> T_None" using inv wait_ready(2) by (simp add: lc_defs)
      ultimately have "b = True" "m = lc_ready s" using wait_ready ops(5) tests(1) by (simp_all split: if_splits)
      then show ?thesis using inv wait_ready(1,2) False by (simp add: lc_defs sleep_flags)
    qed
  next
    case (resume_ready b m)
    note resume_ready = resume_ready(1,2) routine_waitD(2) [OF resume_ready(3)]
    then have woken: "c \<in> sleepers (lc_ready s)" "c \<notin> unnotified (lc_ready s)"
      using ops(6) wake by (auto split: if_splits)
    note after = awake_updates [OF queue(2) woken]
    show ?thesis
    proof (cases "lc_thread s = T_Startup")
      case True
      then have "b = False" "m = asleep c (awake c (lc_ready s))"
        using resume_ready ops(6) tests(1) by (simp_all split: if_splits)
      then show ?thesis using inv resume_ready(1,2) True after by (simp add: lc_defs sleep_flags ready_flags_def)
    next
      case False
      moreover have "lc_thread s \<noteq> T_None" using inv resume_ready(2) by (simp add: lc_defs)
      ultimately have "b = True" "m = awake c (lc_ready s)"
        using resume_ready ops(6) tests(1) by (simp_all split: if_splits)
      then show ?thesis using inv resume_ready(1,2) False woken after by (simp add: lc_defs sleep_flags)
    qed
  next
    case (stack m)
    define m\<^sub>1 where "m\<^sub>1 = (if lc_tasks s = 0 then notified (m_state (lc_monitor s)) (lc_monitor s) else lc_monitor s)"
    have same: "sleepers m\<^sub>1 = sleepers (lc_monitor s)" "flags m\<^sub>1 = flags (lc_monitor s)" "queue_ok m\<^sub>1"
      "m_mutex m\<^sub>1 = mutex_init" "unnotified m\<^sub>1 \<subseteq> unnotified (lc_monitor s)" "lc_tasks s = 0 \<longrightarrow> unnotified m\<^sub>1 = {}"
      using queue free by (simp_all add: m\<^sub>1_def)
    have "lc_inv c t (s\<lparr>lc_monitor := m\<^sub>1\<rparr>)" using inv same free by (auto intro!: lc_inv_monitor)
    moreover have "m = m\<^sub>1" using stack by (simp add: m\<^sub>1_def notify_notified)
    moreover have "\<not> (t \<in> unnotified m\<^sub>1 \<and> lc_thread s = T_SleepTask)" using lc_sleep(4) [OF inv] same(5,6) by blast
    ultimately show ?thesis using stack(1) by (simp add: lc_inv_def monitors_ok_def sleepers_ok_def no_lost_wakeup_def)
  next
    case unstack
    then show ?thesis using inv by (simp add: lc_inv_def monitors_ok_def sleepers_ok_def no_lost_wakeup_def)
  next
    case (join m)
    then have m: "m = notified (m_state (lc_monitor s) OR PTHREADS_MONITOR_JOINED) (lc_monitor s)"
      using ops(1) by simp
    show ?thesis using inv join(1,2) flag_steps(2) unfolding m by (simp add: lc_defs flags_added)
  next
    case (wait_await b m)
    show ?thesis
    proof (cases "awaiting (lc_thread s)")
      case True
      then have "b = True" "m = lc_monitor s" using wait_await ops(3) tests(2) by (simp_all split: if_splits)
      then show ?thesis using inv wait_await(1,2) True by (simp add: lc_defs sleep_flags)
    next
      case False
      then have "b = False" "m = asleep c (lc_monitor s)"
        using wait_await ops(3) tests(2) by (simp_all split: if_splits)
      then show ?thesis using inv wait_await(1,2) False \<open>c \<noteq> t\<close> by (simp add: lc_defs sleep_flags)
    qed
  next
    case (resume_await b m)
    then have woken: "c \<in> sleepers (lc_monitor s)" "c \<notin> unnotified (lc_monitor s)"
      using ops(4) wake by (auto split: if_splits)
    note after = awake_updates [OF queue(1) woken]
    have rest: "insert c (if lc_thread s = T_SleepExit \<or> lc_thread s = T_SleepTask then {t} else {}) - {c} =
        (if lc_thread s = T_SleepExit \<or> lc_thread s = T_SleepTask then {t} else {})"
      using \<open>c \<noteq> t\<close> by auto
    show ?thesis
    proof (cases "awaiting (lc_thread s)")
      case True
      then have "b = True" "m = awake c (lc_monitor s)" using resume_await ops(4) tests(2) by (simp_all split: if_splits)
      then show ?thesis using inv resume_await(1,2) True woken after rest \<open>c \<noteq> t\<close> by (simp add: lc_defs sleep_flags)
    next
      case False
      then have "b = False" "m = asleep c (awake c (lc_monitor s))"
        using resume_await ops(4) tests(2) by (simp_all split: if_splits)
      then show ?thesis using inv resume_await(1,2) False woken after rest \<open>c \<noteq> t\<close> by (simp add: lc_defs sleep_flags)
    qed
  next
    case (let_exit m)
    then have m: "m = notified (m_state (lc_monitor s) OR PTHREADS_MONITOR_EXIT) (lc_monitor s)"
      using ops(1) by simp
    show ?thesis using inv let_exit(1,2) flag_steps(3) unfolding m by (simp add: lc_defs flags_added)
  next
    case joined
    then show ?thesis using inv by (simp add: lc_defs sleep_flags)
  qed
qed

lemma thread_step_inv:
  assumes "thread_step t s s'" and inv: "lc_inv c t s" and "c \<noteq> t"
  shows "lc_inv c t s'"
proof -
  note free = lc_invD(4,5) [OF inv] and state = lc_invD(6,7) [OF inv] and queue = lc_invD(8,9) [OF inv]
  note tests = monitor_tests(2,3) [OF state(1)]
  note ops = add_free [OF free(1)] remove_free [OF free(1)] wait_until_free [OF free(1)] resume_free [OF free(1)]
    add_free [OF free(2)]
  note wake = woken_iff [OF queue(1)]
  from assms(1) show ?thesis
  proof (cases rule: thread_step.cases)
    case (ready m)
    then show ?thesis using inv ops(5) by (auto simp: lc_defs sleep_flags ready_flags_def)
  next
    case (run m)
    then show ?thesis using inv ops(1) flag_steps(4) by (auto simp: lc_defs flags_added ready_flags_def)
  next
    case (ran m)
    then show ?thesis using inv ops(2) flag_removals(2) by (auto simp: lc_defs flags_remove ready_flags_def)
  next
    case (next_task m q n m')
    have m: "m = locked_by t (lc_monitor s)" using next_task(4) lock_free_monitor [OF free(1)] by simp
    have "t \<notin> sleepers (lc_monitor s)" using inv next_task \<open>c \<noteq> t\<close> by (auto simp: lc_defs)
    with next_task inv next_round_locked [OF free(1)] tests(2) \<open>c \<noteq> t\<close> show ?thesis unfolding m
      by (auto simp: lc_defs sleep_flags ready_flags_def split: if_splits)
  next
    case (resume_task m q n m')
    then have woken: "t \<in> sleepers (lc_monitor s)" "t \<notin> unnotified (lc_monitor s)"
      and m: "m = locked_by t (awake t (lc_monitor s))"
      using wake leave_free [OF free(1)] by (auto split: if_splits)
    have free': "m_mutex (awake t (lc_monitor s)) = mutex_init" using free by simp
    note after = awake_updates [OF queue(1) woken]
    have round: "(q, n, m') = (if lc_tasks s \<noteq> 0 then (T_Task, lc_tasks s - 1, awake t (lc_monitor s))
        else if joining (lc_creator s) then (T_Stop, 0, awake t (lc_monitor s)) else (T_SleepTask, 0, asleep t (awake t (lc_monitor s))))"
      using resume_task(4) next_round_locked [OF free', of t "lc_tasks s"] tests(2) unfolding m
      by (simp add: pthreads_monitor_check_def split: if_splits)
    consider "q = T_Task" "m' = awake t (lc_monitor s)" | "joining (lc_creator s)" "q = T_Stop" "m' = awake t (lc_monitor s)"
      | "\<not> joining (lc_creator s)" "q = T_SleepTask" "n = 0" "m' = asleep t (awake t (lc_monitor s))"
      using round by (auto split: if_splits)
    then show ?thesis
    proof cases
      case 1
      then show ?thesis using inv resume_task(1,2) after \<open>c \<noteq> t\<close> by (simp add: lc_defs sleep_flags ready_flags_def)
    next
      case 2
      then show ?thesis using inv resume_task(1,2) after \<open>c \<noteq> t\<close> by (simp add: lc_defs sleep_flags ready_flags_def)
    next
      case 3
      then show ?thesis using inv resume_task(1,2) after woken \<open>c \<noteq> t\<close> by (simp add: lc_defs sleep_flags ready_flags_def)
    qed
  next
    case (await_join m)
    then show ?thesis using inv ops(1) flag_steps(5) by (auto simp: lc_defs flags_added ready_flags_def)
  next
    case (wait_exit b m)
    show ?thesis
    proof (cases "lc_creator s \<in> {C_PthreadJoin, C_Joined}")
      case True
      then have "b = True" "m = lc_monitor s" using wait_exit ops(3) tests(1) by (simp_all split: if_splits)
      with inv wait_exit(1,2) True show ?thesis by (auto simp: lc_defs sleep_flags ready_flags_def)
    next
      case False
      then have "b = False" "m = asleep t (lc_monitor s)" using wait_exit ops(3) tests(1) by (simp_all split: if_splits)
      with inv wait_exit(1,2) False \<open>c \<noteq> t\<close> show ?thesis by (auto simp: lc_defs sleep_flags ready_flags_def)
    qed
  next
    case (resume_exit b m)
    then have woken: "t \<in> sleepers (lc_monitor s)" "t \<notin> unnotified (lc_monitor s)"
      using ops(4) wake by (auto split: if_splits)
    note after = awake_updates [OF queue(1) woken]
    show ?thesis
    proof (cases "lc_creator s \<in> {C_PthreadJoin, C_Joined}")
      case True
      then have "b = True" "m = awake t (lc_monitor s)" using resume_exit ops(4) tests(1) by (simp_all split: if_splits)
      with inv resume_exit(1,2) True after show ?thesis by (auto simp: lc_defs sleep_flags ready_flags_def)
    next
      case False
      then have "b = False" "m = asleep t (awake t (lc_monitor s))"
        using resume_exit ops(4) tests(1) by (simp_all split: if_splits)
      with inv resume_exit(1,2) False after \<open>c \<noteq> t\<close> show ?thesis by (auto simp: lc_defs sleep_flags ready_flags_def)
    qed
  next
    case bailout
    then consider "lc_thread s = T_Ready" | "lc_thread s = T_Task" by auto
    then show ?thesis by cases (use inv bailout(1) in \<open>simp_all add: lc_defs sleep_flags ready_flags_def\<close>)
  next
    case cleanup
    then show ?thesis using inv by (auto simp: lc_defs sleep_flags ready_flags_def)
  qed (use inv in \<open>simp_all add: lc_defs sleep_flags ready_flags_def\<close>)
qed

lemma other_step_inv:
  assumes "other_step s s'" and inv: "lc_inv c t s"
  shows "lc_inv c t s'"
proof -
  note free = lc_invD(4) [OF inv] and queue = lc_invD(8,9) [OF inv]
  from assms(1) show ?thesis
  proof (cases rule: other_step.cases)
    case (spurious u)
    then show ?thesis using spurious_updates [OF queue(1), of u] inv
      by (auto simp: unnotified_def [symmetric] intro!: lc_inv_monitor)
  next
    case (spurious_ready u)
    then show ?thesis using spurious_updates [OF queue(2), of u] inv
      by (auto simp: unnotified_def [symmetric] intro!: lc_inv_ready)
  next
    case notify
    then show ?thesis using inv queue by (auto simp: notify_notified intro!: lc_inv_monitor)
  next
    case notify_one
    then show ?thesis using inv queue by (auto intro!: lc_inv_monitor)
  next
    case (set_flag f u m)
    then show ?thesis using inv add_free [OF free] queue by (auto simp: flags_other intro!: lc_inv_monitor)
  next
    case (clear_flag f u m)
    then show ?thesis using inv remove_free [OF free] queue by (auto simp: flags_other intro!: lc_inv_monitor)
  qed
qed

inductive_cases lc_stepE: "lc_step c t s s'"

lemma lc_step_inv: "lc_step c t s s' \<Longrightarrow> lc_inv c t s \<Longrightarrow> c \<noteq> t \<Longrightarrow> lc_inv c t s'"
  by (elim lc_stepE) (simp_all add: creator_step_inv thread_step_inv other_step_inv)

lemma lc_reachable_inv: "lc_reachable c t s \<Longrightarrow> c \<noteq> t \<Longrightarrow> lc_inv c t s"
proof (induction rule: lc_reachable.induct)
  case lc_start
  then show ?case
    by (simp add: lc_defs lc_init_def fresh_monitor_def flags_def thread_flags_def ready_flags_def sleep_defs
        creator_flags.simps)
next
  case (lc_more s s')
  then show ?case using lc_step_inv by simp
qed

section \<open>What the protocol guarantees\<close>

text \<open>
  C8. The order of start and join. In every reachable state of the protocol, whatever the
  interleaving: when \<open>start\<close> has returned, the new thread has finished its start-up (it has set
  \<open>READY\<close>); the creator synchronises the properties of the object only while the thread runs no
  PHP code any more; the thread drops its local objects and exits only after the creator has
  finished that synchronisation; when \<open>join\<close> has returned, the thread has exited; and from the moment \<open>start\<close> destroys the
  monitor of the handshake, no thread holds it, sleeps on it or is going to use it.
\<close>

theorem start_join_order:
  assumes "lc_reachable c t s" and "c \<noteq> t"
  shows "(lc_creator s \<notin> {C_New, C_CheckReady, C_SleepReady} \<longrightarrow> lc_thread s \<notin> {T_None, T_Startup}) \<and>
    (lc_creator s = C_Sync \<longrightarrow> lc_thread s \<in> {T_CheckExit, T_SleepExit}) \<and>
    (lc_thread s \<in> {T_Cleanup, T_Exited} \<longrightarrow> lc_creator s \<in> {C_PthreadJoin, C_Joined}) \<and>
    (lc_creator s = C_Joined \<longrightarrow> lc_thread s = T_Exited) \<and>
    (lc_creator s \<notin> {C_New, C_CheckReady, C_SleepReady} \<longrightarrow> pthreads_monitor_destroy (lc_ready s) = Some ())"
proof -
  note inv = lc_reachable_inv [OF assms]
  have "pthreads_monitor_destroy (lc_ready s) = Some ()" if "lc_creator s \<noteq> C_SleepReady"
    using destroy_free [OF lc_invD(5) [OF inv]] lc_sleep(5) [OF inv] that by simp
  with lc_invD(1) [OF inv] show ?thesis
    by (cases "lc_creator s"; cases "lc_thread s") (simp_all add: pcs_ok_def)
qed

text \<open>
  Progress: a measure on the control points that some step of the two sides always decreases
  until the creator has joined.
\<close>

fun creator_rank :: "creator_pc \<Rightarrow> nat" where
  "creator_rank C_New = 8"
| "creator_rank C_CheckReady = 7"
| "creator_rank C_SleepReady = 7"
| "creator_rank C_Started = 6"
| "creator_rank C_CheckAwait = 5"
| "creator_rank C_SleepAwait = 5"
| "creator_rank C_Sync = 4"
| "creator_rank C_PthreadJoin = 3"
| "creator_rank C_Joined = 0"

fun thread_rank :: "thread_pc \<Rightarrow> nat" where
  "thread_rank T_None = 20"
| "thread_rank T_Startup = 10"
| "thread_rank T_Ready = 9"
| "thread_rank T_Running = 8"
| "thread_rank T_Done = 6"
| "thread_rank T_Task = 7"
| "thread_rank T_SleepTask = 6"
| "thread_rank T_Stop = 5"
| "thread_rank T_CheckExit = 4"
| "thread_rank T_SleepExit = 4"
| "thread_rank T_Cleanup = 3"
| "thread_rank T_Exited = 2"

definition lc_rank :: "lifecycle \<Rightarrow> nat" where
  "lc_rank s = creator_rank (lc_creator s) + thread_rank (lc_thread s) + 2 * lc_tasks s"

lemma round_progress:
  assumes "m_mutex m = mutex_init" and "pthreads_monitor_check m PTHREADS_MONITOR_JOINED \<noteq> 0"
  shows "\<exists>q n'. next_round t n (locked_by t m) = (q, n', m) \<and> thread_rank q + 2 * n' < 6 + 2 * n"
  using assms by (cases n) (simp_all add: next_round_locked)

lemma thread_progress:
  assumes inv: "lc_inv c t s" and "joining (lc_creator s)" and "\<not> awaiting (lc_thread s)"
  shows "\<exists>s'. thread_step t s s' \<and> lc_rank s' < lc_rank s"
proof -
  note free = lc_invD(4) [OF inv] and queue = lc_invD(8) [OF inv]
  have joined: "pthreads_monitor_check (lc_monitor s) PTHREADS_MONITOR_JOINED \<noteq> 0"
    using monitor_tests(3) [OF lc_invD(6) [OF inv]] assms(2) by simp
  show ?thesis
  proof (cases "lc_thread s")
    case T_Ready
    from thread_step.run [OF this add_free [OF free]] T_Ready show ?thesis by (fastforce simp: lc_rank_def)
  next
    case T_Running
    from thread_step.ran [OF this remove_free [OF free]] T_Running show ?thesis by (fastforce simp: lc_rank_def)
  next
    case T_Done
    show ?thesis
    proof (cases "lc_worker s")
      case True
      from round_progress [OF free joined, of t "lc_tasks s"] obtain q n where
        r: "next_round t (lc_tasks s) (locked_by t (lc_monitor s)) = (q, n, lc_monitor s)"
          "thread_rank q + 2 * n < 6 + 2 * lc_tasks s" by blast
      from thread_step.next_task [OF T_Done True lock_free_monitor [OF free] r(1)] T_Done r(2) show ?thesis
        by (fastforce simp: lc_rank_def)
    next
      case False
      from thread_step.stop [OF T_Done this] T_Done show ?thesis by (fastforce simp: lc_rank_def)
    qed
  next
    case T_Task
    from thread_step.task_done [OF this] T_Task show ?thesis by (fastforce simp: lc_rank_def)
  next
    case T_SleepTask
    have "t \<in> set (m_woken (lc_monitor s))"
      using lc_sleep(4,6) [OF inv] T_SleepTask assms(2) by (auto simp: woken_iff [OF queue])
    with free have leave: "cond_wait_leave t (lc_monitor s) = Some (locked_by t (awake t (lc_monitor s)))"
      by (simp add: leave_free)
    have "m_mutex (awake t (lc_monitor s)) = mutex_init"
      "pthreads_monitor_check (awake t (lc_monitor s)) PTHREADS_MONITOR_JOINED \<noteq> 0"
      using free joined by (simp_all add: pthreads_monitor_check_def)
    from round_progress [OF this, of t "lc_tasks s"] obtain q n where
      r: "next_round t (lc_tasks s) (locked_by t (awake t (lc_monitor s))) = (q, n, awake t (lc_monitor s))"
        "thread_rank q + 2 * n < 6 + 2 * lc_tasks s" by blast
    from thread_step.resume_task [OF T_SleepTask leave r(1)] T_SleepTask r(2) show ?thesis
      by (fastforce simp: lc_rank_def)
  next
    case T_Stop
    from thread_step.await_join [OF this add_free [OF free]] T_Stop show ?thesis by (fastforce simp: lc_rank_def)
  qed (use assms(2,3) lc_invD(1) [OF inv] in \<open>auto simp: pcs_ok_def\<close>)
qed

lemma exit_progress:
  assumes inv: "lc_inv c t s" and p: "lc_creator s = C_PthreadJoin" and "lc_thread s \<noteq> T_Exited"
  shows "\<exists>s'. thread_step t s s' \<and> lc_rank s' < lc_rank s"
proof -
  note free = lc_invD(4) [OF inv] and queue = lc_invD(8) [OF inv]
  have exit: "pthreads_monitor_check (lc_monitor s) PTHREADS_MONITOR_EXIT \<noteq> 0"
    using monitor_tests(2) [OF lc_invD(6) [OF inv]] p by simp
  have "awaiting (lc_thread s)" using lc_invD(1) [OF inv] p by (simp add: pcs_ok_def)
  then consider "lc_thread s = T_CheckExit" | "lc_thread s = T_SleepExit" | "lc_thread s = T_Cleanup"
    using assms(3) by (auto simp: awaiting_def)
  then show ?thesis
  proof cases
    case 1
    from thread_step.wait_exit [OF 1 wait_until_free [OF free, THEN trans]] 1 exit show ?thesis
      by (fastforce simp: lc_rank_def)
  next
    case 2
    have "t \<in> set (m_woken (lc_monitor s))"
      using lc_sleep(3,6) [OF inv] 2 p by (auto simp: woken_iff [OF queue])
    with resume_free [OF free] exit
    have "wait_until_resume t PTHREADS_MONITOR_EXIT (lc_monitor s) = Some (True, awake t (lc_monitor s))" by simp
    from thread_step.resume_exit [OF 2 this] 2 show ?thesis by (fastforce simp: lc_rank_def)
  next
    case 3
    from thread_step.cleanup [OF this] 3 show ?thesis by (fastforce simp: lc_rank_def)
  qed
qed

lemma ready_progress:
  assumes inv: "lc_inv c t s" and p: "lc_creator s = C_CheckReady \<or> lc_creator s = C_SleepReady"
  shows "\<exists>s'. lc_step c t s s' \<and> lc_rank s' < lc_rank s"
proof (cases "lc_thread s = T_Startup")
  case True
  from thread_step.ready [OF this add_free [OF lc_invD(5) [OF inv]]] True show ?thesis
    by (fastforce simp: lc_rank_def intro: lc_step.by_thread)
next
  case False
  have "lc_thread s \<noteq> T_None" using lc_invD(1) [OF inv] p by (auto simp: pcs_ok_def)
  with False have ready: "pthreads_monitor_check (lc_ready s) PTHREADS_MONITOR_READY \<noteq> 0"
    using flag_tests [OF lc_invD(7) [OF inv]] by simp
  from p show ?thesis
  proof
    assume q: "lc_creator s = C_CheckReady"
    have "pthreads_monitor_destroy (lc_ready s) = Some ()"
      using destroy_free [OF lc_invD(5) [OF inv]] lc_sleep(5) [OF inv] q by simp
    then have "pthreads_routine_wait c (lc_ready s) = Some (True, lc_ready s)"
      using wait_until_free [OF lc_invD(5) [OF inv]] ready by (simp add: pthreads_routine_wait_def routine_done_def)
    from creator_step.wait_ready [OF q this] q show ?thesis
      by (fastforce simp: lc_rank_def intro: lc_step.by_creator)
  next
    assume q: "lc_creator s = C_SleepReady"
    have sl: "c \<in> sleepers (lc_ready s)" "c \<notin> unnotified (lc_ready s)" "sleepers (lc_ready s) = {c}"
      using lc_sleep(1,5) [OF inv] q False by auto
    then have "c \<in> set (m_woken (lc_ready s))" by (simp add: woken_iff [OF lc_invD(9) [OF inv]])
    moreover have "pthreads_monitor_destroy (awake c (lc_ready s)) = Some ()"
      using awake_updates(1) [OF lc_invD(9) [OF inv] sl(1,2)] sl(3) lc_invD(5) [OF inv] by (intro destroy_free) simp_all
    ultimately have "routine_wait_resume c (lc_ready s) = Some (True, awake c (lc_ready s))"
      using resume_free [OF lc_invD(5) [OF inv]] ready by (simp add: routine_wait_resume_def routine_done_def)
    from creator_step.resume_ready [OF q this] q show ?thesis
      by (fastforce simp: lc_rank_def intro: lc_step.by_creator)
  qed
qed

lemma await_progress:
  assumes inv: "lc_inv c t s" and p: "lc_creator s = C_CheckAwait \<or> lc_creator s = C_SleepAwait"
  shows "\<exists>s'. lc_step c t s s' \<and> lc_rank s' < lc_rank s"
proof (cases "awaiting (lc_thread s)")
  case False
  have "joining (lc_creator s)" using p by auto
  from thread_progress [OF inv this False] show ?thesis by (auto intro: lc_step.by_thread)
next
  case True
  then have await: "pthreads_monitor_check (lc_monitor s) PTHREADS_MONITOR_AWAIT_JOIN \<noteq> 0"
    using monitor_tests(1) [OF lc_invD(6) [OF inv]] by simp
  from p show ?thesis
  proof
    assume q: "lc_creator s = C_CheckAwait"
    have "pthreads_monitor_wait_until c PTHREADS_MONITOR_AWAIT_JOIN (lc_monitor s) = Some (True, lc_monitor s)"
      using wait_until_free [OF lc_invD(4) [OF inv]] await by simp
    from creator_step.wait_await [OF q this] q show ?thesis
      by (fastforce simp: lc_rank_def intro: lc_step.by_creator)
  next
    assume q: "lc_creator s = C_SleepAwait"
    have "c \<in> set (m_woken (lc_monitor s))"
      using lc_sleep(2,6) [OF inv] q True by (auto simp: woken_iff [OF lc_invD(8) [OF inv]])
    with resume_free [OF lc_invD(4) [OF inv]] await
    have "wait_until_resume c PTHREADS_MONITOR_AWAIT_JOIN (lc_monitor s) = Some (True, awake c (lc_monitor s))"
      by simp
    from creator_step.resume_await [OF q this] q show ?thesis
      by (fastforce simp: lc_rank_def intro: lc_step.by_creator)
  qed
qed

lemma lc_progress:
  assumes inv: "lc_inv c t s" and "lc_creator s \<noteq> C_Joined"
  shows "\<exists>s'. lc_step c t s s' \<and> lc_rank s' < lc_rank s"
proof (cases "lc_creator s")
  case C_New
  moreover have "lc_thread s = T_None" using inv C_New by (simp add: lc_defs)
  ultimately show ?thesis using creator_step.start [OF C_New add_free [OF lc_invD(4) [OF inv]]]
    by (fastforce simp: lc_rank_def intro: lc_step.by_creator)
next
  case C_Started
  from creator_step.join [OF this add_free [OF lc_invD(4) [OF inv]]] C_Started show ?thesis
    by (fastforce simp: lc_rank_def intro: lc_step.by_creator)
next
  case C_Sync
  from creator_step.let_exit [OF this add_free [OF lc_invD(4) [OF inv]]] C_Sync show ?thesis
    by (fastforce simp: lc_rank_def intro: lc_step.by_creator)
next
  case C_PthreadJoin
  show ?thesis
  proof (cases "lc_thread s = T_Exited")
    case True
    from creator_step.joined [OF C_PthreadJoin True] C_PthreadJoin True show ?thesis
      by (fastforce simp: lc_rank_def intro: lc_step.by_creator)
  next
    case False
    from exit_progress [OF inv C_PthreadJoin False] show ?thesis by (auto intro: lc_step.by_thread)
  qed
qed (use assms ready_progress await_progress in auto)

lemma lc_completion:
  "lc_inv c t s \<Longrightarrow> c \<noteq> t \<Longrightarrow> \<exists>s'. (lc_step c t)\<^sup>*\<^sup>* s s' \<and> lc_creator s' = C_Joined"
proof (induction "lc_rank s" arbitrary: s rule: less_induct)
  case less
  show ?case
  proof (cases "lc_creator s = C_Joined")
    case False
    from lc_progress [OF less.prems(1) False] obtain s1 where
      s1: "lc_step c t s s1" "lc_rank s1 < lc_rank s" by blast
    from less.hyps [OF s1(2) lc_step_inv [OF s1(1) less.prems] less.prems(2)] s1(1) show ?thesis
      by (meson converse_rtranclp_into_rtranclp)
  qed auto
qed

lemma lc_reachable_steps: "(lc_step c t)\<^sup>*\<^sup>* s s' \<Longrightarrow> lc_reachable c t s \<Longrightarrow> lc_reachable c t s'"
  by (induction rule: rtranclp_induct) (auto intro: lc_reachable.lc_more)

lemma joined_reachable: "c \<noteq> t \<Longrightarrow> \<exists>s. lc_reachable c t s \<and> lc_creator s = C_Joined"
  using lc_completion [OF lc_reachable_inv [OF lc_reachable.lc_start]] lc_reachable_steps
    [OF _ lc_reachable.lc_start] by blast

theorem start_join_order_witness:
  "\<exists>s. lc_reachable 1 2 s \<and> lc_creator s = C_Joined \<and> lc_thread s = T_Exited"
proof -
  from joined_reachable [of 1 2] obtain s where s: "lc_reachable 1 2 s" "lc_creator s = C_Joined" by auto
  with start_join_order [OF s(1)] show ?thesis by auto
qed



end
