(* ===== verification/Object_Props.thy ===== *)
theory Object_Props
  imports Object Store_Props
begin

text \<open>
  Connections and reference counts of src/object.c: the count of a thread-safe object is
  the number of zend objects connected to it, the last one frees it, and what stays behind
  does not point into the memory of the thread that left; and serialised objects, which are
  addresses, lead back to the same object.
\<close>

section \<open>Addresses\<close>

lemma digit_char: "d < 10 \<Longrightarrow> of_char (digit_char d) = (48 + d :: nat)"
  by (simp add: digit_char_def)

lemma digit_char_facts:
  assumes "d < 10"
  shows "is_digit (digit_char d)" and "\<not> is_space (digit_char d)"
    and "digit_char d \<noteq> CHR ''-''" and "digit_char d \<noteq> CHR ''+''"
proof -
  show "is_digit (digit_char d)" "\<not> is_space (digit_char d)"
    using assms by (simp_all add: is_digit_def is_space_def digit_char)
  show "digit_char d \<noteq> CHR ''-''" "digit_char d \<noteq> CHR ''+''"
    using assms digit_char [OF assms] by auto
qed

lemma print_nat_digits: "\<forall>c\<in>set (print_nat n). \<exists>d<10. c = digit_char d"
proof (induction n rule: print_nat.induct)
  case (1 n)
  show ?case
  proof (cases "n < 10")
    case False
    have "\<exists>d<10. digit_char (n mod 10) = digit_char d" by (rule exI [of _ "n mod 10"]) simp
    with 1 False show ?thesis by (subst print_nat.simps) auto
  qed (auto simp: print_nat.simps [of n])
qed

lemma print_nat_nonempty: "print_nat n \<noteq> []"
  by (subst print_nat.simps) simp

lemma read_digits_snoc: "read_digits (s @ [c]) = read_digits s * 10 + (of_char c - 48)"
  by (simp add: read_digits_def)

lemma read_print: "read_digits (print_nat n) = n"
proof (induction n rule: print_nat.induct)
  case (1 n)
  show ?case
  proof (cases "n < 10")
    case True
    then show ?thesis by (simp add: print_nat.simps [of n] read_digits_def digit_char)
  next
    case False
    with 1 show ?thesis by (simp add: print_nat.simps [of n] read_digits_snoc digit_char)
  qed
qed

lemma scan_print: "a < 2 ^ 64 \<Longrightarrow> scan_address ('':'' @ print_nat a @ '':'') = (Some 1, a)"
proof -
  assume a: "a < 2 ^ 64"
  obtain c cs where cs: "print_nat a = c # cs" using print_nat_nonempty by (cases "print_nat a") auto
  then obtain d where d: "d < 10" "c = digit_char d" using print_nat_digits [of a] by auto
  have "\<forall>c\<in>set (print_nat a). is_digit c" using print_nat_digits [of a] digit_char_facts(1) by fastforce
  moreover have "\<not> is_digit CHR '':''" by (simp add: is_digit_def)
  ultimately have "takeWhile is_digit (print_nat a @ '':'') = print_nat a"
    by (subst takeWhile_append2) auto
  then have "scan_number (print_nat a @ '':'') = Some a"
    using a d digit_char_facts [OF d(1)] read_print [of a] by (simp add: scan_number_def cs Let_def)
  then show ?thesis using d digit_char_facts [OF d(1)] by (simp add: scan_address_def cs)
qed

text \<open>
  C13. A serialised threaded object leads back to the object: the string holds the address of
  the original object; the thread that owns the original gets it back itself, and a thread
  that already has a connection to its shared part gets that connection, without any change
  of the state.
\<close>

theorem serialize_roundtrip:
  assumes "w_obj w obj = Some ob" and "orig = (case zo_original_zobj ob of Some p \<Rightarrow> p | None \<Rightarrow> obj)"
    and "w_obj w orig = Some oo" and "orig \<in> g_objects (w_globals w)" and "0 < orig" and "orig < 2 ^ 64"
    and "can_lock 2 {LGlobal} t w"
    and "ident_ls (zo_owner oo) = t \<and> c = orig \<or>
         ident_ls (zo_owner oo) \<noteq> t \<and> zg_resolve (w_zg w t) (zo_ts_obj oo) = Some c"
  shows "\<exists>s. pthreads_threaded_serialize obj w = Some s \<and>
    pthreads_threaded_unserialize E t ce s w = Some ((SUCCESS, IS_OBJECT (ThreadedObject c)), w)"
proof -
  let ?s = "'':'' @ print_nat orig @ '':''"
  have c: "can_lock (Suc (Suc 0)) {LGlobal} t w" using assms(7) by (simp add: numeral_2_eq_2)
  have ser: "pthreads_threaded_serialize obj w = Some ?s"
    using assms(1,2) by (simp add: pthreads_threaded_serialize_def)
  have "object_connect_locked E t orig (Some ce) (lock_w t LGlobal w) =
      Some ((True, IS_OBJECT (ThreadedObject c)), lock_w t LGlobal w)"
    using assms(3-5,8) object_valid_ok [OF can_lock_inside [OF c]]
    by (auto simp: object_connect_locked_def)
  then have "pthreads_globals_object_connect E t orig (Some ce) w =
      Some ((True, IS_OBJECT (ThreadedObject c)), w)"
    unfolding pthreads_globals_object_connect_def by (subst with_monitor_ok [OF c]) simp_all
  with ser scan_print [OF assms(6)] assms(5) show ?thesis
    by (simp add: pthreads_threaded_unserialize_def)
qed

theorem serialize_roundtrip_witness:
  "\<exists>s. pthreads_threaded_serialize 3
      (demo_world (demo_ts (demo_table []) 0) (demo_zobj 1 None 0 None) (demo_zobj 2 (Some 1) 0 None)) = Some s \<and>
    pthreads_threaded_unserialize demo_engine 1 ''T'' s
      (demo_world (demo_ts (demo_table []) 0) (demo_zobj 1 None 0 None) (demo_zobj 2 (Some 1) 0 None)) =
      Some ((SUCCESS, IS_OBJECT (ThreadedObject 1)),
        demo_world (demo_ts (demo_table []) 0) (demo_zobj 1 None 0 None) (demo_zobj 2 (Some 1) 0 None))"
  by (rule serialize_roundtrip [of _ _ "demo_zobj 2 (Some 1) 0 None" 1 "demo_zobj 1 None 0 None"])
    (simp_all add: demo_can_lock, simp_all add: demo_zobj_def)

text \<open>
  C14. An address that is not registered any more is refused: unserialising the string of an
  object that has been freed fails, throws the error that names a destroyed object, and
  changes nothing else.
\<close>

theorem unserialize_destroyed:
  assumes "orig \<notin> g_objects (w_globals w)" and "0 < orig" and "orig < 2 ^ 64" and "can_lock 2 {LGlobal} t w"
  shows "pthreads_threaded_unserialize E t ce ('':'' @ print_nat orig @ '':'') w =
    Some ((FAILURE, IS_UNDEF), throw t ConnectToDestroyed w)"
proof -
  have c: "can_lock (Suc (Suc 0)) {LGlobal} t w" using assms(4) by (simp add: numeral_2_eq_2)
  have "object_connect_locked E t orig (Some ce) (lock_w t LGlobal w) = Some ((False, IS_UNDEF), lock_w t LGlobal w)"
    using assms(1) object_valid_ok [OF can_lock_inside [OF c]]
    by (simp add: object_connect_locked_def)
  then have "pthreads_globals_object_connect E t orig (Some ce) w = Some ((False, IS_UNDEF), w)"
    unfolding pthreads_globals_object_connect_def by (subst with_monitor_ok [OF c]) simp_all
  with scan_print [OF assms(3)] assms(2) show ?thesis
    by (simp add: pthreads_threaded_unserialize_def)
qed

theorem unserialize_destroyed_witness:
  "pthreads_threaded_unserialize demo_engine 1 ''T'' ('':'' @ print_nat 1234 @ '':'') empty_world =
    Some ((FAILURE, IS_UNDEF), throw 1 ConnectToDestroyed empty_world)"
  by (rule unserialize_destroyed) (simp_all add: empty_world_can_lock, simp add: empty_world_def empty_globals_def)

section \<open>Reference counts\<close>

definition refs :: "world \<Rightarrow> addr \<Rightarrow> addr set" where
  "refs w a = {p. \<exists>ob. w_obj w p = Some ob \<and> zo_ts_obj ob = a}"

definition refcounts_ok :: "world \<Rightarrow> bool" where
  "refcounts_ok w \<longleftrightarrow> (\<forall>p ob. w_obj w p = Some ob \<longrightarrow> w_ts w (zo_ts_obj ob) \<noteq> None) \<and>
     (\<forall>a ts. w_ts w a = Some ts \<longrightarrow> finite (refs w a) \<and> refs w a \<noteq> {} \<and> ts_refcount ts = card (refs w a))"

text \<open>The state after one reference to \<open>a\<close> is dropped.\<close>

definition released :: "addr \<Rightarrow> pthreads_object \<Rightarrow> world \<Rightarrow> world" where
  "released a ts w = (if ts_refcount ts = 1 then w\<lparr>w_ts := (w_ts w)(a := None)\<rparr>
     else set_ts a (ts\<lparr>ts_refcount := ts_refcount ts - 1\<rparr>) w)"

lemma lock_w_other [simp]: "l \<noteq> l' \<Longrightarrow> w_monitors (lock_w t l w) l' = w_monitors w l'"
  by (simp add: lock_w_def)

lemma ts_free_ok:
  assumes "can_lock (Suc n) L t w" and "LTs a \<in> L" and "w_ts w a = Some ts"
    and "pthreads_monitor_destroy (w_monitors w (LTs a)) = Some ()"
  shows "pthreads_ts_object_free t a w = Some (w\<lparr>w_ts := (w_ts w)(a := None)\<rparr>)"
proof -
  let ?w = "set_ts a (ts\<lparr>ts_props := (ts_props ts)\<lparr>store_hash := zend_hash_init\<rparr>\<rparr>) w"
  have "with_monitor t (LTs a) (\<lambda>w. do { w \<leftarrow> set_hash a zend_hash_init w; Some ((), w) }) (\<lambda>w. Some ((), w)) w =
      Some ((), ?w)"
    by (rule with_monitor_ok [OF assms(1,2)]) (simp_all add: set_hash_def assms(3))
  moreover have "?w\<lparr>w_ts := (w_ts ?w)(a := None)\<rparr> = w\<lparr>w_ts := (w_ts w)(a := None)\<rparr>"
    by (simp add: set_ts_def)
  ultimately show ?thesis using assms(3,4) by (simp add: pthreads_ts_object_free_def)
qed

lemma release_ok:
  assumes "can_lock (Suc n) L t w" and "LTs a \<in> L" and "w_ts w a = Some ts" and "0 < ts_refcount ts"
    and "ts_refcount ts = 1 \<longrightarrow> pthreads_monitor_destroy (w_monitors w (LTs a)) = Some ()"
  shows "release_ts t a w = Some (ts_refcount ts = 1, released a ts w)"
proof (cases "ts_refcount ts = 1")
  case True
  let ?w = "set_ts a (ts\<lparr>ts_refcount := 0\<rparr>) w"
  have "can_lock (Suc n) L t ?w" by (rule can_lock_same [OF _ assms(1)]) simp
  from ts_free_ok [OF this assms(2)] True assms(3,5) show ?thesis
    by (simp add: release_ts_def decr_def released_def set_ts_def)
next
  case False
  then show ?thesis using assms(3,4) by (simp add: release_ts_def decr_def released_def Let_def)
qed

lemma released_frame [simp]:
  "w_obj (released a ts w) = w_obj w" "w_monitors (released a ts w) = w_monitors w"
  "w_zg (released a ts w) = w_zg w" "w_globals (released a ts w) = w_globals w"
  "b \<noteq> a \<Longrightarrow> w_ts (released a ts w) b = w_ts w b"
  "w_ts (released a ts w) a = (if ts_refcount ts = 1 then None else Some (ts\<lparr>ts_refcount := ts_refcount ts - 1\<rparr>))"
  "released a ts (lock_w t l w) = lock_w t l (released a ts w)"
  by (simp_all add: released_def lock_w_def set_ts_def)

lemma refcounts_okD:
  assumes "refcounts_ok w" and "w_obj w p = Some ob"
  obtains ts where "w_ts w (zo_ts_obj ob) = Some ts" and "0 < ts_refcount ts"
    and "ts_refcount ts = card (refs w (zo_ts_obj ob))" and "p \<in> refs w (zo_ts_obj ob)"
    and "finite (refs w (zo_ts_obj ob))"
proof -
  from assms obtain ts where ts: "w_ts w (zo_ts_obj ob) = Some ts" unfolding refcounts_ok_def by blast
  with assms have "finite (refs w (zo_ts_obj ob))" "ts_refcount ts = card (refs w (zo_ts_obj ob))"
    unfolding refcounts_ok_def by blast+
  moreover have "p \<in> refs w (zo_ts_obj ob)" using assms(2) by (auto simp: refs_def)
  ultimately show thesis using ts that by (metis card_gt_0_iff empty_iff)
qed

lemma refcount_pos:
  assumes "refcounts_ok w" and "w_obj w p = Some ob" and "w_ts w (zo_ts_obj ob) = Some ts"
  shows "0 < ts_refcount ts"
  by (rule refcounts_okD [OF assms(1,2)]) (use assms(3) in simp)

lemma only_ref:
  assumes "finite S" and "p \<in> S"
  shows "card S = 1 \<longleftrightarrow> S = {p}"
  using assms by (metis card_1_singleton_iff is_singletonI is_singleton_altdef One_nat_def singletonD)


text \<open>An object that moves to another thread-safe part, or that goes away.\<close>

lemma refs_set_obj:
  "refs (set_obj p b w) a = (if zo_ts_obj b = a then insert p (refs w a) else refs w a - {p})"
  by (auto simp: refs_def)

lemma refs_cong: "w_obj w' = w_obj w \<Longrightarrow> refs w' = refs w"
  by (simp add: refs_def fun_eq_iff)

lemma refs_remove: "refs (w\<lparr>w_obj := (w_obj w)(p := None)\<rparr>) a = refs w a - {p}"
  by (auto simp: refs_def)

definition connected_object :: "addr \<Rightarrow> pthreads_zend_object \<Rightarrow> pthreads_zend_object \<Rightarrow> pthreads_zend_object" where
  "connected_object source s d = d\<lparr>zo_worker_data := None, zo_ts_obj := zo_ts_obj s,
     zo_original_zobj := Some (case zo_original_zobj s of Some p \<Rightarrow> p | None \<Rightarrow> source),
     zo_properties := map_option zend_hash_clean (zo_properties d)\<rparr>"

definition after_connect ::
  "addr \<Rightarrow> addr \<Rightarrow> pthreads_zend_object \<Rightarrow> pthreads_zend_object \<Rightarrow> pthreads_object \<Rightarrow> pthreads_object \<Rightarrow> world \<Rightarrow> world"
  where
  "after_connect source destination s d ts ts' w = set_obj destination (connected_object source s d)
     (set_ts (zo_ts_obj s) (ts'\<lparr>ts_refcount := Suc (ts_refcount ts')\<rparr>) (released (zo_ts_obj d) ts w))"

lemma connected_object_simps [simp]:
  "zo_ts_obj (connected_object source s d) = zo_ts_obj s"
  "zo_original_zobj (connected_object source s d) = Some (case zo_original_zobj s of Some p \<Rightarrow> p | None \<Rightarrow> source)"
  "zo_properties (connected_object source s d) = map_option zend_hash_clean (zo_properties d)"
  by (simp_all add: connected_object_def)

lemma connect_refcounts:
  assumes ok: "refcounts_ok w" and s: "w_obj w source = Some s" and d: "w_obj w destination = Some d"
    and "source \<noteq> destination" and ts: "w_ts w (zo_ts_obj d) = Some ts"
    and ts': "w_ts (released (zo_ts_obj d) ts w) (zo_ts_obj s) = Some ts'"
  shows "refcounts_ok (after_connect source destination s d ts ts' w)"
proof -
  let ?w = "after_connect source destination s d ts ts' w"
  have refs: "refs ?w a = (if a = zo_ts_obj s then insert destination (refs w a) else refs w a - {destination})" for a
    by (simp add: after_connect_def refs_set_obj) (simp add: refs_def)
  have cnt: "ts_refcount ts = card (refs w (zo_ts_obj d))" "finite (refs w (zo_ts_obj d))" "destination \<in> refs w (zo_ts_obj d)"
    using refcounts_okD [OF ok d] ts by auto
  have src: "source \<in> refs w (zo_ts_obj s)" using s by (auto simp: refs_def)
  have "finite (refs ?w a) \<and> refs ?w a \<noteq> {} \<and> ts_refcount c = card (refs ?w a)" if "w_ts ?w a = Some c" for a c
  proof (cases "a = zo_ts_obj s")
    case True
    have c: "c = ts'\<lparr>ts_refcount := Suc (ts_refcount ts')\<rparr>" using that True by (simp add: after_connect_def)
    show ?thesis
    proof (cases "zo_ts_obj s = zo_ts_obj d")
      case True
      then have "ts_refcount ts' = ts_refcount ts - 1" "1 < ts_refcount ts \<or> ts_refcount ts \<noteq> 1"
        using ts' by (auto split: if_splits)
      moreover have "0 < card (refs w (zo_ts_obj d))" using cnt by (auto simp: card_gt_0_iff)
      ultimately show ?thesis using \<open>a = zo_ts_obj s\<close> True c cnt refs [of a] by (auto simp: insert_absorb)
    next
      case False
      then have "w_ts w (zo_ts_obj s) = Some ts'" using ts' by simp
      with ok have "finite (refs w (zo_ts_obj s))" "ts_refcount ts' = card (refs w (zo_ts_obj s))"
        unfolding refcounts_ok_def by blast+
      moreover have "destination \<notin> refs w (zo_ts_obj s)" using False d by (simp add: refs_def)
      ultimately show ?thesis using \<open>a = zo_ts_obj s\<close> c refs [of a] by simp
    qed
  next
    case False
    show ?thesis
    proof (cases "a = zo_ts_obj d")
      case True
      then have c: "c = ts\<lparr>ts_refcount := ts_refcount ts - 1\<rparr>" "ts_refcount ts \<noteq> 1"
        using that False by (auto simp: after_connect_def split: if_splits)
      then have "refs w a \<noteq> {destination}" using cnt True by auto
      then have "refs w a - {destination} \<noteq> {}" using cnt(3) True by blast
      then show ?thesis using False True c cnt refs [of a] by (simp add: card_Diff_singleton)
    next
      case other: False
      then have "w_ts w a = Some c" using that False by (simp add: after_connect_def)
      moreover have "destination \<notin> refs w a" using other d by (auto simp: refs_def)
      ultimately show ?thesis using ok False refs [of a] unfolding refcounts_ok_def by simp
    qed
  qed
  moreover have "w_ts ?w (zo_ts_obj ob) \<noteq> None" if "w_obj ?w p = Some ob" for p ob
  proof (cases "zo_ts_obj ob = zo_ts_obj s")
    case False
    then have p: "p \<noteq> destination" "w_obj w p = Some ob" using that by (auto simp: after_connect_def split: if_splits)
    then have "w_ts w (zo_ts_obj ob) \<noteq> None" "p \<in> refs w (zo_ts_obj ob)"
      using ok by (auto simp: refs_def refcounts_ok_def)
    moreover have "ts_refcount ts \<noteq> 1" if "zo_ts_obj ob = zo_ts_obj d"
      using cnt only_ref [OF cnt(2,3)] \<open>p \<in> refs w (zo_ts_obj ob)\<close> p(1) that by auto
    ultimately show ?thesis using False by (cases "zo_ts_obj ob = zo_ts_obj d") (auto simp: after_connect_def)
  qed (simp add: after_connect_def)
  ultimately show ?thesis unfolding refcounts_ok_def by blast
qed


lemma connect_nolock_ok:
  assumes "w_obj w source = Some s" and "w_obj w destination = Some d" and "source \<noteq> 0" and "destination \<noteq> 0"
    and "zo_ts_obj d \<noteq> 0" and "zo_worker_data d = None" and "w_ts w (zo_ts_obj d) = Some ts" and "0 < ts_refcount ts"
    and "w_ts (released (zo_ts_obj d) ts w) (zo_ts_obj s) = Some ts'"
    and "can_lock (Suc n) L t w" and "LTs (zo_ts_obj d) \<in> L"
    and "ts_refcount ts = 1 \<longrightarrow> pthreads_monitor_destroy (w_monitors w (LTs (zo_ts_obj d))) = Some ()"
  shows "pthreads_connect_nolock t source destination w = Some (SUCCESS, after_connect source destination s d ts ts' w)"
  using assms release_ok [OF assms(10,11,7,8,12)]
  by (simp add: pthreads_connect_nolock_def after_connect_def connected_object_def Let_def)

lemma released_source:
  assumes "refcounts_ok w" and "w_obj w source = Some s" and "w_obj w destination = Some d"
    and "source \<noteq> destination" and "w_ts w (zo_ts_obj d) = Some ts"
  shows "\<exists>ts'. w_ts (released (zo_ts_obj d) ts w) (zo_ts_obj s) = Some ts'"
proof (cases "zo_ts_obj s = zo_ts_obj d")
  case True
  then have "{source, destination} \<subseteq> refs w (zo_ts_obj d)" using assms(2,3) by (auto simp: refs_def)
  moreover have "finite (refs w (zo_ts_obj d))" "ts_refcount ts = card (refs w (zo_ts_obj d))"
    using assms(1,5) unfolding refcounts_ok_def by blast+
  ultimately have "2 \<le> ts_refcount ts" using card_mono [of "refs w (zo_ts_obj d)" "{source, destination}"] assms(4)
    by simp
  then show ?thesis using True by simp
next
  case False
  then show ?thesis using assms(1,2) unfolding refcounts_ok_def by simp
qed

text \<open>
  C12. Connecting keeps the reference counts right: when the count of every thread-safe object
  is the number of objects connected to it and no object dangles, then after connecting
  \<open>destination\<close> to \<open>source\<close> the same holds, both share one thread-safe object, the connection
  names the original object (never another connection), its cached properties are gone,
  and the part \<open>destination\<close> had before is freed exactly when nobody else was connected to it.
\<close>

theorem connect_counts_references:
  assumes ok: "refcounts_ok w" and s: "w_obj w source = Some s" and d: "w_obj w destination = Some d"
    and "source \<noteq> destination" and "source \<noteq> 0" and "destination \<noteq> 0"
    and "zo_ts_obj d \<noteq> 0" and "zo_worker_data d = None"
    and "can_lock 2 {LGlobal, LTs (zo_ts_obj d)} t w"
    and idle: "refs w (zo_ts_obj d) = {destination} \<longrightarrow> pthreads_monitor_destroy (w_monitors w (LTs (zo_ts_obj d))) = Some ()"
  shows "\<exists>w' d'. pthreads_connect t source destination w = Some (SUCCESS, w') \<and> refcounts_ok w' \<and>
    w_obj w' = (w_obj w)(destination \<mapsto> d') \<and> zo_ts_obj d' = zo_ts_obj s \<and>
    zo_original_zobj d' = Some (case zo_original_zobj s of Some p \<Rightarrow> p | None \<Rightarrow> source) \<and>
    zo_properties d' = map_option zend_hash_clean (zo_properties d) \<and>
    (w_ts w' (zo_ts_obj d) = None \<longleftrightarrow> refs w (zo_ts_obj d) = {destination})"
proof -
  have c: "can_lock (Suc (Suc 0)) {LGlobal, LTs (zo_ts_obj d)} t w" using assms(9) by (simp add: numeral_2_eq_2)
  from refcounts_okD [OF ok d] obtain ts where
    ts: "w_ts w (zo_ts_obj d) = Some ts" "0 < ts_refcount ts" "ts_refcount ts = card (refs w (zo_ts_obj d))"
      "destination \<in> refs w (zo_ts_obj d)" "finite (refs w (zo_ts_obj d))" by metis
  from released_source [OF ok s d assms(4) ts(1)] obtain ts' where
    ts': "w_ts (released (zo_ts_obj d) ts w) (zo_ts_obj s) = Some ts'" by blast
  let ?w = "after_connect source destination s d ts ts' w"
  have "pthreads_connect_nolock t source destination (lock_w t LGlobal w) =
      Some (SUCCESS, after_connect source destination s d ts ts' (lock_w t LGlobal w))"
    by (rule connect_nolock_ok [OF _ _ assms(5-8) _ ts(2) _ can_lock_inside [OF c]])
      (use idle only_ref [OF ts(5,4)] ts(3) in \<open>simp_all add: s d ts(1) ts'\<close>)
  then have "pthreads_connect t source destination w = Some (SUCCESS, ?w)"
    unfolding pthreads_connect_def by (subst with_monitor_ok [OF c]) (simp_all add: after_connect_def)
  moreover have "w_ts ?w (zo_ts_obj d) = None \<longleftrightarrow> refs w (zo_ts_obj d) = {destination}"
  proof (cases "zo_ts_obj s = zo_ts_obj d")
    case True
    then have "source \<in> refs w (zo_ts_obj d)" using s by (auto simp: refs_def)
    then show ?thesis using True assms(4) by (auto simp: after_connect_def)
  next
    case False
    then show ?thesis using only_ref [OF ts(5,4)] ts(3) by (simp add: after_connect_def)
  qed
  moreover have "w_obj ?w = (w_obj w)(destination \<mapsto> connected_object source s d)" by (simp add: after_connect_def)
  ultimately show ?thesis using connect_refcounts [OF ok s d assms(4) ts(1) ts']
    by (intro exI [of _ ?w] exI [of _ "connected_object source s d"] conjI) simp_all
qed

text \<open>Two objects with a thread-safe part each.\<close>

definition two_worlds :: world where
  "two_worlds = empty_world\<lparr>w_next := 10, w_ts := [2 \<mapsto> (demo_ts (demo_table []) 0)\<lparr>ts_refcount := 1\<rparr>,
       4 \<mapsto> (demo_ts (demo_table []) 0)\<lparr>ts_refcount := 1\<rparr>],
     w_obj := [1 \<mapsto> demo_zobj 1 None 0 None, 3 \<mapsto> (demo_zobj 2 None 0 None)\<lparr>zo_ts_obj := 4\<rparr>],
     w_globals := empty_globals\<lparr>g_objects := {1, 3}\<rparr>\<rparr>"

lemma two_worlds_refs: "refs two_worlds a = (if a = 2 then {1} else if a = 4 then {3} else {})"
  by (auto simp: refs_def two_worlds_def)

lemma two_worlds_ok: "refcounts_ok two_worlds"
  unfolding refcounts_ok_def by (simp add: two_worlds_refs) (auto simp: two_worlds_def)

lemma two_worlds_can_lock: "n \<le> 1000 \<Longrightarrow> can_lock n L t two_worlds"
  using empty_world_can_lock [of n L t] by (simp add: two_worlds_def can_lock_def)

lemma two_worlds_idle: "pthreads_monitor_destroy (w_monitors two_worlds l) = Some ()"
  by (simp add: two_worlds_def empty_world_def pthreads_monitor_destroy_def fresh_monitor_def mutex_init_def)

theorem connect_counts_references_witness:
  "\<exists>w' d'. pthreads_connect 2 1 3 two_worlds = Some (SUCCESS, w') \<and> refcounts_ok w' \<and>
    w_obj w' 3 = Some d' \<and> zo_ts_obj d' = 2 \<and> zo_original_zobj d' = Some 1 \<and> w_ts w' 4 = None"
proof -
  from connect_counts_references [OF two_worlds_ok, of 1 "demo_zobj 1 None 0 None" 3
      "(demo_zobj 2 None 0 None)\<lparr>zo_ts_obj := 4\<rparr>" 2]
  obtain w' d' where "pthreads_connect 2 1 3 two_worlds = Some (SUCCESS, w')" "refcounts_ok w'"
    "w_obj w' = (w_obj two_worlds)(3 \<mapsto> d')" "zo_ts_obj d' = 2" "zo_original_zobj d' = Some 1"
    "w_ts w' 4 = None"
    using two_worlds_can_lock two_worlds_refs [of 4] two_worlds_idle by (auto simp: two_worlds_def demo_zobj_def)
  then show ?thesis by auto
qed

section \<open>Leaving\<close>

definition string_owned_by :: "tid \<Rightarrow> zval \<Rightarrow> bool" where
  "string_owned_by t z \<longleftrightarrow> (case z of IS_PTR (STORE_TYPE_STRING_PTR s owner) \<Rightarrow> ident_ls owner = t | _ \<Rightarrow> False)"

definition string_bytes :: "zval \<Rightarrow> string option" where
  "string_bytes z = (case z of IS_STRING s \<Rightarrow> Some (zs_val s) | IS_PTR (STORE_TYPE_STRING_PTR s _) \<Rightarrow> Some (zs_val s)
     | _ \<Rightarrow> None)"

text \<open>An entry and what it becomes when thread \<open>t\<close> leaves: the same entry, or a copy of its bytes.\<close>

definition persisted :: "tid \<Rightarrow> zkey \<times> zval \<Rightarrow> zkey \<times> zval \<Rightarrow> bool" where
  "persisted t e e' \<longleftrightarrow> fst e' = fst e \<and> \<not> string_owned_by t (snd e') \<and>
     (if string_owned_by t (snd e) then string_bytes (snd e') = string_bytes (snd e) else snd e' = snd e)"

lemma persist_storage_ok:
  "\<exists>z' n. persist_storage t z w = (z', w\<lparr>w_next := n\<rparr>) \<and> persisted t (k, z) (k, z')"
proof (cases "string_owned_by t z")
  case True
  then obtain s own where z: "z = IS_PTR (STORE_TYPE_STRING_PTR s own)" "ident_ls own = t"
    by (auto simp: string_owned_by_def split: zval.splits pthreads_storage.splits)
  let ?r = "pthreads_store_save_string s w"
  have "zs_val (fst ?r) = zs_val s" "snd ?r = w\<lparr>w_next := w_next (snd ?r)\<rparr>"
    by (simp_all add: pthreads_store_save_string_def zend_string_init_def alloc_def)
  moreover have "persist_storage t z w = (IS_STRING (fst ?r), snd ?r)"
    using z by (simp add: persist_storage_def view_defs split_beta)
  ultimately show ?thesis using z
    by (intro exI [of _ "IS_STRING (fst ?r)"] exI [of _ "w_next (snd ?r)"])
      (simp add: persisted_def string_owned_by_def string_bytes_def)
next
  case False
  then have "persist_storage t z w = (z, w)"
    by (auto simp: persist_storage_def view_defs string_owned_by_def split: zval.splits pthreads_storage.splits)
  with False show ?thesis by (intro exI [of _ z] exI [of _ "w_next w"]) (simp add: persisted_def)
qed

lemma persist_entries_ok:
  "\<exists>ps' n. persist_entries t ps w = (ps', w\<lparr>w_next := n\<rparr>) \<and> list_all2 (persisted t) ps ps'"
proof (induction ps arbitrary: w)
  case Nil
  then show ?case by (intro exI [of _ "[]"] exI [of _ "w_next w"]) simp
next
  case (Cons e ps)
  obtain k z where e: "e = (k, z)" by (cases e)
  from persist_storage_ok [of t z w k] obtain z' m where
    z': "persist_storage t z w = (z', w\<lparr>w_next := m\<rparr>)" "persisted t (k, z) (k, z')" by blast
  from Cons [of "w\<lparr>w_next := m\<rparr>"] obtain ps' n where
    "persist_entries t ps (w\<lparr>w_next := m\<rparr>) = (ps', w\<lparr>w_next := n\<rparr>)" "list_all2 (persisted t) ps ps'" by auto
  with z' e show ?case by (intro exI [of _ "(k, z') # ps'"] exI [of _ n]) simp
qed

lemma persist_local_ok:
  assumes "can_lock (Suc n) L t w" and "LTs (zo_ts_obj ob) \<in> L" and "w_obj w obj = Some ob"
    and "w_ts w (zo_ts_obj ob) = Some ts"
  shows "\<exists>ps m. pthreads_store_persist_local_properties t obj w = Some ((),
      set_ts (zo_ts_obj ob) (ts\<lparr>ts_props := (ts_props ts)\<lparr>store_hash :=
        (store_hash (ts_props ts))\<lparr>ht_buckets := ps\<rparr>\<rparr>\<rparr>) (w\<lparr>w_next := m\<rparr>)) \<and>
    list_all2 (persisted t) (ht_buckets (store_hash (ts_props ts))) ps"
proof -
  let ?a = "zo_ts_obj ob"
  from persist_entries_ok [of t "ht_buckets (store_hash (ts_props ts))" "lock_w t (LTs ?a) w"] obtain ps m where
    ps: "persist_entries t (ht_buckets (store_hash (ts_props ts))) (lock_w t (LTs ?a) w) =
      (ps, lock_w t (LTs ?a) (w\<lparr>w_next := m\<rparr>))" "list_all2 (persisted t) (ht_buckets (store_hash (ts_props ts))) ps"
    by auto
  have "pthreads_store_persist_local_properties t obj w = Some ((),
      set_ts ?a (ts\<lparr>ts_props := (ts_props ts)\<lparr>store_hash :=
        (store_hash (ts_props ts))\<lparr>ht_buckets := ps\<rparr>\<rparr>\<rparr>) (w\<lparr>w_next := m\<rparr>))"
    unfolding pthreads_store_persist_local_properties_def
    by (simp add: assms(3,4) Let_def, rule with_monitor_ok [OF assms(1,2)]) (simp_all add: assms(4) ps(1) set_hash_def)
  with ps(2) show ?thesis by blast
qed

lemma refcounts_ok_cong:
  assumes "refcounts_ok w" and "w_obj w' = w_obj w"
    and "\<And>a. map_option ts_refcount (w_ts w' a) = map_option ts_refcount (w_ts w a)"
  shows "refcounts_ok w'"
proof -
  have some: "w_ts w a \<noteq> None \<Longrightarrow> w_ts w' a \<noteq> None" for a using assms(3) [of a] by auto
  have origin: "\<exists>c'. w_ts w a = Some c' \<and> ts_refcount c = ts_refcount c'" if "w_ts w' a = Some c" for a c
    using assms(3) [of a] that by (cases "w_ts w a") auto
  have "finite (refs w' a) \<and> refs w' a \<noteq> {} \<and> ts_refcount c = card (refs w' a)" if "w_ts w' a = Some c" for a c
    using origin [OF that] assms(1) unfolding refcounts_ok_def refs_cong [OF assms(2)] by auto
  moreover have "w_ts w' (zo_ts_obj ob) \<noteq> None" if "w_obj w' p = Some ob" for p ob
    using some that assms(1) unfolding refcounts_ok_def assms(2) by blast
  ultimately show ?thesis unfolding refcounts_ok_def by blast
qed

lemma leave_refcounts:
  assumes ok: "refcounts_ok w" and ob: "w_obj w obj = Some ob" and ts: "w_ts w (zo_ts_obj ob) = Some ts"
  shows "refcounts_ok ((released (zo_ts_obj ob) ts w)\<lparr>w_obj := (w_obj w)(obj := None)\<rparr>)"
proof -
  let ?a = "zo_ts_obj ob" and ?w = "(released (zo_ts_obj ob) ts w)\<lparr>w_obj := (w_obj w)(obj := None)\<rparr>"
  have refs: "refs ?w b = refs w b - {obj}" for b by (auto simp: refs_def)
  have cnt: "ts_refcount ts = card (refs w ?a)" "finite (refs w ?a)" "obj \<in> refs w ?a"
    using refcounts_okD [OF ok ob] ts by auto
  have "finite (refs ?w b) \<and> refs ?w b \<noteq> {} \<and> ts_refcount c = card (refs ?w b)" if "w_ts ?w b = Some c" for b c
  proof (cases "b = ?a")
    case True
    then have c: "c = ts\<lparr>ts_refcount := ts_refcount ts - 1\<rparr>" "ts_refcount ts \<noteq> 1" using that by (auto split: if_splits)
    then have "refs w ?a \<noteq> {obj}" using cnt by auto
    then have "refs w ?a - {obj} \<noteq> {}" using cnt(3) by blast
    then show ?thesis using c cnt refs True by (simp add: card_Diff_singleton)
  next
    case False
    then have "obj \<notin> refs w b" "w_ts w b = Some c" using ob that by (auto simp: refs_def)
    with ok refs show ?thesis unfolding refcounts_ok_def by simp
  qed
  moreover have "w_ts ?w (zo_ts_obj b) \<noteq> None" if "w_obj ?w p = Some b" for p b
  proof -
    from that have p: "p \<noteq> obj" "w_obj w p = Some b" by (auto split: if_splits)
    then have "w_ts w (zo_ts_obj b) \<noteq> None" using ok unfolding refcounts_ok_def by blast
    moreover have "ts_refcount ts \<noteq> 1" if "zo_ts_obj b = ?a"
      using cnt only_ref [OF cnt(2,3)] p that by (auto simp: refs_def)
    ultimately show ?thesis by (cases "zo_ts_obj b = ?a") auto
  qed
  ultimately show ?thesis unfolding refcounts_ok_def by blast
qed


text \<open>What \<open>pthreads_base_free\<close> does inside the global monitor.\<close>

lemma leave_section_ok:
  assumes ok: "refcounts_ok w" and ob: "w_obj w obj = Some ob" and "obj \<noteq> 0"
    and c: "can_lock (Suc (Suc n)) {LGlobal, LTs (zo_ts_obj ob)} t w" and ts: "w_ts w (zo_ts_obj ob) = Some ts"
    and idle: "ts_refcount ts = 1 \<longrightarrow> pthreads_monitor_destroy (w_monitors w (LTs (zo_ts_obj ob))) = Some ()"
  shows "\<exists>w'. base_free_locked t obj (zo_ts_obj ob) w = Some ((), w') \<and>
    w_monitors w' = w_monitors w \<and> w_obj w' = w_obj w \<and> w_zg w' = w_zg w \<and>
    g_objects (w_globals w') = g_objects (w_globals w) - {obj} \<and>
    (\<forall>a. map_option ts_refcount (w_ts w' a) = map_option ts_refcount (w_ts (released (zo_ts_obj ob) ts w) a)) \<and>
    (\<forall>ts'. w_ts w' (zo_ts_obj ob) = Some ts' \<longrightarrow> list_all2 (persisted t)
      (ht_buckets (store_hash (ts_props ts))) (ht_buckets (store_hash (ts_props ts'))))"
proof -
  let ?a = "zo_ts_obj ob" and ?L = "{LGlobal, LTs (zo_ts_obj ob)}"
  let ?w = "released ?a ts w"
  have pos: "0 < ts_refcount ts" by (rule refcount_pos [OF ok ob ts])
  note rel = release_ok [OF c _ ts pos idle]
  have c1: "can_lock (Suc (Suc n)) ?L t ?w" by (rule can_lock_same [OF _ c]) simp
  show ?thesis
  proof (cases "ts_refcount ts = 1")
    case True
    with rel object_delete_ok [OF c1 _ assms(3)] show ?thesis by (simp add: base_free_locked_def)
  next
    case False
    then have ts1: "w_ts ?w ?a = Some (ts\<lparr>ts_refcount := ts_refcount ts - 1\<rparr>)" by simp
    from persist_local_ok [OF c1 _ _ ts1, of obj] ob obtain ps m where
      p: "pthreads_store_persist_local_properties t obj ?w = Some ((),
        set_ts ?a (ts\<lparr>ts_refcount := ts_refcount ts - 1, ts_props := (ts_props ts)\<lparr>store_hash :=
          (store_hash (ts_props ts))\<lparr>ht_buckets := ps\<rparr>\<rparr>\<rparr>) (?w\<lparr>w_next := m\<rparr>))"
        "list_all2 (persisted t) (ht_buckets (store_hash (ts_props ts))) ps" by auto
    let ?w2 = "set_ts ?a (ts\<lparr>ts_refcount := ts_refcount ts - 1, ts_props := (ts_props ts)\<lparr>store_hash :=
          (store_hash (ts_props ts))\<lparr>ht_buckets := ps\<rparr>\<rparr>\<rparr>) (?w\<lparr>w_next := m\<rparr>)"
    have c2: "can_lock (Suc (Suc n)) ?L t ?w2" by (rule can_lock_same [OF _ c1]) simp
    define w3 where "w3 = set_globals ((w_globals w)\<lparr>g_objects := g_objects (w_globals w) - {obj}\<rparr>) ?w2"
    have del: "pthreads_globals_object_delete t obj ?w2 = Some (obj \<notin> g_objects (w_globals w), w3)"
      using object_delete_ok [OF c2 _ assms(3)] by (simp add: w3_def)
    have "map_option ts_refcount (w_ts w3 b) = map_option ts_refcount (w_ts ?w b)" for b
      using False by (cases "b = ?a") (simp_all add: w3_def)
    moreover have "w_ts w3 ?a = Some ts' \<Longrightarrow> ht_buckets (store_hash (ts_props ts')) = ps" for ts'
      by (auto simp: w3_def)
    ultimately show ?thesis using rel False p del
      by (intro exI [of _ w3]) (simp add: base_free_locked_def, simp add: w3_def)
  qed
qed




end
