(* ===== verification/Worker_Props.thy ===== *)
theory Worker_Props
  imports Worker
begin

text \<open>
  The task queues of a worker as a pipeline: tasks are stacked by the creator, taken one at a
  time by the worker in the order they came, and kept in the order they finished until the
  creator collects them. The linked queues of src/worker.c refine this pipeline.
\<close>

unbundle bit_operations_syntax

section \<open>Sections that notify\<close>

lemma with_monitor_mutex:
  assumes "m_mutex (w_monitors w l) = mutex_init" and "body (lock_w t l w) = Some (r, lock_w t l w')"
    and "m_mutex (w_monitors w' l) = mutex_init"
  shows "with_monitor t l body els w = Some (r, w')"
proof -
  have m: "monitor_lockable (Suc 0) t (w_monitors w l)" "monitor_lockable (Suc 0) t (w_monitors w' l)"
    using assms(1,3) by (simp_all add: monitor_lockable_def mutex_defs)
  have "monitor_lock t l w = Some (True, lock_w t l w)"
    using monitor_lock_ok [OF m(1)] by (simp add: monitor_lock_def lock_w_def)
  then show ?thesis using unlock_lock_w [OF m(2)] by (simp add: with_monitor_def assms(2))
qed

section \<open>The pipeline\<close>

record pipeline =
  pl_finished :: "zval list"
  pl_running :: "zval option"
  pl_waiting :: "zval list"
  pl_cache :: "zval list"
  pl_pending :: "nat option"
  pl_joined :: bool

text \<open>
  The calls on a worker: the creator stacks and unstacks tasks; the worker asks for the next
  task (one round of its loop) and reports a task as done, with the object it ran on.
  \<open>None\<close> is a call the worker does not make: a second task while one runs, a report without one.
\<close>

datatype worker_call = Stack zval | Unstack | NextTask | TaskDone zval

datatype worker_answer = Size int | Removed int "zval option" | Next next_task | Done

fun pipeline_call :: "worker_call \<Rightarrow> pipeline \<Rightarrow> (worker_answer \<times> pipeline) option" where
  "pipeline_call (Stack v) p =
     Some (Size (int (length (pl_waiting p)) + 1), p\<lparr>pl_waiting := pl_waiting p @ [v]\<rparr>)"
| "pipeline_call Unstack p =
     Some (case pl_waiting p of
         [] \<Rightarrow> (Removed 0 None, p)
       | v # vs \<Rightarrow> (Removed (int (length vs)) (Some v), p\<lparr>pl_waiting := vs\<rparr>))"
| "pipeline_call NextTask p =
     (if pl_running p \<noteq> None then None
      else let p = p\<lparr>pl_cache := drop (case pl_pending p of None \<Rightarrow> 0 | Some k \<Rightarrow> k) (pl_cache p), pl_pending := None\<rparr>
      in Some (case pl_waiting p of
           [] \<Rightarrow> (Next (if pl_joined p then WorkerJoined else WorkerSleeps), p)
         | v # vs \<Rightarrow> (Next (TaskTaken v), p\<lparr>pl_running := Some v, pl_waiting := vs\<rparr>)))"
| "pipeline_call (TaskDone work) p =
     (case pl_running p of
        None \<Rightarrow> None
      | Some v \<Rightarrow> Some (Done, p\<lparr>pl_finished := pl_finished p @ [v], pl_running := None,
          pl_cache := pl_cache p @ [work]\<rparr>))"

text \<open>The same calls on the code's model.\<close>

definition worker_call :: "tid \<Rightarrow> tid \<Rightarrow> addr \<Rightarrow> worker_call \<Rightarrow> pthreads_queue \<times> world \<Rightarrow>
  (worker_answer \<times> pthreads_queue \<times> world) option" where
  "worker_call c t a call s =
     (case s of (cache, w) \<Rightarrow>
        (case call of
           Stack v \<Rightarrow> do { (n, w) \<leftarrow> pthreads_worker_add_task c a v w; Some (Size n, cache, w) }
         | Unstack \<Rightarrow> do { ((n, v), w) \<leftarrow> pthreads_worker_dequeue_task c a w; Some (Removed n v, cache, w) }
         | NextTask \<Rightarrow> do { ((r, cache), w) \<leftarrow> pthreads_worker_next_task t a cache w; Some (Next r, cache, w) }
         | TaskDone work \<Rightarrow> do { (cache, w) \<leftarrow> pthreads_worker_add_garbage t a cache work w; Some (Done, cache, w) }))"

fun run_calls :: "('c \<Rightarrow> 's \<Rightarrow> ('r \<times> 's) option) \<Rightarrow> 'c list \<Rightarrow> 's \<Rightarrow> ('r list \<times> 's) option" where
  "run_calls f [] s = Some ([], s)"
| "run_calls f (x # xs) s = do { (r, s) \<leftarrow> f x s; (rs, s) \<leftarrow> run_calls f xs s; Some (r # rs, s) }"

section \<open>The refinement\<close>

text \<open>
  The state of the worker at \<open>a\<close> stands for the pipeline \<open>p\<close>: its queues share the heap without
  overlapping, they hold the values of \<open>p\<close>, and the flags of its monitor say what \<open>p\<close> says.
\<close>

definition queues_hold :: "zval qheap \<Rightarrow> pthreads_worker_data \<Rightarrow> pthreads_queue \<Rightarrow> addr list \<Rightarrow> addr list \<Rightarrow>
  addr list \<Rightarrow> addr list \<Rightarrow> bool" where
  "queues_hold h d cache bs rs as cs \<longleftrightarrow> heap_ok h \<and> queue_rep h (wd_gc d) bs \<and> queue_rep h (wd_queue d) as \<and>
     queue_rep h cache cs \<and> distinct (bs @ rs @ as @ cs) \<and>
     wd_running d = (case rs of [] \<Rightarrow> None | r # _ \<Rightarrow> Some r) \<and> length rs \<le> 1"

definition holds_values :: "zval qheap \<Rightarrow> pipeline \<Rightarrow> addr list \<Rightarrow> addr list \<Rightarrow> addr list \<Rightarrow> addr list \<Rightarrow> bool" where
  "holds_values h p bs rs as cs \<longleftrightarrow>
     map (item_value h) bs = map Some (pl_finished p) \<and>
     map (item_value h) rs = map Some (case pl_running p of None \<Rightarrow> [] | Some v \<Rightarrow> [v]) \<and>
     map (item_value h) as = map Some (pl_waiting p) \<and> map (item_value h) cs = map Some (pl_cache p)"

definition worker_monitor_ok :: "pthreads_monitor \<Rightarrow> pthreads_worker_data \<Rightarrow> pipeline \<Rightarrow> bool" where
  "worker_monitor_ok m d p \<longleftrightarrow> m_mutex m = mutex_init \<and>
     (pl_joined p \<longleftrightarrow> pthreads_monitor_check m PTHREADS_MONITOR_JOINED \<noteq> 0) \<and>
     (case pl_pending p of
        None \<Rightarrow> pthreads_monitor_check m PTHREADS_MONITOR_COLLECT_GARBAGE = 0
      | Some k \<Rightarrow> pthreads_monitor_check m PTHREADS_MONITOR_COLLECT_GARBAGE \<noteq> 0 \<and> wd_tasks_collected d = k)"

definition worker_abs :: "lock_id \<Rightarrow> addr \<Rightarrow> pipeline \<Rightarrow> pthreads_queue \<times> world \<Rightarrow> bool" where
  "worker_abs l a p s \<longleftrightarrow> (case s of (cache, w) \<Rightarrow>
     \<exists>d bs rs as cs. w_workers w a = Some d \<and> wd_monitor d = l \<and> queues_hold (w_heap w) d cache bs rs as cs \<and>
       holds_values (w_heap w) p bs rs as cs \<and> worker_monitor_ok (w_monitors w l) d p)"

lemma worker_absI:
  assumes "w_workers w a = Some d" and "wd_monitor d = l" and "queues_hold (w_heap w) d cache bs rs as cs"
    and "holds_values (w_heap w) p bs rs as cs" and "worker_monitor_ok (w_monitors w l) d p"
  shows "worker_abs l a p (cache, w)"
  using assms by (auto simp: worker_abs_def)

lemma map_same: "(\<And>b. b \<in> set bs \<Longrightarrow> f b = g b) \<Longrightarrow> map f bs = map g bs"
  by simp

lemma worker_frames [simp]:
  "w_workers (set_worker a d w) = (w_workers w)(a \<mapsto> d)" "w_heap (set_worker a d w) = w_heap w"
  "w_monitors (set_worker a d w) = w_monitors w" "w_heap (set_heap h w) = h"
  "w_workers (set_heap h w) = w_workers w" "w_monitors (set_heap h w) = w_monitors w"
  "set_worker a d (lock_w t l w) = lock_w t l (set_worker a d w)"
  "set_heap h (lock_w t l w) = lock_w t l (set_heap h w)"
  by (simp_all add: set_worker_def set_heap_def lock_w_def)

lemma notify_lock_w [simp]: "notify_monitor l (lock_w t l w) = lock_w t l (notify_monitor l w)"
  by (cases "w_monitors w l") (simp add: notify_monitor_def lock_w_def pthreads_monitor_notify_def locked_by_def)

lemma notify_frame [simp]:
  "w_workers (notify_monitor l w) = w_workers w" "w_heap (notify_monitor l w) = w_heap w"
  "m_mutex (w_monitors (notify_monitor l w) l') = m_mutex (w_monitors w l')"
  "m_state (w_monitors (notify_monitor l w) l') = m_state (w_monitors w l')"
  by (simp_all add: notify_monitor_def pthreads_monitor_notify_def)

lemma worker_monitor_ok_cong:
  assumes "worker_monitor_ok m d p" and "m_mutex m' = m_mutex m" and "m_state m' = m_state m"
    and "wd_tasks_collected d' = wd_tasks_collected d" and "pl_joined p' = pl_joined p" and "pl_pending p' = pl_pending p"
  shows "worker_monitor_ok m' d' p'"
  using assms by (simp add: worker_monitor_ok_def pthreads_monitor_check_def cong: option.case_cong)

lemma stack_refines:
  assumes "worker_abs l a p (cache, w)"
  shows "\<exists>w'. pthreads_worker_add_task c a v w = Some (int (length (pl_waiting p)) + 1, w') \<and>
    worker_abs l a (p\<lparr>pl_waiting := pl_waiting p @ [v]\<rparr>) (cache, w')"
proof -
  from assms obtain d bs rs as cs where d: "w_workers w a = Some d" "wd_monitor d = l"
    and q: "queues_hold (w_heap w) d cache bs rs as cs" and vals: "holds_values (w_heap w) p bs rs as cs"
    and m: "worker_monitor_ok (w_monitors w l) d p"
    by (auto simp: worker_abs_def)
  let ?h = "w_heap w" and ?x = "qh_next (w_heap w)"
  from q have ok: "heap_ok ?h" and rep: "queue_rep ?h (wd_queue d) as" by (simp_all add: queues_hold_def)
  from push_new_correct [OF ok rep, of v] obtain q' h' where
    push: "pthreads_queue_push_new (wd_queue d) v ?h = Some (q', h')" "heap_ok h'" "queue_rep h' q' (as @ [?x])"
      "item_value h' ?x = Some v" "\<And>b. b \<noteq> ?x \<Longrightarrow> item_value h' b = item_value ?h b"
      "same_outside (set (as @ [?x])) ?h h'" by blast
  have rs: "\<And>x. x \<in> set rs \<Longrightarrow> item_value ?h x \<noteq> None"
    using vals by (auto simp: holds_values_def map_eq_Cons_conv split: option.splits)
  have fresh: "?x \<notin> set bs" "?x \<notin> set rs" "?x \<notin> set as" "?x \<notin> set cs"
    using q rs heap_ok_rep [OF ok] ok by (fastforce simp: queues_hold_def heap_ok_def item_value_def)+
  let ?d = "d\<lparr>wd_queue := q'\<rparr>"
  define w' where "w' = (if q_size (wd_queue d) = 0 then notify_monitor l (set_worker a ?d (set_heap h' w))
    else set_worker a ?d (set_heap h' w))"
  have len: "length as = length (pl_waiting p)"
    using vals unfolding holds_values_def by (metis length_map)
  have "pthreads_worker_add_task c a v w = Some (int (length (pl_waiting p)) + 1, w')"
    unfolding pthreads_worker_add_task_def
    by (simp add: d, rule with_monitor_mutex)
      (use m push(1,3) d len in \<open>auto simp: worker_monitor_ok_def w'_def Let_def queue_rep_def\<close>)
  moreover have "queues_hold h' ?d cache bs rs (as @ [?x]) cs"
  proof -
    have "set bs \<inter> set (as @ [?x]) = {}" "set cs \<inter> set (as @ [?x]) = {}" "distinct (bs @ rs @ (as @ [?x]) @ cs)"
      using q fresh by (auto simp: queues_hold_def)
    with q push(2,3) same_outside_rep [OF push(6)] show ?thesis by (simp add: queues_hold_def)
  qed
  moreover have "holds_values h' (p\<lparr>pl_waiting := pl_waiting p @ [v]\<rparr>) bs rs (as @ [?x]) cs"
    using vals push(4) map_same [of bs "item_value h'" "item_value ?h"] map_same [of rs "item_value h'" "item_value ?h"]
      map_same [of as "item_value h'" "item_value ?h"] map_same [of cs "item_value h'" "item_value ?h"] push(5) fresh
    by (simp add: holds_values_def) metis
  moreover have "worker_monitor_ok (w_monitors w' l) ?d (p\<lparr>pl_waiting := pl_waiting p @ [v]\<rparr>)"
    by (rule worker_monitor_ok_cong [OF m]) (simp_all add: w'_def)
  ultimately show ?thesis using d(2)
    by (intro exI [of _ w'] conjI) (simp, rule worker_absI [of _ _ ?d], auto simp: w'_def)
qed


lemma shift_heap:
  assumes rep: "queue_rep h q (x # as)" and ok: "heap_ok h"
  shows "\<exists>q' h'. pthreads_queue_shift q want g h =
      Some (int (length as), if want then item_value h x else None, q', h') \<and> heap_ok h' \<and> queue_rep h' q' as \<and>
    same_outside (set (x # as)) h h' \<and> (\<forall>b. b \<noteq> x \<longrightarrow> item_value h' b = item_value h b) \<and>
    (g = PTHREADS_STACK_NOTHING \<longrightarrow> item_value h' x = item_value h x)"
proof -
  have hd: "q_head q = Some x" using rep by (simp add: queue_rep_def)
  from remove_correct [of h q "[]" x as want g] rep hd obtain q' h' where
    r: "pthreads_queue_shift q want g h = Some (int (length as), if want then item_value h x else None, q', h')"
      "queue_rep h' q' as" "\<forall>b. b \<noteq> x \<longrightarrow> item_value h' b = item_value h b" "same_outside (set (x # as)) h h'"
      "qh_next h' = qh_next h" "qh_items h' x = (if g = PTHREADS_STACK_FREE then None else qh_items h x)"
    by (auto simp: pthreads_queue_shift_def)
  have "heap_ok h'" unfolding heap_ok_def
  proof (intro allI impI)
    fix b assume "qh_next h' \<le> b"
    then have "qh_items h b = None" using ok r(5) by (simp add: heap_ok_def)
    moreover have "x < qh_next h" using heap_ok_rep [OF ok rep] by simp
    ultimately show "qh_items h' b = None" using r(3,5) \<open>qh_next h' \<le> b\<close>
      by (metis item_value_def linorder_not_less option.map_disc_iff)
  qed
  with r show ?thesis by (auto simp: item_value_def)
qed

lemma shift_empty: "queue_rep h q [] \<Longrightarrow> pthreads_queue_shift q want g h = Some (0, None, q, h)"
  using queue_rep_ends(1) [of h q "[]"] by (simp add: pthreads_queue_shift_def pthreads_queue_remove_def)

lemma unstack_refines:
  assumes "worker_abs l a p (cache, w)" and "pipeline_call Unstack p = Some (Removed n v, p')"
  shows "\<exists>w'. pthreads_worker_dequeue_task c a w = Some ((n, v), w') \<and> worker_abs l a p' (cache, w')"
proof -
  from assms(1) obtain d bs rs as cs where d: "w_workers w a = Some d" "wd_monitor d = l"
    and q: "queues_hold (w_heap w) d cache bs rs as cs" and vals: "holds_values (w_heap w) p bs rs as cs"
    and m: "worker_monitor_ok (w_monitors w l) d p"
    by (auto simp: worker_abs_def)
  have free: "m_mutex (w_monitors w l) = mutex_init" using m by (simp add: worker_monitor_ok_def)
  show ?thesis
  proof (cases as)
    case Nil
    then have "pl_waiting p = []" using vals by (simp add: holds_values_def)
    then have r: "n = 0" "v = None" "p' = p" using assms(2) by simp_all
    have "pthreads_queue_shift (wd_queue d) True PTHREADS_STACK_FREE (w_heap w) = Some (0, None, wd_queue d, w_heap w)"
      by (rule shift_empty) (use q Nil in \<open>simp add: queues_hold_def\<close>)
    moreover have "set_worker a (d\<lparr>wd_queue := wd_queue d\<rparr>) (set_heap (w_heap w) w) = w"
      using d(1) by (simp add: set_worker_def set_heap_def fun_upd_idem)
    ultimately have "pthreads_worker_dequeue_task c a w = Some ((n, v), w)"
      unfolding pthreads_worker_dequeue_task_def r
      by (simp add: d, intro with_monitor_mutex [OF free]) (simp_all add: d free)
    with assms(1) r show ?thesis by blast
  next
    case (Cons x as')
    let ?h = "w_heap w"
    from vals Cons obtain u us where w: "pl_waiting p = u # us" "item_value ?h x = Some u"
      by (auto simp: holds_values_def map_eq_Cons_conv Cons_eq_map_conv)
    then have r: "n = int (length us)" "v = Some u" "p' = p\<lparr>pl_waiting := us\<rparr>" using assms(2) by auto
    have rep: "queue_rep ?h (wd_queue d) (x # as')" and ok: "heap_ok ?h"
      using q Cons by (simp_all add: queues_hold_def)
    from shift_heap [OF rep ok, of True PTHREADS_STACK_FREE] obtain q' h' where
      sh: "pthreads_queue_shift (wd_queue d) True PTHREADS_STACK_FREE ?h = Some (int (length as'), item_value ?h x, q', h')"
        "heap_ok h'" "queue_rep h' q' as'" "same_outside (set (x # as')) ?h h'"
        "\<And>b. b \<noteq> x \<Longrightarrow> item_value h' b = item_value ?h b" by auto
    define w' where "w' = set_worker a (d\<lparr>wd_queue := q'\<rparr>) (set_heap h' w)"
    have len: "length as' = length us" using vals Cons w(1) unfolding holds_values_def
      by (metis length_map list.size(4) add_right_cancel)
    have "pthreads_worker_dequeue_task c a w = Some ((n, v), w')"
      unfolding pthreads_worker_dequeue_task_def
      by (simp add: d, intro with_monitor_mutex [OF free]) (simp_all add: d sh(1) w(2) r len w'_def free)
    moreover have dis: "x \<notin> set bs" "x \<notin> set rs" "x \<notin> set as'" "x \<notin> set cs" "set bs \<inter> set (x # as') = {}"
      "set cs \<inter> set (x # as') = {}" "distinct (bs @ rs @ as' @ cs)"
      using q Cons by (auto simp: queues_hold_def)
    then have "queues_hold h' (d\<lparr>wd_queue := q'\<rparr>) cache bs rs as' cs"
      using q sh(2,3) same_outside_rep [OF sh(4)] by (simp add: queues_hold_def)
    moreover have "holds_values h' p' bs rs as' cs"
      using vals Cons w dis map_same [of bs "item_value h'" "item_value ?h"] map_same [of rs "item_value h'" "item_value ?h"]
        map_same [of as' "item_value h'" "item_value ?h"] map_same [of cs "item_value h'" "item_value ?h"] sh(5) r(3)
      by (simp add: holds_values_def) metis
    moreover have "worker_monitor_ok (w_monitors w' l) (d\<lparr>wd_queue := q'\<rparr>) p'"
      by (rule worker_monitor_ok_cong [OF m]) (simp_all add: w'_def r(3))
    ultimately show ?thesis using d(2)
      by (intro exI [of _ w'] conjI) (simp, rule worker_absI [of _ _ "d\<lparr>wd_queue := q'\<rparr>"], auto simp: w'_def)
  qed
qed


lemma shift_times_ok:
  assumes "queue_rep h q cs" and "heap_ok h"
  shows "\<exists>q' h'. shift_times k q h = Some (q', h') \<and> heap_ok h' \<and> queue_rep h' q' (drop k cs) \<and>
    same_outside (set cs) h h' \<and> (\<forall>b. b \<notin> set (take k cs) \<longrightarrow> item_value h' b = item_value h b)"
  using assms
proof (induction k arbitrary: q h cs)
  case 0
  then show ?case by simp
next
  case (Suc k)
  show ?case
  proof (cases cs)
    case Nil
    then have "pthreads_queue_shift q False PTHREADS_STACK_FREE h = Some (0, None, q, h)"
      using shift_empty Suc.prems(1) by blast
    with Suc.IH [OF Suc.prems] Nil show ?thesis by simp
  next
    case (Cons x xs)
    from shift_heap [of h q x xs False PTHREADS_STACK_FREE] Suc.prems Cons obtain q1 h1 where
      sh: "pthreads_queue_shift q False PTHREADS_STACK_FREE h = Some (int (length xs), None, q1, h1)" "heap_ok h1"
        "queue_rep h1 q1 xs" "same_outside (set (x # xs)) h h1" "\<And>b. b \<noteq> x \<Longrightarrow> item_value h1 b = item_value h b"
      by auto
    from Suc.IH [OF sh(3,2)] obtain q' h' where
      r: "shift_times k q1 h1 = Some (q', h')" "heap_ok h'" "queue_rep h' q' (drop k xs)" "same_outside (set xs) h1 h'"
        "\<And>b. b \<notin> set (take k xs) \<Longrightarrow> item_value h' b = item_value h1 b" by blast
    have "same_outside (set cs) h h'" using sh(4) r(4) Cons by (auto simp: same_outside_def)
    with sh r Cons show ?thesis by auto
  qed
qed

lemma monitor_lock_remove:
  assumes "m_mutex m = mutex_init"
  shows "pthreads_monitor_remove t f (locked_by t m) =
    Some (locked_by t (m\<lparr>m_state := m_state m AND NOT f, m_waiting := [], m_woken := m_woken m @ m_waiting m\<rparr>))"
proof -
  have "monitor_lockable (Suc 0) t (locked_by t m)"
    using assms by (simp add: monitor_lockable_def locked_by_def mutex_defs)
  from monitor_remove_ok [OF this] show ?thesis by (cases m) (simp add: locked_by_def)
qed

text \<open>The first part of a round: the worker drops what the creator has collected.\<close>

lemma collect_round_refines:
  assumes "worker_abs l a p (cache, w)"
  shows "\<exists>cache' w'. worker_collect_round t a cache (lock_w t l w) = Some (cache', lock_w t l w') \<and>
    worker_abs l a (p\<lparr>pl_cache := drop (case pl_pending p of None \<Rightarrow> 0 | Some k \<Rightarrow> k) (pl_cache p), pl_pending := None\<rparr>)
      (cache', w')"
proof -
  from assms obtain d bs rs as cs where d: "w_workers w a = Some d" "wd_monitor d = l"
    and q: "queues_hold (w_heap w) d cache bs rs as cs" and vals: "holds_values (w_heap w) p bs rs as cs"
    and m: "worker_monitor_ok (w_monitors w l) d p"
    by (auto simp: worker_abs_def)
  have free: "m_mutex (w_monitors w l) = mutex_init" using m by (simp add: worker_monitor_ok_def)
  have check: "pthreads_monitor_check (w_monitors (lock_w t l w) l) f = pthreads_monitor_check (w_monitors w l) f" for f
    by (simp add: pthreads_monitor_check_def lock_w_def)
  show ?thesis
  proof (cases "pl_pending p")
    case None
    then have "worker_collect_round t a cache (lock_w t l w) = Some (cache, lock_w t l w)"
      using m d check by (simp add: worker_collect_round_def worker_monitor_ok_def)
    moreover have "p\<lparr>pl_cache := drop (case pl_pending p of None \<Rightarrow> 0 | Some k \<Rightarrow> k) (pl_cache p), pl_pending := None\<rparr> = p"
      using None by (cases p) simp
    ultimately show ?thesis using assms by metis
  next
    case (Some k)
    let ?h = "w_heap w"
    have rep: "queue_rep ?h cache cs" and ok: "heap_ok ?h" using q by (simp_all add: queues_hold_def)
    from shift_times_ok [OF rep ok, of k] obtain cache' h' where
      sh: "shift_times k cache ?h = Some (cache', h')" "heap_ok h'" "queue_rep h' cache' (drop k cs)"
        "same_outside (set cs) ?h h'" "\<And>b. b \<notin> set (take k cs) \<Longrightarrow> item_value h' b = item_value ?h b" by blast
    let ?m = "(w_monitors w l)\<lparr>m_state := m_state (w_monitors w l) AND NOT PTHREADS_MONITOR_COLLECT_GARBAGE,
        m_waiting := [], m_woken := m_woken (w_monitors w l) @ m_waiting (w_monitors w l)\<rparr>"
    let ?d = "d\<lparr>wd_tasks_collected := 0\<rparr>"
    define w' where "w' = (set_worker a ?d (set_heap h' w))\<lparr>w_monitors := (w_monitors w)(l := ?m)\<rparr>"
    have "w_monitors (lock_w t l w) l = locked_by t (w_monitors w l)" by (simp add: lock_w_def)
    moreover have "(lock_w t l v)\<lparr>w_monitors := (w_monitors (lock_w t l w))(l := locked_by t ?m)\<rparr> =
        lock_w t l (v\<lparr>w_monitors := (w_monitors w)(l := ?m)\<rparr>)" for v
      by (simp add: lock_w_def)
    ultimately have "worker_collect_round t a cache (lock_w t l w) = Some (cache', lock_w t l w')"
      using Some m d check sh(1) monitor_lock_remove [OF free, of t PTHREADS_MONITOR_COLLECT_GARBAGE]
      by (simp add: worker_collect_round_def worker_monitor_ok_def w'_def)
    moreover have dis: "set bs \<inter> set cs = {}" "set as \<inter> set cs = {}" "set rs \<inter> set cs = {}"
      "distinct (bs @ rs @ as @ drop k cs)" "distinct cs"
      using q by (auto simp: queues_hold_def dest: in_set_dropD)
    then have "queues_hold h' ?d cache' bs rs as (drop k cs)"
      using q sh(2,3) same_outside_rep [OF sh(4)] by (simp add: queues_hold_def)
    moreover have "holds_values h' (p\<lparr>pl_cache := drop k (pl_cache p), pl_pending := None\<rparr>) bs rs as (drop k cs)"
    proof -
      have sub: "set (take k cs) \<subseteq> set cs" by (rule set_take_subset)
      have dr: "set (drop k cs) \<inter> set (take k cs) = {}"
        using set_take_disj_set_drop_if_distinct [OF dis(5) order_refl, of k] by blast
      have same: "map (item_value h') xs = map (item_value ?h) xs" if "set xs \<inter> set (take k cs) = {}" for xs
        using sh(5) that by (intro map_same) blast
      have "set bs \<inter> set (take k cs) = {}" "set rs \<inter> set (take k cs) = {}" "set as \<inter> set (take k cs) = {}"
        using dis(1-3) sub by blast+
      note eqs = this [THEN same] same [OF dr]
      have "map (item_value ?h) (drop k cs) = map Some (drop k (pl_cache p))"
        using vals unfolding holds_values_def by (metis drop_map)
      then show ?thesis using vals unfolding holds_values_def by (simp del: map_eq_conv add: eqs)
    qed
    moreover have "worker_monitor_ok ?m ?d (p\<lparr>pl_cache := drop k (pl_cache p), pl_pending := None\<rparr>)"
    proof -
      have "(m_state (w_monitors w l) AND NOT PTHREADS_MONITOR_COLLECT_GARBAGE) AND PTHREADS_MONITOR_JOINED =
          m_state (w_monitors w l) AND PTHREADS_MONITOR_JOINED"
        by (simp add: monitor_flag_defs and.assoc)
      then show ?thesis using m free by (simp add: worker_monitor_ok_def pthreads_monitor_check_def and.assoc)
    qed
    ultimately have "worker_collect_round t a cache (lock_w t l w) = Some (cache', lock_w t l w') \<and>
        worker_abs l a (p\<lparr>pl_cache := drop k (pl_cache p), pl_pending := None\<rparr>) (cache', w')"
      using d(2) by (intro conjI) (simp, rule worker_absI [of _ _ ?d], auto simp: w'_def)
    then show ?thesis using Some by auto
  qed
qed


lemma waits_on_lock [simp]: "waits_on t (locked_by t m) = locked_by t (waits_on t m)"
  by (cases m) (simp add: waits_on_def locked_by_def)

lemma waits_on_simps [simp]: "m_mutex (waits_on t m) = m_mutex m" "m_state (waits_on t m) = m_state m"
  by (simp_all add: waits_on_def)

text \<open>The second part of a round: a task, the end, or sleep.\<close>

lemma take_task_refines:
  assumes "worker_abs l a p (cache, w)" and "pl_running p = None" and "pl_waiting p = v # vs"
  shows "\<exists>d item q' h' w'. w_workers w a = Some d \<and> wd_monitor d = l \<and> q_head (wd_queue d) = Some item \<and>
    pthreads_queue_shift (wd_queue d) True PTHREADS_STACK_NOTHING (w_heap w) = Some (int (length vs), Some v, q', h') \<and>
    w' = set_worker a (d\<lparr>wd_running := Some item, wd_queue := q'\<rparr>) (set_heap h' w) \<and>
    worker_abs l a (p\<lparr>pl_running := Some v, pl_waiting := vs\<rparr>) (cache, w')"
proof -
  from assms(1) obtain d bs rs as cs where d: "w_workers w a = Some d" "wd_monitor d = l"
    and q: "queues_hold (w_heap w) d cache bs rs as cs" and vals: "holds_values (w_heap w) p bs rs as cs"
    and m: "worker_monitor_ok (w_monitors w l) d p"
    by (auto simp: worker_abs_def)
  let ?h = "w_heap w" and ?p = "p\<lparr>pl_running := Some v, pl_waiting := vs\<rparr>"
  from vals assms(2,3) obtain x as' where as: "as = x # as'" "item_value ?h x = Some v" and rs: "rs = []"
    by (auto simp: holds_values_def map_eq_Cons_conv Cons_eq_map_conv)
  have rep: "queue_rep ?h (wd_queue d) (x # as')" and ok: "heap_ok ?h" using q as by (simp_all add: queues_hold_def)
  from shift_heap [OF rep ok, of True PTHREADS_STACK_NOTHING] obtain q' h' where
    sh: "pthreads_queue_shift (wd_queue d) True PTHREADS_STACK_NOTHING ?h = Some (int (length as'), item_value ?h x, q', h')"
      "heap_ok h'" "queue_rep h' q' as'" "same_outside (set (x # as')) ?h h'"
      "\<And>b. b \<noteq> x \<Longrightarrow> item_value h' b = item_value ?h b" "item_value h' x = item_value ?h x" by auto
  have "item_value h' = item_value ?h" using sh(5,6) by (metis ext)
  let ?d = "d\<lparr>wd_running := Some x, wd_queue := q'\<rparr>"
  let ?w = "set_worker a ?d (set_heap h' w)"
  have len: "length as' = length vs" using vals as assms(3) unfolding holds_values_def
    by (metis length_map list.size(4) add_right_cancel)
  have dis: "set bs \<inter> set (x # as') = {}" "set cs \<inter> set (x # as') = {}" "distinct (bs @ [x] @ as' @ cs)"
    using q as by (auto simp: queues_hold_def)
  then have "queues_hold h' ?d cache bs [x] as' cs"
    using q sh(2,3) same_outside_rep [OF sh(4)] by (simp add: queues_hold_def)
  moreover have "holds_values h' ?p bs [x] as' cs"
    using vals as assms(3) rs \<open>item_value h' = item_value ?h\<close> by (simp add: holds_values_def)
  moreover have "worker_monitor_ok (w_monitors w l) ?d ?p"
    by (rule worker_monitor_ok_cong [OF m]) simp_all
  ultimately have "worker_abs l a ?p (cache, ?w)" using d(2) by (intro worker_absI [of _ _ ?d]) simp_all
  moreover have "q_head (wd_queue d) = Some x" using queue_rep_ends(1) [OF rep] by simp
  ultimately show ?thesis using d sh(1) as(2) len by auto
qed

lemma next_round_refines:
  assumes "worker_abs l a p (cache, w)" and "pipeline_call NextTask p = Some (Next r, p')"
  shows "\<exists>cache' w'. worker_next_task_round t a cache (lock_w t l w) = Some ((r, cache'), lock_w t l w') \<and>
    worker_abs l a p' (cache', w')"
proof -
  let ?p = "p\<lparr>pl_cache := drop (case pl_pending p of None \<Rightarrow> 0 | Some k \<Rightarrow> k) (pl_cache p), pl_pending := None\<rparr>"
  from collect_round_refines [OF assms(1), of t] obtain cache' w1 where
    c: "worker_collect_round t a cache (lock_w t l w) = Some (cache', lock_w t l w1)" "worker_abs l a ?p (cache', w1)"
    by blast
  have run: "pl_running ?p = None" using assms(2) by (auto split: if_splits)
  show ?thesis
  proof (cases "pl_waiting p")
    case (Cons v vs)
    then have r: "r = TaskTaken v" "p' = ?p\<lparr>pl_running := Some v, pl_waiting := vs\<rparr>"
      using assms(2) by (auto simp: Let_def split: if_splits)
    from take_task_refines [OF c(2) run, of v vs] Cons obtain d item q' h' w' where
      t: "w_workers w1 a = Some d" "q_head (wd_queue d) = Some item"
        "pthreads_queue_shift (wd_queue d) True PTHREADS_STACK_NOTHING (w_heap w1) = Some (int (length vs), Some v, q', h')"
        "w' = set_worker a (d\<lparr>wd_running := Some item, wd_queue := q'\<rparr>) (set_heap h' w1)" "worker_abs l a p' (cache', w')"
      unfolding r(2) by auto
    then show ?thesis using c(1) r(1) by (intro exI [of _ cache'] exI [of _ w']) (simp add: worker_next_task_round_def)
  next
    case Nil
    then have r: "r = (if pl_joined p then WorkerJoined else WorkerSleeps)" "p' = ?p"
      using assms(2) by (auto simp: Let_def split: if_splits)
    from c(2) Nil obtain d bs rs cs where d: "w_workers w1 a = Some d" "wd_monitor d = l"
      and q: "queues_hold (w_heap w1) d cache' bs rs [] cs" and vals: "holds_values (w_heap w1) ?p bs rs [] cs"
      and m: "worker_monitor_ok (w_monitors w1 l) d ?p"
      by (auto simp: worker_abs_def holds_values_def)
    have hd: "q_head (wd_queue d) = None" using q queue_rep_ends(1) [of "w_heap w1" "wd_queue d" "[]"]
      by (simp add: queues_hold_def)
    have check: "pthreads_monitor_check (w_monitors (lock_w t l w1) l) PTHREADS_MONITOR_JOINED \<noteq> 0 \<longleftrightarrow> pl_joined p"
      using m by (simp add: worker_monitor_ok_def pthreads_monitor_check_def lock_w_def)
    show ?thesis
    proof (cases "pl_joined p")
      case True
      then show ?thesis using c hd check d(1) r d(2)
        by (intro exI [of _ cache'] exI [of _ w1]) (simp add: worker_next_task_round_def)
    next
      case False
      let ?w = "w1\<lparr>w_monitors := (w_monitors w1)(l := waits_on t (w_monitors w1 l))\<rparr>"
      have "worker_next_task_round t a cache (lock_w t l w) = Some ((r, cache'), lock_w t l ?w)"
        using c(1) hd check d r(1) False by (simp add: worker_next_task_round_def) (simp add: lock_w_def)
      moreover have "worker_monitor_ok (waits_on t (w_monitors w1 l)) d ?p"
        by (rule worker_monitor_ok_cong [OF m]) simp_all
      then have "worker_abs l a ?p (cache', ?w)"
        using d q vals by (intro worker_absI [of _ _ d]) simp_all
      ultimately show ?thesis using r(2) by blast
    qed
  qed
qed

lemma done_refines:
  assumes "worker_abs l a p (cache, w)" and "pipeline_call (TaskDone work) p = Some (Done, p')"
  shows "\<exists>cache' w'. pthreads_worker_add_garbage t a cache work w = Some (cache', w') \<and> worker_abs l a p' (cache', w')"
proof -
  from assms(1) obtain d bs rs as cs where d: "w_workers w a = Some d" "wd_monitor d = l"
    and q: "queues_hold (w_heap w) d cache bs rs as cs" and vals: "holds_values (w_heap w) p bs rs as cs"
    and m: "worker_monitor_ok (w_monitors w l) d p"
    by (auto simp: worker_abs_def)
  let ?h = "w_heap w"
  from assms(2) obtain v where v: "pl_running p = Some v"
    and p': "p' = p\<lparr>pl_finished := pl_finished p @ [v], pl_running := None, pl_cache := pl_cache p @ [work]\<rparr>"
    by (auto split: option.splits)
  from vals v obtain x where rs: "rs = [x]" "item_value ?h x = Some v" by (auto simp: holds_values_def)
  have free: "m_mutex (w_monitors w l) = mutex_init" using m by (simp add: worker_monitor_ok_def)
  have gc: "queue_rep ?h (wd_gc d) bs" "x \<notin> set bs" using q rs by (simp_all add: queues_hold_def)
  from rs(2) obtain it where it: "qh_items ?h x = Some it" by (auto simp: item_value_def)
  from push_correct [OF gc it] obtain gc' h1 where
    push: "pthreads_queue_push (wd_gc d) x ?h = Some (gc', h1)" "queue_rep h1 gc' (bs @ [x])" "same_values ?h h1"
      "same_outside (set (bs @ [x])) ?h h1" by blast
  let ?d = "d\<lparr>wd_gc := gc', wd_running := None\<rparr>"
  let ?w1 = "set_worker a ?d (set_heap h1 w)"
  have sec: "with_monitor t l (\<lambda>w. do {
          d \<leftarrow> w_workers w a;
          running \<leftarrow> wd_running d;
          (gc, h) \<leftarrow> pthreads_queue_push (wd_gc d) running (w_heap w);
          Some ((), set_worker a (d\<lparr>wd_gc := gc, wd_running := None\<rparr>) (set_heap h w)) }) (\<lambda>w. None) w = Some ((), ?w1)"
    using q rs by (intro with_monitor_mutex [OF free]) (simp_all add: d push(1) queues_hold_def free)
  have dis: "set as \<inter> set (bs @ [x]) = {}" "set cs \<inter> set (bs @ [x]) = {}"
    using q rs by (auto simp: queues_hold_def)
  have reps: "queue_rep h1 (wd_queue d) as" "queue_rep h1 cache cs"
    using q same_outside_rep [OF push(4)] dis by (simp_all add: queues_hold_def)
  have ok1: "heap_ok h1" using q push(3) unfolding queues_hold_def heap_ok_def same_values_def item_value_def
    by (metis option.map_disc_iff)
  let ?y = "qh_next h1"
  from push_new_correct [OF ok1 reps(2), of work] obtain cache' h2 where
    new: "pthreads_queue_push_new cache work h1 = Some (cache', h2)" "heap_ok h2" "queue_rep h2 cache' (cs @ [?y])"
      "item_value h2 ?y = Some work" "\<And>b. b \<noteq> ?y \<Longrightarrow> item_value h2 b = item_value h1 b"
      "same_outside (set (cs @ [?y])) h1 h2" by blast
  let ?w2 = "set_heap h2 ?w1"
  have fresh: "?y \<notin> set (bs @ [x])" "?y \<notin> set as" "?y \<notin> set cs"
    using heap_ok_rep [OF ok1 push(2)] heap_ok_rep [OF ok1 reps(1)] heap_ok_rep [OF ok1 reps(2)] by blast+
  have "pthreads_worker_add_garbage t a cache work w = Some (cache', ?w2)"
    using sec new(1) d by (simp add: pthreads_worker_add_garbage_def)
  moreover have "queues_hold h2 ?d cache' (bs @ [x]) [] as (cs @ [?y])"
  proof -
    have "set (bs @ [x]) \<inter> set (cs @ [?y]) = {}" "set as \<inter> set (cs @ [?y]) = {}" "distinct ((bs @ [x]) @ [] @ as @ cs @ [?y])"
      using q rs fresh dis by (auto simp: queues_hold_def)
    then show ?thesis using new(2,3) same_outside_rep [OF new(6)] push(2) reps by (simp add: queues_hold_def)
  qed
  moreover have "holds_values h2 p' (bs @ [x]) [] as (cs @ [?y])"
  proof -
    have "item_value h2 b = item_value ?h b" if "b \<noteq> ?y" for b
      using new(5) [OF that] push(3) by (simp add: same_values_def)
    then have "map (item_value h2) xs = map (item_value ?h) xs" if "?y \<notin> set xs" for xs
      using that by (intro map_same) metis
    from this [of "bs @ [x]"] this [of as] this [of cs] fresh vals rs new(4) v show ?thesis
      by (simp add: holds_values_def p' del: map_eq_conv)
  qed
  moreover have "worker_monitor_ok (w_monitors w l) ?d p'"
    by (rule worker_monitor_ok_cong [OF m]) (simp_all add: p')
  ultimately show ?thesis using d(2)
    by (intro exI [of _ cache'] exI [of _ ?w2] conjI) (simp, rule worker_absI [of _ _ ?d], simp_all)
qed

lemma worker_call_refines:
  assumes "worker_abs l a p s" and "pipeline_call call p = Some (r, p')"
  shows "\<exists>s'. worker_call c t a call s = Some (r, s') \<and> worker_abs l a p' s'"
proof -
  obtain cache w where s: "s = (cache, w)" by (cases s)
  from assms(1) have abs: "worker_abs l a p (cache, w)" by (simp add: s)
  then have mon: "m_mutex (w_monitors w l) = mutex_init" "\<exists>d. w_workers w a = Some d \<and> wd_monitor d = l"
    by (auto simp: worker_abs_def worker_monitor_ok_def)
  show ?thesis
  proof (cases call)
    case (Stack v)
    with stack_refines [OF abs, of c v] assms(2) show ?thesis by (fastforce simp: s worker_call_def)
  next
    case Unstack
    with assms(2) obtain n v where "r = Removed n v" by (auto split: list.splits)
    with unstack_refines [OF abs, of n v p' c] Unstack assms(2) show ?thesis by (fastforce simp: s worker_call_def)
  next
    case NextTask
    with assms(2) obtain q where r: "r = Next q" by (auto simp: Let_def split: if_splits list.splits)
    from next_round_refines [OF abs, of q p' t] assms(2) r NextTask obtain cache' w' where
      n: "worker_next_task_round t a cache (lock_w t l w) = Some ((q, cache'), lock_w t l w')" "worker_abs l a p' (cache', w')"
      by blast
    from n(2) have "m_mutex (w_monitors w' l) = mutex_init" by (auto simp: worker_abs_def worker_monitor_ok_def)
    with mon n(1) have "pthreads_worker_next_task t a cache w = Some ((q, cache'), w')"
      by (auto simp: pthreads_worker_next_task_def intro!: with_monitor_mutex)
    with n(2) NextTask r show ?thesis by (auto simp: s worker_call_def)
  next
    case (TaskDone work)
    with assms(2) have "r = Done" by (auto split: option.splits)
    with done_refines [OF abs, of work p' t] TaskDone assms(2) show ?thesis by (fastforce simp: s worker_call_def)
  qed
qed

text \<open>
  C10. The worker's queues behave as a pipeline: for every sequence of calls that the creator
  (stacking and unstacking) and the worker (asking for the next task, reporting a task done)
  make, in any interleaving, the linked queues of the worker give the answers of the abstract
  pipeline and end in a state that stands for its final state: tasks run in the order in
  which they were stacked, each once; finished ones stay, in order, until they are collected;
  and the worker drops from its own cache exactly as many objects as were collected.
\<close>

theorem worker_refines_pipeline:
  assumes "worker_abs l a p s" and "run_calls pipeline_call calls p = Some (out, p')"
  shows "\<exists>s'. run_calls (worker_call c t a) calls s = Some (out, s') \<and> worker_abs l a p' s'"
  using assms
proof (induction calls arbitrary: p s out)
  case Nil
  then show ?case by simp
next
  case (Cons call calls)
  from Cons.prems(2) obtain r p1 rs where
    r: "pipeline_call call p = Some (r, p1)" "run_calls pipeline_call calls p1 = Some (rs, p')" "out = r # rs"
    by (auto simp: bind_eq_Some_conv)
  from worker_call_refines [OF Cons.prems(1) r(1), of c t] obtain s1 where
    s1: "worker_call c t a call s = Some (r, s1)" "worker_abs l a p1 s1" by blast
  from Cons.IH [OF s1(2) r(2)] s1(1) r(3) show ?case by auto
qed

definition fresh_data :: pthreads_worker_data where
  "fresh_data = \<lparr>wd_monitor = LTs 2, wd_queue = empty_queue, wd_gc = empty_queue, wd_running = None,
     wd_tasks_collected = 0\<rparr>"

definition fresh_worker :: world where
  "fresh_worker = empty_world\<lparr>w_workers := [5 \<mapsto> fresh_data]\<rparr>"

definition empty_pipeline :: pipeline where
  "empty_pipeline = \<lparr>pl_finished = [], pl_running = None, pl_waiting = [], pl_cache = [], pl_pending = None,
     pl_joined = False\<rparr>"

lemma fresh_worker_abs: "worker_abs (LTs 2) 5 empty_pipeline (empty_queue, fresh_worker)"
  by (rule worker_absI [of _ _ fresh_data _ _ "[]" "[]" "[]" "[]"])
    (simp_all add: fresh_worker_def fresh_data_def queues_hold_def holds_values_def worker_monitor_ok_def empty_pipeline_def
      empty_world_def fresh_monitor_def pthreads_monitor_check_def heap_ok_def empty_heap_def)

theorem worker_refines_pipeline_witness:
  "\<exists>s'. run_calls (worker_call 1 2 5)
      [Stack (IS_LONG 10), Stack (IS_LONG 20), NextTask, TaskDone IS_NULL, NextTask, Stack (IS_LONG 30), TaskDone IS_NULL,
       Unstack, NextTask] (empty_queue, fresh_worker) =
    Some ([Size 1, Size 2, Next (TaskTaken (IS_LONG 10)), Done, Next (TaskTaken (IS_LONG 20)), Size 1, Done,
       Removed 0 (Some (IS_LONG 30)), Next WorkerSleeps], s')"
proof -
  have "run_calls pipeline_call
      [Stack (IS_LONG 10), Stack (IS_LONG 20), NextTask, TaskDone IS_NULL, NextTask, Stack (IS_LONG 30), TaskDone IS_NULL,
       Unstack, NextTask] empty_pipeline =
    Some ([Size 1, Size 2, Next (TaskTaken (IS_LONG 10)), Done, Next (TaskTaken (IS_LONG 20)), Size 1, Done,
       Removed 0 (Some (IS_LONG 30)), Next WorkerSleeps],
       empty_pipeline\<lparr>pl_finished := [IS_LONG 10, IS_LONG 20], pl_cache := [IS_NULL, IS_NULL]\<rparr>)"
    by (simp add: empty_pipeline_def Let_def)
  from worker_refines_pipeline [OF fresh_worker_abs this] show ?thesis by blast
qed

end
