(* ===== verification/Classes.thy ===== *)
theory Classes
  imports Lifecycle
begin

text \<open>
  The PHP methods of the classes ThreadedArray, ThreadedBase, ThreadedRunnable, Thread and
  Worker (src/classes), after the engine has parsed their arguments. A method returns the
  PHP value it leaves in \<open>return_value\<close>, which the engine has set to null before the call.
  Where a method sleeps, a parameter stands for what the other threads do meanwhile.
\<close>

unbundle bit_operations_syntax

definition RETURN_BOOL :: "bool \<Rightarrow> zval" where
  "RETURN_BOOL b = (if b then IS_TRUE else IS_FALSE)"

text \<open>What a call leaves in \<open>return_value\<close> when it only writes it on success.\<close>

definition written :: "zend_result \<times> zval \<Rightarrow> zval" where
  "written r = (case r of (SUCCESS, v) \<Rightarrow> v | (FAILURE, _) \<Rightarrow> IS_NULL)"

section \<open>ThreadedArray\<close>

definition ThreadedArray_merge ::
  "zend_engine \<Rightarrow> (zobject \<Rightarrow> (zkey \<times> zval) list) \<Rightarrow> (zobject \<Rightarrow> addr option) \<Rightarrow> tid \<Rightarrow> addr \<Rightarrow> zval \<Rightarrow>
   bool \<Rightarrow> world \<Rightarrow> (zval \<times> world) option" where
  "ThreadedArray_merge E objprop is_array t this from overwrite w = do {
     (r, w) \<leftarrow> pthreads_store_merge E objprop is_array t this from overwrite True w;
     Some (RETURN_BOOL (r = SUCCESS), w) }"

definition ThreadedArray_shift :: "zend_engine \<Rightarrow> tid \<Rightarrow> addr \<Rightarrow> world \<Rightarrow> (zval \<times> world) option" where
  "ThreadedArray_shift E t this w = do {
     (r, w) \<leftarrow> pthreads_store_shift E t this w;
     Some (written r, w) }"

definition ThreadedArray_chunk ::
  "zend_engine \<Rightarrow> tid \<Rightarrow> addr \<Rightarrow> zend_long \<Rightarrow> bool \<Rightarrow> world \<Rightarrow> (zval \<times> world) option" where
  "ThreadedArray_chunk E t this limit preserve w = do {
     (r, w) \<leftarrow> pthreads_store_chunk E t this limit preserve w;
     Some (written r, w) }"

definition ThreadedArray_pop :: "zend_engine \<Rightarrow> tid \<Rightarrow> addr \<Rightarrow> world \<Rightarrow> (zval \<times> world) option" where
  "ThreadedArray_pop E t this w = do {
     (r, w) \<leftarrow> pthreads_store_pop E t this w;
     Some (written r, w) }"

definition ThreadedArray_count :: "tid \<Rightarrow> addr \<Rightarrow> world \<Rightarrow> (zval \<times> world) option" where
  "ThreadedArray_count t this w = do {
     (n, w) \<leftarrow> pthreads_store_count t this w;
     Some (IS_LONG (of_nat n), w) }"

definition ThreadedArray_fromArray ::
  "zend_engine \<Rightarrow> (zobject \<Rightarrow> (zkey \<times> zval) list) \<Rightarrow> (zobject \<Rightarrow> addr option) \<Rightarrow> tid \<Rightarrow>
   (zkey \<times> zval) list \<Rightarrow> world \<Rightarrow> (zval \<times> world) option" where
  "ThreadedArray_fromArray E objprop is_array t input w = do {
     (a, w) \<leftarrow> object_init_ex E t threaded_array_entry w;
     (_, w) \<leftarrow> pthreads_store_merge E objprop is_array t a (IS_ARRAY input) True True w;
     Some (IS_OBJECT (ThreadedObject a), w) }"

definition ThreadedArray_offsetGet :: "zend_engine \<Rightarrow> tid \<Rightarrow> addr \<Rightarrow> zval \<Rightarrow> world \<Rightarrow> (zval \<times> world) option" where
  "ThreadedArray_offsetGet E t this key w = do {
     (r, w) \<leftarrow> pthreads_store_read E t this key BP_VAR_R w;
     Some (snd r, w) }"

definition ThreadedArray_offsetSet ::
  "zend_engine \<Rightarrow> tid \<Rightarrow> addr \<Rightarrow> zval \<Rightarrow> zval \<Rightarrow> world \<Rightarrow> (zval \<times> world) option" where
  "ThreadedArray_offsetSet E t this key value w = do {
     (_, w) \<leftarrow> pthreads_store_write E t this (Some key) value False w;
     Some (IS_NULL, w) }"

definition ThreadedArray_offsetExists ::
  "zend_engine \<Rightarrow> tid \<Rightarrow> addr \<Rightarrow> zval \<Rightarrow> world \<Rightarrow> (zval \<times> world) option" where
  "ThreadedArray_offsetExists E t this key w = do {
     (b, w) \<leftarrow> pthreads_store_isset E t this key ZEND_PROPERTY_ISSET w;
     Some (RETURN_BOOL b, w) }"

definition ThreadedArray_offsetUnset ::
  "zend_engine \<Rightarrow> tid \<Rightarrow> addr \<Rightarrow> zval \<Rightarrow> world \<Rightarrow> (zval \<times> world) option" where
  "ThreadedArray_offsetUnset E t this key w = do {
     (_, w) \<leftarrow> pthreads_store_delete E t this key w;
     Some (IS_NULL, w) }"

section \<open>ThreadedBase\<close>

text \<open>
  \<open>wait\<close> returns at once (\<open>Inl\<close>), or the calling thread gives the monitor back and sleeps on it,
  with or without a deadline (\<open>Inr\<close>). The thread is expected to hold the monitor; the wait
  fails when it does not.
\<close>

definition ThreadedBase_wait ::
  "int \<times> int \<times> int \<Rightarrow> int \<Rightarrow> tid \<Rightarrow> addr \<Rightarrow> world \<Rightarrow> ((zval + wait_request) \<times> world) option" where
  "ThreadedBase_wait clock timeout t this w = do {
     ob \<leftarrow> w_obj w this;
     _ \<leftarrow> w_ts w (zo_ts_obj ob);
     let l = LTs (zo_ts_obj ob);
     case pthreads_monitor_wait clock timeout of
       WaitReturns r \<Rightarrow> Some (Inl (RETURN_BOOL (r = 0)), w)
     | request \<Rightarrow>
         (let (r, m) = cond_wait_enter t (w_monitors w l) in
          if r \<noteq> 0 then Some (Inl (RETURN_BOOL False), w)
          else Some (Inr request, set_monitor l m w)) }"

definition ThreadedBase_notify :: "addr \<Rightarrow> world \<Rightarrow> (zval \<times> world) option" where
  "ThreadedBase_notify this w = do {
     ob \<leftarrow> w_obj w this;
     _ \<leftarrow> w_ts w (zo_ts_obj ob);
     let l = LTs (zo_ts_obj ob);
     let (r, m) = pthreads_monitor_notify (w_monitors w l);
     Some (RETURN_BOOL (r = 0), set_monitor l m w) }"

definition ThreadedBase_notifyOne :: "addr \<Rightarrow> world \<Rightarrow> (zval \<times> world) option" where
  "ThreadedBase_notifyOne this w = do {
     ob \<leftarrow> w_obj w this;
     _ \<leftarrow> w_ts w (zo_ts_obj ob);
     let l = LTs (zo_ts_obj ob);
     let (r, m) = pthreads_monitor_notify_one (w_monitors w l);
     Some (RETURN_BOOL (r = 0), set_monitor l m w) }"

text \<open>
  \<open>synchronized\<close>: \<open>call\<close> is the closure with its arguments; \<open>None\<close> as its result is a bail-out of
  the engine, which the method catches.
\<close>

definition ThreadedBase_synchronized ::
  "(world \<Rightarrow> (zval option \<times> world) option) \<Rightarrow> tid \<Rightarrow> addr \<Rightarrow> world \<Rightarrow> (zval \<times> world) option" where
  "ThreadedBase_synchronized call t this w = do {
     ob \<leftarrow> w_obj w this;
     _ \<leftarrow> w_ts w (zo_ts_obj ob);
     with_monitor t (LTs (zo_ts_obj ob))
       (\<lambda>w. do {
          w \<leftarrow> pthreads_store_sync_local_properties t this w;
          (r, w) \<leftarrow> call w;
          Some (case r of Some v \<Rightarrow> v | None \<Rightarrow> IS_UNDEF, w) })
       (\<lambda>w. Some (IS_NULL, w)) w }"

section \<open>ThreadedRunnable and Thread\<close>

definition check_flag :: "monitor_state \<Rightarrow> addr \<Rightarrow> world \<Rightarrow> zval option" where
  "check_flag state this w = do {
     ob \<leftarrow> w_obj w this;
     _ \<leftarrow> w_ts w (zo_ts_obj ob);
     Some (RETURN_BOOL (pthreads_monitor_check (w_monitors w (LTs (zo_ts_obj ob))) state \<noteq> 0)) }"

definition ThreadedRunnable_isRunning :: "addr \<Rightarrow> world \<Rightarrow> zval option" where
  "ThreadedRunnable_isRunning = check_flag PTHREADS_MONITOR_RUNNING"

definition ThreadedRunnable_isTerminated :: "addr \<Rightarrow> world \<Rightarrow> zval option" where
  "ThreadedRunnable_isTerminated = check_flag PTHREADS_MONITOR_ERROR"

definition Thread_isStarted :: "addr \<Rightarrow> world \<Rightarrow> zval option" where
  "Thread_isStarted = check_flag PTHREADS_MONITOR_STARTED"

definition Thread_isJoined :: "addr \<Rightarrow> world \<Rightarrow> zval option" where
  "Thread_isJoined = check_flag PTHREADS_MONITOR_JOINED"

text \<open>
  \<open>start\<close> and \<open>join\<close> sleep until the thread is ready or awaits its join; \<open>others\<close> is what happens
  until then. The step relation of \<open>Lifecycle\<close> says when that comes about.
\<close>

definition Thread_start ::
  "int \<Rightarrow> (world \<Rightarrow> world option) \<Rightarrow> tid \<Rightarrow> addr \<Rightarrow> world \<Rightarrow> (zval \<times> world) option" where
  "Thread_start create others t this w = do {
     (r, w) \<leftarrow> pthreads_start create t this w;
     if r = StartWaits then do { w \<leftarrow> others w; Some (IS_TRUE, w) } else Some (IS_FALSE, w) }"

definition Thread_join ::
  "nat \<Rightarrow> zend_engine \<Rightarrow> (world \<Rightarrow> world option) \<Rightarrow> bool \<Rightarrow> tid \<Rightarrow> addr \<Rightarrow> world \<Rightarrow> (zval \<times> world) option" where
  "Thread_join n E others exited t this w = do {
     (r, w) \<leftarrow> pthreads_join_begin t this w;
     if r = JoinWaits then do {
       w \<leftarrow> others w;
       w \<leftarrow> pthreads_join_end n E t this w;
       Some (RETURN_BOOL exited, w) }
     else Some (IS_FALSE, w) }"

definition Thread_getThreadId :: "addr \<Rightarrow> world \<Rightarrow> zval option" where
  "Thread_getThreadId this w = do {
     ob \<leftarrow> w_obj w this;
     ts \<leftarrow> w_ts w (zo_ts_obj ob);
     Some (IS_LONG (case ts_local ts of Some i \<Rightarrow> ident_id i | None \<Rightarrow> 0)) }"

definition Thread_getCurrentThreadId :: "zend_engine \<Rightarrow> tid \<Rightarrow> zval" where
  "Thread_getCurrentThreadId E t = IS_LONG (ident_id (self_ident E t))"

definition Thread_getCurrentThread :: "tid \<Rightarrow> world \<Rightarrow> zval" where
  "Thread_getCurrentThread t w = (case pthreads_current_thread t w of Some v \<Rightarrow> v | None \<Rightarrow> IS_NULL)"

definition Thread_getCreatorId :: "addr \<Rightarrow> world \<Rightarrow> zval option" where
  "Thread_getCreatorId this w = do {
     ob \<leftarrow> w_obj w this;
     ts \<leftarrow> w_ts w (zo_ts_obj ob);
     Some (IS_LONG (ident_id (ts_creator ts))) }"

section \<open>Worker\<close>

text \<open>The guard of \<open>stack\<close>, \<open>unstack\<close> and \<open>collect\<close>: only the creator, on the original object.\<close>

definition by_creator_only ::
  "string \<Rightarrow> tid \<Rightarrow> addr \<Rightarrow> (addr \<Rightarrow> world \<Rightarrow> (zval \<times> world) option) \<Rightarrow> world \<Rightarrow> (zval \<times> world) option" where
  "by_creator_only name t this body w = do {
     thread \<leftarrow> w_obj w this;
     ts \<leftarrow> w_ts w (zo_ts_obj thread);
     if \<not> PTHREADS_IN_CREATOR t ts \<or> zo_original_zobj thread \<noteq> None
     then Some (IS_NULL, throw t (OnlyCreatorMay name) w)
     else do { d \<leftarrow> zo_worker_data thread; body d w } }"

definition Worker_stack :: "tid \<Rightarrow> addr \<Rightarrow> zval \<Rightarrow> world \<Rightarrow> (zval \<times> world) option" where
  "Worker_stack t this work =
     by_creator_only ''stack'' t this
       (\<lambda>d w. do { (n, w) \<leftarrow> pthreads_worker_add_task t d work w; Some (IS_LONG (of_int n), w) })"

definition Worker_unstack :: "tid \<Rightarrow> addr \<Rightarrow> world \<Rightarrow> (zval \<times> world) option" where
  "Worker_unstack t this =
     by_creator_only ''unstack'' t this
       (\<lambda>d w. do {
          ((_, v), w) \<leftarrow> pthreads_worker_dequeue_task t d w;
          Some (case v of Some v \<Rightarrow> v | None \<Rightarrow> IS_NULL, w) })"

definition Worker_getStacked :: "tid \<Rightarrow> addr \<Rightarrow> world \<Rightarrow> (zval \<times> world) option" where
  "Worker_getStacked t this w = do {
     thread \<leftarrow> w_obj w this;
     d \<leftarrow> zo_worker_data thread;
     (n, w) \<leftarrow> pthreads_worker_task_queue_size t d w;
     Some (IS_LONG (of_int n), w) }"

definition Worker_collector :: "zval \<Rightarrow> zval" where
  "Worker_collector collectable = IS_TRUE"

text \<open>\<open>collect\<close> with its callback; without one the caller passes the method \<open>collector\<close> of the worker.\<close>

definition Worker_collect ::
  "nat \<Rightarrow> zend_engine \<Rightarrow> tid \<Rightarrow> addr \<Rightarrow> collector \<Rightarrow> world \<Rightarrow> (zval \<times> world) option" where
  "Worker_collect n E t this collect =
     by_creator_only ''collect'' t this
       (\<lambda>d w. do {
          (k, w) \<leftarrow> pthreads_worker_collect_tasks n E t d collect w;
          Some (IS_LONG (of_int k), w) })"

definition default_collector :: "zend_engine \<Rightarrow> collector" where
  "default_collector E =
     pthreads_worker_collect_function (\<lambda>v w. Some ((SUCCESS, Worker_collector v), w)) (\<lambda>v. v = IS_TRUE)"

end
