(* ===== verification/Pool.thy ===== *)
theory Pool
  imports Classes
begin

text \<open>
  The class Pool (src/classes/pool.c). A pool is a plain PHP object of one thread; its five
  properties are the fields of a record. The workers are PHP objects whose methods a
  subclass may override, so the methods a pool calls are a parameter: the record
  \<open>worker_methods\<close> over a state \<open>'w\<close>. \<open>Pool_Props\<close> instantiates it with the methods of \<open>Classes\<close>.
\<close>

section \<open>Data\<close>

text \<open>
  \<open>None\<close> for the class, the workers and the constructor arguments is a property that is not a
  string or not an array. The properties \<open>size\<close> and \<open>last\<close> are read with \<open>Z_LVAL\<close>.
\<close>

record pool =
  pool_size :: zend_long
  pool_class :: "string option"
  pool_workers :: "hash option"
  pool_ctor :: "zval list option"
  pool_last :: zend_long

text \<open>
  What a pool asks of the engine and of the worker class: whether a class extends Worker,
  whether it can be found, \<open>object_init_ex\<close>, its constructor if it has one, calls of a method
  by name, and throwing.
\<close>

record 'w worker_methods =
  wm_extends_worker :: "string \<Rightarrow> bool"
  wm_lookup_class :: "string \<Rightarrow> bool"
  wm_init :: "string \<Rightarrow> 'w \<Rightarrow> (zval \<times> 'w) option"
  wm_constructor :: "string \<Rightarrow> (zval \<Rightarrow> zval list \<Rightarrow> 'w \<Rightarrow> 'w option) option"
  wm_call :: "string \<Rightarrow> zval list \<Rightarrow> zval \<Rightarrow> 'w \<Rightarrow> 'w option"
  wm_throw :: "pthreads_error \<Rightarrow> 'w \<Rightarrow> 'w"

section \<open>Operations\<close>

text \<open>A pool before its constructor has run has the defaults of the class declaration.\<close>

definition new_pool :: pool where
  "new_pool = \<lparr>pool_size = 0, pool_class = None, pool_workers = None, pool_ctor = None, pool_last = 0\<rparr>"

definition pthreads_worker_entry :: string where
  "pthreads_worker_entry = ''Worker''"

definition Pool_construct ::
  "'w worker_methods \<Rightarrow> zend_long \<Rightarrow> string option \<Rightarrow> zval list option \<Rightarrow> pool \<Rightarrow> 'w \<Rightarrow> pool \<times> 'w" where
  "Pool_construct M sz cls ctor p w =
     (let clazz = (case cls of None \<Rightarrow> pthreads_worker_entry | Some c \<Rightarrow> c);
          w = (if wm_extends_worker M clazz then w else wm_throw M NotAWorkerClass w);
          p = p\<lparr>pool_size := sz, pool_class := Some clazz\<rparr>
      in (case ctor of None \<Rightarrow> p | Some args \<Rightarrow> p\<lparr>pool_ctor := Some args\<rparr>, w))"

text \<open>The \<open>do ... while\<close> loop of \<open>resize\<close>: the worker with the highest index goes first.\<close>

partial_function (option) resize_loop ::
  "'w worker_methods \<Rightarrow> zend_long \<Rightarrow> hash \<Rightarrow> 'w \<Rightarrow> (hash \<times> 'w) option" where
  "resize_loop M newsize workers w = do {
     let top = (of_nat (zend_hash_num_elements workers) :: zend_long);
     w \<leftarrow> (case zend_hash_find workers (KLong (top - 1)) of
         Some worker \<Rightarrow> wm_call M ''shutdown'' [] worker w
       | None \<Rightarrow> Some w);
     let workers = snd (zend_hash_del workers (KLong (top - 1)));
     if of_nat (zend_hash_num_elements workers) \<noteq> newsize
     then resize_loop M newsize workers w
     else Some (workers, w) }"

declare resize_loop.simps [code]

definition Pool_resize :: "'w worker_methods \<Rightarrow> zend_long \<Rightarrow> pool \<Rightarrow> 'w \<Rightarrow> (pool \<times> 'w) option" where
  "Pool_resize M newsize p w = do {
     (p, w) \<leftarrow> (case pool_workers p of
         None \<Rightarrow> Some (p, w)
       | Some workers \<Rightarrow>
           if sint newsize < int (zend_hash_num_elements workers)
           then do {
             (workers, w) \<leftarrow> resize_loop M newsize workers w;
             Some (p\<lparr>pool_workers := Some workers\<rparr>, w) }
           else Some (p, w));
     Some (p\<lparr>pool_size := newsize\<rparr>, w) }"

text \<open>
  The branch of \<open>submit\<close> that creates the worker: class look-up, object, constructor, \<open>start\<close>.
  The result \<open>None\<close> means that an exception was thrown instead.
\<close>

definition pool_new_worker :: "'w worker_methods \<Rightarrow> pool \<Rightarrow> 'w \<Rightarrow> (zval option \<times> 'w) option" where
  "pool_new_worker M p w =
     (case pool_class p of
        None \<Rightarrow> Some (None, wm_throw M PoolNotInitialized w)
      | Some clazz \<Rightarrow>
          if \<not> wm_lookup_class M clazz then Some (None, wm_throw M WorkerClassMissing w)
          else do {
            (worker, w) \<leftarrow> wm_init M clazz w;
            w \<leftarrow> (case wm_constructor M clazz of
                None \<Rightarrow> Some w
              | Some constructor \<Rightarrow>
                  constructor worker (case pool_ctor p of None \<Rightarrow> [] | Some args \<Rightarrow> args) w);
            w \<leftarrow> wm_call M ''start'' [] worker w;
            Some (Some worker, w) })"

text \<open>The worker under the index \<open>last\<close>; it is created when the table has none.\<close>

definition pool_select ::
  "'w worker_methods \<Rightarrow> hash \<Rightarrow> pool \<Rightarrow> 'w \<Rightarrow> (zval option \<times> pool \<times> 'w) option" where
  "pool_select M workers p w =
     (case zend_hash_find workers (KLong (pool_last p)) of
        Some worker \<Rightarrow> Some (Some worker, p, w)
      | None \<Rightarrow> do {
          (created, w) \<leftarrow> pool_new_worker M p w;
          Some (created, (case created of
              None \<Rightarrow> p
            | Some worker \<Rightarrow> p\<lparr>pool_workers := Some (zend_hash_update workers (KLong (pool_last p)) worker)\<rparr>), w) })"

definition Pool_submit ::
  "'w worker_methods \<Rightarrow> zval \<Rightarrow> pool \<Rightarrow> 'w \<Rightarrow> (zend_long option \<times> pool \<times> 'w) option" where
  "Pool_submit M task p w = do {
     let workers = (case pool_workers p of None \<Rightarrow> zend_hash_init | Some workers \<Rightarrow> workers);
     let p = p\<lparr>pool_workers := Some workers,
              pool_last := (if sint (pool_size p) \<le> sint (pool_last p) then 0 else pool_last p)\<rparr>;
     (selected, p, w) \<leftarrow> pool_select M workers p w;
     case selected of
       None \<Rightarrow> Some (None, p, w)
     | Some worker \<Rightarrow> do {
         w \<leftarrow> wm_call M ''stack'' [task] worker w;
         Some (Some (pool_last p), p\<lparr>pool_last := pool_last p + 1\<rparr>, w) } }"

definition Pool_submitTo ::
  "'w worker_methods \<Rightarrow> zend_long \<Rightarrow> zval \<Rightarrow> pool \<Rightarrow> 'w \<Rightarrow> (zend_long option \<times> pool \<times> 'w) option" where
  "Pool_submitTo M worker task p w = do {
     let workers = (case pool_workers p of None \<Rightarrow> zend_hash_init | Some workers \<Rightarrow> workers);
     let p = p\<lparr>pool_workers := Some workers\<rparr>;
     case zend_hash_find workers (KLong worker) of
       Some selected \<Rightarrow> do {
         w \<leftarrow> wm_call M ''stack'' [task] selected w;
         Some (Some worker, p, w) }
     | None \<Rightarrow> Some (None, p, wm_throw M NoSuchWorker w) }"

text \<open>
  \<open>collect\<close> works on the queues of the workers directly. Without a callback each worker's own
  method \<open>collector\<close> decides.
\<close>

fun collect_workers ::
  "nat \<Rightarrow> zend_engine \<Rightarrow> tid \<Rightarrow> (addr \<Rightarrow> collector) \<Rightarrow> (zkey \<times> zval) list \<Rightarrow> int \<Rightarrow> world \<Rightarrow> (int \<times> world) option" where
  "collect_workers n E t collect [] collectable w = Some (collectable, w)"
| "collect_workers n E t collect ((_, worker) # ps) collectable w = do {
     obj \<leftarrow> IS_PTHREADS_OBJECT worker;
     thread \<leftarrow> w_obj w obj;
     d \<leftarrow> zo_worker_data thread;
     (k, w) \<leftarrow> pthreads_worker_collect_tasks n E t d (collect obj) w;
     collect_workers n E t collect ps (collectable + k) w }"

definition Pool_collect ::
  "nat \<Rightarrow> zend_engine \<Rightarrow> tid \<Rightarrow> (addr \<Rightarrow> collector) \<Rightarrow> collector option \<Rightarrow> pool \<Rightarrow> world \<Rightarrow> (int \<times> world) option" where
  "Pool_collect n E t own call p w =
     (case pool_workers p of
        None \<Rightarrow> Some (0, w)
      | Some workers \<Rightarrow>
          collect_workers n E t (\<lambda>obj. case call of Some c \<Rightarrow> c | None \<Rightarrow> own obj) (ht_buckets workers) 0 w)"

text \<open>\<open>shutdown\<close> calls the method of the same name on every worker, in order, and forgets them.\<close>

fun shutdown_workers :: "'w worker_methods \<Rightarrow> (zkey \<times> zval) list \<Rightarrow> 'w \<Rightarrow> 'w option" where
  "shutdown_workers M [] w = Some w"
| "shutdown_workers M ((_, worker) # ps) w = do {
     w \<leftarrow> wm_call M ''shutdown'' [] worker w;
     shutdown_workers M ps w }"

definition Pool_shutdown :: "'w worker_methods \<Rightarrow> pool \<Rightarrow> 'w \<Rightarrow> (pool \<times> 'w) option" where
  "Pool_shutdown M p w =
     (case pool_workers p of
        None \<Rightarrow> Some (p, w)
      | Some workers \<Rightarrow> do {
          w \<leftarrow> shutdown_workers M (ht_buckets workers) w;
          Some (p\<lparr>pool_workers := Some (zend_hash_clean workers)\<rparr>, w) })"

end
