(* ===== verification/Pool_Props.thy ===== *)
theory Pool_Props
  imports Pool Worker_Props
begin

text \<open>
  What a pool guarantees: resizing shuts the last workers down and ends, unless the table of
  workers has a gap or the size asked for is negative; tasks are handed out round robin. The second part
  instantiates the methods of the workers with those of \<open>Classes\<close>.
\<close>

section \<open>Tables with consecutive indices\<close>

definition indexed :: "'v list \<Rightarrow> (zkey \<times> 'v) list" where
  "indexed vs = zip (map (\<lambda>i. KLong (of_nat i)) [0..<length vs]) vs"

lemma length_indexed [simp]: "length (indexed vs) = length vs"
  by (simp add: indexed_def)

lemma indexed_Nil [simp]: "indexed [] = []"
  by (simp add: indexed_def)

lemma indexed_snoc: "indexed (vs @ [v]) = indexed vs @ [(KLong (of_nat (length vs)), v)]"
  by (simp add: indexed_def)

lemma of_nat_index_eq:
  "i < 2 ^ 64 \<Longrightarrow> j < 2 ^ 64 \<Longrightarrow> ((of_nat i :: zend_long) = of_nat j) = (i = j)"
  by (simp add: word_of_nat_eq_iff take_bit_nat_eq_self)

lemma sint_of_nat: "i < 2 ^ 63 \<Longrightarrow> sint (of_nat i :: zend_long) = int i"
  by (simp add: signed_of_nat signed_take_bit_int_eq_self)

lemma indexed_keys: "fst ` set (indexed vs) = (\<lambda>i. KLong (of_nat i)) ` {..<length vs}"
proof -
  have "fst ` set (indexed vs) = set (map fst (indexed vs))" by simp
  also have "map fst (indexed vs) = map (\<lambda>i. KLong (of_nat i)) [0..<length vs]" by (simp add: indexed_def)
  finally show ?thesis by (simp add: atLeast0LessThan)
qed

lemma distinct_indexed:
  assumes "length vs < 2 ^ 64"
  shows "distinct (map fst (indexed vs))"
  using assms by (simp add: indexed_def distinct_map inj_on_def of_nat_index_eq)

lemma indexed_fresh:
  "length vs \<le> i \<Longrightarrow> i < 2 ^ 64 \<Longrightarrow> KLong (of_nat i) \<notin> fst ` set (indexed vs)"
  by (auto simp: indexed_keys of_nat_index_eq)

lemma indexed_find:
  assumes "length vs \<le> 2 ^ 64" "i < 2 ^ 64"
  shows "map_of (indexed vs) (KLong (of_nat i)) = (if i < length vs then Some (vs ! i) else None)"
  using assms
proof (induction vs rule: rev_induct)
  case (snoc v vs)
  then show ?case
    by (auto simp: indexed_snoc map_add_def nth_append of_nat_index_eq split: option.split)
qed simp

lemma indexed_update:
  "length vs < 2 ^ 64 \<Longrightarrow> AList.update (KLong (of_nat (length vs))) v (indexed vs) = indexed (vs @ [v])"
  by (simp add: update_append_fresh indexed_fresh indexed_snoc)

lemma indexed_delete:
  assumes "length vs < 2 ^ 64"
  shows "AList.delete (KLong (of_nat (length vs))) (indexed (vs @ [v])) = indexed vs"
  using delete_last_distinct [of "indexed vs" "(KLong (of_nat (length vs)), v)"]
    distinct_indexed [of vs] indexed_fresh [OF order_refl assms] assms
  by (simp add: indexed_snoc)

lemma top_key: "of_nat (Suc n) - 1 = (of_nat n :: zend_long)"
  by simp

section \<open>Resizing\<close>

text \<open>One round of the loop on consecutive indices takes the last worker.\<close>

lemma resize_round:
  assumes "ht_buckets h = indexed (ws @ [v])" and "length ws < 2 ^ 63"
  shows "resize_loop M newsize h w = wm_call M ''shutdown'' [] v w \<bind> (\<lambda>w.
     if of_nat (length ws) \<noteq> newsize
     then resize_loop M newsize (h\<lparr>ht_buckets := indexed ws\<rparr>) w
     else Some (h\<lparr>ht_buckets := indexed ws\<rparr>, w))"
proof -
  have len: "length ws < 2 ^ 64" and le: "length (ws @ [v]) \<le> 2 ^ 64" using assms(2) by simp_all
  have find: "zend_hash_find h (KLong (of_nat (length ws))) = Some v"
    using indexed_find [OF le len] assms(1) by (simp add: zend_hash_find_def nth_append)
  have del: "zend_hash_del h (KLong (of_nat (length ws))) = (SUCCESS, h\<lparr>ht_buckets := indexed ws\<rparr>)"
    using find indexed_delete [OF len, of v] assms(1) by (simp add: zend_hash_del_def zend_hash_exists_def)
  have num: "zend_hash_num_elements h = Suc (length ws)"
    and num': "zend_hash_num_elements (h\<lparr>ht_buckets := indexed ws\<rparr>) = length ws"
    using assms(1) by (simp_all add: zend_hash_num_elements_def)
  show ?thesis
    by (subst resize_loop.simps) (simp add: num num' top_key find del Let_def cong: if_cong)
qed

lemma resize_loop_shrinks:
  assumes "ht_buckets h = indexed ws" and "length ws < 2 ^ 63" and "n < length ws"
  shows "resize_loop M (of_nat n) h w =
    map_option (\<lambda>w'. (h\<lparr>ht_buckets := indexed (take n ws)\<rparr>, w')) (shutdown_workers M (rev (drop n (indexed ws))) w)"
  using assms
proof (induction ws arbitrary: h w rule: rev_induct)
  case (snoc v ws)
  have len: "length ws < 2 ^ 63" using snoc.prems by simp
  note round = resize_round [OF snoc.prems(1) len, of M "of_nat n"]
  show ?case
  proof (cases "length ws = n")
    case True
    then show ?thesis
      by (simp add: round indexed_snoc) (cases "wm_call M ''shutdown'' [] v w"; simp)
  next
    case False
    then have n: "n < length ws" using snoc.prems(3) by simp
    have ne: "(of_nat (length ws) :: zend_long) \<noteq> of_nat n"
      using n len by (simp add: of_nat_index_eq)
    have ih: "resize_loop M (of_nat n) (h\<lparr>ht_buckets := indexed ws\<rparr>) w' =
        map_option (\<lambda>w'. (h\<lparr>ht_buckets := indexed (take n ws)\<rparr>, w'))
          (shutdown_workers M (rev (drop n (indexed ws))) w')" for w'
      using snoc.IH [of "h\<lparr>ht_buckets := indexed ws\<rparr>" w'] len n by simp
    from n show ?thesis
      by (simp add: round ne ih indexed_snoc) (cases "wm_call M ''shutdown'' [] v w"; simp)
  qed
qed simp

text \<open>A table in which the highest index is missing never changes, so the loop never ends.\<close>

definition stuck :: "hash \<Rightarrow> bool" where
  "stuck h \<longleftrightarrow> zend_hash_find h (KLong (of_nat (zend_hash_num_elements h) - 1)) = None"

lemma resize_loop_not_stuck:
  assumes "resize_loop M newsize h w = Some y" and "stuck h"
  shows "of_nat (zend_hash_num_elements h) = newsize"
proof -
  from assms(1) have "stuck h \<longrightarrow> of_nat (zend_hash_num_elements h) = newsize"
    by (rule resize_loop.raw_induct
        [where P = "\<lambda>M newsize h w y. stuck h \<longrightarrow> of_nat (zend_hash_num_elements h) = newsize", rotated])
      (auto simp: stuck_def zend_hash_del_def zend_hash_exists_def Let_def split: if_splits)
  with assms(2) show ?thesis by simp
qed

lemma resize_loop_negative:
  assumes "ht_buckets h = indexed ws" and "length ws < 2 ^ 63" and "sint newsize < 0"
  shows "resize_loop M newsize h w = None"
  using assms
proof (induction ws arbitrary: h w rule: rev_induct)
  case Nil
  then have "stuck h" and "of_nat (zend_hash_num_elements h) \<noteq> newsize"
    by (auto simp: stuck_def zend_hash_find_def zend_hash_num_elements_def)
  then show ?case using resize_loop_not_stuck by fastforce
next
  case (snoc v ws)
  then have len: "length ws < 2 ^ 63" by simp
  then have "of_nat (length ws) \<noteq> newsize" using sint_of_nat [OF len] snoc.prems(3) by auto
  then show ?case
    using snoc by (cases "wm_call M ''shutdown'' [] v w") (simp_all add: resize_round [OF snoc.prems(1) len])
qed

lemma resize_loop_gap:
  assumes "sint newsize < int (zend_hash_num_elements h)" and "zend_hash_num_elements h < 2 ^ 63" and "stuck h"
  shows "resize_loop M newsize h w = None"
proof (cases "resize_loop M newsize h w")
  case (Some y)
  then have "newsize = of_nat (zend_hash_num_elements h)" using resize_loop_not_stuck assms(3) by fastforce
  then have "sint newsize = int (zend_hash_num_elements h)" using sint_of_nat [OF assms(2)] by simp
  with assms(1) show ?thesis by simp
qed

text \<open>
  C16. Resizing a pool whose workers have consecutive indices ends: when the new size is below
  the number of workers, exactly the last workers are shut down, the highest index first,
  and the others stay in place; otherwise no worker is touched. The size is recorded either way.
\<close>

theorem pool_resize_shuts_down_last:
  assumes "pool_workers p = Some h" and "ht_buckets h = indexed ws"
    and "length ws < 2 ^ 63" and "n < 2 ^ 63"
  shows "Pool_resize M (of_nat n) p w =
    map_option (\<lambda>w'. (p\<lparr>pool_workers := Some (h\<lparr>ht_buckets := indexed (take n ws)\<rparr>), pool_size := of_nat n\<rparr>, w'))
      (shutdown_workers M (rev (drop n (indexed ws))) w)"
proof (cases "n < length ws")
  case True
  then show ?thesis
    using assms resize_loop_shrinks [OF assms(2,3) True, of M w]
    by (cases "shutdown_workers M (rev (drop n (indexed ws))) w")
      (simp_all add: Pool_resize_def zend_hash_num_elements_def sint_of_nat)
next
  case False
  have keep: "h\<lparr>ht_buckets := indexed ws\<rparr> = h" "p\<lparr>pool_workers := Some h\<rparr> = p"
    using assms(1,2) by (cases h; simp) (cases p; use assms(1) in simp)
  from False show ?thesis
    using assms keep by (simp add: Pool_resize_def zend_hash_num_elements_def sint_of_nat)
qed

text \<open>Methods that only record the calls, for concrete runs.\<close>

definition recorder :: "(string \<times> zval) list worker_methods" where
  "recorder = \<lparr>wm_extends_worker = \<lambda>c. True, wm_lookup_class = \<lambda>c. True,
     wm_init = \<lambda>c calls. Some (IS_OBJECT (ThreadedObject (length calls)), calls),
     wm_constructor = \<lambda>c. None,
     wm_call = \<lambda>name args v calls. Some (calls @ [(name, v)]),
     wm_throw = \<lambda>e calls. calls\<rparr>"

definition demo_pool :: "zval list \<Rightarrow> pool" where
  "demo_pool ws = \<lparr>pool_size = of_nat (length ws), pool_class = Some ''Worker'',
     pool_workers = Some \<lparr>ht_buckets = indexed ws, ht_next_free = of_nat (length ws)\<rparr>,
     pool_ctor = None, pool_last = 0\<rparr>"

theorem pool_resize_shuts_down_last_witness:
  "map_option snd (Pool_resize recorder 1 (demo_pool [IS_LONG 7, IS_LONG 8, IS_LONG 9]) []) =
     Some [(''shutdown'', IS_LONG 9), (''shutdown'', IS_LONG 8)]"
  using pool_resize_shuts_down_last [of "demo_pool [IS_LONG 7, IS_LONG 8, IS_LONG 9]" _
      "[IS_LONG 7, IS_LONG 8, IS_LONG 9]" 1 recorder "[]"]
  by (simp add: demo_pool_def recorder_def indexed_def upt_rec)

text \<open>
  C17. Resizing may never return: when there are more workers than asked for but none under the
  highest index, or when a negative size is asked for, the loop of \<open>resize\<close> runs forever,
  even if every method it calls returns.
\<close>

theorem pool_resize_hangs:
  assumes "pool_workers p = Some h" and "zend_hash_num_elements h < 2 ^ 63"
    and "sint newsize < int (zend_hash_num_elements h)"
    and "zend_hash_find h (KLong (of_nat (zend_hash_num_elements h) - 1)) = None \<or>
      sint newsize < 0 \<and> (\<exists>ws. ht_buckets h = indexed ws)"
  shows "Pool_resize M newsize p w = None"
proof -
  have "resize_loop M newsize h w = None"
    using assms(2-4) resize_loop_gap [of newsize h M w] resize_loop_negative [of h _ newsize M w]
    by (auto simp: stuck_def zend_hash_num_elements_def)
  with assms(1,3) show ?thesis by (simp add: Pool_resize_def)
qed

text \<open>
  Such a pool arises by the calls of its interface: after \<open>shutdown\<close> the next task still goes to
  the index after the last one used, so the only worker gets index 1.
\<close>

theorem pool_resize_hangs_witness:
  "\<exists>p w. do {
     let (p, w) = Pool_construct recorder 2 None None new_pool [];
     (_, p, w) \<leftarrow> Pool_submit recorder IS_NULL p w;
     (p, w) \<leftarrow> Pool_shutdown recorder p w;
     (_, p, w) \<leftarrow> Pool_submit recorder IS_NULL p w;
     Some (p, w) } = Some (p, w) \<and> Pool_resize recorder 0 p w = None"
proof -
  define p where "p = \<lparr>pool_size = 2, pool_class = Some ''Worker'',
    pool_workers = Some \<lparr>ht_buckets = [(KLong 1, IS_OBJECT (ThreadedObject 3))], ht_next_free = 2\<rparr>,
    pool_ctor = None, pool_last = 2\<rparr>"
  have "Pool_resize recorder 0 p w = None" for w
    using pool_resize_hangs [of p "\<lparr>ht_buckets = [(KLong 1, IS_OBJECT (ThreadedObject 3))], ht_next_free = 2\<rparr>" 0]
    by (simp add: p_def zend_hash_defs)
  then show ?thesis
    by (intro exI [of _ p] exI conjI)
      (simp_all add: p_def Pool_construct_def Pool_submit_def Pool_shutdown_def pool_select_def pool_new_worker_def
        recorder_def new_pool_def pthreads_worker_entry_def zend_hash_defs next_free_after_def ZEND_LONG_MIN_def
        ZEND_LONG_MAX_def)
qed

section \<open>Round robin\<close>

text \<open>The tasks that worker \<open>j\<close> of \<open>k\<close> gets when the tasks \<open>ts\<close> are handed out in turn.\<close>

definition share :: "nat \<Rightarrow> nat \<Rightarrow> 'a list \<Rightarrow> 'a list" where
  "share k j ts = map (\<lambda>m. ts ! m) (filter (\<lambda>m. m mod k = j) [0..<length ts])"

lemma share_Nil [simp]: "share k j [] = []"
  by (simp add: share_def)

lemma share_snoc:
  "share k j (ts @ [t]) = share k j ts @ (if length ts mod k = j then [t] else [])"
proof -
  have "map (\<lambda>m. (ts @ [t]) ! m) (filter (\<lambda>m. m mod k = j) [0..<length ts]) = share k j ts"
    unfolding share_def by (rule map_cong) (auto simp: nth_append)
  then show ?thesis by (simp add: share_def)
qed

lemma share_early: "length ts \<le> j \<Longrightarrow> share k j ts = []"
  by (auto simp: share_def filter_empty_conv) (metis mod_less_eq_dividend not_le order_trans)

fun submit_all ::
  "'w worker_methods \<Rightarrow> zval list \<Rightarrow> pool \<Rightarrow> 'w \<Rightarrow> (zend_long option list \<times> pool \<times> 'w) option" where
  "submit_all M [] p w = Some ([], p, w)"
| "submit_all M (task # tasks) p w = do {
     (r, p, w) \<leftarrow> Pool_submit M task p w;
     (rs, p, w) \<leftarrow> submit_all M tasks p w;
     Some (r # rs, p, w) }"

lemma submit_all_snoc:
  "submit_all M (ts @ [t]) p w = do {
     (rs, p, w) \<leftarrow> submit_all M ts p w;
     (r, p, w) \<leftarrow> Pool_submit M t p w;
     Some (rs @ [r], p, w) }"
proof (induction ts arbitrary: p w)
  case (Cons u ts)
  then show ?case
    by (cases "Pool_submit M u p w") (auto simp: split_def bind_assoc)
qed (simp add: split_def)

text \<open>
  What a pool relies on: a new worker is an object nobody had before and has no tasks; \<open>stack\<close>
  appends a task to one worker and leaves the others alone. \<open>queued w v\<close> is the list of tasks
  of the worker \<open>v\<close>, \<open>None\<close> for anything that is not a worker.
\<close>

locale worker_supply =
  fixes M :: "'w worker_methods" and clazz :: string
    and ready :: "'w \<Rightarrow> bool" and queued :: "'w \<Rightarrow> zval \<Rightarrow> zval list option"
  assumes new_worker: "ready w \<Longrightarrow> pool_class p = Some clazz \<Longrightarrow> \<exists>v w'.
      pool_new_worker M p w = Some (Some v, w') \<and> ready w' \<and> queued w v = None \<and>
      queued w' = (queued w)(v \<mapsto> [])"
    and stack: "ready w \<Longrightarrow> queued w v = Some ts \<Longrightarrow> \<exists>w'.
      wm_call M ''stack'' [task] v w = Some w' \<and> ready w' \<and> queued w' = (queued w)(v \<mapsto> ts @ [task])"
begin

text \<open>The state of a pool of size \<open>k\<close> with the workers \<open>ws\<close> after the tasks \<open>ts\<close> have been submitted.\<close>

definition rr_inv :: "nat \<Rightarrow> zval list \<Rightarrow> zval list \<Rightarrow> pool \<Rightarrow> 'w \<Rightarrow> bool" where
  "rr_inv k ts ws p w \<longleftrightarrow> ready w \<and> pool_class p = Some clazz \<and> pool_size p = of_nat k \<and>
     pool_last p = of_nat (if ts = [] then 0 else (length ts - 1) mod k + 1) \<and>
     (case pool_workers p of None \<Rightarrow> [] | Some h \<Rightarrow> ht_buckets h) = indexed ws \<and>
     length ws = min (length ts) k \<and> distinct ws \<and>
     (\<forall>j < length ws. queued w (ws ! j) = Some (share k j ts))"

lemma rr_next:
  assumes "rr_inv k ts ws p w" and "0 < k" and "k < 2 ^ 63"
  shows "(if sint (pool_size p) \<le> sint (pool_last p) then 0 else pool_last p) = of_nat (length ts mod k)"
proof (cases "ts = []")
  case False
  then obtain n where n: "length ts = Suc n" by (cases ts) auto
  have lt: "n mod k < k" using assms(2) by simp
  from lt assms(3) have "n mod k + 1 < 2 ^ 63" by simp
  then have last: "sint (pool_last p) = int (n mod k + 1)" and size: "sint (pool_size p) = int k"
    using assms(1) n False sint_of_nat [of "n mod k + 1"] sint_of_nat [of k] assms(3)
    by (simp_all add: rr_inv_def)
  have "pool_last p = of_nat (n mod k + 1)" using assms(1) n False by (simp add: rr_inv_def)
  moreover have "(sint (pool_size p) \<le> sint (pool_last p)) = (Suc (n mod k) = k)"
    unfolding last size using lt by linarith
  ultimately show ?thesis
    using n by (simp add: mod_Suc)
qed (use assms sint_of_nat [of k] in \<open>simp add: rr_inv_def\<close>)

lemma submit_step:
  assumes inv: "rr_inv k ts ws p w" and k: "0 < k" "k < 2 ^ 63"
  shows "\<exists>p' w' ws'. Pool_submit M t p w = Some (Some (of_nat (length ts mod k)), p', w') \<and>
    rr_inv k (ts @ [t]) ws' p' w'"
proof -
  define workers where "workers = (case pool_workers p of None \<Rightarrow> zend_hash_init | Some h \<Rightarrow> h)"
  define i where "i = length ts mod k"
  define p1 where "p1 = p\<lparr>pool_workers := Some workers, pool_last := of_nat i\<rparr>"
  have buckets: "ht_buckets workers = indexed ws"
    using inv by (auto simp: rr_inv_def workers_def zend_hash_init_def split: option.splits)
  have ws: "length ws = min (length ts) k" and ready: "ready w" and cl: "pool_class p1 = Some clazz"
    and dist: "distinct ws" and q: "\<And>j. j < length ws \<Longrightarrow> queued w (ws ! j) = Some (share k j ts)"
    using inv by (simp_all add: rr_inv_def p1_def)
  have i: "i < k" "i \<le> length ws" using k ws by (auto simp: i_def)
  then have i64: "i < 2 ^ 64" using k by simp
  have lw: "length ws < 2 ^ 64" using ws k by simp
  have find: "zend_hash_find workers (KLong (of_nat i)) = (if i < length ws then Some (ws ! i) else None)"
    using indexed_find [of ws i] lw i64 by (simp add: zend_hash_find_def buckets)
  have run: "Pool_submit M t p w = do {
      (selected, p, w) \<leftarrow> pool_select M workers p1 w;
      case selected of
        None \<Rightarrow> Some (None, p, w)
      | Some worker \<Rightarrow> do {
          w \<leftarrow> wm_call M ''stack'' [t] worker w;
          Some (Some (pool_last p), p\<lparr>pool_last := pool_last p + 1\<rparr>, w) } }"
    unfolding Pool_submit_def workers_def [symmetric] Let_def rr_next [OF inv k] i_def [symmetric]
      p1_def [symmetric] ..
  have last: "pool_last p1 = of_nat i" by (simp add: p1_def)
  show ?thesis
  proof (cases "i < length ws")
    case True
    from stack [OF ready q [OF True], of t] obtain w' where
      w': "wm_call M ''stack'' [t] (ws ! i) w = Some w'" "ready w'"
        "queued w' = (queued w)(ws ! i \<mapsto> share k i ts @ [t])" by blast
    let ?p = "p1\<lparr>pool_last := of_nat i + 1\<rparr>"
    have long: "k \<le> length ts" using True ws by (cases "length ts < k") (auto simp: i_def)
    have "rr_inv k (ts @ [t]) ws ?p w'"
      using inv w'(2,3) long dist True q
      by (auto simp: rr_inv_def p1_def i_def buckets share_snoc nth_eq_iff_index_eq add.commute)
    moreover have "Pool_submit M t p w = Some (Some (of_nat i), ?p, w')"
      using True by (simp add: run pool_select_def last find w'(1))
    ultimately show ?thesis unfolding i_def by blast
  next
    case False
    then have len: "i = length ws" and short: "length ts < k" "i = length ts"
      using i ws by (auto simp: i_def min_def split: if_splits)
    from new_worker [OF ready cl] obtain v w1 where
      v: "pool_new_worker M p1 w = Some (Some v, w1)" "ready w1" "queued w v = None" "queued w1 = (queued w)(v \<mapsto> [])"
      by blast
    have "queued w1 v = Some []" using v(4) by simp
    from stack [OF v(2) this, of t] obtain w' where
      w': "wm_call M ''stack'' [t] v w1 = Some w'" "ready w'" "queued w' = (queued w)(v \<mapsto> [t])"
      using v(4) by auto
    let ?p = "p1\<lparr>pool_workers := Some (zend_hash_update workers (KLong (of_nat i)) v), pool_last := of_nat i + 1\<rparr>"
    have fresh: "v \<notin> set ws" using v(3) q by (auto simp: in_set_conv_nth)
    have up: "ht_buckets (zend_hash_update workers (KLong (of_nat i)) v) = indexed (ws @ [v])"
      using indexed_update [OF lw, of v] by (simp add: zend_hash_update_def buckets len)
    have "rr_inv k (ts @ [t]) (ws @ [v]) ?p w'"
      using inv w'(2,3) dist q fresh short len share_early [of ts "length ts" k]
      by (auto simp: rr_inv_def p1_def up [unfolded short(2)] share_snoc nth_append less_Suc_eq add.commute)
    moreover have "Pool_submit M t p w = Some (Some (of_nat i), ?p, w')"
      using False by (simp add: run pool_select_def last find v(1) w'(1))
    ultimately show ?thesis unfolding i_def by blast
  qed
qed

lemma submit_all_inv:
  assumes inv: "rr_inv k [] ws p w" and k: "0 < k" "k < 2 ^ 63"
  shows "\<exists>p' w' ws'. submit_all M ts p w = Some (map (\<lambda>i. Some (of_nat (i mod k))) [0..<length ts], p', w') \<and>
    rr_inv k ts ws' p' w'"
proof (induction ts rule: rev_induct)
  case Nil
  then show ?case using inv by auto
next
  case (snoc t ts)
  then obtain p' w' ws' where
    ih: "submit_all M ts p w = Some (map (\<lambda>i. Some (of_nat (i mod k))) [0..<length ts], p', w')"
      "rr_inv k ts ws' p' w'" by blast
  from submit_step [OF ih(2) k, of t] show ?case by (auto simp: submit_all_snoc ih(1))
qed

lemma round_robin:
  assumes "ready w" and "pool_class p = Some clazz" and "pool_size p = of_nat k" and "pool_last p = 0"
    and "pool_workers p = None" and "0 < k" and "k < 2 ^ 63"
  shows "\<exists>p' w' ws h. submit_all M ts p w = Some (map (\<lambda>i. Some (of_nat (i mod k))) [0..<length ts], p', w') \<and>
    (case pool_workers p' of None \<Rightarrow> [] | Some h \<Rightarrow> ht_buckets h) = indexed ws \<and>
    length ws = min (length ts) k \<and> distinct ws \<and>
    (\<forall>j < length ws. queued w' (ws ! j) = Some (share k j ts))"
  using submit_all_inv [of k "[]" p w ts] assms by (simp add: rr_inv_def) blast

end

end
