(* ===== verification/Pool_Workers.thy ===== *)
theory Pool_Workers
  imports Pool_Props
begin

text \<open>
  A pool with the workers of this extension: the methods that \<open>Pool\<close> takes as a parameter are
  instantiated with \<open>Worker::stack\<close>, \<open>Thread::start\<close> and \<open>Thread::join\<close> of \<open>Classes\<close> and the object
  constructor of \<open>Object\<close>, and the contract \<open>worker_supply\<close> is proved for them.
\<close>

section \<open>The methods\<close>

text \<open>
  \<open>others\<close> is what the other threads do while \<open>start\<close> and \<open>shutdown\<close> wait. The built-in class Worker
  has no constructor.
\<close>

definition worker_php :: "nat \<Rightarrow> zend_engine \<Rightarrow> tid \<Rightarrow> (world \<Rightarrow> world option) \<Rightarrow> world worker_methods" where
  "worker_php n E t others = \<lparr>
     wm_extends_worker = \<lambda>c. create_object E c = WorkerClass,
     wm_lookup_class = \<lambda>c. create_object E c = WorkerClass,
     wm_init = \<lambda>c w. do { (a, w) \<leftarrow> object_init_ex E t c w; Some (IS_OBJECT (ThreadedObject a), w) },
     wm_constructor = \<lambda>c. None,
     wm_call = \<lambda>name args v w. do {
       this \<leftarrow> IS_PTHREADS_OBJECT v;
       (_, w) \<leftarrow> (if name = ''stack'' then Worker_stack t this (hd args) w
                else if name = ''start'' then Thread_start 0 others t this w
                else Thread_join n E others True t this w);
       Some w },
     wm_throw = throw t\<rparr>"

text \<open>The tasks in the queue of the worker object \<open>v\<close>, which \<open>t\<close> has created.\<close>

definition worker_of :: "tid \<Rightarrow> world \<Rightarrow> addr \<Rightarrow> addr option" where
  "worker_of t w a = do {
     ob \<leftarrow> w_obj w a;
     ts \<leftarrow> w_ts w (zo_ts_obj ob);
     if zo_original_zobj ob = None \<and> PTHREADS_IN_CREATOR t ts then zo_worker_data ob else None }"

definition queued_tasks :: "tid \<Rightarrow> world \<Rightarrow> zval \<Rightarrow> zval list option" where
  "queued_tasks t w v = do {
     a \<leftarrow> IS_PTHREADS_OBJECT v;
     d \<leftarrow> worker_of t w a;
     wd \<leftarrow> w_workers w d;
     values_from (q_head (wd_queue wd)) (w_heap w) }"

text \<open>
  A state in which a pool can work: no monitor is held, nothing lives above the allocation
  pointer, and the queues of the workers are well linked and do not share items.
\<close>

definition queues_apart :: "world \<Rightarrow> (addr \<Rightarrow> addr list) \<Rightarrow> bool" where
  "queues_apart w items \<longleftrightarrow>
     (\<forall>d wd. w_workers w d = Some wd \<longrightarrow> queue_rep (w_heap w) (wd_queue wd) (items d)) \<and>
     (\<forall>d wd d' wd' x. w_workers w d = Some wd \<longrightarrow> w_workers w d' = Some wd' \<longrightarrow>
        x \<in> set (items d) \<longrightarrow> x \<in> set (items d') \<longrightarrow> d = d')"

definition workers_apart :: "world \<Rightarrow> bool" where
  "workers_apart w \<longleftrightarrow>
     (\<forall>a b oa ob d. w_obj w a = Some oa \<longrightarrow> w_obj w b = Some ob \<longrightarrow>
        zo_worker_data oa = Some d \<longrightarrow> zo_worker_data ob = Some d \<longrightarrow> a = b)"

definition fresh_above :: "world \<Rightarrow> bool" where
  "fresh_above w \<longleftrightarrow> 0 < w_next w \<and> (\<forall>a. w_next w \<le> a \<longrightarrow> w_obj w a = None \<and> w_ts w a = None \<and> w_workers w a = None) \<and>
     (\<forall>a ob. w_obj w a = Some ob \<longrightarrow> zo_ts_obj ob < w_next w \<and>
        (\<forall>d. zo_worker_data ob = Some d \<longrightarrow> d < w_next w))"

definition pool_ready :: "world \<Rightarrow> bool" where
  "pool_ready w \<longleftrightarrow> (\<forall>l. m_mutex (w_monitors w l) = mutex_init) \<and> heap_ok (w_heap w) \<and>
     fresh_above w \<and> workers_apart w \<and> (\<exists>items. queues_apart w items)"

section \<open>Reading a queue\<close>

lemma values_from_seg:
  "seg h p c as l None \<Longrightarrow> values_from c h = Some (map (the \<circ> item_value h) as)"
proof (induction as arbitrary: p c)
  case Nil
  then show ?case by (simp add: values_from.simps)
next
  case (Cons a as)
  then obtain it where it: "c = Some a" "qh_items h a = Some it" "seg h (Some a) (qi_next it) as l None"
    by (auto split: option.splits)
  from Cons.IH [OF it(3)] it(1,2) show ?case
    by (subst values_from.simps) (simp add: item_value_def)
qed

lemma values_from_rep:
  "queue_rep h q as \<Longrightarrow> values_from (q_head q) h = Some (map (the \<circ> item_value h) as)"
  by (auto simp: queue_rep_def intro: values_from_seg)

section \<open>Stacking a task\<close>

lemma add_task_apart:
  assumes ready: "pool_ready w" and d: "w_workers w d = Some wd"
    and q: "values_from (q_head (wd_queue wd)) (w_heap w) = Some vs"
  shows "\<exists>n w' q'. pthreads_worker_add_task t d v w = Some (n, w') \<and> pool_ready w' \<and>
    w_obj w' = w_obj w \<and> w_ts w' = w_ts w \<and> w_workers w' = (w_workers w)(d \<mapsto> wd\<lparr>wd_queue := q'\<rparr>) \<and>
    values_from (q_head q') (w_heap w') = Some (vs @ [v]) \<and>
    (\<forall>d' wd'. d' \<noteq> d \<longrightarrow> w_workers w d' = Some wd' \<longrightarrow>
       values_from (q_head (wd_queue wd')) (w_heap w') = values_from (q_head (wd_queue wd')) (w_heap w))"
proof -
  from ready obtain items where m: "\<And>l. m_mutex (w_monitors w l) = mutex_init" and ok: "heap_ok (w_heap w)"
    and fa: "fresh_above w" and wa: "workers_apart w" and qa: "queues_apart w items"
    by (auto simp: pool_ready_def)
  let ?h = "w_heap w" and ?x = "qh_next (w_heap w)"
  have rep: "queue_rep ?h (wd_queue wd) (items d)" using qa d by (simp add: queues_apart_def)
  from push_new_correct [OF ok rep, of v] obtain q' h' where
    push: "pthreads_queue_push_new (wd_queue wd) v ?h = Some (q', h')" "heap_ok h'" "queue_rep h' q' (items d @ [?x])"
      "item_value h' ?x = Some v" "\<And>b. b \<noteq> ?x \<Longrightarrow> item_value h' b = item_value ?h b"
      "same_outside (set (items d @ [?x])) ?h h'" by blast
  define w1 where "w1 = set_worker d (wd\<lparr>wd_queue := q'\<rparr>) (set_heap h' w)"
  define w' where "w' = (if q_size (wd_queue wd) = 0 then notify_monitor (wd_monitor wd) w1 else w1)"
  have frames: "w_obj w' = w_obj w" "w_ts w' = w_ts w" "w_next w' = w_next w" "w_heap w' = h'"
    "w_workers w' = (w_workers w)(d \<mapsto> wd\<lparr>wd_queue := q'\<rparr>)" "\<And>l. m_mutex (w_monitors w' l) = mutex_init"
    using m by (simp_all add: w'_def w1_def set_worker_def set_heap_def notify_monitor_def pthreads_monitor_notify_def)
  have run: "\<exists>n. pthreads_worker_add_task t d v w = Some (n, w')"
    unfolding pthreads_worker_add_task_def
    by (rule exI, simp add: d, rule with_monitor_mutex [OF m])
      (use push(1) m in \<open>simp_all add: d w'_def w1_def Let_def\<close>)
  have others: "queue_rep h' (wd_queue wd') (items d') \<and> map (item_value h') (items d') = map (item_value ?h) (items d')"
    if "d' \<noteq> d" "w_workers w d' = Some wd'" for d' wd'
  proof -
    have r: "queue_rep ?h (wd_queue wd') (items d')" using qa that(2) by (simp add: queues_apart_def)
    have dis: "set (items d') \<inter> set (items d) = {}"
      using qa that d unfolding queues_apart_def by blast
    have x: "?x \<notin> set (items d')" using heap_ok_rep [OF ok r] by blast
    have "queue_rep h' (wd_queue wd') (items d')" using dis x same_outside_rep [OF push(6) r] by auto
    moreover have "map (item_value h') (items d') = map (item_value ?h) (items d')"
      by (rule map_same, rule push(5)) (use x in blast)
    ultimately show ?thesis by blast
  qed
  have "queues_apart w' (items(d := items d @ [?x]))"
  proof -
    have "?x \<notin> set (items d')" if "d' \<in> dom (w_workers w)" for d'
      using qa that heap_ok_rep [OF ok] by (fastforce simp: queues_apart_def)
    then show ?thesis
      using qa d push(3) others by (auto simp: queues_apart_def frames)
  qed
  then have "pool_ready w'"
    using ok fa wa d push(2) frames by (auto simp: pool_ready_def fresh_above_def workers_apart_def)
  moreover have "values_from (q_head q') h' = Some (vs @ [v])"
  proof -
    have "?x \<notin> set (items d)" using heap_ok_rep [OF ok rep] by blast
    then have "map (the \<circ> item_value h') (items d) = map (the \<circ> item_value ?h) (items d)"
      by (intro map_same) (metis comp_apply push(5))
    then show ?thesis using values_from_rep [OF push(3)] values_from_rep [OF rep] q push(4) by simp
  qed
  moreover have "values_from (q_head (wd_queue wd')) h' = values_from (q_head (wd_queue wd')) ?h"
    if "d' \<noteq> d" "w_workers w d' = Some wd'" for d' wd'
  proof -
    have "queue_rep ?h (wd_queue wd') (items d')" using qa that(2) by (simp add: queues_apart_def)
    with others [OF that] show ?thesis by (auto simp: values_from_rep)
  qed
  ultimately show ?thesis using run frames by blast
qed

section \<open>Creating a worker\<close>

text \<open>A class that declares no properties of its own, as the built-in class Worker.\<close>

definition no_properties :: "zend_engine \<Rightarrow> string \<Rightarrow> bool" where
  "no_properties E clazz \<longleftrightarrow> (\<forall>(c, infos) \<in> set (class_chain E clazz). infos = [])"

definition worker_object :: "zend_engine \<Rightarrow> tid \<Rightarrow> string \<Rightarrow> addr \<Rightarrow> pthreads_zend_object" where
  "worker_object E t ce a = \<lparr>zo_ts_obj = Suc a, zo_owner = self_ident E t, zo_original_zobj = None,
     zo_local_props_modcount = store_modcount pthreads_store_init - 1, zo_worker_data = Some (Suc (Suc a)),
     zo_ce = ce, zo_properties = None, zo_recursive = False\<rparr>"

definition worker_ts :: "zend_engine \<Rightarrow> tid \<Rightarrow> pthreads_object" where
  "worker_ts E t = \<lparr>ts_refcount = 1, ts_scope = PTHREADS_SCOPE_WORKER, ts_props = pthreads_store_init,
     ts_creator = self_ident E t, ts_local = None\<rparr>"

definition empty_worker_data :: "addr \<Rightarrow> pthreads_worker_data" where
  "empty_worker_data a = \<lparr>wd_monitor = LTs (Suc a), wd_queue = empty_queue, wd_gc = empty_queue,
     wd_running = None, wd_tasks_collected = 0\<rparr>"

lemmas new_worker_defs = worker_object_def worker_ts_def empty_worker_data_def

lemma base_init_chain_none:
  "(\<forall>(c, infos) \<in> set chain. infos = []) \<Longrightarrow> base_init_chain E t base chain slots w = Some w"
  by (induction chain) auto

lemma worker_ctor_none:
  assumes "no_properties E ce" and "\<And>l. m_mutex (w_monitors w l) = mutex_init"
  defines "a \<equiv> w_next w"
  shows "pthreads_worker_ctor E t ce w = Some (a,
    w\<lparr>w_next := Suc (Suc (Suc a)), w_monitors := (w_monitors w)(LTs (Suc a) := fresh_monitor),
      w_ts := (w_ts w)(Suc a \<mapsto> worker_ts E t), w_obj := (w_obj w)(a \<mapsto> worker_object E t ce a),
      w_globals := (w_globals w)\<lparr>g_objects := insert a (g_objects (w_globals w))\<rparr>,
      w_workers := (w_workers w)(Suc (Suc a) \<mapsto> empty_worker_data a)\<rparr>)"
proof -
  have lock: "can_lock (Suc 0) {LGlobal} t w"
    using assms(2) by (simp add: can_lock_def monitor_lockable_def mutex_defs)
  note chain = base_init_chain_none [of "class_chain E ce"]
  show ?thesis
    using assms(1) chain
    by (simp add: zero_object_def pthreads_worker_ctor_def object_alloc_ok [OF lock] pthreads_base_ctor_def
        pthreads_base_init_def pthreads_ts_object_ctor_def pthreads_worker_data_alloc_def no_properties_def a_def
        set_worker_def access_defs Let_def new_worker_defs)
qed

lemma start_new_worker:
  assumes "w_obj w a = Some ob" and "zo_original_zobj ob = None" and "w_ts w (zo_ts_obj ob) = Some ts"
    and "ident_ls (ts_creator ts) = t" and "w_monitors w (LTs (zo_ts_obj ob)) = fresh_monitor"
  shows "\<exists>ms. Thread_start 0 Some t a w = Some (IS_TRUE, w\<lparr>w_monitors := ms\<rparr>) \<and>
    (\<forall>l. m_mutex (ms l) = (if l = LReady a then mutex_init else m_mutex (w_monitors w l)))"
proof -
  have free: "monitor_lockable (Suc 0) t fresh_monitor"
    by (simp add: monitor_lockable_def fresh_monitor_def mutex_defs)
  have "pthreads_monitor_check fresh_monitor PTHREADS_MONITOR_STARTED = 0"
    by (simp add: pthreads_monitor_check_def fresh_monitor_def)
  then show ?thesis
    using assms monitor_add_ok [OF free, of PTHREADS_MONITOR_STARTED]
    by (intro exI [of _ "(w_monitors w)(LReady a := fresh_monitor,
          LTs (zo_ts_obj ob) := fresh_monitor\<lparr>m_state := PTHREADS_MONITOR_STARTED\<rparr>)"])
      (simp add: Thread_start_def pthreads_start_def pthreads_routine_init_def add_flag_def set_monitor_def
        PTHREADS_IN_CREATOR_def fresh_monitor_def)
qed

lemma new_worker_ready:
  assumes ready: "pool_ready w" and E: "create_object E clazz = WorkerClass" "no_properties E clazz"
    and p: "pool_class p = Some clazz"
  shows "\<exists>a w'. pool_new_worker (worker_php n E t Some) p w = Some (Some (IS_OBJECT (ThreadedObject a)), w') \<and>
    pool_ready w' \<and> a = w_next w \<and> w_heap w' = w_heap w \<and> w_obj w' = (w_obj w)(a \<mapsto> worker_object E t clazz a) \<and>
    w_ts w' = (w_ts w)(Suc a \<mapsto> worker_ts E t) \<and> w_workers w' = (w_workers w)(Suc (Suc a) \<mapsto> empty_worker_data a)"
proof -
  from ready obtain items where m: "\<And>l. m_mutex (w_monitors w l) = mutex_init" and ok: "heap_ok (w_heap w)"
    and fa: "fresh_above w" and wa: "workers_apart w" and qa: "queues_apart w items"
    by (auto simp: pool_ready_def)
  let ?a = "w_next w"
  obtain w1 where w1: "pthreads_worker_ctor E t clazz w = Some (?a, w1)"
    "w1 = the (map_option snd (pthreads_worker_ctor E t clazz w))"
    using worker_ctor_none [OF E(2) m, of t] by simp
  note eq = w1(2) [unfolded worker_ctor_none [OF E(2) m, of t], simplified]
  have "\<exists>ms. Thread_start 0 Some t ?a w1 = Some (IS_TRUE, w1\<lparr>w_monitors := ms\<rparr>) \<and>
    (\<forall>l. m_mutex (ms l) = (if l = LReady ?a then mutex_init else m_mutex (w_monitors w1 l)))"
    using start_new_worker [of w1 ?a "the (w_obj w1 ?a)" "the (w_ts w1 (Suc ?a))" t]
    by (simp add: eq self_ident_def worker_object_def worker_ts_def)
  then obtain ms where ms: "Thread_start 0 Some t ?a w1 = Some (IS_TRUE, w1\<lparr>w_monitors := ms\<rparr>)"
    "\<And>l. m_mutex (ms l) = mutex_init"
    using m by (auto simp: eq fresh_monitor_def)
  let ?w = "w1\<lparr>w_monitors := ms\<rparr>"
  have run: "pool_new_worker (worker_php n E t Some) p w = Some (Some (IS_OBJECT (ThreadedObject ?a)), ?w)"
    by (simp add: pool_new_worker_def p worker_php_def E(1) object_init_ex_def w1(1) IS_PTHREADS_OBJECT_def ms(1))
  have gone: "w_workers w (Suc (Suc ?a)) = None" "\<And>b ob. w_obj w b = Some ob \<Longrightarrow> zo_worker_data ob \<noteq> Some (Suc (Suc ?a))"
    using fa by (fastforce simp: fresh_above_def)+
  have "queues_apart ?w (items(Suc (Suc ?a) := []))"
    using qa gone(1) by (auto simp: queues_apart_def eq empty_worker_data_def)
  moreover have "workers_apart ?w"
    using wa gone(2) by (auto simp: workers_apart_def eq worker_object_def)
  moreover have "fresh_above ?w"
    using fa by (auto simp: fresh_above_def eq less_Suc_eq worker_object_def)
  ultimately have "pool_ready ?w" using ok ms(2) by (auto simp: pool_ready_def eq)
  with run show ?thesis by (intro exI [of _ ?a] exI [of _ ?w] conjI) (simp_all add: eq)
qed

section \<open>The contract\<close>

lemma worker_php_stack:
  "wm_call (worker_php n E t others) ''stack'' [task] v w =
     (case IS_PTHREADS_OBJECT v of None \<Rightarrow> None
      | Some this \<Rightarrow> map_option snd (Worker_stack t this task w))"
  by (auto simp: worker_php_def split: option.split) (metis (no_types, lifting) bind.bind_lunit bind.bind_lzero
      case_prod_beta map_option_case option.case_eq_if option.collapse)

lemma queued_tasks_eq:
  assumes "w_obj w a = Some ob" and "w_ts w (zo_ts_obj ob) = Some ts"
    and "zo_original_zobj ob = None" and "ident_ls (ts_creator ts) = t"
    and "zo_worker_data ob = Some d" and "w_workers w d = Some wd"
  shows "queued_tasks t w (IS_OBJECT (ThreadedObject a)) = values_from (q_head (wd_queue wd)) (w_heap w)"
  using assms by (simp add: queued_tasks_def worker_of_def IS_PTHREADS_OBJECT_def PTHREADS_IN_CREATOR_def)

lemma queued_tasksE:
  assumes "queued_tasks t w v = Some vs"
  obtains a ob ts d wd where "v = IS_OBJECT (ThreadedObject a)" "w_obj w a = Some ob"
    "w_ts w (zo_ts_obj ob) = Some ts" "zo_original_zobj ob = None" "ident_ls (ts_creator ts) = t"
    "zo_worker_data ob = Some d" "w_workers w d = Some wd" "values_from (q_head (wd_queue wd)) (w_heap w) = Some vs"
  using assms
  by (cases v) (auto simp: queued_tasks_def worker_of_def IS_PTHREADS_OBJECT_def PTHREADS_IN_CREATOR_def bind_Some_iff
      split: zobject.splits if_splits)

lemma stack_law:
  assumes ready: "pool_ready w" and q: "queued_tasks t w v = Some vs"
  shows "\<exists>w'. wm_call (worker_php n E t others) ''stack'' [task] v w = Some w' \<and> pool_ready w' \<and>
    queued_tasks t w' = (queued_tasks t w)(v \<mapsto> vs @ [task])"
proof -
  from q obtain a ob ts d wd where v: "v = IS_OBJECT (ThreadedObject a)" "w_obj w a = Some ob"
    "w_ts w (zo_ts_obj ob) = Some ts" "zo_original_zobj ob = None" "ident_ls (ts_creator ts) = t"
    "zo_worker_data ob = Some d" "w_workers w d = Some wd" "values_from (q_head (wd_queue wd)) (w_heap w) = Some vs"
    by (rule queued_tasksE)
  from add_task_apart [OF ready v(7,8), of t task] obtain k w' q' where
    w': "pthreads_worker_add_task t d task w = Some (k, w')" "pool_ready w'" "w_obj w' = w_obj w" "w_ts w' = w_ts w"
      "w_workers w' = (w_workers w)(d \<mapsto> wd\<lparr>wd_queue := q'\<rparr>)" "values_from (q_head q') (w_heap w') = Some (vs @ [task])"
      "\<And>d' wd'. d' \<noteq> d \<Longrightarrow> w_workers w d' = Some wd' \<Longrightarrow>
        values_from (q_head (wd_queue wd')) (w_heap w') = values_from (q_head (wd_queue wd')) (w_heap w)" by blast
  have "wm_call (worker_php n E t others) ''stack'' [task] v w = Some w'"
    using v w'(1) by (simp add: worker_php_stack Worker_stack_def by_creator_only_def IS_PTHREADS_OBJECT_def
        PTHREADS_IN_CREATOR_def)
  moreover have "queued_tasks t w' u = ((queued_tasks t w)(v \<mapsto> vs @ [task])) u" for u
  proof (cases "u = v")
    case True
    then show ?thesis using v w'(3-6) by (simp add: queued_tasks_eq)
  next
    case False
    have same: "worker_of t w' b = worker_of t w b" for b using w'(3,4) by (simp add: worker_of_def)
    have apart: "d' \<noteq> d" if "IS_PTHREADS_OBJECT u = Some b" "worker_of t w b = Some d'" for b d'
    proof -
      have "b \<noteq> a" using that(1) False v(1) by (auto simp: IS_PTHREADS_OBJECT_def split: zval.splits zobject.splits)
      with ready that(2) v(2,6) show ?thesis
        by (auto simp: pool_ready_def workers_apart_def worker_of_def bind_Some_iff split: if_splits)
    qed
    show ?thesis
    proof (cases "IS_PTHREADS_OBJECT u \<bind> worker_of t w")
      case None
      then show ?thesis using False
        by (cases "IS_PTHREADS_OBJECT u") (simp_all add: queued_tasks_def same)
    next
      case (Some d')
      then obtain b where b: "IS_PTHREADS_OBJECT u = Some b" "worker_of t w b = Some d'" by (auto simp: bind_Some_iff)
      from apart [OF this] w'(5,7) False b show ?thesis
        by (cases "w_workers w d'") (simp_all add: queued_tasks_def same)
    qed
  qed
  ultimately show ?thesis using w'(2) by blast
qed

lemma worker_of_old: "fresh_above w \<Longrightarrow> worker_of t w b = Some d \<Longrightarrow> d < w_next w"
  by (auto simp: fresh_above_def worker_of_def bind_Some_iff split: if_splits)

lemma new_worker_law:
  assumes ready: "pool_ready w" and E: "create_object E clazz = WorkerClass" "no_properties E clazz"
    and p: "pool_class p = Some clazz"
  shows "\<exists>v w'. pool_new_worker (worker_php n E t Some) p w = Some (Some v, w') \<and> pool_ready w' \<and>
    queued_tasks t w v = None \<and> queued_tasks t w' = (queued_tasks t w)(v \<mapsto> [])"
proof -
  from new_worker_ready [OF assms, of n t] obtain a w' where
    a: "pool_new_worker (worker_php n E t Some) p w = Some (Some (IS_OBJECT (ThreadedObject a)), w')" "pool_ready w'"
      "a = w_next w" "w_heap w' = w_heap w"
    and w': "w_obj w' = (w_obj w)(a \<mapsto> worker_object E t clazz a)" "w_ts w' = (w_ts w)(Suc a \<mapsto> worker_ts E t)"
      "w_workers w' = (w_workers w)(Suc (Suc a) \<mapsto> empty_worker_data a)" by auto
  let ?v = "IS_OBJECT (ThreadedObject a)"
  have fa: "fresh_above w" using ready by (simp add: pool_ready_def)
  have none: "queued_tasks t w ?v = None"
    using fa a(3) by (simp add: queued_tasks_def worker_of_def IS_PTHREADS_OBJECT_def fresh_above_def)
  have "queued_tasks t w' u = ((queued_tasks t w)(?v \<mapsto> [])) u" for u
  proof (cases "u = ?v")
    case True
    then show ?thesis using w' a(4)
      by (simp add: queued_tasks_def worker_of_def IS_PTHREADS_OBJECT_def PTHREADS_IN_CREATOR_def self_ident_def
          empty_queue_def values_from.simps new_worker_defs)
  next
    case False
    have same: "worker_of t w' b = worker_of t w b" if "b \<noteq> a" for b
      using that w' fa a(3)
      by (fastforce simp: worker_of_def fresh_above_def worker_ts_def split: option.splits intro!: Option.bind_cong)
    have u: "b \<noteq> a" if "IS_PTHREADS_OBJECT u = Some b" for b
      using that False by (auto simp: IS_PTHREADS_OBJECT_def split: zval.splits zobject.splits)
    have old: "w_workers w' d = w_workers w d" if "worker_of t w b = Some d" for b d
      using worker_of_old [OF fa that] w'(3) a(3) by simp
    show ?thesis
    proof (cases "IS_PTHREADS_OBJECT u")
      case (Some b)
      then show ?thesis using same [OF u [OF Some]] old [of b] False a(4)
        by (cases "worker_of t w b") (simp_all add: queued_tasks_def)
    qed (use False in \<open>simp add: queued_tasks_def\<close>)
  qed
  then show ?thesis using a(1,2) none by blast
qed

text \<open>A worker class of the extension: registered with the worker constructor, without properties.\<close>

definition plain_worker_class :: "zend_engine \<Rightarrow> string \<Rightarrow> bool" where
  "plain_worker_class E clazz \<longleftrightarrow> create_object E clazz = WorkerClass \<and> no_properties E clazz"

interpretation php: worker_supply "worker_php n E t Some" clazz
  "\<lambda>w. pool_ready w \<and> plain_worker_class E clazz" "queued_tasks t" for n E t clazz
proof unfold_locales
  fix w and p :: pool and v task :: zval and ts
  assume ready: "pool_ready w \<and> plain_worker_class E clazz"
  show "\<exists>v w'. pool_new_worker (worker_php n E t Some) p w = Some (Some v, w') \<and>
      (pool_ready w' \<and> plain_worker_class E clazz) \<and> queued_tasks t w v = None \<and>
      queued_tasks t w' = (queued_tasks t w)(v \<mapsto> [])" if "pool_class p = Some clazz"
    using new_worker_law [OF _ _ _ that, of w E n t] ready by (simp add: plain_worker_class_def)
  show "\<exists>w'. wm_call (worker_php n E t Some) ''stack'' [task] v w = Some w' \<and>
      (pool_ready w' \<and> plain_worker_class E clazz) \<and> queued_tasks t w' = (queued_tasks t w)(v \<mapsto> ts @ [task])"
    if "queued_tasks t w v = Some ts"
    using stack_law [OF _ that, of n E Some task] ready by simp
qed


lemma empty_world_ready: "pool_ready empty_world"
  by (simp add: pool_ready_def fresh_above_def workers_apart_def queues_apart_def empty_world_def fresh_monitor_def
      heap_ok_def empty_heap_def)


end
