(* ===== verification/Store_Iterator.thy ===== *)
theory Store_Iterator
  imports Store_Access
begin

text \<open>
  Iteration over the members of a threaded object: the helpers at the end of src/store.c and the
  iterator of src/object.c. A position counts the buckets of the table from its start; the
  source's position is an index into the bucket array, which agrees with it as long as no bucket
  is deleted during the iteration.
\<close>

section \<open>Positions of the engine\<close>

definition HT_INVALID_IDX :: nat where
  "HT_INVALID_IDX = 2 ^ 32 - 1"

definition zend_hash_internal_pointer_reset_ex :: "'v zend_hash \<Rightarrow> nat" where
  "zend_hash_internal_pointer_reset_ex ht = 0"

definition zend_hash_has_more_elements_ex :: "'v zend_hash \<Rightarrow> nat \<Rightarrow> zend_result" where
  "zend_hash_has_more_elements_ex ht pos = (if pos < length (ht_buckets ht) then SUCCESS else FAILURE)"

definition zend_hash_move_forward_ex :: "'v zend_hash \<Rightarrow> nat \<Rightarrow> nat" where
  "zend_hash_move_forward_ex ht pos = (if pos < length (ht_buckets ht) then Suc pos else pos)"

definition zend_hash_get_current_key_ex :: "'v zend_hash \<Rightarrow> nat \<Rightarrow> zkey option" where
  "zend_hash_get_current_key_ex ht pos =
     (if pos < length (ht_buckets ht) then Some (fst (ht_buckets ht ! pos)) else None)"

text \<open>A key as a PHP value; the bytes of a string key are copied to a new string.\<close>

definition key_zval :: "zkey option \<Rightarrow> world \<Rightarrow> zval \<times> world" where
  "key_zval k w =
     (case k of
        None \<Rightarrow> (IS_NULL, w)
      | Some (KLong n) \<Rightarrow> (IS_LONG n, w)
      | Some (KStr s) \<Rightarrow> (let (str, w) = zend_string_init s False w in (IS_STRING str, w)))"

section \<open>The helpers of the store\<close>

definition locked_table ::
  "tid \<Rightarrow> addr \<Rightarrow> (hash \<Rightarrow> world \<Rightarrow> ('a \<times> world) option) \<Rightarrow> 'a \<Rightarrow> world \<Rightarrow> ('a \<times> world) option" where
  "locked_table t obj body unlocked w = do {
     ob \<leftarrow> w_obj w obj;
     let a = zo_ts_obj ob;
     _ \<leftarrow> w_ts w a;
     with_monitor t (LTs a)
       (\<lambda>w. do { ts_obj \<leftarrow> w_ts w a; body (store_hash (ts_props ts_obj)) w }) (\<lambda>w. Some (unlocked, w)) w }"

definition pthreads_store_reset :: "tid \<Rightarrow> addr \<Rightarrow> nat \<Rightarrow> world \<Rightarrow> (nat \<times> world) option" where
  "pthreads_store_reset t obj position =
     locked_table t obj
       (\<lambda>ht w. let position = zend_hash_internal_pointer_reset_ex ht in
          Some (if zend_hash_has_more_elements_ex ht position = FAILURE then HT_INVALID_IDX else position, w)) position"

definition pthreads_store_key :: "tid \<Rightarrow> addr \<Rightarrow> nat \<Rightarrow> zval \<Rightarrow> world \<Rightarrow> (zval \<times> world) option" where
  "pthreads_store_key t obj position key =
     locked_table t obj (\<lambda>ht w. Some (key_zval (zend_hash_get_current_key_ex ht position) w)) key"

definition pthreads_store_data ::
  "zend_engine \<Rightarrow> tid \<Rightarrow> addr \<Rightarrow> nat \<Rightarrow> zval \<Rightarrow> world \<Rightarrow> (zval \<times> world) option" where
  "pthreads_store_data E t obj position value =
     locked_table t obj
       (\<lambda>ht w. do {
          let (key, w) = key_zval (zend_hash_get_current_key_ex ht position) w;
          ((r, v), w) \<leftarrow> pthreads_store_read E t obj key BP_VAR_R w;
          Some (if r = FAILURE then IS_UNDEF else v, w) }) value"

definition pthreads_store_forward :: "tid \<Rightarrow> addr \<Rightarrow> nat \<Rightarrow> world \<Rightarrow> (nat \<times> world) option" where
  "pthreads_store_forward t obj position =
     locked_table t obj
       (\<lambda>ht w. let position = zend_hash_move_forward_ex ht position in
          Some (if zend_hash_has_more_elements_ex ht position = FAILURE then HT_INVALID_IDX else position, w)) position"

section \<open>The iterator\<close>

record pthreads_iterator =
  it_object :: addr
  it_data :: zval
  it_position :: nat

definition pthreads_object_iterator_validate :: "pthreads_iterator \<Rightarrow> zend_result" where
  "pthreads_object_iterator_validate it = (if it_position it \<noteq> HT_INVALID_IDX then SUCCESS else FAILURE)"

text \<open>The current value; null stands for \<open>EG(uninitialized_zval)\<close>.\<close>

definition pthreads_object_iterator_current_data ::
  "zend_engine \<Rightarrow> tid \<Rightarrow> pthreads_iterator \<Rightarrow> world \<Rightarrow> (zval \<times> pthreads_iterator \<times> world) option" where
  "pthreads_object_iterator_current_data E t it w = do {
     (v, w) \<leftarrow> pthreads_store_data E t (it_object it) (it_position it) (it_data it) w;
     Some (if v = IS_UNDEF then IS_NULL else v, it\<lparr>it_data := v\<rparr>, w) }"

definition pthreads_object_iterator_current_key ::
  "tid \<Rightarrow> pthreads_iterator \<Rightarrow> world \<Rightarrow> (zval \<times> world) option" where
  "pthreads_object_iterator_current_key t it w =
     pthreads_store_key t (it_object it) (it_position it) IS_NULL w"

definition pthreads_object_iterator_move_forward ::
  "tid \<Rightarrow> pthreads_iterator \<Rightarrow> world \<Rightarrow> (pthreads_iterator \<times> world) option" where
  "pthreads_object_iterator_move_forward t it w = do {
     (pos, w) \<leftarrow> pthreads_store_forward t (it_object it) (it_position it) w;
     Some (it\<lparr>it_position := pos\<rparr>, w) }"

definition pthreads_object_iterator_rewind ::
  "tid \<Rightarrow> pthreads_iterator \<Rightarrow> world \<Rightarrow> (pthreads_iterator \<times> world) option" where
  "pthreads_object_iterator_rewind t it w = do {
     (pos, w) \<leftarrow> pthreads_store_reset t (it_object it) (it_position it) w;
     Some (it\<lparr>it_position := pos\<rparr>, w) }"

definition pthreads_object_iterator_get_gc :: "pthreads_iterator \<Rightarrow> zval list" where
  "pthreads_object_iterator_get_gc it = (if it_data it \<noteq> IS_UNDEF then [it_data it] else [])"

definition pthreads_object_iterator_create ::
  "tid \<Rightarrow> addr \<Rightarrow> bool \<Rightarrow> world \<Rightarrow> (pthreads_iterator option \<times> world) option" where
  "pthreads_object_iterator_create t obj by_ref w =
     (if by_ref then Some (None, throw t IterationByReference w)
      else do {
        (pos, w) \<leftarrow> pthreads_store_reset t obj 0 w;
        Some (Some \<lparr>it_object = obj, it_data = IS_UNDEF, it_position = pos\<rparr>, w) })"

text \<open>
  What the engine does with these functions for \<open>foreach ($object as $key => $value)\<close>: the pairs it
  visits, in order.
\<close>

partial_function (option) foreach_loop ::
  "zend_engine \<Rightarrow> tid \<Rightarrow> pthreads_iterator \<Rightarrow> world \<Rightarrow> ((zval \<times> zval) list \<times> world) option" where
  "foreach_loop E t it w =
     (if pthreads_object_iterator_validate it = FAILURE then Some ([], w)
      else do {
        (v, it, w) \<leftarrow> pthreads_object_iterator_current_data E t it w;
        (k, w) \<leftarrow> pthreads_object_iterator_current_key t it w;
        (it, w) \<leftarrow> pthreads_object_iterator_move_forward t it w;
        (rest, w) \<leftarrow> foreach_loop E t it w;
        Some ((k, v) # rest, w) })"

declare foreach_loop.simps [code]

definition foreach_object ::
  "zend_engine \<Rightarrow> tid \<Rightarrow> addr \<Rightarrow> world \<Rightarrow> ((zval \<times> zval) list \<times> world) option" where
  "foreach_object E t obj w = do {
     (it, w) \<leftarrow> pthreads_object_iterator_create t obj False w;
     it \<leftarrow> it;
     (it, w) \<leftarrow> pthreads_object_iterator_rewind t it w;
     foreach_loop E t it w }"

end
