(* ===== verification/Iterator_Props.thy ===== *)
theory Iterator_Props
  imports Store_Iterator Store_Props
begin

text \<open>
  A \<open>foreach\<close> over a threaded object whose members are scalars and strings visits every member
  once, in the order of the table, and ends.
\<close>

section \<open>Cells and the values that stand for them\<close>

fun represents :: "zval \<Rightarrow> zval \<Rightarrow> bool" where
  "represents (IS_STRING s) v \<longleftrightarrow> (\<exists>s'. v = IS_STRING s' \<and> zs_val s' = zs_val s)"
| "represents (IS_PTR (STORE_TYPE_STRING_PTR s owner)) v \<longleftrightarrow> (\<exists>s'. v = IS_STRING s' \<and> zs_val s' = zs_val s)"
| "represents z v \<longleftrightarrow> is_scalar z \<and> v = z"

fun textual :: "zval \<Rightarrow> bool" where
  "textual (IS_STRING s) = True" | "textual (IS_PTR (STORE_TYPE_STRING_PTR s owner)) = True" | "textual z = is_scalar z"

text \<open>The cache of an object holds nothing that differs from the store.\<close>

definition cache_agrees :: "pthreads_zend_object \<Rightarrow> pthreads_object \<Rightarrow> bool" where
  "cache_agrees ob ts \<longleftrightarrow> (\<forall>k c. cached ob k = Some c \<longrightarrow>
     (\<exists>z. zend_hash_find (store_hash (ts_props ts)) k = Some z \<and> represents z c))"

definition iter_ready :: "nat \<Rightarrow> tid \<Rightarrow> addr \<Rightarrow> addr \<Rightarrow> pthreads_object \<Rightarrow> world \<Rightarrow> bool" where
  "iter_ready n t obj a ts w \<longleftrightarrow> (\<exists>ob. store_ready n t obj ob ts w \<and> zo_ts_obj ob = a \<and> cache_agrees ob ts)"

lemma represents_alive: "represents z v \<Longrightarrow> zval_alive w v"
  by (induction z v rule: represents.induct) auto

lemma textual_plain: "textual z \<Longrightarrow> plain_storage z"
  by (induction z rule: textual.induct) (auto simp: plain_storage_def)

lemma textual_restore:
  assumes "textual z"
  shows "\<exists>v b w'. pthreads_store_restore_zval_ex E t z w = Some ((v, b), w') \<and> represents z v \<and> restore_step w w' \<and>
    w_sockets w' = w_sockets w"
  using assms
proof (induction z rule: textual.induct)
  case (1 s)
  then show ?case using restore_string_step [of s w]
    by (cases "pthreads_store_restore_string s w")
      (auto simp: pthreads_store_restore_zval_ex_def pthreads_store_restore_string_def zend_string_init_def alloc_def
        split: if_splits)
next
  case (2 s owner)
  then show ?case using restore_string_step [of s w]
    by (cases "pthreads_store_restore_string s w")
      (auto simp: pthreads_store_restore_zval_ex_def pthreads_store_convert_def pthreads_store_restore_string_def
        zend_string_init_def alloc_def restore_step_def split: if_splits)
qed (auto simp: pthreads_store_restore_zval_ex_def restore_step_def)

lemma synced_cached:
  "cache_ok w ob \<Longrightarrow> cached (synced t w' st ob) k = Some c \<Longrightarrow> cached ob k = Some c"
  by (cases "zo_local_props_modcount ob = store_modcount st")
    (auto simp: cached_synced split: option.splits if_splits)

lemma hash_find_update [simp]: "zend_hash_find (zend_hash_update ht k v) = (zend_hash_find ht)(k \<mapsto> v)"
  by (simp add: zend_hash_find_def zend_hash_update_def map_of_update fun_eq_iff)

lemma rebuild_cached: "cached (rebuild_object_properties E ob) k = cached ob k"
proof (cases "zo_properties ob")
  case None
  have "zend_hash_find (foldl (\<lambda>ht n. zend_hash_update ht (KStr n) (IS_INDIRECT IS_UNDEF)) ht0 ns) k = Some c \<Longrightarrow>
      c = IS_INDIRECT IS_UNDEF \<or> zend_hash_find ht0 k = Some c" for ht0 ns c
  proof (induction ns arbitrary: ht0)
    case (Cons a ns)
    from Cons.IH [of "zend_hash_update ht0 (KStr a) (IS_INDIRECT IS_UNDEF)"] Cons.prems show ?case
      by (auto split: if_splits)
  qed simp
  with None show ?thesis
    by (fastforce simp: cached_def rebuild_object_properties_def zend_hash_init_def zend_hash_find_def
        pthreads_store_valid_local_cache_item_def ZVAL_DEINDIRECT_def split: option.splits)
qed (simp add: rebuild_object_properties_def)

lemma cache_put_cached:
  assumes "cached (cache_put E k v ob) k' = Some c"
  shows "k' = k \<and> c = v \<or> cached ob k' = Some c"
  using assms rebuild_cached [of E ob k']
  by (auto simp: cache_put_def cached_def split: option.splits if_splits)

section \<open>Reading a member\<close>

lemma restored_ready:
  assumes "store_ready n t obj ob ts w" and a: "zo_ts_obj ob = a"
    and ob2: "cache_ok w ob2" "cache_agrees ob2 ts" "zo_ts_obj ob2 = a"
    and w2: "restore_step w w2" "w_sockets w2 = w_sockets w"
  shows "iter_ready n t obj a ts (set_obj obj ob2 w2)"
proof -
  note r = store_readyD [OF assms(1)]
  have same: "same_objects w (set_obj obj ob2 w2)"
    using ob2 w2 a connectedD [OF r(1)] by (simp add: same_objects_def restore_step_def)
  have "can_lock n {LTs a, LGlobal} t (set_obj obj ob2 w2)"
    using r(5) a w2 by (simp add: can_lock_def restore_step_def)
  then have "store_ready n t obj ob2 ts (set_obj obj ob2 w2)"
    using r(2,4) ob2 same a w2 connectedD(2) [OF r(1)]
    by (simp add: store_ready_def same_objects_registry same_objects_cache connected_def restore_step_def)
  with ob2 show ?thesis by (auto simp: iter_ready_def)
qed

lemma read_member:
  assumes ready: "iter_ready (Suc (Suc n)) t obj a ts w"
    and z: "zend_hash_find (store_hash (ts_props ts)) (snd (pthreads_store_coerce E key)) = Some z" "textual z"
  shows "\<exists>v w'. pthreads_store_read E t obj key BP_VAR_R w = Some ((SUCCESS, v), w') \<and> represents z v \<and>
    iter_ready (Suc (Suc n)) t obj a ts w' \<and> w_monitors w' = w_monitors w"
proof -
  let ?k = "snd (pthreads_store_coerce E key)"
  from ready obtain ob where ob: "store_ready (Suc (Suc n)) t obj ob ts w" "zo_ts_obj ob = a" "cache_agrees ob ts"
    by (auto simp: iter_ready_def)
  note r = store_readyD [OF ob(1)]
  define ob' where "ob' = reader_synced t w (ts_props ts) ob"
  have ok': "cache_ok w ob'" using r(3) synced_cache_ok [of w ob] by (simp add: ob'_def reader_synced_def)
  have agrees': "cache_agrees ob' ts"
    using ob(3) synced_cached [OF r(3)] by (auto simp: cache_agrees_def ob'_def reader_synced_def split: if_splits)
  note step = restored_ready [OF ob(1,2)]
  show ?thesis
  proof (cases "cached ob' ?k")
    case (Some c)
    then have "represents z c" using agrees' z(1) unfolding cache_agrees_def by fastforce
    moreover have "iter_ready (Suc (Suc n)) t obj a ts (set_obj obj ob' w)"
      by (rule step) (use ok' agrees' ob(2) in \<open>simp_all add: ob'_def restore_step_def\<close>)
    ultimately show ?thesis
      using store_read_cached [OF ob(1) Some [unfolded ob'_def], of BP_VAR_R] by (auto simp: ob'_def)
  next
    case None
    from textual_restore [OF z(2), of E t "set_obj obj ob' w"] obtain v b w' where
      v: "pthreads_store_restore_zval_ex E t z (set_obj obj ob' w) = Some ((v, b), w')" "represents z v"
        "restore_step (set_obj obj ob' w) w'" "w_sockets w' = w_sockets w" by auto
    have "store_ready (Suc (Suc n)) t obj ob ts w" by (rule ob(1))
    note read = store_read_stored [OF ob(1) None [unfolded ob'_def] z(1) textual_plain [OF z(2)] _
        v(1) [unfolded ob'_def], of BP_VAR_R]
    let ?ob2 = "cache_put E ?k v ob'"
    have "iter_ready (Suc (Suc n)) t obj a ts (set_obj obj ?ob2 w')"
    proof -
      have "set_obj obj ?ob2 w' = set_obj obj ?ob2 (w'\<lparr>w_obj := w_obj w\<rparr>)"
        using v(3) by (simp add: set_obj_def restore_step_def)
      moreover have "cache_agrees ?ob2 ts"
        using agrees' z(1) v(2) cache_put_cached [of E ?k v ob'] by (fastforce simp: cache_agrees_def)
      moreover have "cache_ok w ?ob2"
        using cache_put_ok [OF ok' represents_alive [OF v(2)]] .
      ultimately show ?thesis
        using step [of ?ob2 "w'\<lparr>w_obj := w_obj w\<rparr>"] v(3,4) ob(2) by (simp add: restore_step_def ob'_def)
    qed
    then show ?thesis
      using read v(2,3) by (auto simp: storage_readable_def ob'_def restore_step_def)
  qed
qed

section \<open>The critical sections of the iteration\<close>

text \<open>A section whose body leaves the monitors as it finds them.\<close>

lemma with_monitor_frame:
  assumes "can_lock (Suc n) L t w" and "l \<in> L" and "body (lock_w t l w) = Some (r, w2)"
    and "w_monitors w2 = w_monitors (lock_w t l w)"
  shows "with_monitor t l body els w = Some (r, w2\<lparr>w_monitors := w_monitors w\<rparr>)"
proof (rule with_monitor_ok [OF assms(1,2)])
  have "w2 = lock_w t l (w2\<lparr>w_monitors := w_monitors w\<rparr>)"
    using assms(4) by (cases w2) (simp add: lock_w_def)
  with assms(3) show "body (lock_w t l w) = Some (r, lock_w t l (w2\<lparr>w_monitors := w_monitors w\<rparr>))" by simp
qed simp

lemma iter_ready_monitors:
  assumes "iter_ready n t obj a ts w2" and "can_lock m {LTs a, LGlobal} t w"
  shows "iter_ready m t obj a ts (w2\<lparr>w_monitors := w_monitors w\<rparr>)"
proof -
  let ?w = "w2\<lparr>w_monitors := w_monitors w\<rparr>"
  obtain ob where ob: "store_ready n t obj ob ts w2" "zo_ts_obj ob = a" "cache_agrees ob ts"
    using assms(1) by (auto simp: iter_ready_def)
  have "same_objects w2 ?w" by (simp add: same_objects_def)
  then have "store_ready m t obj ob ts ?w"
    using store_readyD [OF ob(1)] assms(2) ob(2)
    by (simp add: store_ready_def same_objects_registry same_objects_cache connected_def can_lock_def)
  with ob show ?thesis by (auto simp: iter_ready_def)
qed

lemma iter_ready_lock:
  assumes "iter_ready n t obj a ts w"
  shows "\<exists>ob. w_obj w obj = Some ob \<and> zo_ts_obj ob = a" "w_ts w a = Some ts" "can_lock n {LTs a, LGlobal} t w"
  using assms by (auto simp: iter_ready_def store_ready_def connected_def)

lemma iter_ready_inside:
  assumes "iter_ready (Suc n) t obj a ts w"
  shows "iter_ready n t obj a ts (lock_w t l w)"
proof -
  obtain ob where ob: "store_ready (Suc n) t obj ob ts w" "zo_ts_obj ob = a" "cache_agrees ob ts"
    using assms by (auto simp: iter_ready_def)
  then show ?thesis unfolding iter_ready_def using store_ready_inside [OF ob(1)] by blast
qed

lemma locked_table_ok:
  assumes ready: "iter_ready (Suc n) t obj a ts w"
    and body: "body (store_hash (ts_props ts)) (lock_w t (LTs a) w) = Some (r, w2)"
    and w2: "iter_ready m t obj a ts w2" "w_monitors w2 = w_monitors (lock_w t (LTs a) w)"
  shows "\<exists>w'. locked_table t obj body els w = Some (r, w') \<and> iter_ready (Suc n) t obj a ts w'"
proof -
  note r = iter_ready_lock [OF ready]
  have "with_monitor t (LTs a)
      (\<lambda>w. do { ts_obj \<leftarrow> w_ts w a; body (store_hash (ts_props ts_obj)) w }) (\<lambda>w. Some (els, w)) w =
    Some (r, w2\<lparr>w_monitors := w_monitors w\<rparr>)"
    by (rule with_monitor_frame [OF r(3)]) (use r(2) body w2(2) in simp_all)
  moreover have "iter_ready (Suc n) t obj a ts (w2\<lparr>w_monitors := w_monitors w\<rparr>)"
    by (rule iter_ready_monitors [OF w2(1) r(3)])
  ultimately show ?thesis using r(1,2) by (auto simp: locked_table_def)
qed

text \<open>The key of a bucket as a value.\<close>

fun key_value :: "zkey \<Rightarrow> zval \<Rightarrow> bool" where
  "key_value (KLong n) v \<longleftrightarrow> v = IS_LONG n"
| "key_value (KStr s) v \<longleftrightarrow> (\<exists>s'. v = IS_STRING s' \<and> zs_val s' = s)"

fun plain_key :: "zend_engine \<Rightarrow> zkey \<Rightarrow> bool" where
  "plain_key E (KLong n) = True"
| "plain_key E (KStr s) \<longleftrightarrow> handle_numeric E s = None"

lemma key_value_coerce: "key_value k v \<Longrightarrow> plain_key E k \<Longrightarrow> snd (pthreads_store_coerce E v) = k"
  by (cases k) (auto simp: pthreads_store_coerce_def)

lemma key_zval_some:
  assumes "iter_ready n t obj a ts w"
  shows "\<exists>v w'. key_zval (Some k) w = (v, w') \<and> key_value k v \<and> iter_ready n t obj a ts w' \<and> w_monitors w' = w_monitors w"
proof (cases k)
  case (KStr s)
  obtain ob where ob: "store_ready n t obj ob ts w" "zo_ts_obj ob = a" "cache_agrees ob ts"
    using assms by (auto simp: iter_ready_def)
  define w' where "w' = snd (zend_string_init s False w)"
  have w': "w_obj w' = w_obj w" "restore_step w w'" "w_sockets w' = w_sockets w" "w_monitors w' = w_monitors w"
    by (simp_all add: w'_def zend_string_init_def alloc_def restore_step_def)
  have "set_obj obj ob w' = w'"
    using w'(1) connectedD(1) [OF store_readyD(1) [OF ob(1)]] by (cases w') (auto simp: set_obj_def)
  then have "iter_ready n t obj a ts w'"
    using restored_ready [OF ob(1,2) store_readyD(3) [OF ob(1)] ob(3,2) w'(2,3)] by simp
  with KStr w'(4) show ?thesis
    by (auto simp: key_zval_def w'_def zend_string_init_def alloc_def)
qed (use assms in \<open>auto simp: key_zval_def\<close>)

section \<open>The steps of the iteration\<close>

lemma bucket_found:
  assumes "ht_ok ht" and "p < length (ht_buckets ht)"
  shows "zend_hash_find ht (fst (ht_buckets ht ! p)) = Some (snd (ht_buckets ht ! p))"
  using assms by (simp add: zend_hash_find_def ht_ok_def map_of_eq_Some_iff)

lemma iter_ready_ht_ok: "iter_ready n t obj a ts w \<Longrightarrow> ht_ok (store_hash (ts_props ts))"
  by (auto simp: iter_ready_def store_ready_def)

lemma store_data_step:
  assumes ready: "iter_ready (Suc (Suc (Suc n))) t obj a ts w" and p: "p < length (ht_buckets (store_hash (ts_props ts)))"
    and cell: "ht_buckets (store_hash (ts_props ts)) ! p = (k, z)" "textual z" "plain_key E k"
  shows "\<exists>v w'. pthreads_store_data E t obj p d w = Some (v, w') \<and> represents z v \<and>
    iter_ready (Suc (Suc (Suc n))) t obj a ts w'"
proof -
  note ins = iter_ready_inside [OF ready, of "LTs a"]
  from key_zval_some [OF ins, of k] obtain kv w1 where k: "key_zval (Some k) (lock_w t (LTs a) w) = (kv, w1)"
    "key_value k kv" "iter_ready (Suc (Suc n)) t obj a ts w1" "w_monitors w1 = w_monitors (lock_w t (LTs a) w)" by auto
  have found: "zend_hash_find (store_hash (ts_props ts)) (snd (pthreads_store_coerce E kv)) = Some z"
    using bucket_found [OF iter_ready_ht_ok [OF ready] p] cell k(2) by (simp add: key_value_coerce)
  from read_member [OF k(3) found cell(2)] obtain v w2 where v: "pthreads_store_read E t obj kv BP_VAR_R w1 = Some ((SUCCESS, v), w2)"
    "represents z v" "iter_ready (Suc (Suc n)) t obj a ts w2" "w_monitors w2 = w_monitors w1" by auto
  have "\<exists>w'. pthreads_store_data E t obj p d w = Some (v, w') \<and> iter_ready (Suc (Suc (Suc n))) t obj a ts w'"
    unfolding pthreads_store_data_def
    by (rule locked_table_ok [OF ready _ v(3)]) (use p cell(1) k(1,4) v(1,4) in \<open>simp_all add: zend_hash_get_current_key_ex_def\<close>)
  with v(2) show ?thesis by auto
qed

lemma store_key_step:
  assumes ready: "iter_ready (Suc n) t obj a ts w" and p: "p < length (ht_buckets (store_hash (ts_props ts)))"
    and cell: "ht_buckets (store_hash (ts_props ts)) ! p = (k, z)"
  shows "\<exists>v w'. pthreads_store_key t obj p d w = Some (v, w') \<and> key_value k v \<and> iter_ready (Suc n) t obj a ts w'"
proof -
  note ins = iter_ready_inside [OF ready, of "LTs a"]
  from key_zval_some [OF ins, of k] obtain kv w1 where k: "key_zval (Some k) (lock_w t (LTs a) w) = (kv, w1)"
    "key_value k kv" "iter_ready n t obj a ts w1" "w_monitors w1 = w_monitors (lock_w t (LTs a) w)" by auto
  have "\<exists>w'. pthreads_store_key t obj p d w = Some (kv, w') \<and> iter_ready (Suc n) t obj a ts w'"
    unfolding pthreads_store_key_def
    by (rule locked_table_ok [OF ready _ k(3)]) (use p cell k(1,4) in \<open>simp_all add: zend_hash_get_current_key_ex_def\<close>)
  with k(2) show ?thesis by auto
qed

text \<open>The position that the iterator moves to: the next bucket, or the invalid index behind the last one.\<close>

definition cursor :: "hash \<Rightarrow> nat \<Rightarrow> nat" where
  "cursor ht p = (if p < length (ht_buckets ht) then p else HT_INVALID_IDX)"

lemma store_forward_step:
  assumes ready: "iter_ready (Suc n) t obj a ts w" and p: "p < length (ht_buckets (store_hash (ts_props ts)))"
  shows "\<exists>w'. pthreads_store_forward t obj p w = Some (cursor (store_hash (ts_props ts)) (Suc p), w') \<and>
    iter_ready (Suc n) t obj a ts w'"
  unfolding pthreads_store_forward_def
  by (rule locked_table_ok [OF ready _ iter_ready_inside [OF ready, of "LTs a"]])
    (use p in \<open>simp_all add: zend_hash_move_forward_ex_def zend_hash_has_more_elements_ex_def cursor_def Let_def\<close>)

lemma store_reset_step:
  assumes ready: "iter_ready (Suc n) t obj a ts w"
  shows "\<exists>w'. pthreads_store_reset t obj p w = Some (cursor (store_hash (ts_props ts)) 0, w') \<and>
    iter_ready (Suc n) t obj a ts w'"
  unfolding pthreads_store_reset_def
  by (rule locked_table_ok [OF ready _ iter_ready_inside [OF ready, of "LTs a"]])
    (simp_all add: zend_hash_internal_pointer_reset_ex_def zend_hash_has_more_elements_ex_def cursor_def Let_def)

definition visits :: "(zkey \<times> zval) list \<Rightarrow> (zval \<times> zval) list \<Rightarrow> bool" where
  "visits = list_all2 (\<lambda>(k, z) (kv, v). key_value k kv \<and> represents z v)"

lemma represents_defined: "represents z v \<Longrightarrow> textual z \<Longrightarrow> z \<noteq> IS_UNDEF \<Longrightarrow> v \<noteq> IS_UNDEF"
  by (induction z v rule: represents.induct) auto

definition iterable :: "zend_engine \<Rightarrow> hash \<Rightarrow> bool" where
  "iterable E ht \<longleftrightarrow> length (ht_buckets ht) \<le> HT_INVALID_IDX \<and>
     list_all (\<lambda>(k, z). textual z \<and> z \<noteq> IS_UNDEF \<and> plain_key E k) (ht_buckets ht)"

lemma foreach_visits:
  assumes "iterable E ht" and ht: "ht = store_hash (ts_props ts)"
    and "iter_ready (Suc (Suc (Suc n))) t obj a ts w" and "it_object it = obj" and "it_position it = cursor ht p"
    and "p \<le> length (ht_buckets ht)"
  shows "\<exists>vs w'. foreach_loop E t it w = Some (vs, w') \<and> visits (drop p (ht_buckets ht)) vs"
  using assms(3-)
proof (induction "length (ht_buckets ht) - p" arbitrary: p it w)
  case 0
  then show ?case
    by (subst foreach_loop.simps) (simp add: pthreads_object_iterator_validate_def cursor_def visits_def)
next
  case (Suc m)
  then have p: "p < length (ht_buckets ht)" by simp
  obtain k z where cell: "ht_buckets ht ! p = (k, z)" by force
  have c: "textual z" "z \<noteq> IS_UNDEF" "plain_key E k" "p \<noteq> HT_INVALID_IDX"
    using assms(1) cell p by (auto simp: iterable_def list_all_length)
  have pos: "it_position it = p" using Suc.prems(3) p by (simp add: cursor_def)
  obtain v w1 where v: "pthreads_store_data E t obj p (it_data it) w = Some (v, w1)" "represents z v"
    "iter_ready (Suc (Suc (Suc n))) t obj a ts w1"
    using store_data_step [OF Suc.prems(1) p [unfolded ht] cell [unfolded ht] c(1,3)] by blast
  obtain kv w2 where k: "pthreads_store_key t obj p IS_NULL w1 = Some (kv, w2)" "key_value k kv"
    "iter_ready (Suc (Suc (Suc n))) t obj a ts w2"
    using store_key_step [OF v(3) p [unfolded ht] cell [unfolded ht]] by blast
  obtain w3 where f: "pthreads_store_forward t obj p w2 = Some (cursor ht (Suc p), w3)"
    "iter_ready (Suc (Suc (Suc n))) t obj a ts w3"
    using store_forward_step [OF k(3) p [unfolded ht]] ht by blast
  let ?it = "it\<lparr>it_data := v, it_position := cursor ht (Suc p)\<rparr>"
  obtain vs w' where rest: "foreach_loop E t ?it w3 = Some (vs, w')" "visits (drop (Suc p) (ht_buckets ht)) vs"
  proof -
    have "m = length (ht_buckets ht) - Suc p" using Suc.hyps(2) by simp
    from Suc.hyps(1) [OF this f(2), of ?it] Suc.prems(2) p that show ?thesis by auto
  qed
  have "foreach_loop E t it w = Some ((kv, v) # vs, w')"
    using v(1) k(1) f(1) rest(1) represents_defined [OF v(2) c(1,2)] Suc.prems(2) pos c(4)
    by (subst foreach_loop.simps)
      (simp add: pthreads_object_iterator_validate_def pthreads_object_iterator_current_data_def
        pthreads_object_iterator_current_key_def pthreads_object_iterator_move_forward_def)
  moreover have "visits (drop p (ht_buckets ht)) ((kv, v) # vs)"
    using v(2) k(2) rest(2) cell by (simp add: visits_def flip: Cons_nth_drop_Suc [OF p])
  ultimately show ?case by blast
qed

text \<open>
  C21. A \<open>foreach\<close> over a threaded object ends and visits each member once, in the order of the table:
  each key it hands out is the key of the bucket, each value is the scalar of the bucket or a string
  with its bytes, whether it came from the thread's cache or from the store. The object's cache must
  agree with the store, its members be scalars and strings, and its monitors be free three times
  over for the thread: the iteration locks the object, and the read inside it locks it again.
\<close>

theorem iterator_visits_all:
  assumes "iter_ready 3 t obj a ts w" and "iterable E (store_hash (ts_props ts))"
  shows "\<exists>vs w'. foreach_object E t obj w = Some (vs, w') \<and> visits (ht_buckets (store_hash (ts_props ts))) vs"
proof -
  let ?ht = "store_hash (ts_props ts)"
  note r = assms(1) [unfolded numeral_3_eq_3]
  obtain w1 where w1: "pthreads_store_reset t obj 0 w = Some (cursor ?ht 0, w1)" "iter_ready (Suc (Suc (Suc 0))) t obj a ts w1"
    using store_reset_step [OF r] by blast
  obtain w2 where w2: "pthreads_store_reset t obj (cursor ?ht 0) w1 = Some (cursor ?ht 0, w2)"
    "iter_ready (Suc (Suc (Suc 0))) t obj a ts w2"
    using store_reset_step [OF w1(2)] by blast
  show ?thesis
    using foreach_visits [OF assms(2) refl w2(2), of "\<lparr>it_object = obj, it_data = IS_UNDEF, it_position = cursor ?ht 0\<rparr>" 0] w1(1) w2(1)
    by (simp add: foreach_object_def pthreads_object_iterator_create_def pthreads_object_iterator_rewind_def)
qed

lemma demo_iter_ready:
  assumes "ht_ok (store_hash (ts_props ts))"
  shows "iter_ready 3 2 3 2 ts (demo_world ts (demo_zobj 1 None l\<^sub>1 None) (demo_zobj 2 (Some 1) l\<^sub>2 None))"
proof -
  have "store_ready 3 2 3 (demo_zobj 2 (Some 1) l\<^sub>2 None) ts
      (demo_world ts (demo_zobj 1 None l\<^sub>1 None) (demo_zobj 2 (Some 1) l\<^sub>2 None))"
    using assms by (auto simp: store_ready_def connected_def registry_ok_def demo_can_lock demo_cache_ok)
  then show ?thesis by (auto simp: iter_ready_def cache_agrees_def cached_def)
qed

theorem iterator_visits_all_witness:
  "\<exists>vs w'. foreach_object demo_engine 2 3
      (demo_world (demo_ts (demo_table [(KLong 4, IS_TRUE), (KLong 2, IS_LONG 9)]) 1)
        (demo_zobj 1 None (- 1) None) (demo_zobj 2 (Some 1) (- 1) None)) = Some (vs, w') \<and>
    visits [(KLong 4, IS_TRUE), (KLong 2, IS_LONG 9)] vs"
proof -
  let ?ts = "demo_ts (demo_table [(KLong 4, IS_TRUE), (KLong 2, IS_LONG 9)]) 1"
  have "ht_ok (store_hash (ts_props ?ts))" by (simp add: ht_ok_def demo_table_def ZEND_LONG_MIN_def)
  moreover have "iterable demo_engine (store_hash (ts_props ?ts))" by (simp add: iterable_def HT_INVALID_IDX_def)
  ultimately show ?thesis
    using iterator_visits_all [OF demo_iter_ready, of ?ts demo_engine "- 1" "- 1"] by simp
qed

end
