(* ===== verification/Code_Ast.thy ===== *)
theory Code_Ast
  imports Code_Facts
begin

text \<open>
  The copy of a syntax tree: the block that \<open>pthreads_copy_ast\<close> allocates is tiled by the nodes of
  the copy, which reads back as the source up to the identity of the strings in its leaves.
\<close>

section \<open>Trees in memory\<close>

datatype 'v ast_shape = Leaf nat nat 'v | Node nat nat "'v ast_shape option list"

definition leaf_kind :: "zend_layout \<Rightarrow> nat \<Rightarrow> bool" where
  "leaf_kind L k \<longleftrightarrow> k = AST_ZVAL L \<or> k = AST_CONSTANT L"

definition leaf_ok :: "zend_layout \<Rightarrow> zend_ast \<Rightarrow> bool" where
  "leaf_ok L ast \<longleftrightarrow> ast_kind ast = AST_ZVAL L \<or> (case ast_val ast of IS_STRING _ \<Rightarrow> True | _ \<Rightarrow> False)"

definition node_ok :: "zend_layout \<Rightarrow> zend_ast \<Rightarrow> bool" where
  "node_ok L ast \<longleftrightarrow> ast_is_list L (ast_kind ast) \<or> length (ast_child ast) = ast_num_children L (ast_kind ast)"

fun read_children :: "(addr \<Rightarrow> 'a option) \<Rightarrow> addr option list \<Rightarrow> 'a option list option" where
  "read_children rd [] = Some []"
| "read_children rd (None # cs) = do { ts \<leftarrow> read_children rd cs; Some (None # ts) }"
| "read_children rd (Some c # cs) = do { x \<leftarrow> rd c; ts \<leftarrow> read_children rd cs; Some (Some x # ts) }"

fun ast_read :: "nat \<Rightarrow> zend_layout \<Rightarrow> (addr \<rightharpoonup> zend_ast) \<Rightarrow> addr \<Rightarrow> zval ast_shape option" where
  "ast_read 0 L mem p = None"
| "ast_read (Suc n) L mem p = do {
     ast \<leftarrow> mem p;
     if leaf_kind L (ast_kind ast)
     then if leaf_ok L ast then Some (Leaf (ast_kind ast) (ast_attr ast) (ast_val ast)) else None
     else if node_ok L ast
     then do { ts \<leftarrow> read_children (ast_read n L mem) (ast_child ast); Some (Node (ast_kind ast) (ast_attr ast) ts) }
     else None }"

definition header_size :: "zend_layout \<Rightarrow> nat \<Rightarrow> nat \<Rightarrow> nat" where
  "header_size L kind children = (if leaf_kind L kind then sizeof_ast_zval L
     else if ast_is_list L kind then zend_ast_list_size L children else zend_ast_size L (ast_num_children L kind))"

fun shape_size :: "zend_layout \<Rightarrow> 'v ast_shape \<Rightarrow> nat" where
  "shape_size L (Leaf k a v) = sizeof_ast_zval L"
| "shape_size L (Node k a ts) = header_size L k (length ts) +
     sum_list (map (\<lambda>x. case x of None \<Rightarrow> 0 | Some T \<Rightarrow> shape_size L T) ts)"

abbreviation children_shapes_size :: "zend_layout \<Rightarrow> 'v ast_shape option list \<Rightarrow> nat" where
  "children_shapes_size L ts \<equiv> sum_list (map (\<lambda>x. case x of None \<Rightarrow> 0 | Some T \<Rightarrow> shape_size L T) ts)"

text \<open>The sizes of the engine's structs, as far as the layout depends on them.\<close>

definition layout_ok :: "zend_layout \<Rightarrow> bool" where
  "layout_ok L \<longleftrightarrow> sizeof_ptr L < sizeof_ast L \<and> sizeof_ptr L < sizeof_ast_list L \<and> 0 < sizeof_ast_zval L"

lemma header_pos: "layout_ok L \<Longrightarrow> 0 < header_size L k c"
  by (auto simp: layout_ok_def header_size_def zend_ast_size_def zend_ast_list_size_def)

lemma read_children_mono:
  assumes "read_children rd cs = Some ts" and "\<And>c x. rd c = Some x \<Longrightarrow> rd' c = Some x"
  shows "read_children rd' cs = Some ts"
  using assms(1)
proof (induction cs arbitrary: ts)
  case (Cons c cs)
  then show ?case using assms(2) by (cases c) (auto simp: bind_Some_iff)
qed simp

lemma ast_read_mono:
  assumes "ast_read n L mem p = Some T" and "\<And>a c. mem a = Some c \<Longrightarrow> mem' a = Some c"
  shows "ast_read n L mem' p = Some T"
  using assms(1)
proof (induction n arbitrary: p T)
  case (Suc n)
  from Suc.prems obtain ast where ast: "mem p = Some ast" by (auto simp: bind_Some_iff)
  from Suc.prems ast assms(2) [OF ast] read_children_mono [of "ast_read n L mem" _ _ "ast_read n L mem'"] Suc.IH
  show ?case by (auto simp: bind_Some_iff split: if_splits)
qed simp

lemma read_children_length: "read_children rd cs = Some ts \<Longrightarrow> length ts = length cs"
proof (induction cs arbitrary: ts)
  case (Cons c cs)
  then show ?case by (cases c) (auto simp: bind_Some_iff)
qed simp

lemma children_size_read:
  assumes "read_children rd cs = Some ts" and "\<And>c T. rd c = Some T \<Longrightarrow> tsz c = Some (shape_size L T)"
  shows "children_size tsz cs k = Some (k + children_shapes_size L ts)"
  using assms(1)
proof (induction cs arbitrary: ts k)
  case (Cons c cs)
  then show ?case using assms(2) by (cases c) (auto simp: bind_Some_iff add.assoc)
qed simp

text \<open>The size that is allocated is the size of the tree.\<close>

lemma tree_size_read: "ast_read n L mem p = Some T \<Longrightarrow> zend_ast_tree_size n L mem p = Some (shape_size L T)"
proof (induction n arbitrary: p T)
  case (Suc n)
  from Suc.prems obtain ast where ast: "mem p = Some ast" by (auto simp: bind_Some_iff)
  show ?case
  proof (cases "leaf_kind L (ast_kind ast)")
    case False
    then obtain ts where ts: "node_ok L ast" "read_children (ast_read n L mem) (ast_child ast) = Some ts"
      "T = Node (ast_kind ast) (ast_attr ast) ts"
      using Suc.prems ast by (auto simp: bind_Some_iff split: if_splits)
    note sz = children_size_read [OF ts(2), of "zend_ast_tree_size n L mem" L] and len = read_children_length [OF ts(2)]
    show ?thesis
      using ast False ts(1,3) len by (auto simp: sz Suc.IH leaf_kind_def header_size_def node_ok_def)
  qed (use Suc.prems ast in \<open>auto simp: leaf_kind_def split: if_splits\<close>)
qed simp

section \<open>Tiled blocks\<close>

definition cell_size :: "zend_layout \<Rightarrow> zend_ast \<Rightarrow> nat" where
  "cell_size L c = header_size L (ast_kind c) (length (ast_child c))"

text \<open>The bytes from \<open>lo\<close> to \<open>hi\<close> are divided into nodes without gaps or overlaps.\<close>

inductive tiles :: "zend_layout \<Rightarrow> (addr \<rightharpoonup> zend_ast) \<Rightarrow> addr \<Rightarrow> addr \<Rightarrow> bool" for L mem where
  tiles_none: "tiles L mem a a"
| tiles_node: "mem lo = Some c \<Longrightarrow> \<forall>a. lo < a \<and> a < lo + cell_size L c \<longrightarrow> mem a = None \<Longrightarrow>
     tiles L mem (lo + cell_size L c) hi \<Longrightarrow> tiles L mem lo hi"

lemma tiles_le: "tiles L mem lo hi \<Longrightarrow> lo \<le> hi"
  by (induction rule: tiles.induct) simp_all

lemma tiles_cong:
  "tiles L mem lo hi \<Longrightarrow> (\<And>a. lo \<le> a \<Longrightarrow> a < hi \<Longrightarrow> mem' a = mem a) \<Longrightarrow> layout_ok L \<Longrightarrow> tiles L mem' lo hi"
proof (induction rule: tiles.induct)
  case (tiles_node lo c hi)
  have le: "lo + cell_size L c \<le> hi" using tiles_node.hyps(3) by (rule tiles_le)
  have "0 < cell_size L c" using tiles_node.prems(2) by (simp add: cell_size_def header_pos)
  with le tiles_node show ?case by (intro tiles.tiles_node [of _ lo c]) auto
qed (rule tiles_none)

lemma tiles_append: "tiles L mem lo mid \<Longrightarrow> tiles L mem mid hi \<Longrightarrow> tiles L mem lo hi"
  by (induction rule: tiles.induct) (auto intro: tiles.intros)

section \<open>Copying\<close>

lemma restrict_below_cong: "(\<And>a. a < base \<Longrightarrow> m' a = m a) \<Longrightarrow> m' |` {..<base} = m |` {..<base}"
  by (auto simp: restrict_map_def fun_eq_iff)

abbreviation shape_view :: "zval ast_shape \<Rightarrow> zval ast_shape" where
  "shape_view \<equiv> map_ast_shape value_view"

definition shape_own :: "tid \<Rightarrow> code_state \<Rightarrow> zval ast_shape \<Rightarrow> bool" where
  "shape_own t s T \<longleftrightarrow> (\<forall>v\<in>set_ast_shape T. \<forall>c\<in>value_strings v. own_string t s c)"

text \<open>The copy of a tree of shape \<open>T\<close> has been written at \<open>buf\<close>.\<close>

definition tree_copied ::
  "zend_layout \<Rightarrow> nat \<Rightarrow> zend_engine \<Rightarrow> tid \<Rightarrow> code_state \<Rightarrow> addr \<Rightarrow> zval ast_shape \<Rightarrow> code_state \<Rightarrow> bool" where
  "tree_copied L n E t s buf T s' \<longleftrightarrow> copy_step E t s s' \<and> tiles L (cs_asts s') buf (buf + shape_size L T) \<and>
     (\<forall>a. a < buf \<or> buf + shape_size L T \<le> a \<longrightarrow> cs_asts s' a = cs_asts s a) \<and>
     (\<exists>T'. ast_read n L (cs_asts s' |` {buf..<buf + shape_size L T}) buf = Some T' \<and> shape_view T' = shape_view T \<and>
        shape_own t s T')"

definition children_copied ::
  "zend_layout \<Rightarrow> nat \<Rightarrow> zend_engine \<Rightarrow> tid \<Rightarrow> code_state \<Rightarrow> addr \<Rightarrow> zend_ast \<Rightarrow> addr \<Rightarrow> zval ast_shape option list \<Rightarrow>
   code_state \<Rightarrow> bool" where
  "children_copied L n E t s new c buf ts s' \<longleftrightarrow> copy_step E t s s' \<and>
     tiles L (cs_asts s') buf (buf + children_shapes_size L ts) \<and>
     (\<forall>a. a \<noteq> new \<and> (a < buf \<or> buf + children_shapes_size L ts \<le> a) \<longrightarrow> cs_asts s' a = cs_asts s a) \<and>
     (\<exists>ptrs ts'. cs_asts s' new = Some (c\<lparr>ast_child := ast_child c @ ptrs\<rparr>) \<and>
        read_children (ast_read n L (cs_asts s' |` {buf..<buf + children_shapes_size L ts})) ptrs = Some ts' \<and>
        map (map_option shape_view) ts' = map (map_option shape_view) ts \<and>
        (\<forall>x\<in>set ts'. \<forall>T. x = Some T \<longrightarrow> shape_own t s T))"

text \<open>A copier of the trees below \<open>base\<close> that can be read with depth \<open>n\<close>.\<close>

definition tree_copier ::
  "zend_layout \<Rightarrow> nat \<Rightarrow> zend_engine \<Rightarrow> tid \<Rightarrow> (zval \<Rightarrow> bool) \<Rightarrow> addr \<Rightarrow> (addr \<Rightarrow> addr \<Rightarrow> addr copying) \<Rightarrow> bool" where
  "tree_copier L n E t good base ct \<longleftrightarrow> (\<forall>s p buf T. ast_read n L (cs_asts s |` {..<base}) p = Some T \<and> base \<le> buf \<and>
     (\<forall>v\<in>set_ast_shape T. good v) \<and> strings_ok E s \<and>
     (\<forall>a. buf \<le> a \<and> a < buf + shape_size L T \<longrightarrow> cs_asts s a = None) \<longrightarrow>
     (\<exists>s'. ct p buf s = Some (buf + shape_size L T, s') \<and> tree_copied L n E t s buf T s'))"

lemma shape_own_step: "copy_step E t s s' \<Longrightarrow> shape_own t s' T \<Longrightarrow> shape_own t s T"
  using own_string_step by (fastforce simp: shape_own_def)

lemma put_ast_simps [simp]:
  "cs_asts (put_ast p a s) = (cs_asts s)(p \<mapsto> a)" "strings_ok E (put_ast p a s) = strings_ok E s"
  by (simp_all add: put_ast_def strings_ok_def)

lemma push_child_step:
  assumes "cs_asts s new = Some c"
  shows "push_child new x s = Some (put_ast new (c\<lparr>ast_child := ast_child c @ [x]\<rparr>) s)"
  using assms by (simp add: push_child_def)

lemma children_copied_skip:
  assumes "children_copied L n E t (put_ast new (c\<lparr>ast_child := ast_child c @ [None]\<rparr>) s) new
      (c\<lparr>ast_child := ast_child c @ [None]\<rparr>) buf ts s'"
  shows "children_copied L n E t s new c buf (None # ts) s'"
proof -
  let ?s = "put_ast new (c\<lparr>ast_child := ast_child c @ [None]\<rparr>) s"
  have step: "copy_step E t s s'"
    using assms copy_step_trans [of E t s ?s s'] by (simp add: children_copied_def)
  obtain ptrs ts' where r: "cs_asts s' new = Some (c\<lparr>ast_child := (ast_child c @ [None]) @ ptrs\<rparr>)"
    "read_children (ast_read n L (cs_asts s' |` {buf..<buf + children_shapes_size L ts})) ptrs = Some ts'"
    "map (map_option shape_view) ts' = map (map_option shape_view) ts" "\<forall>x\<in>set ts'. \<forall>T. x = Some T \<longrightarrow> shape_own t ?s T"
    using assms unfolding children_copied_def by auto
  have own: "\<forall>x\<in>set ts'. \<forall>T. x = Some T \<longrightarrow> shape_own t s T"
    using r(4) shape_own_step [of E t s ?s] by auto
  show ?thesis
    unfolding children_copied_def
    by (intro conjI exI [of _ "None # ptrs"] exI [of _ "None # ts'"])
      (use assms step r own in \<open>auto simp: children_copied_def put_ast_def\<close>)
qed

text \<open>A child is copied, and then the others behind it.\<close>

lemma children_copied_next:
  assumes layout: "layout_ok L" and new: "new < buf"
    and c: "cs_asts s new = Some c"
    and child: "tree_copied L n E t (put_ast new (c\<lparr>ast_child := ast_child c @ [Some buf]\<rparr>) s) buf T s\<^sub>1"
    and rest: "children_copied L n E t s\<^sub>1 new (c\<lparr>ast_child := ast_child c @ [Some buf]\<rparr>) (buf + shape_size L T) ts s'"
  shows "children_copied L n E t s new c buf (Some T # ts) s'"
proof -
  let ?s = "put_ast new (c\<lparr>ast_child := ast_child c @ [Some buf]\<rparr>) s"
  let ?mid = "buf + shape_size L T" and ?lim = "buf + children_shapes_size L (Some T # ts)"
  have steps: "copy_step E t ?s s\<^sub>1" "copy_step E t s\<^sub>1 s'" "copy_step E t s ?s"
    using child rest by (simp_all add: tree_copied_def children_copied_def)
  then have step: "copy_step E t s s'" using copy_step_trans by blast
  obtain T' where T': "ast_read n L (cs_asts s\<^sub>1 |` {buf..<?mid}) buf = Some T'" "shape_view T' = shape_view T" "shape_own t ?s T'"
    using child by (auto simp: tree_copied_def)
  obtain ptrs ts' where r: "cs_asts s' new = Some (c\<lparr>ast_child := (ast_child c @ [Some buf]) @ ptrs\<rparr>)"
    "read_children (ast_read n L (cs_asts s' |` {?mid..<?mid + children_shapes_size L ts})) ptrs = Some ts'"
    "map (map_option shape_view) ts' = map (map_option shape_view) ts" "\<forall>x\<in>set ts'. \<forall>T. x = Some T \<longrightarrow> shape_own t s\<^sub>1 T"
    using rest unfolding children_copied_def by auto
  have keep: "cs_asts s' a = cs_asts s\<^sub>1 a" if "a \<noteq> new" "a < ?mid \<or> ?lim \<le> a" for a
    using rest that by (auto simp: children_copied_def)
  have keep1: "cs_asts s\<^sub>1 a = cs_asts ?s a" if "a < buf \<or> ?mid \<le> a" for a
    using child that by (auto simp: tree_copied_def)
  have "tiles L (cs_asts s') buf ?mid"
  proof (rule tiles_cong)
    show "tiles L (cs_asts s\<^sub>1) buf ?mid" using child by (simp add: tree_copied_def)
    show "cs_asts s' a = cs_asts s\<^sub>1 a" if "buf \<le> a" "a < ?mid" for a using keep [of a] that new by simp
  qed (rule layout)
  moreover have "tiles L (cs_asts s') ?mid ?lim" using rest by (simp add: children_copied_def add.assoc)
  ultimately have tiles: "tiles L (cs_asts s') buf ?lim" by (rule tiles_append)
  have "ast_read n L (cs_asts s' |` {buf..<?lim}) buf = Some T'"
  proof (rule ast_read_mono [OF T'(1)])
    show "(cs_asts s' |` {buf..<?lim}) a = Some x" if "(cs_asts s\<^sub>1 |` {buf..<?mid}) a = Some x" for a x
      using that keep [of a] new by (simp add: restrict_map_def split: if_splits)
  qed
  moreover have "read_children (ast_read n L (cs_asts s' |` {buf..<?lim})) ptrs = Some ts'"
    by (rule read_children_mono [OF r(2)], rule ast_read_mono, assumption) (auto simp: restrict_map_def split: if_splits)
  ultimately have read: "read_children (ast_read n L (cs_asts s' |` {buf..<?lim})) (Some buf # ptrs) = Some (Some T' # ts')"
    by simp
  have own: "\<forall>x\<in>set (Some T' # ts'). \<forall>T. x = Some T \<longrightarrow> shape_own t s T"
  proof (intro ballI allI impI)
    fix x T assume "x \<in> set (Some T' # ts')" and "x = Some T"
    then consider "T = T'" | "shape_own t s\<^sub>1 T" using r(4) by auto
    then show "shape_own t s T"
      using shape_own_step [OF steps(3) T'(3)] shape_own_step [OF copy_step_trans [OF steps(3,1)]] by cases simp_all
  qed
  have frame: "\<forall>a. a \<noteq> new \<and> (a < buf \<or> ?lim \<le> a) \<longrightarrow> cs_asts s' a = cs_asts s a"
  proof (intro allI impI)
    fix a assume "a \<noteq> new \<and> (a < buf \<or> ?lim \<le> a)"
    with keep [of a] keep1 [of a] show "cs_asts s' a = cs_asts s a" by auto
  qed
  show ?thesis
    unfolding children_copied_def
    by (intro conjI exI [of _ "Some buf # ptrs"] exI [of _ "Some T' # ts'"])
      (use step tiles frame r read T'(2) own in auto)
qed

lemma copy_children_step:
  assumes ct: "tree_copier L n E t good base ct" and layout: "layout_ok L"
    and "read_children (ast_read n L (cs_asts s |` {..<base})) cs = Some ts" and "base \<le> new" "new < buf"
    and "cs_asts s new = Some c" and "\<forall>x\<in>set ts. \<forall>T. x = Some T \<longrightarrow> (\<forall>v\<in>set_ast_shape T. good v)" and "strings_ok E s"
    and "\<forall>a. buf \<le> a \<and> a < buf + children_shapes_size L ts \<longrightarrow> cs_asts s a = None"
  shows "\<exists>s'. copy_children ct new cs buf s = Some (buf + children_shapes_size L ts, s') \<and> children_copied L n E t s new c buf ts s'"
  using assms(3-)
proof (induction cs arbitrary: s buf c ts)
  case Nil
  then show ?case by (auto simp: children_copied_def intro: tiles_none exI [of _ "[]"])
next
  case (Cons x cs)
  show ?case
  proof (cases x)
    case None
    let ?c = "c\<lparr>ast_child := ast_child c @ [None]\<rparr>"
    define s0 where "s0 = put_ast new ?c s"
    have s0: "cs_asts s0 = (cs_asts s)(new \<mapsto> ?c)" "strings_ok E s0"
      using Cons.prems(6) by (simp_all add: s0_def)
    obtain ts2 where ts: "ts = None # ts2" "read_children (ast_read n L (cs_asts s |` {..<base})) cs = Some ts2"
      using Cons.prems(1) None by (auto simp: bind_Some_iff)
    have "cs_asts s0 |` {..<base} = cs_asts s |` {..<base}"
      using Cons.prems(2) by (intro restrict_below_cong) (auto simp: s0)
    moreover have "cs_asts s0 new = Some ?c" "\<forall>a. buf \<le> a \<and> a < buf + children_shapes_size L ts2 \<longrightarrow> cs_asts s0 a = None"
      using Cons.prems(3,7) ts(1) by (auto simp: s0)
    ultimately obtain s' where "copy_children ct new cs buf s0 = Some (buf + children_shapes_size L ts2, s')"
      "children_copied L n E t s0 new ?c buf ts2 s'"
      using Cons.IH [of s0 ts2 buf ?c] Cons.prems(2,3,5) ts s0(2) by auto
    then show ?thesis
      using None ts(1) push_child_step [OF Cons.prems(4), of None] children_copied_skip by (auto simp: s0_def)
  next
    case (Some p)
    let ?c = "c\<lparr>ast_child := ast_child c @ [Some buf]\<rparr>"
    define s0 where "s0 = put_ast new ?c s"
    have s0: "cs_asts s0 = (cs_asts s)(new \<mapsto> ?c)" "strings_ok E s0"
      using Cons.prems(6) by (simp_all add: s0_def)
    obtain T ts2 where ts: "ts = Some T # ts2" "ast_read n L (cs_asts s |` {..<base}) p = Some T"
      "read_children (ast_read n L (cs_asts s |` {..<base})) cs = Some ts2"
      using Cons.prems(1) Some by (auto simp: bind_Some_iff)
    have below: "cs_asts s0 |` {..<base} = cs_asts s |` {..<base}"
      using Cons.prems(2) by (intro restrict_below_cong) (auto simp: s0)
    have "\<forall>a. buf \<le> a \<and> a < buf + shape_size L T \<longrightarrow> cs_asts s0 a = None"
      using Cons.prems(3,7) ts(1) by (auto simp: s0)
    then obtain s1 where s1: "ct p buf s0 = Some (buf + shape_size L T, s1)" "tree_copied L n E t s0 buf T s1"
      using ct [unfolded tree_copier_def, rule_format, of s0 p T buf] below s0(2) Cons.prems(2,3,5) ts by auto
    have keep: "cs_asts s1 a = cs_asts s0 a" if "a < buf \<or> buf + shape_size L T \<le> a" for a
      using s1(2) that by (auto simp: tree_copied_def)
    have "cs_asts s1 |` {..<base} = cs_asts s |` {..<base}"
      using keep Cons.prems(2,3) by (subst below [symmetric], intro restrict_below_cong) auto
    moreover have "strings_ok E s1" using s1(2) s0(2) copy_step_facts(2) by (auto simp: tree_copied_def)
    moreover have "cs_asts s1 new = Some ?c" using keep [of new] Cons.prems(3) by (simp add: s0)
    moreover have "\<forall>a. buf + shape_size L T \<le> a \<and> a < buf + shape_size L T + children_shapes_size L ts2 \<longrightarrow> cs_asts s1 a = None"
      using Cons.prems(3,7) ts(1) keep by (auto simp: s0)
    ultimately obtain s' where
      "copy_children ct new cs (buf + shape_size L T) s1 = Some (buf + shape_size L T + children_shapes_size L ts2, s')"
      and rest: "children_copied L n E t s1 new ?c (buf + shape_size L T) ts2 s'"
      using Cons.IH [of s1 ts2 "buf + shape_size L T" ?c] Cons.prems(2,3,5) ts by auto
    moreover have "children_copied L n E t s new c buf ts s'"
      unfolding ts(1) by (rule children_copied_next [OF layout Cons.prems(3,4) s1(2) [unfolded s0_def] rest])
    ultimately show ?thesis using Some ts(1) push_child_step [OF Cons.prems(4), of "Some buf"] s1(1) by (auto simp: add.assoc s0_def)
  qed
qed

lemma leaf_written:
  assumes layout: "layout_ok L" and c: "leaf_kind L (ast_kind c)" "leaf_ok L c" and copy: "copy_of E t s v (ast_val c) s\<^sub>1"
    and empty: "\<forall>a. buf \<le> a \<and> a < buf + sizeof_ast_zval L \<longrightarrow> cs_asts s a = None"
  shows "tree_copied L (Suc n) E t s buf (Leaf (ast_kind c) (ast_attr c) v) (put_ast buf c s\<^sub>1)"
proof -
  have size: "cell_size L c = sizeof_ast_zval L" "0 < sizeof_ast_zval L"
    using layout c(1) by (simp_all add: cell_size_def header_size_def layout_ok_def)
  have "tiles L (cs_asts (put_ast buf c s\<^sub>1)) buf (buf + sizeof_ast_zval L)"
    using size empty copy by (intro tiles_node [of _ buf c]) (auto simp: copy_of_def intro: tiles_none)
  with size copy c show ?thesis
    by (auto simp: tree_copied_def copy_of_def shape_own_def restrict_map_def)
qed

lemma node_written:
  assumes layout: "layout_ok L" and kind: "\<not> leaf_kind L (ast_kind c)" "ast_child c = []"
    and ok: "ast_is_list L (ast_kind c) \<or> length ts = ast_num_children L (ast_kind c)"
    and children: "children_copied L n E t (put_ast buf c s) buf c (buf + header_size L (ast_kind c) (length ts)) ts s'"
    and empty: "\<forall>a. buf \<le> a \<and> a < buf + header_size L (ast_kind c) (length ts) \<longrightarrow> cs_asts s a = None"
  shows "tree_copied L (Suc n) E t s buf (Node (ast_kind c) (ast_attr c) ts) s'"
proof -
  let ?h = "header_size L (ast_kind c) (length ts)" and ?s = "put_ast buf c s"
  let ?lim = "buf + ?h + children_shapes_size L ts"
  obtain ptrs ts' where r: "cs_asts s' buf = Some (c\<lparr>ast_child := ptrs\<rparr>)"
    "read_children (ast_read n L (cs_asts s' |` {buf + ?h..<?lim})) ptrs = Some ts'"
    "map (map_option shape_view) ts' = map (map_option shape_view) ts" "\<forall>x\<in>set ts'. \<forall>T. x = Some T \<longrightarrow> shape_own t ?s T"
    using children kind(2) by (auto simp: children_copied_def add.assoc)
  have len: "length ptrs = length ts" "length ts' = length ts"
    using read_children_length [OF r(2)] map_eq_imp_length_eq [OF r(3)] by simp_all
  have step: "copy_step E t s s'" "copy_step E t s ?s"
    using children copy_step_trans [of E t s ?s s'] by (simp_all add: children_copied_def)
  have pos: "0 < ?h" using layout by (rule header_pos)
  have frame: "cs_asts s' a = cs_asts ?s a" if "a \<noteq> buf" "a < buf + ?h \<or> ?lim \<le> a" for a
    using children that by (auto simp: children_copied_def add.assoc)
  have "tiles L (cs_asts s') (buf + ?h) ?lim" using children by (simp add: children_copied_def)
  then have tiles: "tiles L (cs_asts s') buf ?lim"
    using r(1) len(1) empty frame by (intro tiles_node [of _ buf "c\<lparr>ast_child := ptrs\<rparr>"]) (auto simp: cell_size_def)
  have "read_children (ast_read n L (cs_asts s' |` {buf..<?lim})) ptrs = Some ts'"
    by (rule read_children_mono [OF r(2)], rule ast_read_mono, assumption) (auto simp: restrict_map_def split: if_splits)
  then have read: "ast_read (Suc n) L (cs_asts s' |` {buf..<?lim}) buf = Some (Node (ast_kind c) (ast_attr c) ts')"
    using kind r(1) ok len(1) pos by (simp add: node_ok_def restrict_map_def)
  have own: "shape_own t s (Node (ast_kind c) (ast_attr c) ts')"
    using r(4) shape_own_step [OF step(2)] by (fastforce simp: shape_own_def)
  have "cs_asts s' a = cs_asts s a" if "a < buf \<or> ?lim \<le> a" for a
    using frame [of a] that pos by auto
  with step(1) tiles read own r(3) len(2) show ?thesis
    by (auto simp: tree_copied_def add.assoc)
qed

context value_copier
begin

lemma copies_leaf:
  assumes layout: "layout_ok L" and p: "cs_asts s p = Some ast"
    and leaf: "leaf_kind L (ast_kind ast)" "leaf_ok L ast" "good (ast_val ast)" and ok: "strings_ok E s"
    and empty: "\<forall>a. buf \<le> a \<and> a < buf + sizeof_ast_zval L \<longrightarrow> cs_asts s a = None"
  shows "\<exists>s'. pthreads_copy_ast_tree (Suc n) L E cz t p buf s = Some (buf + sizeof_ast_zval L, s') \<and>
    tree_copied L (Suc n) E t s buf (Leaf (ast_kind ast) (ast_attr ast) (ast_val ast)) s'"
proof (cases "ast_kind ast = AST_ZVAL L")
  case True
  obtain v s1 where v: "cz (ast_val ast) s = Some (Some v, s1)" "copy_of E t s (ast_val ast) v s1"
    using copies [OF leaf(3) ok] by auto
  let ?c = "\<lparr>ast_kind = AST_ZVAL L, ast_attr = ast_attr ast, ast_val = v, ast_child = []\<rparr>"
  show ?thesis
    using leaf_written [OF layout, of ?c E t s "ast_val ast" s1 buf n] v p True empty
    by (auto simp: leaf_kind_def leaf_ok_def)
next
  case False
  with leaf obtain name where name: "ast_kind ast = AST_CONSTANT L" "ast_val ast = IS_STRING name"
    by (auto simp: leaf_kind_def leaf_ok_def split: zval.splits)
  obtain d s1 where d: "pthreads_copy_string E t name s = (d, s1)" by force
  let ?c = "\<lparr>ast_kind = AST_CONSTANT L, ast_attr = ast_attr ast, ast_val = IS_STRING d, ast_child = []\<rparr>"
  have "copy_of E t s (ast_val ast) (IS_STRING d) s1"
    using copy_string [OF d ok] name by (simp add: copy_of_def bytes_of_eq)
  then show ?thesis
    using leaf_written [OF layout, of ?c E t s "ast_val ast" s1 buf n] d p False name empty
    by (auto simp: leaf_kind_def leaf_ok_def)
qed

lemma copies_node:
  assumes ct: "tree_copier L n E t good base (pthreads_copy_ast_tree n L E cz t)" and layout: "layout_ok L"
    and p: "cs_asts s p = Some ast" and node: "\<not> leaf_kind L (ast_kind ast)" "node_ok L ast"
    and ts: "read_children (ast_read n L (cs_asts s |` {..<base})) (ast_child ast) = Some ts"
    and base: "base \<le> buf" and goods: "\<forall>x\<in>set ts. \<forall>T. x = Some T \<longrightarrow> (\<forall>v\<in>set_ast_shape T. good v)" and ok: "strings_ok E s"
  defines "T \<equiv> Node (ast_kind ast) (ast_attr ast) ts"
  assumes empty: "\<forall>a. buf \<le> a \<and> a < buf + shape_size L T \<longrightarrow> cs_asts s a = None"
  shows "\<exists>s'. pthreads_copy_ast_tree (Suc n) L E cz t p buf s = Some (buf + shape_size L T, s') \<and>
    tree_copied L (Suc n) E t s buf T s'"
proof -
  let ?c = "\<lparr>ast_kind = ast_kind ast, ast_attr = ast_attr ast, ast_val = uninitialized E, ast_child = []\<rparr>"
  let ?h = "header_size L (ast_kind ast) (length ts)"
  define s0 where "s0 = put_ast buf ?c s"
  have len: "length ts = length (ast_child ast)" using ts by (rule read_children_length)
  have pos: "0 < ?h" using layout by (rule header_pos)
  have below: "cs_asts s0 |` {..<base} = cs_asts s |` {..<base}"
    using base by (intro restrict_below_cong) (auto simp: s0_def)
  have e0: "\<forall>a. buf + ?h \<le> a \<and> a < buf + ?h + children_shapes_size L ts \<longrightarrow> cs_asts s0 a = None"
    using empty pos by (auto simp: s0_def T_def)
  obtain s' where s': "copy_children (pthreads_copy_ast_tree n L E cz t) buf (ast_child ast) (buf + ?h) s0 =
      Some (buf + ?h + children_shapes_size L ts, s')"
    and copied: "children_copied L n E t s0 buf ?c (buf + ?h) ts s'"
    using copy_children_step [OF ct layout, of s0 "ast_child ast" ts buf "buf + ?h" ?c] below ts base pos e0 goods ok
    by (force simp: s0_def)
  have "pthreads_copy_ast_tree (Suc n) L E cz t p buf s = Some (buf + shape_size L T, s')"
    using s' p node len
    by (auto simp: T_def leaf_kind_def header_size_def node_ok_def s0_def Let_def add.assoc split: if_splits)
  moreover have "tree_copied L (Suc n) E t s buf T s'"
    using node_written [OF layout, of ?c ts n E t buf s s'] copied node len empty
    by (auto simp: s0_def node_ok_def T_def)
  ultimately show ?thesis by blast
qed

lemma copies_tree:
  assumes layout: "layout_ok L"
  shows "tree_copier L n E t good base (pthreads_copy_ast_tree n L E cz t)"
proof (induction n)
  case (Suc n)
  show ?case
    unfolding tree_copier_def
  proof (intro allI impI, elim conjE)
    fix s p buf T
    assume read: "ast_read (Suc n) L (cs_asts s |` {..<base}) p = Some T" and base: "base \<le> buf"
      and goods: "\<forall>v\<in>set_ast_shape T. good v" and ok: "strings_ok E s"
      and empty: "\<forall>a. buf \<le> a \<and> a < buf + shape_size L T \<longrightarrow> cs_asts s a = None"
    from read obtain ast where p: "cs_asts s p = Some ast" "p < base"
      by (auto simp: bind_Some_iff restrict_map_def split: if_splits)
    show "\<exists>s'. pthreads_copy_ast_tree (Suc n) L E cz t p buf s = Some (buf + shape_size L T, s') \<and> tree_copied L (Suc n) E t s buf T s'"
    proof (cases "leaf_kind L (ast_kind ast)")
      case True
      then have T: "T = Leaf (ast_kind ast) (ast_attr ast) (ast_val ast)" "leaf_ok L ast"
        using read p by (auto split: if_splits)
      with goods copies_leaf [OF layout p(1) True T(2) _ ok] empty show ?thesis by simp
    next
      case False
      then obtain ts where ts: "T = Node (ast_kind ast) (ast_attr ast) ts" "node_ok L ast"
        "read_children (ast_read n L (cs_asts s |` {..<base})) (ast_child ast) = Some ts"
        using read p by (auto simp: bind_Some_iff split: if_splits)
      then show ?thesis
        using copies_node [OF Suc.IH layout p(1) False ts(2,3) base _ ok] goods empty by force
    qed
  qed
qed (simp add: tree_copier_def)

text \<open>A whole tree, into a block of its own.\<close>

lemma copies_ast:
  assumes layout: "layout_ok L" and ok: "strings_ok E s" and used: "dom (cs_asts s) \<subseteq> {..<w_next (cs_world s)}"
    and read: "ast_read n L (cs_asts s) p = Some T" and goods: "\<forall>v\<in>set_ast_shape T. good v"
  shows "\<exists>ref s'. pthreads_copy_ast n L E cz t p s = Some (ref, s') \<and> ref = w_next (cs_world s) \<and>
    ref + sizeof_ast_ref L + shape_size L T \<le> w_next (cs_world s') \<and> tree_copied L n E t s (GC_AST L ref) T s'"
proof -
  define ref where "ref = w_next (cs_world s)"
  obtain s1 where s1: "emalloc (shape_size L T + sizeof_ast_ref L) s = (ref, s1)"
    by (cases "emalloc (shape_size L T + sizeof_ast_ref L) s") (auto simp: emalloc_def Let_def ref_def)
  note m = emalloc_step [OF s1, of E t]
  have unused: "cs_asts s a = None" if "\<not> a < ref" for a
    using used that by (auto simp: ref_def domIff subset_iff)
  have below: "cs_asts s1 |` {..<ref} = cs_asts s"
    using m unused by (auto simp: restrict_map_def fun_eq_iff)
  have ok1: "strings_ok E s1" using m ok copy_step_facts(2) by blast
  have "\<forall>a. GC_AST L ref \<le> a \<and> a < GC_AST L ref + shape_size L T \<longrightarrow> cs_asts s1 a = None"
    using m unused by (auto simp: GC_AST_def)
  then obtain s' where s': "pthreads_copy_ast_tree n L E cz t p (GC_AST L ref) s1 = Some (GC_AST L ref + shape_size L T, s')"
    "tree_copied L n E t s1 (GC_AST L ref) T s'"
    using copies_tree [OF layout, of n ref, unfolded tree_copier_def, rule_format, of s1 p T "GC_AST L ref"] read goods ok1 below
    by (auto simp: GC_AST_def)
  have "copy_step E t s s'" using m s'(2) copy_step_trans by (auto simp: tree_copied_def)
  moreover have "shape_own t s T'" if "shape_own t s1 T'" for T' using m that shape_own_step by blast
  ultimately have "tree_copied L n E t s (GC_AST L ref) T s'"
    using s'(2) m by (auto simp: tree_copied_def)
  moreover have "ref + sizeof_ast_ref L + shape_size L T \<le> w_next (cs_world s')"
    using m s'(2) copy_step_facts(1) [of E t s1 s'] by (auto simp: tree_copied_def)
  ultimately show ?thesis
    using s'(1) s1 tree_size_read [OF read] by (auto simp: pthreads_copy_ast_def ref_def)
qed

end

end
