(* ===== verification/Code_Functions.thy ===== *)
theory Code_Functions
  imports Code_Facts
begin

text \<open>
  Copies of functions: every part that \<open>pthreads_copy_user_function\<close> copies, the relocation of the
  operands of the instructions, and the facts on the function as a whole.
\<close>

section \<open>Relocated operands\<close>

text \<open>The address that a constant operand of instruction \<open>i\<close> designates, and that of a jump in the 32-bit build.\<close>

definition const_operand :: "zend_layout \<Rightarrow> addr \<Rightarrow> nat \<Rightarrow> 32 word \<Rightarrow> int" where
  "const_operand L ops i v = (if abs_addr L then uint v else int ops + int (i * sizeof_op L) + sint v)"

definition operand_fits :: "zend_layout \<Rightarrow> addr \<Rightarrow> nat \<Rightarrow> int \<Rightarrow> bool" where
  "operand_fits L ops i a \<longleftrightarrow> (if abs_addr L then 0 \<le> a \<and> a < 2 ^ 32
     else - (2 ^ 31) \<le> a - (int ops + int (i * sizeof_op L)) \<and> a - (int ops + int (i * sizeof_op L)) < 2 ^ 31)"

lemma word_of_int_range:
  fixes d :: int
  shows "- (2 ^ 31) \<le> d \<Longrightarrow> d < 2 ^ 31 \<Longrightarrow> sint (word_of_int d :: 32 word) = d"
    and "0 \<le> d \<Longrightarrow> d < 2 ^ 32 \<Longrightarrow> uint (word_of_int d :: 32 word) = d"
  by (simp_all add: signed_of_int signed_take_bit_int_eq_self uint_word_of_int)

lemma operand_encoded:
  assumes "operand_fits L ops i a"
  shows "const_operand L ops i (word_of_int (if abs_addr L then a else a - (int ops + int (i * sizeof_op L)))) = a"
proof (cases "abs_addr L")
  case True
  with assms show ?thesis by (simp add: const_operand_def operand_fits_def uint_word_of_int)
next
  case False
  with assms have "sint (word_of_int (a - (int ops + int (i * sizeof_op L))) :: 32 word) = a - (int ops + int (i * sizeof_op L))"
    by (intro word_of_int_range(1)) (simp_all add: operand_fits_def)
  with False show ?thesis by (simp add: const_operand_def)
qed

lemma relocate_const_target:
  assumes "0 < sizeof_zval L" and old: "const_operand L ops i v = int lits + int (sizeof_zval L * k)"
    and "operand_fits L copy i (int newlits + int (sizeof_zval L * k))"
  shows "const_operand L copy i (relocate_const L ops lits copy newlits i v) = int newlits + int (sizeof_zval L * k)"
proof -
  have "relocate_const L ops lits copy newlits i v =
      word_of_int (if abs_addr L then int newlits + int (sizeof_zval L * k)
        else int newlits + int (sizeof_zval L * k) - (int copy + int (i * sizeof_op L)))"
  proof (cases "abs_addr L")
    case True
    with old have "uint v = int lits + int (sizeof_zval L * k)" by (simp add: const_operand_def)
    with True show ?thesis by (simp add: relocate_const_def)
  next
    case False
    with old have "int ops + int (i * sizeof_op L) + sint v - int lits = int (sizeof_zval L) * int k"
      by (simp add: const_operand_def)
    with False assms(1) show ?thesis by (simp add: relocate_const_def)
  qed
  with operand_encoded [OF assms(3)] show ?thesis by simp
qed

lemma relocate_jump_target:
  assumes "0 < sizeof_op L" and "uint v = int ops + int (sizeof_op L * k)" and "copy + sizeof_op L * k < 2 ^ 32"
  shows "uint (relocate_jump L ops copy v) = int copy + int (sizeof_op L * k)"
proof -
  have "relocate_jump L ops copy v = word_of_int (int copy + int (sizeof_op L * k))"
    using assms(1,2) by (simp add: relocate_jump_def)
  moreover have "int copy + int (sizeof_op L * k) < 2 ^ 32"
    using assms(3) by (metis of_nat_add of_nat_less_iff of_nat_numeral of_nat_power)
  ultimately show ?thesis using word_of_int_range(2) [of "int copy + int (sizeof_op L * k)"] by simp
qed

text \<open>An instruction and its copy: everything but the operands and the handler agrees.\<close>

definition same_op :: "zend_op \<Rightarrow> zend_op \<Rightarrow> bool" where
  "same_op p q \<longleftrightarrow> op_opcode q = op_opcode p \<and> op1_type q = op1_type p \<and> op2_type q = op2_type p \<and>
     op_result q = op_result p \<and> extended_value q = extended_value p"

text \<open>An operand of the copy designates the copy of the literal that the source designates.\<close>

definition operand_copied ::
  "zend_layout \<Rightarrow> nat \<Rightarrow> addr \<times> 'a list \<Rightarrow> addr \<times> 'b list \<Rightarrow> addr \<Rightarrow> addr \<Rightarrow> 32 word \<Rightarrow> 32 word \<Rightarrow> bool" where
  "operand_copied L i ops ops' lits newlits v v' \<longleftrightarrow> (\<forall>k. const_operand L (fst ops) i v = int lits + int (sizeof_zval L * k) \<and>
     operand_fits L (fst ops') i (int newlits + int (sizeof_zval L * k)) \<longrightarrow>
     const_operand L (fst ops') i v' = int newlits + int (sizeof_zval L * k))"

definition op_copied ::
  "zend_layout \<Rightarrow> bool \<Rightarrow> nat \<Rightarrow> addr \<times> zend_op list \<Rightarrow> addr \<times> zend_op list \<Rightarrow> addr \<Rightarrow> addr \<Rightarrow> bool" where
  "op_copied L jumps i ops ops' lits newlits \<longleftrightarrow> (let p = snd ops ! i; q = snd ops' ! i in same_op p q \<and>
     (op1_type p = IS_CONST \<and> \<not> (jumps \<and> op_opcode p \<in> {ZEND_JMP, ZEND_FAST_CALL}) \<longrightarrow>
        operand_copied L i ops ops' lits newlits (op1 p) (op1 q)) \<and>
     (op2_type p = IS_CONST \<and> \<not> (jumps \<and> (jumps_by_op2 (op_opcode p) \<or> op_opcode p = ZEND_CATCH)) \<longrightarrow>
        operand_copied L i ops ops' lits newlits (op2 p) (op2 q)) \<and>
     (op1_type p \<noteq> IS_CONST \<and> \<not> jumps \<longrightarrow> op1 q = op1 p) \<and> (op2_type p \<noteq> IS_CONST \<and> \<not> jumps \<longrightarrow> op2 q = op2 p) \<and>
     (jumps \<and> op_opcode p \<in> {ZEND_JMP, ZEND_FAST_CALL} \<and> op1_type p \<noteq> IS_CONST \<longrightarrow>
        op1 q = relocate_jump L (fst ops) (fst ops') (op1 p)) \<and>
     (jumps \<and> jumps_by_op2 (op_opcode p) \<and> op2_type p \<noteq> IS_CONST \<longrightarrow>
        op2 q = relocate_jump L (fst ops) (fst ops') (op2 p)))"

lemma operand_relocated:
  "0 < sizeof_zval L \<Longrightarrow> operand_copied L i ops ops' lits newlits v (relocate_const L (fst ops) lits (fst ops') newlits i v)"
  using relocate_const_target unfolding operand_copied_def by blast

lemma opcodes_copied:
  assumes "0 < sizeof_zval L" and "i < length (snd ops)"
  shows "op_copied L (abs_addr L \<and> pass_two) i ops (pthreads_copy_opcodes L pass_two ops lits newlits vs memory) lits newlits"
proof -
  define ops' where "ops' = pthreads_copy_opcodes L pass_two ops lits newlits vs memory"
  define p where "p = snd ops ! i"
  define c where "c = copy_op_consts L (fst ops) lits memory newlits vs i p"
  have fst: "fst ops' = memory" by (simp add: ops'_def pthreads_copy_opcodes_def)
  have q: "snd ops' ! i = (if abs_addr L \<and> pass_two then copy_op_jumps L (fst ops) memory c else c)"
    using assms(2) by (simp add: ops'_def pthreads_copy_opcodes_def nth_enumerate_eq c_def p_def Let_def)
  note r = operand_relocated [OF assms(1), of i ops ops' lits newlits, unfolded fst]
  have c: "same_op p c" "op1 c = (if op1_type p = IS_CONST then relocate_const L (fst ops) lits memory newlits i (op1 p) else op1 p)"
    "op2 c = (if op2_type p = IS_CONST then relocate_const L (fst ops) lits memory newlits i (op2 p) else op2 p)"
    by (simp_all add: c_def copy_op_consts_def same_op_def Let_def)
  have "op_copied L (abs_addr L \<and> pass_two) i ops ops' lits newlits"
  proof (cases "abs_addr L \<and> pass_two")
    case False
    then have "snd ops' ! i = c" by (simp add: q if_not_P del: de_Morgan_conj)
    with False show ?thesis using c r by (auto simp: op_copied_def Let_def simp flip: p_def)
  next
    case True
    let ?q = "copy_op_jumps L (fst ops) memory c"
    have q': "same_op p ?q"
      "op1 ?q = (if op_opcode p \<in> {ZEND_JMP, ZEND_FAST_CALL} then relocate_jump L (fst ops) memory (op1 c) else op1 c)"
      "jumps_by_op2 (op_opcode p) \<Longrightarrow> op2 ?q = relocate_jump L (fst ops) memory (op2 c)"
      "\<not> jumps_by_op2 (op_opcode p) \<Longrightarrow> op_opcode p \<noteq> ZEND_CATCH \<Longrightarrow> op2 ?q = op2 c"
      using c(1) by (auto simp: copy_op_jumps_def same_op_def jumps_by_op2_def)
    have "snd ops' ! i = ?q" using True by (simp add: q)
    with True show ?thesis using c r q' by (auto simp: op_copied_def Let_def fst simp flip: p_def)
  qed
  then show ?thesis by (simp add: ops'_def)
qed

section \<open>The parts of a function\<close>

text \<open>Copying a function may also file a name and allocate a reference count.\<close>

definition files_ok :: "code_state \<Rightarrow> bool" where
  "files_ok s \<longleftrightarrow> (\<forall>t v c. cs_filenames s t v = Some c \<longrightarrow> zs_val c = v)"

definition fn_step :: "zend_engine \<Rightarrow> code_state \<Rightarrow> code_state \<Rightarrow> bool" where
  "fn_step E s s' \<longleftrightarrow> cs_funs s' = cs_funs s \<and> cs_function_table s' = cs_function_table s \<and> w_zg (cs_world s') = w_zg (cs_world s) \<and>
     w_next (cs_world s) \<le> w_next (cs_world s') \<and> (strings_ok E s \<longrightarrow> strings_ok E s') \<and> (files_ok s \<longrightarrow> files_ok s') \<and>
     (\<forall>r<w_next (cs_world s). cs_refcounts s' r = cs_refcounts s r)"

lemma fn_step_refl [simp]: "fn_step E s s"
  by (simp add: fn_step_def)

lemma fn_step_trans: "fn_step E s s' \<Longrightarrow> fn_step E s' s'' \<Longrightarrow> fn_step E s s''"
  by (auto simp: fn_step_def)

lemma copy_fn_step: "copy_step E t s s' \<Longrightarrow> fn_step E s s'"
  using copy_step_facts [of E t s s'] by (auto simp: fn_step_def files_ok_def)

lemma fn_stepD:
  assumes "fn_step E s s'"
  shows "strings_ok E s \<Longrightarrow> strings_ok E s'" and "files_ok s \<Longrightarrow> files_ok s'"
    and "w_next (cs_world s) \<le> w_next (cs_world s')" and "cs_funs s' = cs_funs s" and "w_zg (cs_world s') = w_zg (cs_world s)"
    and "r < w_next (cs_world s) \<Longrightarrow> cs_refcounts s' r = cs_refcounts s r" and "cs_function_table s' = cs_function_table s"
  using assms by (auto simp: fn_step_def)

lemma emalloc_fn_step: "emalloc k s = (a, s') \<Longrightarrow> fn_step E s s' \<and> a = w_next (cs_world s) \<and> w_next (cs_world s') = a + k"
  using emalloc_step [of k s a s'] copy_fn_step by blast

lemma strings_ok_files [simp]: "strings_ok E (s\<lparr>cs_filenames := f\<rparr>) = strings_ok E s"
  and strings_ok_refcounts [simp]: "strings_ok E (s\<lparr>cs_refcounts := r\<rparr>) = strings_ok E s"
  and files_ok_refcounts [simp]: "files_ok (s\<lparr>cs_refcounts := r\<rparr>) = files_ok s"
  and strings_ok_heap [simp]: "strings_ok E (s\<lparr>cs_world := w\<rparr>) = strings_ok E s"
    "strings_ok E (s\<lparr>cs_funs := fs\<rparr>) = strings_ok E s" "strings_ok E (s\<lparr>cs_function_table := ft\<rparr>) = strings_ok E s"
  and files_ok_heap [simp]: "files_ok (s\<lparr>cs_world := w\<rparr>) = files_ok s" "files_ok (s\<lparr>cs_funs := fs\<rparr>) = files_ok s"
    "files_ok (s\<lparr>cs_function_table := ft\<rparr>) = files_ok s"
  by (simp_all add: strings_ok_def files_ok_def)

lemma refcount_fn_step:
  "fn_step E s s' \<Longrightarrow> w_next (cs_world s) \<le> r \<Longrightarrow> fn_step E s (s'\<lparr>cs_refcounts := (cs_refcounts s')(r \<mapsto> k)\<rparr>)"
  by (simp add: fn_step_def)

lemma copy_string_fn_step:
  assumes "pthreads_copy_string E t str s = (c, s')" and "strings_ok E s"
  shows "fn_step E s s' \<and> zs_val c = zs_val str"
  using copy_string [OF assms] copy_fn_step by blast

lemma copy_string_option_step:
  assumes "copy_string_option E t str s = (c, s')" and "strings_ok E s"
  shows "fn_step E s s' \<and> map_option zs_val c = map_option zs_val str"
  using assms copy_string_fn_step [of E t _ s]
  by (auto simp: copy_string_option_def split: option.splits prod.splits)

lemma copy_variables_step:
  "pthreads_copy_variables E t vs s = (cs, s') \<Longrightarrow> strings_ok E s \<Longrightarrow> fn_step E s s' \<and> map zs_val cs = map zs_val vs"
proof (induction vs arbitrary: cs s s')
  case (Cons v vs)
  obtain c s1 where c: "pthreads_copy_string E t v s = (c, s1)" by force
  note st = copy_string_fn_step [OF c Cons.prems(2)]
  obtain cs' s2 where r: "pthreads_copy_variables E t vs s1 = (cs', s2)" by force
  from Cons.IH [OF r] st fn_stepD(1) Cons.prems(2) have "fn_step E s1 s2 \<and> map zs_val cs' = map zs_val vs" by blast
  with Cons.prems(1) c r st fn_step_trans show ?case by auto
qed simp

text \<open>A type up to the identity of the names in it.\<close>

fun type_view :: "zend_type \<Rightarrow> zend_type" where
  "type_view (TypeMask m) = TypeMask m"
| "type_view (TypeName m c) = TypeName m (bytes_of c)"
| "type_view (TypeList m a ts) = TypeList m a (map type_view ts)"

lemma copy_type_step:
  "pthreads_copy_zend_type E t ty s = (ty', s') \<Longrightarrow> strings_ok E s \<Longrightarrow> fn_step E s s' \<and> type_view ty' = type_view ty"
  "copy_zend_types E t ts s = (ts', s') \<Longrightarrow> strings_ok E s \<Longrightarrow> fn_step E s s' \<and> map type_view ts' = map type_view ts"
proof (induction E t ty s and E t ts s arbitrary: ty' s' and ts' s' rule: pthreads_copy_zend_type_copy_zend_types.induct)
  case (2 E t m name s)
  then show ?case using copy_string_fn_step [of E t name s] by (auto simp: bytes_of_eq split: prod.splits)
next
  case (5 E t ty ts s)
  obtain ty1 s1 where 1: "pthreads_copy_zend_type E t ty s = (ty1, s1)" by force
  obtain ts1 s2 where 2: "copy_zend_types E t ts s1 = (ts1, s2)" by force
  have st: "fn_step E s s1 \<and> type_view ty1 = type_view ty" by (rule "5.IH"(1) [OF 1 "5.prems"(2)])
  then have "fn_step E s1 s2 \<and> map type_view ts1 = map type_view ts"
    using "5.IH"(2) [OF 1 [symmetric] refl 2] fn_stepD(1) "5.prems"(2) by blast
  with st 1 2 "5.prems"(1) fn_step_trans show ?case by auto
qed (auto simp: Let_def split: prod.splits)

definition arg_view :: "zend_arg_info \<Rightarrow> string option \<times> zend_type" where
  "arg_view a = (map_option zs_val (ai_name a), type_view (ai_type a))"

lemma copy_arg_infos_step:
  "copy_arg_infos E t old s = (new, s') \<Longrightarrow> strings_ok E s \<Longrightarrow> fn_step E s s' \<and> map arg_view new = map arg_view old"
proof (induction old arbitrary: new s s')
  case (Cons a old)
  obtain name s1 where n: "copy_string_option E t (ai_name a) s = (name, s1)" by force
  note st = copy_string_option_step [OF n Cons.prems(2)]
  obtain ty s2 where ty: "pthreads_copy_zend_type E t (ai_type a) s1 = (ty, s2)" by force
  have ok1: "strings_ok E s1" using st fn_stepD(1) Cons.prems(2) by blast
  note st2 = copy_type_step(1) [OF ty ok1]
  obtain info s3 where r: "copy_arg_infos E t old s2 = (info, s3)" by force
  have "strings_ok E s2" using st2 fn_stepD(1) ok1 by blast
  note st3 = Cons.IH [OF r this]
  have "fn_step E s s3" using st st2 st3 fn_step_trans by blast
  with Cons.prems(1) n ty r st st2 st3 show ?case by (auto simp: arg_view_def)
qed simp

lemma copy_filename_step:
  assumes "copy_filename E t name s = (c, s')" and "strings_ok E s" and "files_ok s"
  shows "fn_step E s s' \<and> zs_val c = zs_val name"
proof (cases "cs_filenames s t (zs_val name)")
  case None
  obtain d s1 where d: "pthreads_copy_string E t name s = (d, s1)" by force
  note st = copy_string_fn_step [OF d assms(2)]
  have ok1: "files_ok s1" using st fn_stepD(2) assms(3) by blast
  from None d assms(1) have s': "c = d" "s' = s1\<lparr>cs_filenames := (cs_filenames s1)(t := (cs_filenames s1 t)(zs_val d \<mapsto> d))\<rparr>"
    by (auto simp: copy_filename_def)
  have "files_ok s'" using ok1 by (auto simp: s' files_ok_def split: if_splits)
  with st assms(3) show ?thesis unfolding s' fn_step_def by simp
next
  case (Some d)
  then show ?thesis using assms by (auto simp: copy_filename_def files_ok_def)
qed

section \<open>Values inside functions\<close>

definition attr_view :: "zend_attribute \<Rightarrow> string \<times> nat \<times> nat \<times> nat \<times> (string option \<times> zval) list" where
  "attr_view a = (zs_val (attr_name a), attr_flags a, attr_offset a, attr_lineno a,
     map (\<lambda>p. (map_option zs_val (fst p), value_view (snd p))) (attr_args a))"

context value_copier
begin

lemma copies_value:
  assumes "good v" and "strings_ok E s"
  shows "\<exists>v' s'. cz v s = Some (Some v', s') \<and> value_view v' = value_view v \<and> fn_step E s s' \<and> strings_ok E s'"
  using copies [OF assms] copy_fn_step assms(2) fn_stepD(1) by (fastforce simp: copy_of_def)

lemma copies_args:
  assumes "\<forall>p\<in>set args. good (snd p)" and "strings_ok E s"
  shows "\<exists>args' s'. copy_attribute_args E cz t args s = Some (args', s') \<and> fn_step E s s' \<and>
    map (\<lambda>p. (map_option zs_val (fst p), value_view (snd p))) args' = map (\<lambda>p. (map_option zs_val (fst p), value_view (snd p))) args"
  using assms
proof (induction args arbitrary: s)
  case (Cons p args)
  obtain name v where p: "p = (name, v)" by force
  obtain v' s1 where v: "cz v s = Some (Some v', s1)" "value_view v' = value_view v" "fn_step E s s1" "strings_ok E s1"
    using copies_value [of v s] Cons.prems p by auto
  obtain name' s2 where n: "copy_string_option E t name s1 = (name', s2)" by force
  note st = copy_string_option_step [OF n v(4)]
  have ok2: "strings_ok E s2" using st v(4) fn_stepD(1) by blast
  obtain args' s' where "copy_attribute_args E cz t args s2 = Some (args', s')" "fn_step E s2 s'"
    "map (\<lambda>p. (map_option zs_val (fst p), value_view (snd p))) args' = map (\<lambda>p. (map_option zs_val (fst p), value_view (snd p))) args"
    using Cons.IH [OF _ ok2] Cons.prems by auto
  moreover from this have "fn_step E s s'" using v(3) st fn_step_trans by blast
  ultimately show ?case using p v(1,2) n st by auto
qed simp

lemma copies_attribute_list:
  assumes "\<forall>a\<in>set old. \<forall>p\<in>set (attr_args a). good (snd p)" and "strings_ok E s"
  shows "\<exists>new s'. copy_attribute_list E cz t old s = Some (new, s') \<and> fn_step E s s' \<and> map attr_view new = map attr_view old"
  using assms
proof (induction old arbitrary: s)
  case (Cons a old)
  obtain name s1 where n: "pthreads_copy_string E t (attr_name a) s = (name, s1)" by force
  note st = copy_string_fn_step [OF n Cons.prems(2)]
  have ok1: "strings_ok E s1" using st Cons.prems(2) fn_stepD(1) by blast
  obtain args s2 where a: "copy_attribute_args E cz t (attr_args a) s1 = Some (args, s2)" "fn_step E s1 s2"
    "map (\<lambda>p. (map_option zs_val (fst p), value_view (snd p))) args = map (\<lambda>p. (map_option zs_val (fst p), value_view (snd p))) (attr_args a)"
    using copies_args [OF _ ok1, of "attr_args a"] Cons.prems(1) by auto
  have ok2: "strings_ok E s2" using a(2) ok1 fn_stepD(1) by blast
  obtain new s' where "copy_attribute_list E cz t old s2 = Some (new, s')" "fn_step E s2 s'" "map attr_view new = map attr_view old"
    using Cons.IH [OF _ ok2] Cons.prems(1) by auto
  moreover from this have "fn_step E s s'" using a(2) st fn_step_trans by blast
  moreover have "attr_view (a\<lparr>attr_name := name, attr_args := args\<rparr>) = attr_view a" using a(3) st by (simp add: attr_view_def)
  ultimately show ?case using n a(1) by (auto simp: pthreads_copy_attribute_def)
qed simp

lemma copies_attributes:
  assumes "\<forall>old. as = Some old \<longrightarrow> (\<forall>a\<in>set old. \<forall>p\<in>set (attr_args a). good (snd p))" and "strings_ok E s" and "as \<noteq> Some []"
  shows "\<exists>bs s'. pthreads_copy_attributes E cz t as s = Some (bs, s') \<and> fn_step E s s' \<and>
    map_option (map attr_view) bs = map_option (map attr_view) as"
proof (cases as)
  case (Some old)
  then obtain new s' where "copy_attribute_list E cz t old s = Some (new, s')" "fn_step E s s'" "map attr_view new = map attr_view old"
    using copies_attribute_list [of old s] assms by auto
  with Some assms(3) show ?thesis by (auto simp: pthreads_copy_attributes_def)
qed (simp add: pthreads_copy_attributes_def)

lemma copies_statics_entries:
  assumes "\<forall>p\<in>set old. good (strip_references (snd p))" and "distinct (map fst (acc @ old))" and "strings_ok E s"
  shows "\<exists>qs s'. copy_statics_entries cz old acc s = Some (acc @ qs, s') \<and> fn_step E s s' \<and>
    map (\<lambda>p. (fst p, value_view (snd p))) qs = map (\<lambda>p. (fst p, value_view (strip_references (snd p)))) old"
  using assms
proof (induction old arbitrary: acc s)
  case (Cons p old)
  obtain k v where p: "p = (k, v)" by force
  obtain v' s1 where v: "cz (strip_references v) s = Some (Some v', s1)" "value_view v' = value_view (strip_references v)"
    "fn_step E s s1" "strings_ok E s1"
    using copies_value [of "strip_references v" s] Cons.prems p by auto
  have add: "hash_add k v' acc = acc @ [(k, v')]"
    using Cons.prems(2) p by (auto simp: hash_add_def map_of_eq_None_iff)
  obtain qs s' where "copy_statics_entries cz old (acc @ [(k, v')]) s1 = Some (acc @ (k, v') # qs, s')" "fn_step E s1 s'"
    "map (\<lambda>p. (fst p, value_view (snd p))) qs = map (\<lambda>p. (fst p, value_view (strip_references (snd p)))) old"
    using Cons.IH [of "acc @ [(k, v')]" s1] Cons.prems v(4) p by auto
  moreover from this have "fn_step E s s'" using v(3) fn_step_trans by blast
  ultimately show ?case using p v(1,2) add by (auto intro!: exI [of _ "(k, v') # qs"])
qed simp

lemma copies_statics:
  assumes "\<forall>old. st = Some old \<longrightarrow> distinct (map fst old) \<and> (\<forall>p\<in>set old. good (strip_references (snd p)))" and "strings_ok E s"
  shows "\<exists>st' s'. pthreads_copy_statics cz st s = Some (st', s') \<and> fn_step E s s' \<and>
    map_option (map (\<lambda>p. (fst p, value_view (snd p)))) st' =
    map_option (map (\<lambda>p. (fst p, value_view (strip_references (snd p))))) st"
proof (cases st)
  case (Some old)
  with copies_statics_entries [of old "[]" s] assms show ?thesis by (auto simp: pthreads_copy_statics_def)
qed (simp add: pthreads_copy_statics_def)

end

section \<open>Whole functions\<close>

text \<open>A function whose values the copier is good for, and which declares no functions of its own.\<close>

definition copyable :: "(zval \<Rightarrow> bool) \<Rightarrow> zend_function \<Rightarrow> bool" where
  "copyable good fn \<longleftrightarrow> (\<forall>a vs. literals fn = Some (a, vs) \<longrightarrow> (\<forall>v\<in>set vs. good v)) \<and>
     (\<forall>old. fn_attributes fn = Some old \<longrightarrow> (\<forall>a\<in>set old. \<forall>p\<in>set (attr_args a). good (snd p))) \<and> fn_attributes fn \<noteq> Some [] \<and>
     (\<forall>old. static_variables fn = Some old \<longrightarrow> distinct (map fst old) \<and> (\<forall>p\<in>set old. good (strip_references (snd p)))) \<and>
     dynamic_func_defs fn = []"

definition literals_at :: "zend_function \<Rightarrow> addr" where
  "literals_at fn = (case literals fn of None \<Rightarrow> 0 | Some (a, _) \<Rightarrow> a)"

text \<open>The code of \<open>fn'\<close> is the relocated copy of the code of \<open>fn\<close>.\<close>

definition code_copied :: "zend_layout \<Rightarrow> zend_function \<Rightarrow> zend_function \<Rightarrow> bool" where
  "code_copied L fn fn' \<longleftrightarrow>
     map_option (map value_view \<circ> snd) (literals fn') = map_option (map value_view \<circ> snd) (literals fn) \<and>
     length (snd (opcodes fn')) = length (snd (opcodes fn)) \<and>
     (\<forall>i<length (snd (opcodes fn)). op_copied L (abs_addr L \<and> ZEND_ACC_DONE_PASS_TWO \<in> fn_flags fn) i (opcodes fn) (opcodes fn')
        (literals_at fn) (literals_at fn')) \<and>
     (\<not> abs_addr L \<and> ZEND_ACC_DONE_PASS_TWO \<in> fn_flags fn \<and> literals fn \<noteq> None \<longrightarrow>
        literals_at fn' = fst (opcodes fn') + mm_aligned L (sizeof_op L * length (snd (opcodes fn)))) \<and>
     map_option (map zs_val) (fn_vars fn') = map_option (map zs_val) (fn_vars fn) \<and>
     map_option (map attr_view) (fn_attributes fn') = map_option (map attr_view) (fn_attributes fn) \<and>
     dynamic_func_defs fn' = []"

text \<open>
  A copied function: a new reference count of 1, no prototype, own caches, and copies of the name,
  the file name, the comment, the code and the static variables.
\<close>

definition function_copied :: "zend_layout \<Rightarrow> zend_function \<Rightarrow> zend_function \<Rightarrow> bool" where
  "function_copied L fn fn' \<longleftrightarrow> fn_type fn' = fn_type fn \<and> fn_flags fn' = fn_flags fn \<and> num_args fn' = num_args fn \<and>
     prototype fn' = None \<and> zs_val (function_name fn') = zs_val (function_name fn) \<and> zs_val (filename fn') = zs_val (filename fn) \<and>
     map_option zs_val (doc_comment fn') = map_option zs_val (doc_comment fn) \<and> code_copied L fn fn' \<and>
     static_variables_ptr fn' = None \<and> map_option (map (\<lambda>p. (fst p, value_view (snd p)))) (static_variables fn') =
       map_option (map (\<lambda>p. (fst p, value_view (strip_references (snd p))))) (static_variables fn)"

lemma code_blocks_step:
  assumes "code_blocks L fn s = ((m, m'), s')"
  shows "fn_step E s s' \<and>
    (\<not> abs_addr L \<and> ZEND_ACC_DONE_PASS_TWO \<in> fn_flags fn \<longrightarrow> m' = m + mm_aligned L (sizeof_op L * length (snd (opcodes fn))))"
  using assms emalloc_fn_step fn_step_trans
  by (auto simp: code_blocks_def Let_def split: if_splits prod.splits; blast)

lemma opcodes_length [simp]: "length (snd (pthreads_copy_opcodes L b ops lits newlits vs m)) = length (snd ops)"
  "fst (pthreads_copy_opcodes L b ops lits newlits vs m) = m"
  by (simp_all add: pthreads_copy_opcodes_def)

lemma copy_arginfo_total:
  assumes "strings_ok E s"
  obtains args s' where "(case arg_info fn of None \<Rightarrow> (None, s)
      | Some old \<Rightarrow> (let (new, s) = pthreads_copy_arginfo E t (fn_flags fn) old (num_args fn) s in (Some new, s))) = (args, s')"
    and "fn_step E s s'"
proof (cases "arg_info fn")
  case (Some old)
  obtain new s' where new: "pthreads_copy_arginfo E t (fn_flags fn) old (num_args fn) s = (new, s')" by (metis surj_pair)
  then have "fn_step E s s'"
    using copy_arg_infos_step [OF _ assms] by (auto simp: pthreads_copy_arginfo_def Let_def split: prod.splits)
  with Some new that show ?thesis by auto
qed (use that in auto)

lemma run_time_cache_total:
  obtains cache s' where "b \<and> (\<exists>c. emalloc (Suc 0) s = (c, s') \<and> cache = Some c) \<or> \<not> b \<and> s' = s \<and> cache = None"
    and "fn_step E s s'"
proof (cases b)
  case True
  obtain c s' where c: "emalloc (Suc 0) s = (c, s')" by force
  with True emalloc_fn_step [OF c, of E] that [of s' "Some c"] show ?thesis by simp
qed (use that [of s None] in simp)

lemma copy_variables_total:
  assumes "strings_ok E s"
  obtains vars s' where "(case fn_vars fn of None \<Rightarrow> (None, s)
      | Some old \<Rightarrow> (let (new, s) = pthreads_copy_variables E t old s in (Some new, s))) = (vars, s')"
    and "fn_step E s s'" and "map_option (map zs_val) vars = map_option (map zs_val) (fn_vars fn)"
proof (cases "fn_vars fn")
  case (Some old)
  obtain new s' where new: "pthreads_copy_variables E t old s = (new, s')" by force
  with Some copy_variables_step [OF new assms] that show ?thesis by auto
qed (use that in auto)

context value_copier
begin

lemma copies_function_literals:
  assumes "copyable good fn" and "strings_ok E s"
  obtains lits s' where "(case literals fn of None \<Rightarrow> Some (None, s)
      | Some (_, vs) \<Rightarrow> do { (vs, s) \<leftarrow> pthreads_copy_literals cz vs s; Some (Some (m', vs), s) }) = Some (lits, s')"
    and "fn_step E s s'" and "map_option (map value_view \<circ> snd) lits = map_option (map value_view \<circ> snd) (literals fn)"
    and "literals fn \<noteq> None \<longrightarrow> (\<exists>vs. lits = Some (m', vs))" and "literals fn = None \<longrightarrow> lits = None"
proof (cases "literals fn")
  case (Some p)
  obtain a vs where p: "p = (a, vs)" by force
  with Some assms obtain ws s' where "pthreads_copy_literals cz vs s = Some (ws, s')" "map value_view ws = map value_view vs" "copy_step E t s s'"
    using copies_literals [of vs s] by (auto simp: copyable_def)
  with Some p copy_fn_step that [of "Some (m', ws)" s'] show ?thesis by auto
qed (use that in auto)

lemma copies_code:
  assumes fn: "copyable good fn" and ok: "strings_ok E s" and sz: "0 < sizeof_zval L"
  shows "\<exists>fn' s' lits ops args vars attrs. copy_code L E cz cf t fn s = Some (fn', s') \<and> fn_step E s s' \<and> code_copied L fn fn' \<and>
    fn' = fn\<lparr>literals := lits, opcodes := ops, arg_info := args, fn_vars := vars, fn_attributes := attrs, dynamic_func_defs := []\<rparr>"
proof -
  obtain m m' s1 where b: "code_blocks L fn s = ((m, m'), s1)" by (metis surj_pair)
  note st1 = code_blocks_step [OF b, of E]
  have ok1: "strings_ok E s1" using st1 ok fn_stepD(1) by blast
  obtain lits s2 where l: "(case literals fn of None \<Rightarrow> Some (None, s1)
      | Some (_, vs) \<Rightarrow> do { (vs, s) \<leftarrow> pthreads_copy_literals cz vs s1; Some (Some (m', vs), s) }) = Some (lits, s2)"
    and st2: "fn_step E s1 s2" and lv: "map_option (map value_view \<circ> snd) lits = map_option (map value_view \<circ> snd) (literals fn)"
    and la: "literals fn \<noteq> None \<longrightarrow> (\<exists>vs. lits = Some (m', vs))" "literals fn = None \<longrightarrow> lits = None"
    by (rule copies_function_literals [OF fn ok1, of m'])
  have ok2: "strings_ok E s2" using st2 ok1 fn_stepD(1) by blast
  obtain args s3 where a: "(case arg_info fn of None \<Rightarrow> (None, s2)
      | Some old \<Rightarrow> (let (new, s) = pthreads_copy_arginfo E t (fn_flags fn) old (num_args fn) s2 in (Some new, s))) = (args, s3)"
    and st3: "fn_step E s2 s3" by (rule copy_arginfo_total [OF ok2])
  have ok3: "strings_ok E s3" using st3 ok2 fn_stepD(1) by blast
  obtain vars s4 where v: "(case fn_vars fn of None \<Rightarrow> (None, s3)
      | Some old \<Rightarrow> (let (new, s) = pthreads_copy_variables E t old s3 in (Some new, s))) = (vars, s4)"
    and st4: "fn_step E s3 s4" and vv: "map_option (map zs_val) vars = map_option (map zs_val) (fn_vars fn)"
    by (rule copy_variables_total [OF ok3])
  have ok4: "strings_ok E s4" using st4 ok3 fn_stepD(1) by blast
  obtain attrs s5 where at: "pthreads_copy_attributes E cz t (fn_attributes fn) s4 = Some (attrs, s5)" "fn_step E s4 s5"
    "map_option (map attr_view) attrs = map_option (map attr_view) (fn_attributes fn)"
    using copies_attributes [OF _ ok4, of "fn_attributes fn"] fn by (auto simp: copyable_def)
  define ops where "ops = pthreads_copy_opcodes L (ZEND_ACC_DONE_PASS_TWO \<in> fn_flags fn) (opcodes fn)
    (case literals fn of None \<Rightarrow> 0 | Some (a, _) \<Rightarrow> a) (case lits of None \<Rightarrow> 0 | Some (a, _) \<Rightarrow> a)
    (case lits of None \<Rightarrow> [] | Some (_, vs) \<Rightarrow> vs) m"
  define fn' where "fn' = fn\<lparr>literals := lits, opcodes := ops, arg_info := args, fn_vars := vars, fn_attributes := attrs, dynamic_func_defs := []\<rparr>"
  have "copy_code L E cz cf t fn s = Some (fn', s5)"
    using b l a v at(1) fn by (simp add: copy_code_def fn'_def ops_def copyable_def)
  moreover have "fn_step E s s5" using st1 st2 st3 st4 at(2) fn_step_trans by blast
  moreover have "code_copied L fn fn'"
    using lv vv at(3) st1 la opcodes_copied [OF sz]
    by (auto simp: code_copied_def fn'_def ops_def literals_at_def)
  ultimately show ?thesis unfolding fn'_def by blast
qed

lemma copies_user_function:
  assumes fn: "copyable good fn" "fn_refcount fn = Some r\<^sub>0" and ok: "strings_ok E s" "files_ok s" and sz: "0 < sizeof_zval L"
  shows "\<exists>s' fn' r. pthreads_copy_user_function L E cz cf t fn s =
      Some (w_next (cs_world s), s'\<lparr>cs_funs := (cs_funs s')(w_next (cs_world s) \<mapsto> fn')\<rparr>) \<and>
    fn_step E s s' \<and> function_copied L fn fn' \<and> fn_refcount fn' = Some r \<and> cs_refcounts s' r = Some 1 \<and>
    w_next (cs_world s) \<le> r \<and> r < w_next (cs_world s')"
proof -
  obtain c s1 where c: "emalloc 1 s = (c, s1)" by force
  note st1 = emalloc_fn_step [OF c, of E]
  have ok1: "strings_ok E s1" "files_ok s1" using st1 ok fn_stepD(1,2) by blast+
  obtain name s2 where n: "pthreads_copy_string E t (function_name fn) s1 = (name, s2)" by force
  note st2 = copy_string_fn_step [OF n ok1(1)]
  obtain r s3 where r: "emalloc 1 s2 = (r, s3)" by force
  note st3 = emalloc_fn_step [OF r, of E]
  define s4 where "s4 = s3\<lparr>cs_refcounts := (cs_refcounts s3)(r \<mapsto> Suc 0)\<rparr>"
  have st4: "fn_step E s s4" "cs_refcounts s4 r = Some 1" "w_next (cs_world s) \<le> r" "r < w_next (cs_world s4)"
  proof -
    have step: "fn_step E s s2" "fn_step E s s3" using st1 st2 st3 fn_step_trans by blast+
    then show "w_next (cs_world s) \<le> r" using st3 fn_stepD(3) by auto
    with step(2) show "fn_step E s s4" unfolding s4_def by (rule refcount_fn_step)
  qed (use st3 in \<open>simp_all add: s4_def\<close>)
  define fn0 where "fn0 = fn\<lparr>function_name := name, prototype := None, fn_refcount := Some r\<rparr>"
  obtain cache s5 where cache: "ZEND_ACC_HEAP_RT_CACHE \<in> fn_flags fn \<and> (\<exists>c. emalloc (Suc 0) s4 = (c, s5) \<and> cache = Some c) \<or>
      ZEND_ACC_HEAP_RT_CACHE \<notin> fn_flags fn \<and> s5 = s4 \<and> cache = None" and st5: "fn_step E s4 s5"
    by (rule run_time_cache_total)
  have ok5: "strings_ok E s5" using ok st4(1) st5 fn_stepD(1) by blast
  obtain doc s6 where d: "copy_string_option E t (doc_comment fn) s5 = (doc, s6)" by force
  note st6 = copy_string_option_step [OF d ok5]
  have ok6: "strings_ok E s6" "files_ok s6" using ok st4(1) st5 st6 fn_stepD(1,2) by blast+
  obtain fname s7 where f: "copy_filename E t (filename fn) s6 = (fname, s7)" by force
  note st7 = copy_filename_step [OF f ok6]
  define fn1 where "fn1 = fn0\<lparr>run_time_cache := cache, doc_comment := doc, filename := fname\<rparr>"
  have fn1: "copyable good fn1" using fn(1) by (simp add: fn1_def fn0_def copyable_def)
  have ok7: "strings_ok E s7" using ok6(1) st7 fn_stepD(1) by blast
  obtain fn2 s8 lits ops args vars attrs where code: "copy_code L E cz cf t fn1 s7 = Some (fn2, s8)" "fn_step E s7 s8" "code_copied L fn1 fn2"
    "fn2 = fn1\<lparr>literals := lits, opcodes := ops, arg_info := args, fn_vars := vars, fn_attributes := attrs, dynamic_func_defs := []\<rparr>"
    using copies_code [OF fn1 ok7 sz, of cf] by blast
  have ok8: "strings_ok E s8" using ok7 code(2) fn_stepD(1) by blast
  obtain st s9 where stat: "pthreads_copy_statics cz (static_variables fn) s8 = Some (st, s9)" "fn_step E s8 s9"
    "map_option (map (\<lambda>p. (fst p, value_view (snd p)))) st = map_option (map (\<lambda>p. (fst p, value_view (strip_references (snd p))))) (static_variables fn)"
    using copies_statics [OF _ ok8, of "static_variables fn"] fn(1) by (auto simp: copyable_def)
  define fn3 where "fn3 = fn2\<lparr>static_variables := st, static_variables_ptr := None\<rparr>"
  have late: "fn_step E s4 s9" using st5 st6 st7 code(2) stat(2) fn_step_trans by blast
  have "pthreads_copy_user_function L E cz cf t fn s = Some (w_next (cs_world s), s9\<lparr>cs_funs := (cs_funs s9)(w_next (cs_world s) \<mapsto> fn3)\<rparr>)"
  proof -
    have "fn_flags fn0 = fn_flags fn" "doc_comment fn0 = doc_comment fn" "filename fn0 = filename fn" "fn_refcount fn0 = Some r"
      "static_variables fn2 = static_variables fn"
      by (simp_all add: fn0_def fn1_def code(4))
    then show ?thesis
      using c n r d f code(1) stat(1) st1 fn(2) cache
      by (elim disjE) (auto simp: pthreads_copy_user_function_def Let_def simp flip: s4_def fn0_def fn3_def simp: fn1_def)
  qed
  moreover have "fn_step E s s9" using st4(1) late fn_step_trans by blast
  moreover have "function_copied L fn fn3"
    using code(3) st2 st6 st7 stat(3)
    by (simp add: function_copied_def fn3_def code(4) fn1_def fn0_def code_copied_def literals_at_def)
  moreover have "fn_refcount fn3 = Some r" "cs_refcounts s9 r = Some 1"
    using st4(2,4) fn_stepD(6) [OF late] by (simp_all add: fn3_def code(4) fn1_def fn0_def)
  moreover have "r < w_next (cs_world s9)" using st4(4) fn_stepD(3) [OF late] by simp
  ultimately show ?thesis using st4(3) by blast
qed

end

end
