(* ===== verification/Code_Props.thy ===== *)
theory Code_Props
  imports Code_Ast Code_Functions
begin

text \<open>What holds of the code that a thread receives: syntax trees, values, instructions and functions.\<close>

section \<open>Syntax trees\<close>

text \<open>
  C23. The copy of a syntax tree stays inside the block allocated for it and fills it exactly: the nodes
  tile the bytes behind the reference, up to the end of the block. Read back, it is the tree of the
  source, with the same kinds, attributes, absent children and values up to the identity of
  strings; every string in it belongs to the thread, and no node of the source has changed.
\<close>

theorem copy_ast_fills_block:
  assumes "layout_ok L" and "strings_ok E s" and "dom (cs_asts s) \<subseteq> {..<w_next (cs_world s)}"
    and "ast_read n L (cs_asts s) p = Some T" and "\<forall>v\<in>set_ast_shape T. literal v \<and> zdepth v < m"
  shows "\<exists>ref s' T'. pthreads_copy_ast n L E (pthreads_copy_zval m L E nm t) t p s = Some (ref, s') \<and>
    ref = w_next (cs_world s) \<and> zend_ast_tree_size n L (cs_asts s) p = Some (shape_size L T) \<and>
    ref + sizeof_ast_ref L + shape_size L T \<le> w_next (cs_world s') \<and>
    tiles L (cs_asts s') (GC_AST L ref) (ref + sizeof_ast_ref L + shape_size L T) \<and>
    (\<forall>a. a < GC_AST L ref \<or> ref + sizeof_ast_ref L + shape_size L T \<le> a \<longrightarrow> cs_asts s' a = cs_asts s a) \<and>
    ast_read n L (cs_asts s') (GC_AST L ref) = Some T' \<and> shape_view T' = shape_view T \<and> shape_own t s T'"
proof -
  obtain ref s' where copy: "pthreads_copy_ast n L E (pthreads_copy_zval m L E nm t) t p s = Some (ref, s')"
    "ref = w_next (cs_world s)" "ref + sizeof_ast_ref L + shape_size L T \<le> w_next (cs_world s')"
    "tree_copied L n E t s (GC_AST L ref) T s'"
    using literals.copies_ast [OF assms] by blast
  from copy(4) obtain T' where T': "ast_read n L (cs_asts s' |` {GC_AST L ref..<GC_AST L ref + shape_size L T}) (GC_AST L ref) = Some T'"
    "shape_view T' = shape_view T" "shape_own t s T'" by (auto simp: tree_copied_def)
  have "ast_read n L (cs_asts s') (GC_AST L ref) = Some T'"
    by (rule ast_read_mono [OF T'(1)]) (auto simp: restrict_map_def split: if_splits)
  with copy T' tree_size_read [OF assms(4)] show ?thesis
    by (auto simp: tree_copied_def GC_AST_def)
qed

text \<open>The layout of the 64-bit build and a small state: the tree of a constant expression with two nodes.\<close>

definition demo_layout :: zend_layout where
  "demo_layout = \<lparr>sizeof_ast = 16, sizeof_ast_list = 24, sizeof_ast_zval = 24, sizeof_ast_ref = 8, sizeof_ptr = 8,
     sizeof_zval = 16, sizeof_op = 32, mm_aligned = (\<lambda>k. (k + 15) div 16 * 16), AST_ZVAL = 64, AST_CONSTANT = 65,
     ast_is_list = (\<lambda>k. odd (k div 128)), ast_num_children = (\<lambda>k. k div 256), abs_addr = False, LAST_CATCH = 1,
     vm_handler = (\<lambda>_ _. 0)\<rparr>"

definition demo_string :: "addr \<Rightarrow> string \<Rightarrow> zend_string" where
  "demo_string a v = \<lparr>zs_addr = a, zs_val = v, zs_interned = False, zs_permanent = False, zs_persistent = False\<rparr>"

definition demo_code :: "(addr \<rightharpoonup> zend_ast) \<Rightarrow> (addr \<rightharpoonup> zend_function) \<Rightarrow> code_state" where
  "demo_code asts funs = \<lparr>cs_world = empty_world\<lparr>w_next := 2000\<rparr>, cs_asts = asts, cs_funs = funs, cs_refcounts = [900 \<mapsto> 1],
     cs_closures = Map.empty, cs_interned = (\<lambda>_. Map.empty), cs_filenames = (\<lambda>_. Map.empty), cs_function_table = (\<lambda>_. [])\<rparr>"

lemma demo_code_ok: "strings_ok demo_engine (demo_code asts funs)" "files_ok (demo_code asts funs)"
  "w_next (cs_world (demo_code asts funs)) = 2000" "cs_asts (demo_code asts funs) = asts" "cs_funs (demo_code asts funs) = funs"
  by (simp_all add: demo_code_def strings_ok_def files_ok_def demo_engine_def)

definition demo_asts :: "addr \<rightharpoonup> zend_ast" where
  "demo_asts = [100 \<mapsto> \<lparr>ast_kind = 520, ast_attr = 1, ast_val = IS_UNDEF, ast_child = [Some 200, None]\<rparr>,
     200 \<mapsto> \<lparr>ast_kind = 64, ast_attr = 0, ast_val = IS_STRING (demo_string 7 ''a''), ast_child = []\<rparr>]"

theorem copy_ast_fills_block_witness:
  "\<exists>ref s' T'. pthreads_copy_ast 3 demo_layout demo_engine (pthreads_copy_zval 1 demo_layout demo_engine (\<lambda>_. []) 2) 2 100
      (demo_code demo_asts Map.empty) = Some (ref, s') \<and> ref = 2000 \<and>
    tiles demo_layout (cs_asts s') 2008 2056 \<and> ast_read 3 demo_layout (cs_asts s') 2008 = Some T' \<and>
    shape_view T' = Node 520 1 [Some (Leaf 64 0 (IS_STRING (demo_string 0 ''a''))), None]"
proof -
  have layout: "layout_ok demo_layout" by (simp add: layout_ok_def demo_layout_def)
  define T where "T = Node 520 1 [Some (Leaf 64 0 (IS_STRING (demo_string 7 ''a''))), None]"
  have read: "ast_read 3 demo_layout demo_asts 100 = Some T"
    by (simp add: numeral_3_eq_3 demo_asts_def demo_layout_def leaf_kind_def leaf_ok_def node_ok_def T_def)
  have size: "shape_size demo_layout T = 48"
    by (simp add: T_def demo_layout_def header_size_def leaf_kind_def zend_ast_size_def)
  have view: "shape_view T = Node 520 1 [Some (Leaf 64 0 (IS_STRING (demo_string 0 ''a''))), None]"
    by (simp add: T_def bytes_of_def demo_string_def)
  have "dom demo_asts \<subseteq> {..<2000}" by (auto simp: demo_asts_def split: if_splits)
  with copy_ast_fills_block [OF layout, of demo_engine "demo_code demo_asts Map.empty" 3 100 T 1 "\<lambda>_. []" 2] read size view
  show ?thesis by (auto simp: demo_code_ok T_def GC_AST_def) (auto simp: demo_layout_def)
qed

section \<open>Values\<close>



section \<open>Functions\<close>

text \<open>The functions the following statements are about: user functions with code of their own that the thread has not copied yet.\<close>

definition fresh_function :: "zend_engine \<Rightarrow> nat \<Rightarrow> tid \<Rightarrow> addr \<Rightarrow> zend_function \<Rightarrow> code_state \<Rightarrow> bool" where
  "fresh_function E n t f fn s \<longleftrightarrow> strings_ok E s \<and> files_ok s \<and> cs_funs s f = Some fn \<and> fn_type fn = ZEND_USER_FUNCTION \<and>
     ZEND_ACC_IMMUTABLE \<notin> fn_flags fn \<and> ZEND_ACC_CLOSURE \<notin> fn_flags fn \<and> fn_refcount fn \<noteq> None \<and> resolve t s f = None \<and>
     f < w_next (cs_world s) \<and> copyable (\<lambda>v. literal v \<and> zdepth v < n) fn"

lemma copy_function_first:
  assumes "fresh_function E n t f fn s" and "0 < sizeof_zval L"
  shows "\<exists>s' fn' r. pthreads_copy_function (Suc n) L E nm t f s = Some (w_next (cs_world s), s') \<and>
    cs_funs s' = (cs_funs s)(w_next (cs_world s) \<mapsto> fn') \<and> function_copied L fn fn' \<and>
    resolve t s' = (resolve t s)(f \<mapsto> w_next (cs_world s)) \<and> fn_refcount fn' = Some r \<and> cs_refcounts s' r = Some 1 \<and>
    w_next (cs_world s) \<le> r \<and> w_next (cs_world s) < w_next (cs_world s') \<and> strings_ok E s' \<and> files_ok s' \<and>
    cs_function_table s' = cs_function_table s"
proof -
  obtain r\<^sub>0 where fn: "strings_ok E s" "files_ok s" "cs_funs s f = Some fn" "fn_type fn = ZEND_USER_FUNCTION"
    "ZEND_ACC_IMMUTABLE \<notin> fn_flags fn" "ZEND_ACC_CLOSURE \<notin> fn_flags fn" "fn_refcount fn = Some r\<^sub>0" "resolve t s f = None"
    "copyable (\<lambda>v. literal v \<and> zdepth v < n) fn"
    using assms(1) by (auto simp: fresh_function_def)
  let ?c = "w_next (cs_world s)"
  obtain s1 fn' r where copy: "pthreads_copy_user_function L E (pthreads_copy_zval n L E nm t) (pthreads_copy_function n L E nm t) t fn s =
      Some (?c, s1\<lparr>cs_funs := (cs_funs s1)(?c \<mapsto> fn')\<rparr>)"
    "fn_step E s s1" "function_copied L fn fn'" "fn_refcount fn' = Some r" "cs_refcounts s1 r = Some 1" "?c \<le> r" "r < w_next (cs_world s1)"
    using literals.copies_user_function [OF fn(9,7,1,2) assms(2)] by blast
  define s' where "s' = set_resolve t f ?c (s1\<lparr>cs_funs := (cs_funs s1)(?c \<mapsto> fn')\<rparr>)"
  have "pthreads_copy_function (Suc n) L E nm t f s = Some (?c, s')"
    using fn copy(1) by (simp add: copy_function_with_def s'_def)
  moreover have "cs_funs s' = (cs_funs s)(?c \<mapsto> fn')" "cs_refcounts s' r = Some 1" "cs_function_table s' = cs_function_table s"
    "resolve t s' = (resolve t s)(f \<mapsto> ?c)" "?c < w_next (cs_world s')"
    using fn_stepD(4,5,7) [OF copy(2)] copy(5-7) by (simp_all add: s'_def set_resolve_def resolve_def Let_def)
  moreover have "strings_ok E s'" "files_ok s'"
    using fn_stepD(1,2) [OF copy(2)] fn(1,2) by (simp_all add: s'_def set_resolve_def Let_def)
  ultimately show ?thesis using copy(3,4,6) by blast
qed

text \<open>Operand \<open>v\<close> of instruction \<open>i\<close> designates literal number \<open>k\<close> of the function.\<close>

definition reads_literal :: "zend_layout \<Rightarrow> zend_function \<Rightarrow> nat \<Rightarrow> 32 word \<Rightarrow> nat \<Rightarrow> bool" where
  "reads_literal L fn i v k \<longleftrightarrow> (\<exists>a vs. literals fn = Some (a, vs) \<and> k < length vs) \<and>
     const_operand L (fst (opcodes fn)) i v = int (literals_at fn) + int (sizeof_zval L * k)"

definition literal_values :: "zend_function \<Rightarrow> zval list" where
  "literal_values fn = (case literals fn of None \<Rightarrow> [] | Some (_, vs) \<Rightarrow> vs)"

text \<open>After pass two of the 64-bit build, code and literals are one block, whose size fits into an operand.\<close>

definition one_block :: "zend_layout \<Rightarrow> zend_function \<Rightarrow> bool" where
  "one_block L fn \<longleftrightarrow> \<not> abs_addr L \<and> ZEND_ACC_DONE_PASS_TWO \<in> fn_flags fn \<and>
     (let opsize = sizeof_op L * length (snd (opcodes fn)) in opsize \<le> mm_aligned L opsize \<and>
        mm_aligned L opsize + sizeof_zval L * length (literal_values fn) < 2 ^ 31)"

lemma block_operand_fits:
  assumes "one_block L fn" and "function_copied L fn fn'" and "literals fn = Some (a, vs)" and "k < length vs"
    and "i < length (snd (opcodes fn))"
  shows "operand_fits L (fst (opcodes fn')) i (int (literals_at fn') + int (sizeof_zval L * k))"
proof -
  let ?opsize = "sizeof_op L * length (snd (opcodes fn))"
  have b: "\<not> abs_addr L" "?opsize \<le> mm_aligned L ?opsize" "mm_aligned L ?opsize + sizeof_zval L * length vs < 2 ^ 31"
    "literals_at fn' = fst (opcodes fn') + mm_aligned L ?opsize"
    using assms by (auto simp: one_block_def Let_def literal_values_def function_copied_def code_copied_def)
  have "i * sizeof_op L \<le> ?opsize" and "sizeof_zval L * k \<le> sizeof_zval L * length vs"
    using assms(4,5) by (simp_all add: mult.commute)
  then have "i * sizeof_op L \<le> mm_aligned L ?opsize + sizeof_zval L * k"
    "mm_aligned L ?opsize + sizeof_zval L * k < 2 ^ 31 + i * sizeof_op L"
    using b by linarith+
  then have "int (i * sizeof_op L) \<le> int (mm_aligned L ?opsize + sizeof_zval L * k)"
    "int (mm_aligned L ?opsize + sizeof_zval L * k) < int (2 ^ 31 + i * sizeof_op L)"
    unfolding of_nat_le_iff of_nat_less_iff by simp_all
  then show ?thesis
    unfolding operand_fits_def b(4) using b(1) by simp
qed

text \<open>
  C22. The copy of a function runs on its own literals: it is a new function with the instructions of the
  source, and wherever an instruction of the source reads literal \<open>k\<close>, the same instruction of the copy
  reads literal \<open>k\<close> of the copy, whose value is that of the source up to the identity of strings. The
  relocated distances do not overflow their 32 bits, because code and literals are one block.
\<close>

theorem copied_function_reads_own_literals:
  assumes "fresh_function E n t f fn s" and "0 < sizeof_zval L" and "one_block L fn"
  shows "\<exists>s' fn'. pthreads_copy_function (Suc n) L E nm t f s = Some (w_next (cs_world s), s') \<and>
    cs_funs s' = (cs_funs s)(w_next (cs_world s) \<mapsto> fn') \<and> function_copied L fn fn' \<and>
    map value_view (literal_values fn') = map value_view (literal_values fn) \<and>
    (\<forall>i<length (snd (opcodes fn)). let p = snd (opcodes fn) ! i; q = snd (opcodes fn') ! i in op_opcode q = op_opcode p \<and>
       (\<forall>k. (op1_type p = IS_CONST \<and> reads_literal L fn i (op1 p) k \<longrightarrow> reads_literal L fn' i (op1 q) k) \<and>
            (op2_type p = IS_CONST \<and> reads_literal L fn i (op2 p) k \<longrightarrow> reads_literal L fn' i (op2 q) k)))"
proof -
  obtain s' fn' where copy: "pthreads_copy_function (Suc n) L E nm t f s = Some (w_next (cs_world s), s')"
    "cs_funs s' = (cs_funs s)(w_next (cs_world s) \<mapsto> fn')" "function_copied L fn fn'"
    using copy_function_first [OF assms(1,2)] by blast
  have lits: "map value_view (literal_values fn') = map value_view (literal_values fn)"
    and dom: "\<And>a vs. literals fn = Some (a, vs) \<Longrightarrow> \<exists>b ws. literals fn' = Some (b, ws) \<and> length ws = length vs"
    using copy(3) by (auto simp: function_copied_def code_copied_def literal_values_def dest: map_eq_imp_length_eq split: option.splits)
  have op: "op_copied L False i (opcodes fn) (opcodes fn') (literals_at fn) (literals_at fn')" if "i < length (snd (opcodes fn))" for i
    using copy(3) assms(3) that by (simp add: function_copied_def code_copied_def one_block_def)
  have reads: "reads_literal L fn' i v' k"
    if "i < length (snd (opcodes fn))" "operand_copied L i (opcodes fn) (opcodes fn') (literals_at fn) (literals_at fn') v v'"
      "reads_literal L fn i v k" for i v v' k
    using that dom block_operand_fits [OF assms(3) copy(3)] by (fastforce simp: reads_literal_def operand_copied_def)
  have "let p = snd (opcodes fn) ! i; q = snd (opcodes fn') ! i in op_opcode q = op_opcode p \<and>
       (\<forall>k. (op1_type p = IS_CONST \<and> reads_literal L fn i (op1 p) k \<longrightarrow> reads_literal L fn' i (op1 q) k) \<and>
            (op2_type p = IS_CONST \<and> reads_literal L fn i (op2 p) k \<longrightarrow> reads_literal L fn' i (op2 q) k))"
    if "i < length (snd (opcodes fn))" for i
    using op [OF that] reads [OF that] by (auto simp: op_copied_def Let_def same_op_def)
  with copy lits show ?thesis by blast
qed

text \<open>
  C25. A thread copies a function once. Copying it a second time returns the first copy and only counts
  another reference to it; the source is unchanged.
\<close>

theorem function_copied_once:
  assumes "fresh_function E n t f fn s" and "0 < sizeof_zval L"
  shows "\<exists>c s' r. pthreads_copy_function (Suc n) L E nm t f s = Some (c, s') \<and> c \<noteq> f \<and> cs_funs s' f = Some fn \<and>
    cs_refcounts s' r = Some 1 \<and>
    pthreads_copy_function (Suc m) L E nm t f s' = Some (c, s'\<lparr>cs_refcounts := (cs_refcounts s')(r \<mapsto> 2)\<rparr>)"
proof -
  let ?c = "w_next (cs_world s)"
  obtain s' fn' r where copy: "pthreads_copy_function (Suc n) L E nm t f s = Some (?c, s')"
    "cs_funs s' = (cs_funs s)(?c \<mapsto> fn')" "function_copied L fn fn'" "resolve t s' f = Some ?c" "fn_refcount fn' = Some r"
    "cs_refcounts s' r = Some 1"
    using copy_function_first [OF assms, of nm] by auto
  have f: "?c \<noteq> f" "cs_funs s' f = Some fn" using assms(1) copy(2) by (auto simp: fresh_function_def)
  have "pthreads_copy_function (Suc m) L E nm t f s' = Some (?c, s'\<lparr>cs_refcounts := (cs_refcounts s')(r \<mapsto> 2)\<rparr>)"
    using assms(1) f copy(2-6)
    by (simp add: copy_function_with_def reuse_copy_def fresh_function_def function_copied_def numeral_2_eq_2)
  with copy(1,6) f show ?thesis by blast
qed

text \<open>A function of two instructions and two literals; its first instruction sends literal 1.\<close>

definition demo_op :: "opcode \<Rightarrow> op_type \<Rightarrow> 32 word \<Rightarrow> zend_op" where
  "demo_op code ty v = \<lparr>op_handler = 0, op1 = v, op2 = 0, op_result = 0, extended_value = 0, op_opcode = code, op1_type = ty,
     op2_type = IS_UNUSED\<rparr>"

definition demo_function :: zend_function where
  "demo_function = \<lparr>fn_type = ZEND_USER_FUNCTION, fn_flags = {ZEND_ACC_DONE_PASS_TWO}, function_name = demo_string 10 ''f'',
     fn_scope = None, prototype = None, fn_refcount = Some 900, run_time_cache = None, doc_comment = None,
     filename = demo_string 11 ''f.php'', literals = Some (1064, [IS_LONG 1, IS_STRING (demo_string 12 ''hi'')]),
     opcodes = (1000, [demo_op ZEND_SEND_VAL IS_CONST 80, demo_op (OtherOpcode 62) IS_CV 0]), num_args = 0, arg_info = None,
     live_range = None, try_catch_array = None, fn_vars = Some [demo_string 13 ''x''], fn_attributes = None, dynamic_func_defs = [],
     static_variables = Some [(''n'', IS_LONG 0)], static_variables_ptr = None\<rparr>"

lemma demo_fresh: "fresh_function demo_engine 1 2 500 demo_function (demo_code Map.empty [500 \<mapsto> demo_function])"
  unfolding fresh_function_def
  by (simp add: demo_code_ok copyable_def)
    (simp add: demo_function_def resolve_def demo_code_def empty_world_def empty_zglobals_def)

lemma demo_one_block: "one_block demo_layout demo_function"
  by (simp add: one_block_def demo_layout_def demo_function_def literal_values_def)

theorem copied_function_reads_own_literals_witness:
  "\<exists>s' fn'. pthreads_copy_function 2 demo_layout demo_engine (\<lambda>_. []) 2 500 (demo_code Map.empty [500 \<mapsto> demo_function]) =
      Some (2000, s') \<and> cs_funs s' = [500 \<mapsto> demo_function, 2000 \<mapsto> fn'] \<and>
    map value_view (literal_values fn') = [IS_LONG 1, IS_STRING (demo_string 0 ''hi'')] \<and>
    reads_literal demo_layout fn' 0 (op1 (snd (opcodes fn') ! 0)) 1"
proof -
  have sz: "0 < sizeof_zval demo_layout" by (simp add: demo_layout_def)
  have reads: "reads_literal demo_layout demo_function 0 (op1 (snd (opcodes demo_function) ! 0)) 1"
    by (simp add: reads_literal_def demo_function_def demo_op_def const_operand_def literals_at_def demo_layout_def)
  have lits: "map value_view (literal_values demo_function) = [IS_LONG 1, IS_STRING (demo_string 0 ''hi'')]"
    and ops: "0 < length (snd (opcodes demo_function))" "op1_type (snd (opcodes demo_function) ! 0) = IS_CONST"
    by (simp_all add: demo_function_def literal_values_def bytes_of_def demo_string_def demo_op_def)
  from copied_function_reads_own_literals [OF demo_fresh sz demo_one_block, of "\<lambda>_. []"] obtain s' fn' where
    "pthreads_copy_function (Suc 1) demo_layout demo_engine (\<lambda>_. []) 2 500 (demo_code Map.empty [500 \<mapsto> demo_function]) =
      Some (w_next (cs_world (demo_code Map.empty [500 \<mapsto> demo_function])), s')"
    "cs_funs s' = (cs_funs (demo_code Map.empty [500 \<mapsto> demo_function]))(w_next (cs_world (demo_code Map.empty [500 \<mapsto> demo_function])) \<mapsto> fn')"
    "map value_view (literal_values fn') = map value_view (literal_values demo_function)"
    "reads_literal demo_layout fn' 0 (op1 (snd (opcodes fn') ! 0)) 1"
    using reads ops unfolding Let_def by blast
  then show ?thesis using lits by (auto simp: demo_code_ok numeral_2_eq_2 simp del: pthreads_copy_function.simps)
qed

theorem function_copied_once_witness:
  "\<exists>c s' r. pthreads_copy_function 2 demo_layout demo_engine (\<lambda>_. []) 2 500 (demo_code Map.empty [500 \<mapsto> demo_function]) = Some (c, s') \<and>
    cs_refcounts s' r = Some 1 \<and>
    pthreads_copy_function 2 demo_layout demo_engine (\<lambda>_. []) 2 500 s' = Some (c, s'\<lparr>cs_refcounts := (cs_refcounts s')(r \<mapsto> 2)\<rparr>)"
proof -
  have sz: "0 < sizeof_zval demo_layout" by (simp add: demo_layout_def)
  show ?thesis
    using function_copied_once [OF demo_fresh sz, of "\<lambda>_. []" 1] unfolding numeral_2_eq_2 One_nat_def by blast
qed

end
