(* ===== verification/Class_Data.thy ===== *)
theory Class_Data
  imports Code_Copy
begin

text \<open>
  The class entries of the engine, as src/prepare.c reads and writes them. A class entry, a property
  description and a function are addresses in heaps; every other table of a class is part of its entry. A union of the
  C structure is a datatype, so that reading the wrong member is visible.
\<close>

section \<open>Traits\<close>

record zend_trait_method_reference =
  ref_method_name :: "zend_string option"
  ref_class_name :: "zend_string option"

record zend_trait_alias =
  al_method :: zend_trait_method_reference
  al_alias :: "zend_string option"
  al_modifiers :: nat

record zend_trait_precedence =
  pr_method :: zend_trait_method_reference
  pr_excludes :: "zend_string list"

record zend_class_name =
  cn_name :: zend_string
  cn_lc_name :: zend_string

section \<open>Members\<close>

text \<open>
  A constant also carries the string that is its key. \<open>cc_is_case\<close> is the flag \<open>ZEND_CLASS_CONST_IS_CASE\<close>,
  \<open>cc_flags\<close> are the others.
\<close>

record zend_class_constant =
  cc_name :: zend_string
  cc_value :: zval
  cc_is_case :: bool
  cc_flags :: nat
  cc_ce :: "addr option"
  cc_doc_comment :: "zend_string option"
  cc_attributes :: "zend_attribute list option"

text \<open>\<open>zp_number\<close> is \<open>OBJ_PROP_TO_NUM(offset)\<close>, the place of the property among the default values.\<close>

record zend_property_info =
  zp_name :: zend_string
  zp_number :: nat
  zp_static :: bool
  zp_flags :: nat
  zp_doc_comment :: "zend_string option"
  zp_ce :: "addr option"
  zp_type :: zend_type
  zp_attributes :: "zend_attribute list option"

text \<open>
  A cell of a table of static members: a value, or a pointer to a cell of the table of another
  class (\<open>IS_INDIRECT\<close>).
\<close>

datatype static_member = Static zval | StaticOf addr nat

section \<open>Class entries\<close>

datatype class_type = ZEND_USER_CLASS | ZEND_INTERNAL_CLASS

datatype class_parent = NoParent | Parent addr | ParentName zend_string

datatype class_interfaces = Interfaces "addr option list" | InterfaceNames "zend_class_name list"

text \<open>The pointers to magic methods, and the functions of C code that a class may override.\<close>

datatype magic_method =
    Mconstructor | Mdestructor | Mclone | Mget | Mset | Munset | Misset | Mcall | Mcallstatic | Mtostring
  | Mserialize | Munserialize

record class_handlers =
  ch_create_object :: nat
  ch_serialize :: nat
  ch_unserialize :: nat
  ch_get_iterator :: nat
  ch_interface_gets_implemented :: nat
  ch_get_static_method :: nat

record zend_class_entry =
  ce_type :: class_type
  ce_name :: zend_string
  ce_flags :: "fn_flag set"
  ce_refcount :: nat
  ce_parent :: class_parent
  ce_num_interfaces :: nat
  ce_interfaces :: class_interfaces
  ce_function_table :: "(string \<times> addr) list"
  ce_properties_info :: "(string \<times> addr) list"
  ce_constants_table :: "(string \<times> zend_class_constant) list"
  ce_default_properties_count :: nat
  ce_default_properties_table :: "zval list option"
  ce_properties_info_table :: "addr option list option"
  ce_default_static_members_count :: nat
  ce_default_static_members_table :: "static_member list option"
  ce_magic :: "magic_method \<rightharpoonup> addr"
  ce_handlers :: class_handlers
  ce_iterator_funcs :: "(string \<rightharpoonup> addr) option"
  ce_arrayaccess_funcs :: "(string \<rightharpoonup> addr) option"
  ce_trait_names :: "zend_class_name list"
  ce_trait_aliases :: "zend_trait_alias list option"
  ce_trait_precedences :: "zend_trait_precedence list option"
  ce_attributes :: "zend_attribute list option"
  ce_enum_backed :: bool
  ce_backed_enum_table :: "(zkey \<times> zval) list option"
  ce_filename :: "zend_string option"
  ce_lines :: "nat \<times> nat"
  ce_doc_comment :: "zend_string option"

text \<open>\<open>parent\<close>, read from the union: a name read as a class is \<open>None\<close>.\<close>

definition read_parent :: "zend_class_entry \<Rightarrow> addr option option" where
  "read_parent ce = (case ce_parent ce of NoParent \<Rightarrow> Some None | Parent p \<Rightarrow> Some (Some p) | ParentName _ \<Rightarrow> None)"

definition read_interfaces :: "zend_class_entry \<Rightarrow> addr option list option" where
  "read_interfaces ce =
     (case ce_interfaces ce of
        Interfaces cs \<Rightarrow> if ce_num_interfaces ce \<le> length cs then Some (take (ce_num_interfaces ce) cs) else None
      | InterfaceNames _ \<Rightarrow> if ce_num_interfaces ce = 0 then Some [] else None)"

definition read_interface_names :: "zend_class_entry \<Rightarrow> zend_class_name list option" where
  "read_interface_names ce =
     (case ce_interfaces ce of
        InterfaceNames ns \<Rightarrow> if ce_num_interfaces ce \<le> length ns then Some (take (ce_num_interfaces ce) ns) else None
      | Interfaces _ \<Rightarrow> if ce_num_interfaces ce = 0 then Some [] else None)"

end
