(* ===== verification/Prepare.thy ===== *)
theory Prepare
  imports Class_Data Lifecycle
begin

text \<open>
  src/prepare.c, apart from classes: a new thread inherits the ini settings, constants, functions
  and included files of its creator, and a thread that ends leaves the resources of other
  threads alone. The tables of the engine are lists of names with their entries, one set per thread;
  functions are addresses in the heap of \<open>Code_Copy\<close>.
\<close>

unbundle bit_operations_syntax

section \<open>Tables of the engine\<close>

record zend_ini_entry =
  ini_value :: "zend_string option"
  ini_orig_value :: "zend_string option"
  ini_modifiable :: bool
  ini_orig_modifiable :: bool
  ini_modified :: bool

record zend_constant =
  const_name :: "zend_string option"
  const_value :: zval
  const_flags :: nat

text \<open>
  \<open>tb_notified\<close> records the calls of \<open>on_modify\<close>, the function of the module that owns a setting, with
  the name of the setting and the new value.
\<close>

record engine_tables =
  tb_ini :: "(string \<times> zend_ini_entry) list"
  tb_modified_ini :: "string list"
  tb_notified :: "(string \<times> string) list"
  tb_constants :: "(string \<times> zend_constant) list"
  tb_included :: "string list"
  tb_sapi_started :: bool
  tb_headers_sent :: bool
  tb_no_headers :: bool

datatype resource_dtor = EngineDtor nat | PreparedResourceDtor

text \<open>
  Class entries and property descriptions are shared by address; each thread has its own class table and
  its own current values of static members (\<open>CE_STATIC_MEMBERS\<close>).
\<close>

record prepare_state =
  ps_code :: code_state
  ps_tables :: "tid \<Rightarrow> engine_tables"
  ps_list_dtor :: "tid \<Rightarrow> resource_dtor"
  ps_default_resource_dtor :: "resource_dtor option"
  ps_classes :: "addr \<rightharpoonup> zend_class_entry"
  ps_props :: "addr \<rightharpoonup> zend_property_info"
  ps_class_table :: "tid \<Rightarrow> (string \<times> addr) list"
  ps_static_members :: "tid \<Rightarrow> addr \<rightharpoonup> static_member list"

definition set_tables :: "tid \<Rightarrow> engine_tables \<Rightarrow> prepare_state \<Rightarrow> prepare_state" where
  "set_tables t tb s = s\<lparr>ps_tables := (ps_tables s)(t := tb)\<rparr>"

definition copy_string_ps :: "zend_engine \<Rightarrow> tid \<Rightarrow> zend_string \<Rightarrow> prepare_state \<Rightarrow> zend_string \<times> prepare_state" where
  "copy_string_ps E t str s = (let (c, code) = pthreads_copy_string E t str (ps_code s) in (c, s\<lparr>ps_code := code\<rparr>))"

abbreviation prepare_world :: "prepare_state \<Rightarrow> world" where "prepare_world s \<equiv> cs_world (ps_code s)"

definition set_world :: "world \<Rightarrow> prepare_state \<Rightarrow> prepare_state" where
  "set_world w s = s\<lparr>ps_code := (ps_code s)\<lparr>cs_world := w\<rparr>\<rparr>"

text \<open>
  The critical section of a preparation. Unlike elsewhere, the code does not look at the result of
  the lock: a thread that cannot enter the monitor once more goes on without it.
\<close>

definition preparation_critical ::
  "tid \<Rightarrow> (prepare_state \<Rightarrow> ('a \<times> prepare_state) option) \<Rightarrow> prepare_state \<Rightarrow> ('a \<times> prepare_state) option" where
  "preparation_critical t body s = do {
     (_, w) \<leftarrow> pthreads_globals_lock t (prepare_world s);
     (r, s) \<leftarrow> body (set_world w s);
     Some (r, set_world (pthreads_globals_unlock t (prepare_world s)) s) }"

section \<open>Request and settings\<close>

definition PTHREADS_ALLOW_HEADERS :: zend_ulong where "PTHREADS_ALLOW_HEADERS = 0x10000000"

definition pthreads_prepare_sapi :: "tid \<Rightarrow> zend_ulong \<Rightarrow> prepare_state \<Rightarrow> prepare_state" where
  "pthreads_prepare_sapi t options s =
     (let tb = (ps_tables s t)\<lparr>tb_sapi_started := False\<rparr> in
      set_tables t (if options AND PTHREADS_ALLOW_HEADERS = 0 then tb\<lparr>tb_headers_sent := True, tb_no_headers := True\<rparr> else tb) s)"

text \<open>What \<open>strcmp\<close> sees of a string: the characters before the first NUL.\<close>

definition c_text :: "zend_string \<Rightarrow> string" where "c_text str = takeWhile (\<lambda>c. c \<noteq> CHR 0x00) (zs_val str)"

text \<open>A setting is marked as modified before its first change, and its original value is remembered.\<close>

definition mark_modified :: "string \<Rightarrow> engine_tables \<Rightarrow> engine_tables" where
  "mark_modified name tb =
     (case map_of (tb_ini tb) name of
        None \<Rightarrow> tb
      | Some e \<Rightarrow>
          if ini_modified e then tb
          else tb\<lparr>tb_ini := AList.update name (e\<lparr>ini_orig_value := ini_value e, ini_orig_modifiable := ini_modifiable e,
              ini_modified := True\<rparr>) (tb_ini tb),
            tb_modified_ini := tb_modified_ini tb @ [name]\<rparr>)"

definition set_ini :: "string \<Rightarrow> zend_string \<Rightarrow> engine_tables \<Rightarrow> engine_tables" where
  "set_ini name v tb =
     (case map_of (tb_ini tb) name of
        None \<Rightarrow> tb
      | Some e \<Rightarrow> tb\<lparr>tb_ini := AList.update name (e\<lparr>ini_value := Some v\<rparr>) (tb_ini tb),
          tb_notified := tb_notified tb @ [(name, zs_val v)]\<rparr>)"

text \<open>\<open>zend_alter_ini_entry_chars\<close> of the engine, for a setting that may be changed and accepts the value.\<close>

definition zend_alter_ini_entry_chars :: "tid \<Rightarrow> string \<Rightarrow> string \<Rightarrow> prepare_state \<Rightarrow> prepare_state" where
  "zend_alter_ini_entry_chars t name v s =
     (let (str, code) = string_init v False (ps_code s);
          s = s\<lparr>ps_code := code\<rparr>
      in set_tables t (set_ini name str (mark_modified name (ps_tables s t))) s)"

definition overwrite_ini :: "zend_engine \<Rightarrow> tid \<Rightarrow> string \<Rightarrow> zend_string \<Rightarrow> prepare_state \<Rightarrow> prepare_state" where
  "overwrite_ini E t name v s =
     (let s = set_tables t (mark_modified name (ps_tables s t)) s;
          (c, s) = copy_string_ps E t v s
      in set_tables t (set_ini name c (ps_tables s t)) s)"

definition prepare_ini_entry :: "zend_engine \<Rightarrow> tid \<Rightarrow> string \<times> zend_ini_entry \<Rightarrow> prepare_state \<Rightarrow> prepare_state" where
  "prepare_ini_entry E t ne s =
     (case (ini_value (snd ne), map_of (tb_ini (ps_tables s t)) (fst ne)) of
        (Some v, Some e) \<Rightarrow>
          (case ini_value e of
             None \<Rightarrow> s
           | Some v' \<Rightarrow> if c_text v = c_text v' then s else overwrite_ini E t (fst ne) v s)
      | _ \<Rightarrow> s)"

definition pthreads_prepare_ini :: "zend_engine \<Rightarrow> tid \<Rightarrow> tid \<Rightarrow> zend_ulong \<Rightarrow> prepare_state \<Rightarrow> prepare_state" where
  "pthreads_prepare_ini E src t options s =
     (let s = (if options AND PTHREADS_ALLOW_HEADERS = 0
        then zend_alter_ini_entry_chars t (strings_session_use_cookies pthreads_globals_strings) ''0''
          (zend_alter_ini_entry_chars t (strings_session_cache_limiter pthreads_globals_strings) ''nocache'' s)
        else s)
      in fold (prepare_ini_entry E t) (tb_ini (ps_tables s src)) s)"

section \<open>Constants, functions and files\<close>

definition pthreads_constant_exists :: "(string \<Rightarrow> string) \<Rightarrow> string \<Rightarrow> engine_tables \<Rightarrow> bool" where
  "pthreads_constant_exists tolower name tb \<longleftrightarrow> map_of (tb_constants tb) name \<noteq> None \<or>
     map_of (tb_constants tb) (tolower name) \<noteq> None"

text \<open>
  One round of the loop. The name of a constant is the key of the table, so it is registered under
  the same key. A value that cannot be copied is a fatal error.
\<close>

definition prepare_constant ::
  "zend_engine \<Rightarrow> (string \<Rightarrow> string) \<Rightarrow> (zval \<Rightarrow> zval option copying) \<Rightarrow> tid \<Rightarrow> string \<times> zend_constant \<Rightarrow> prepare_state \<Rightarrow>
   prepare_state option" where
  "prepare_constant E tolower cz t nc s =
     (let (name, c) = nc in
      case const_name c of
        None \<Rightarrow> Some s
      | Some str \<Rightarrow>
          if (case const_value c of IS_RESOURCE _ \<Rightarrow> True | _ \<Rightarrow> False) then Some s
          else if pthreads_constant_exists tolower name (ps_tables s t) then Some s
          else do {
            let (copied_name, s) = copy_string_ps E t str s;
            (v, code) \<leftarrow> cz (const_value c) (ps_code s);
            v \<leftarrow> v;
            let s = s\<lparr>ps_code := code\<rparr>;
            let tb = ps_tables s t;
            Some (set_tables t (tb\<lparr>tb_constants := hash_add name
              \<lparr>const_name = Some copied_name, const_value = v, const_flags = const_flags c\<rparr> (tb_constants tb)\<rparr>) s) })"

definition pthreads_prepare_constants ::
  "zend_engine \<Rightarrow> (string \<Rightarrow> string) \<Rightarrow> (zval \<Rightarrow> zval option copying) \<Rightarrow> tid \<Rightarrow> tid \<Rightarrow> prepare_state \<Rightarrow> prepare_state option" where
  "pthreads_prepare_constants E tolower cz src t s =
     for_each (prepare_constant E tolower cz t) (tb_constants (ps_tables s src)) s"

definition add_function :: "(addr \<Rightarrow> addr copying) \<Rightarrow> tid \<Rightarrow> string \<Rightarrow> addr \<Rightarrow> prepare_state \<Rightarrow> prepare_state option" where
  "add_function cf t key f s = do {
     (prepared, code) \<leftarrow> cf f (ps_code s);
     Some (s\<lparr>ps_code := code\<lparr>cs_function_table := (cs_function_table code)(t := hash_add key prepared (cs_function_table code t))\<rparr>\<rparr>) }"

definition prepare_function :: "(addr \<Rightarrow> addr copying) \<Rightarrow> tid \<Rightarrow> string \<times> addr \<Rightarrow> prepare_state \<Rightarrow> prepare_state option" where
  "prepare_function cf t kf s = do {
     fn \<leftarrow> cs_funs (ps_code s) (snd kf);
     if fn_type fn = ZEND_INTERNAL_FUNCTION \<or> map_of (cs_function_table (ps_code s) t) (fst kf) \<noteq> None then Some s
     else add_function cf t (fst kf) (snd kf) s }"

definition pthreads_prepare_functions :: "(addr \<Rightarrow> addr copying) \<Rightarrow> tid \<Rightarrow> tid \<Rightarrow> prepare_state \<Rightarrow> prepare_state option" where
  "pthreads_prepare_functions cf src t s = for_each (prepare_function cf t) (cs_function_table (ps_code s) src) s"

definition prepare_closure :: "(addr \<Rightarrow> addr copying) \<Rightarrow> tid \<Rightarrow> string \<times> addr \<Rightarrow> prepare_state \<Rightarrow> prepare_state option" where
  "prepare_closure cf t kf s = do {
     fn \<leftarrow> cs_funs (ps_code s) (snd kf);
     if ZEND_ACC_CLOSURE \<in> fn_flags fn \<and> map_of (cs_function_table (ps_code s) t) (fst kf) = None
     then add_function cf t (fst kf) (snd kf) s else Some s }"

definition pthreads_prepare_closures :: "(addr \<Rightarrow> addr copying) \<Rightarrow> tid \<Rightarrow> tid \<Rightarrow> prepare_state \<Rightarrow> prepare_state option" where
  "pthreads_prepare_closures cf src t s = for_each (prepare_closure cf t) (cs_function_table (ps_code s) src) s"

definition pthreads_prepare_includes :: "tid \<Rightarrow> tid \<Rightarrow> prepare_state \<Rightarrow> prepare_state" where
  "pthreads_prepare_includes src t s =
     (let tb = ps_tables s t in
      set_tables t (tb\<lparr>tb_included := fold (\<lambda>f fs. if f \<in> set fs then fs else fs @ [f]) (tb_included (ps_tables s src))
        (tb_included tb)\<rparr>) s)"

section \<open>Resources\<close>

definition pthreads_prepare_resource_destructor :: "tid \<Rightarrow> prepare_state \<Rightarrow> prepare_state" where
  "pthreads_prepare_resource_destructor t s =
     (let s = (if ps_default_resource_dtor s = None then s\<lparr>ps_default_resource_dtor := Some (ps_list_dtor s t)\<rparr> else s)
      in s\<lparr>ps_list_dtor := (ps_list_dtor s)(t := PreparedResourceDtor)\<rparr>)"

text \<open>Whether the destructor of the thread's list passes a resource on to the destructor of the engine.\<close>

definition pthreads_prepared_resource_dtor :: "tid \<Rightarrow> addr \<Rightarrow> prepare_state \<Rightarrow> bool" where
  "pthreads_prepared_resource_dtor t r s \<longleftrightarrow>
     \<not> pthreads_resources_kept t r (cs_world (ps_code s)) \<and> ps_default_resource_dtor s \<noteq> None"

definition resource_destroyed :: "tid \<Rightarrow> prepare_state \<Rightarrow> addr \<Rightarrow> bool" where
  "resource_destroyed t s r =
     (case ps_list_dtor s t of EngineDtor _ \<Rightarrow> True | PreparedResourceDtor \<Rightarrow> pthreads_prepared_resource_dtor t r s)"

definition pthreads_resources_cleanup :: "tid \<Rightarrow> prepare_state \<Rightarrow> addr \<Rightarrow> bool" where
  "pthreads_resources_cleanup t s r \<longleftrightarrow> pthreads_resources_kept t r (cs_world (ps_code s))"

text \<open>
  \<open>pthreads_prepared_shutdown\<close>, with the resources that are destroyed on the way: those that the
  clean-up removes from the list go through the destructor of the list; those that are left when the
  engine shuts the request down are closed by the engine itself, the last one first.
\<close>

definition pthreads_prepared_shutdown :: "tid \<Rightarrow> prepare_state \<Rightarrow> (addr list \<times> prepare_state) option" where
  "pthreads_prepared_shutdown t s = preparation_critical t
     (\<lambda>s. let zg = w_zg (prepare_world s) t; list = zg_regular_list zg;
              removed = filter (pthreads_resources_cleanup t s) list;
              left = filter (\<lambda>r. \<not> pthreads_resources_cleanup t s r) list
          in Some (filter (resource_destroyed t s) removed @ rev left,
               set_world (set_zg t (zg\<lparr>zg_regular_list := []\<rparr>) (prepare_world s)) s)) s"

section \<open>Traits\<close>

definition pthreads_preparation_copy_trait_method_reference ::
  "zend_engine \<Rightarrow> tid \<Rightarrow> zend_trait_method_reference \<Rightarrow> code_state \<Rightarrow> zend_trait_method_reference \<times> code_state" where
  "pthreads_preparation_copy_trait_method_reference E t r s =
     (let (m, s) = copy_string_option E t (ref_method_name r) s;
          (c, s) = copy_string_option E t (ref_class_name r) s
      in (\<lparr>ref_method_name = m, ref_class_name = c\<rparr>, s))"

definition pthreads_preparation_copy_trait_alias ::
  "zend_engine \<Rightarrow> tid \<Rightarrow> zend_trait_alias \<Rightarrow> code_state \<Rightarrow> zend_trait_alias \<times> code_state" where
  "pthreads_preparation_copy_trait_alias E t a s =
     (let (m, s) = pthreads_preparation_copy_trait_method_reference E t (al_method a) s;
          (n, s) = copy_string_option E t (al_alias a) s
      in (\<lparr>al_method = m, al_alias = n, al_modifiers = al_modifiers a\<rparr>, s))"

definition pthreads_preparation_copy_trait_precedence ::
  "zend_engine \<Rightarrow> tid \<Rightarrow> zend_trait_precedence \<Rightarrow> code_state \<Rightarrow> zend_trait_precedence \<times> code_state" where
  "pthreads_preparation_copy_trait_precedence E t p s =
     (let (m, s) = pthreads_preparation_copy_trait_method_reference E t (pr_method p) s;
          (es, s) = pthreads_copy_variables E t (pr_excludes p) s
      in (\<lparr>pr_method = m, pr_excludes = es\<rparr>, s))"

end
