(* ===== verification/Prepare_Props.thy ===== *)
theory Prepare_Props
  imports Prepare Code_Props
begin

text \<open>
  What a new thread inherits: the settings and the functions of its creator. And what it does not
  take with it when it ends: the resources of other threads.
\<close>

section \<open>Settings\<close>

text \<open>The value of a setting, as a C string.\<close>

definition ini_bytes :: "engine_tables \<Rightarrow> string \<Rightarrow> string option option" where
  "ini_bytes tb n = map_option (\<lambda>e. map_option c_text (ini_value e)) (map_of (tb_ini tb) n)"

lemma set_tables_simps [simp]:
  "ps_tables (set_tables t tb s) = (ps_tables s)(t := tb)" "ps_code (set_tables t tb s) = ps_code s"
  by (simp_all add: set_tables_def)

lemma mark_modified_bytes [simp]: "ini_bytes (mark_modified n tb) k = ini_bytes tb k"
  by (auto simp: mark_modified_def ini_bytes_def map_of_update split: option.split)

lemma mark_modified_dom [simp]: "(map_of (tb_ini (mark_modified n tb)) k = None) = (map_of (tb_ini tb) k = None)"
  by (auto simp: mark_modified_def map_of_update split: option.split)

lemma set_ini_bytes:
  "ini_bytes (set_ini n v tb) k = (if k = n \<and> map_of (tb_ini tb) n \<noteq> None then Some (Some (c_text v)) else ini_bytes tb k)"
  by (auto simp: set_ini_def ini_bytes_def map_of_update split: option.split)

text \<open>What the rounds of \<open>pthreads_prepare_ini\<close> make of the settings of the thread.\<close>

lemma overwrite_ini_bytes:
  assumes "strings_ok E (ps_code s)" and "map_of (tb_ini (ps_tables s t)) n \<noteq> None"
  shows "strings_ok E (ps_code (overwrite_ini E t n v s))"
    and "ini_bytes (ps_tables (overwrite_ini E t n v s) t) = (ini_bytes (ps_tables s t))(n \<mapsto> Some (c_text v))"
    and "u \<noteq> t \<Longrightarrow> ps_tables (overwrite_ini E t n v s) u = ps_tables s u"
proof -
  obtain c code where c: "pthreads_copy_string E t v (ps_code s) = (c, code)" by force
  note st = copy_string_fn_step [OF c assms(1)]
  have eq: "overwrite_ini E t n v s = set_tables t (set_ini n c (mark_modified n (ps_tables s t)))
      ((set_tables t (mark_modified n (ps_tables s t)) s)\<lparr>ps_code := code\<rparr>)"
    by (simp add: overwrite_ini_def copy_string_ps_def c)
  show "strings_ok E (ps_code (overwrite_ini E t n v s))" using st fn_stepD(1) assms(1) by (auto simp: eq)
  show "ini_bytes (ps_tables (overwrite_ini E t n v s) t) = (ini_bytes (ps_tables s t))(n \<mapsto> Some (c_text v))"
    using assms(2) st by (simp add: eq set_ini_bytes fun_eq_iff c_text_def)
  show "u \<noteq> t \<Longrightarrow> ps_tables (overwrite_ini E t n v s) u = ps_tables s u" by (simp add: eq)
qed

definition inherited_value :: "zend_ini_entry \<Rightarrow> string option option \<Rightarrow> string option option" where
  "inherited_value e b = (case (ini_value e, b) of (Some v, Some (Some _)) \<Rightarrow> Some (Some (c_text v)) | _ \<Rightarrow> b)"

lemma prepare_ini_entry_bytes:
  assumes "strings_ok E (ps_code s)"
  shows "strings_ok E (ps_code (prepare_ini_entry E t (n, e) s)) \<and>
    ini_bytes (ps_tables (prepare_ini_entry E t (n, e) s) t) =
      (ini_bytes (ps_tables s t))(n := inherited_value e (ini_bytes (ps_tables s t) n))"
proof (cases "\<exists>v d v'. ini_value e = Some v \<and> map_of (tb_ini (ps_tables s t)) n = Some d \<and> ini_value d = Some v' \<and> c_text v \<noteq> c_text v'")
  case True
  then obtain v d v' where v: "ini_value e = Some v" "map_of (tb_ini (ps_tables s t)) n = Some d" "ini_value d = Some v'" "c_text v \<noteq> c_text v'"
    by blast
  then have "prepare_ini_entry E t (n, e) s = overwrite_ini E t n v s" by (simp add: prepare_ini_entry_def)
  with overwrite_ini_bytes [OF assms, where t = t and n = n and v = v] v show ?thesis by (simp add: inherited_value_def ini_bytes_def)
next
  case False
  then have "prepare_ini_entry E t (n, e) s = s" by (auto simp: prepare_ini_entry_def split: option.splits)
  moreover have "inherited_value e (ini_bytes (ps_tables s t) n) = ini_bytes (ps_tables s t) n"
    using False by (auto simp: inherited_value_def ini_bytes_def split: option.splits)
  ultimately show ?thesis using assms by simp
qed

lemma prepare_ini_fold:
  assumes "strings_ok E (ps_code s)" and "distinct (map fst es)"
  shows "ini_bytes (ps_tables (fold (prepare_ini_entry E t) es s) t) k =
    (case map_of es k of None \<Rightarrow> ini_bytes (ps_tables s t) k | Some e \<Rightarrow> inherited_value e (ini_bytes (ps_tables s t) k))"
  using assms
proof (induction es arbitrary: s)
  case (Cons p es)
  obtain n e where p: "p = (n, e)" by force
  note step = prepare_ini_entry_bytes [OF Cons.prems(1), of t n e]
  have "map_of es n = None" using Cons.prems(2) p by (simp add: map_of_eq_None_iff)
  with Cons.IH [of "prepare_ini_entry E t (n, e) s"] Cons.prems(2) step p show ?case
    by (auto split: option.split)
qed simp

lemma alter_ini_bytes:
  "ini_bytes (ps_tables (zend_alter_ini_entry_chars t n v s) t) k =
     (if k = n \<and> map_of (tb_ini (ps_tables s t)) n \<noteq> None then Some (Some (takeWhile (\<lambda>c. c \<noteq> CHR 0x00) v)) else ini_bytes (ps_tables s t) k)"
  "u \<noteq> t \<Longrightarrow> ps_tables (zend_alter_ini_entry_chars t n v s) u = ps_tables s u"
  "strings_ok E (ps_code s) \<Longrightarrow> strings_ok E (ps_code (zend_alter_ini_entry_chars t n v s))"
proof -
  obtain c code where c: "string_init v False (ps_code s) = (c, code)" by force
  note st = string_init_step [OF c, of E t]
  show "strings_ok E (ps_code s) \<Longrightarrow> strings_ok E (ps_code (zend_alter_ini_entry_chars t n v s))"
    using c st copy_step_facts(2) [of E t "ps_code s" code] by (simp add: zend_alter_ini_entry_chars_def)
qed (auto simp: zend_alter_ini_entry_chars_def Let_def set_ini_bytes c_text_def string_init_def zend_string_init_def alloc_def)


text \<open>A creator that uses cookies, and a thread that is told not to.\<close>

definition demo_ini :: "string \<Rightarrow> zend_ini_entry" where
  "demo_ini v = \<lparr>ini_value = Some (demo_string 5 v), ini_orig_value = None, ini_modifiable = True, ini_orig_modifiable = True,
     ini_modified = False\<rparr>"

definition demo_tables :: "string \<Rightarrow> engine_tables" where
  "demo_tables v = \<lparr>tb_ini = [(''session.use_cookies'', demo_ini v)], tb_modified_ini = [], tb_notified = [], tb_constants = [],
     tb_included = [], tb_sapi_started = False, tb_headers_sent = False, tb_no_headers = False\<rparr>"

definition demo_prepare :: "code_state \<Rightarrow> prepare_state" where
  "demo_prepare code = \<lparr>ps_code = code, ps_tables = (\<lambda>_. demo_tables ''1''), ps_list_dtor = (\<lambda>_. EngineDtor 0),
     ps_default_resource_dtor = None, ps_classes = Map.empty, ps_props = Map.empty, ps_class_table = (\<lambda>_. []),
     ps_static_members = (\<lambda>_. Map.empty)\<rparr>"


section \<open>Functions\<close>

text \<open>
  The functions of the creator, as the loop finds them: built in, or code the thread can copy. Their
  names and addresses are distinct.
\<close>

definition inheritable :: "zend_engine \<Rightarrow> nat \<Rightarrow> tid \<Rightarrow> (string \<times> addr) list \<Rightarrow> code_state \<Rightarrow> bool" where
  "inheritable E n t kfs s \<longleftrightarrow> distinct (map fst kfs) \<and> distinct (map snd kfs) \<and> strings_ok E s \<and> files_ok s \<and>
     (\<forall>(k, f)\<in>set kfs. \<exists>fn. cs_funs s f = Some fn \<and> (fn_type fn = ZEND_INTERNAL_FUNCTION \<or> fresh_function E n t f fn s))"

lemma inheritableD:
  assumes "inheritable E n t kfs s" and "(k, f) \<in> set kfs"
  shows "\<exists>fn. cs_funs s f = Some fn \<and> (fn_type fn = ZEND_INTERNAL_FUNCTION \<or> fresh_function E n t f fn s)"
  using assms by (auto simp: inheritable_def)

definition table_of :: "tid \<Rightarrow> prepare_state \<Rightarrow> string \<rightharpoonup> addr" where
  "table_of t s = map_of (cs_function_table (ps_code s) t)"

lemma hash_add_fresh: "map_of ht k = None \<Longrightarrow> map_of (hash_add k v ht) = (map_of ht)(k \<mapsto> v)"
  by (auto simp: hash_add_def map_add_def fun_eq_iff split: option.split)

lemma fresh_function_later:
  assumes "fresh_function E n t g gn s" and "g \<noteq> f" and "cs_funs s' = (cs_funs s)(w_next (cs_world s) \<mapsto> fn')"
    and "resolve t s' = (resolve t s)(f \<mapsto> c)" and "w_next (cs_world s) < w_next (cs_world s')" and "strings_ok E s'" "files_ok s'"
  shows "fresh_function E n t g gn s'"
  using assms by (auto simp: fresh_function_def)

text \<open>What the table of the thread holds for a function of its creator that it did not know.\<close>

definition inherited_as :: "zend_layout \<Rightarrow> zend_function \<Rightarrow> addr option \<Rightarrow> code_state \<Rightarrow> bool" where
  "inherited_as L fn c s \<longleftrightarrow>
     (if fn_type fn = ZEND_INTERNAL_FUNCTION then c = None
      else \<exists>a fn'. c = Some a \<and> cs_funs s a = Some fn' \<and> function_copied L fn fn')"

text \<open>One round: a function that is neither built in nor known to the thread is copied and filed under its name.\<close>

lemma prepare_function_round:
  fixes nm :: "addr \<Rightarrow> string"
  assumes ok: "inheritable E n t ((k, f) # kfs) (ps_code s)" and sz: "0 < sizeof_zval L"
    and below: "\<forall>(k, f)\<in>set kfs. f < w_next (cs_world (ps_code s))"
  defines "cf \<equiv> pthreads_copy_function (Suc n) L E nm t"
  shows "\<exists>s' fn. prepare_function cf t (k, f) s = Some s' \<and> cs_funs (ps_code s) f = Some fn \<and>
    inheritable E n t kfs (ps_code s') \<and> w_next (cs_world (ps_code s)) \<le> w_next (cs_world (ps_code s')) \<and>
    (\<forall>a c. cs_funs (ps_code s) a = Some c \<longrightarrow> a < w_next (cs_world (ps_code s)) \<longrightarrow> cs_funs (ps_code s') a = Some c) \<and>
    (if fn_type fn = ZEND_INTERNAL_FUNCTION \<or> table_of t s k \<noteq> None then table_of t s' = table_of t s
     else \<exists>c fn'. table_of t s' = (table_of t s)(k \<mapsto> c) \<and> cs_funs (ps_code s') c = Some fn' \<and>
       c < w_next (cs_world (ps_code s')) \<and> function_copied L fn fn')"
proof -
  obtain fn where fn: "cs_funs (ps_code s) f = Some fn" "fn_type fn = ZEND_INTERNAL_FUNCTION \<or> fresh_function E n t f fn (ps_code s)"
    using ok by (auto simp: inheritable_def)
  show ?thesis
  proof (cases "fn_type fn = ZEND_INTERNAL_FUNCTION \<or> table_of t s k \<noteq> None")
    case True
    then have "prepare_function cf t (k, f) s = Some s" using fn(1) by (auto simp: prepare_function_def table_of_def)
    with True fn(1) ok show ?thesis by (auto simp: inheritable_def)
  next
    case False
    let ?c = "w_next (cs_world (ps_code s))"
    obtain s1 fn' r where copy: "cf f (ps_code s) = Some (?c, s1)" "cs_funs s1 = (cs_funs (ps_code s))(?c \<mapsto> fn')" "function_copied L fn fn'"
      "resolve t s1 = (resolve t (ps_code s))(f \<mapsto> ?c)" "?c < w_next (cs_world s1)" "strings_ok E s1" "files_ok s1"
      "cs_function_table s1 = cs_function_table (ps_code s)"
      using copy_function_first [OF _ sz, of E n t f fn "ps_code s" nm] fn False unfolding cf_def by blast
    let ?s' = "s\<lparr>ps_code := s1\<lparr>cs_function_table := (cs_function_table s1)(t := hash_add k ?c (cs_function_table s1 t))\<rparr>\<rparr>"
    have run: "prepare_function cf t (k, f) s = Some ?s'"
      using False fn(1) copy(1) by (simp add: prepare_function_def add_function_def table_of_def)
    have tab: "table_of t ?s' = (table_of t s)(k \<mapsto> ?c)"
      using False copy(8) by (simp add: table_of_def hash_add_fresh)
    have fresh: "fresh_function E n t g gn (ps_code ?s')" if "fresh_function E n t g gn (ps_code s)" "g \<noteq> f" for g gn
      using fresh_function_later [OF that copy(2,4,5,6,7)] by (simp add: fresh_function_def resolve_def)
    have "\<exists>gn. cs_funs (ps_code ?s') g = Some gn \<and> (fn_type gn = ZEND_INTERNAL_FUNCTION \<or> fresh_function E n t g gn (ps_code ?s'))"
      if "(k', g) \<in> set kfs" for k' g
    proof -
      from inheritableD [OF ok, of k' g] that obtain gn where gn: "cs_funs (ps_code s) g = Some gn"
        "fn_type gn = ZEND_INTERNAL_FUNCTION \<or> fresh_function E n t g gn (ps_code s)"
        by auto
      have "g \<noteq> f" using ok that by (auto simp: inheritable_def image_iff)
      moreover have "g \<noteq> ?c" using below that by auto
      ultimately show ?thesis using fresh [of g gn] gn copy(2) by auto
    qed
    then have inh: "inheritable E n t kfs (ps_code ?s')" using ok copy(6,7) by (auto simp: inheritable_def)
    have keep: "\<forall>a c. cs_funs (ps_code s) a = Some c \<longrightarrow> a < ?c \<longrightarrow> cs_funs (ps_code ?s') a = Some c" using copy(2) by simp
    have new: "\<exists>c fn'. table_of t ?s' = (table_of t s)(k \<mapsto> c) \<and> cs_funs (ps_code ?s') c = Some fn' \<and>
       c < w_next (cs_world (ps_code ?s')) \<and> function_copied L fn fn'"
      by (rule exI [of _ ?c], rule exI [of _ fn']) (use tab copy(2,3,5) in simp)
    show ?thesis
      by (rule exI [of _ ?s'], rule exI [of _ fn]) (use False run fn(1) inh keep new copy(5) in simp)
  qed
qed

text \<open>The whole loop, for a thread whose table gets what the creator's functions have and it has not.\<close>

lemma prepare_functions_loop:
  fixes nm :: "addr \<Rightarrow> string"
  assumes "inheritable E n t kfs (ps_code s)" and "0 < sizeof_zval L"
    and "\<forall>(k, f)\<in>set kfs. f < w_next (prepare_world s)"
  shows "\<exists>s'. for_each (prepare_function (pthreads_copy_function (Suc n) L E nm t) t) kfs s = Some s' \<and>
    w_next (prepare_world s) \<le> w_next (prepare_world s') \<and>
    (\<forall>a c. cs_funs (ps_code s) a = Some c \<longrightarrow> a < w_next (prepare_world s) \<longrightarrow> cs_funs (ps_code s') a = Some c) \<and>
    (\<forall>k. k \<notin> fst ` set kfs \<or> table_of t s k \<noteq> None \<longrightarrow> table_of t s' k = table_of t s k) \<and>
    (\<forall>k f fn. (k, f) \<in> set kfs \<longrightarrow> cs_funs (ps_code s) f = Some fn \<longrightarrow> table_of t s k = None \<longrightarrow>
       inherited_as L fn (table_of t s' k) (ps_code s'))"
  using assms
proof (induction kfs arbitrary: s)
  case Nil
  then show ?case by auto
next
  case (Cons kf kfs)
  obtain k f where kf: "kf = (k, f)" by force
  let ?cf = "pthreads_copy_function (Suc n) L E nm t"
  from prepare_function_round [OF Cons.prems(1,2) [unfolded kf], of nm] Cons.prems(3) kf
  obtain s1 fn where one: "prepare_function ?cf t (k, f) s = Some s1" "cs_funs (ps_code s) f = Some fn"
    "inheritable E n t kfs (ps_code s1)" "w_next (prepare_world s) \<le> w_next (prepare_world s1)"
    and keep: "\<And>a c. cs_funs (ps_code s) a = Some c \<Longrightarrow> a < w_next (prepare_world s) \<Longrightarrow> cs_funs (ps_code s1) a = Some c"
    and tab: "if fn_type fn = ZEND_INTERNAL_FUNCTION \<or> table_of t s k \<noteq> None then table_of t s1 = table_of t s
     else \<exists>c fn'. table_of t s1 = (table_of t s)(k \<mapsto> c) \<and> cs_funs (ps_code s1) c = Some fn' \<and>
       c < w_next (prepare_world s1) \<and> function_copied L fn fn'"
    by auto
  have "\<forall>(k, f)\<in>set kfs. f < w_next (prepare_world s1)" using Cons.prems(3) one(4) by fastforce
  from Cons.IH [OF one(3) Cons.prems(2) this]
  obtain s' where rest: "for_each (prepare_function ?cf t) kfs s1 = Some s'" "w_next (prepare_world s1) \<le> w_next (prepare_world s')"
    and keep': "\<And>a c. cs_funs (ps_code s1) a = Some c \<Longrightarrow> a < w_next (prepare_world s1) \<Longrightarrow> cs_funs (ps_code s') a = Some c"
    and same: "\<And>k. k \<notin> fst ` set kfs \<or> table_of t s1 k \<noteq> None \<Longrightarrow> table_of t s' k = table_of t s1 k"
    and got: "\<And>k f fn. (k, f) \<in> set kfs \<Longrightarrow> cs_funs (ps_code s1) f = Some fn \<Longrightarrow> table_of t s1 k = None \<Longrightarrow>
       inherited_as L fn (table_of t s' k) (ps_code s')"
    by blast
  have new: "k \<notin> fst ` set kfs" using Cons.prems(1) kf by (auto simp: inheritable_def image_iff)
  have other: "table_of t s1 k' = table_of t s k'" if "k' \<noteq> k \<or> table_of t s k' \<noteq> None" for k'
    using tab that by (auto split: if_splits)
  have first: "inherited_as L fn (table_of t s' k) (ps_code s')" if "table_of t s k = None"
    using tab that same [of k] new keep' by (auto simp: inherited_as_def split: if_splits)
  have "inherited_as L fn' (table_of t s' k') (ps_code s')"
    if "(k', f') \<in> set (kf # kfs)" "cs_funs (ps_code s) f' = Some fn'" "table_of t s k' = None" for k' f' fn'
  proof (cases "(k', f') = (k, f)")
    case True
    then show ?thesis using that first one(2) by simp
  next
    case False
    then have mem: "(k', f') \<in> set kfs" using that(1) kf by auto
    then have "k' \<noteq> k" using new by force
    moreover have "cs_funs (ps_code s1) f' = Some fn'" using keep [OF that(2)] that(1) Cons.prems(3) by auto
    ultimately show ?thesis using got [OF mem] other [of k'] that(3) by simp
  qed
  moreover have "table_of t s' k' = table_of t s k'" if "k' \<notin> fst ` set (kf # kfs) \<or> table_of t s k' \<noteq> None" for k'
  proof -
    have e: "table_of t s1 k' = table_of t s k'" using that kf by (intro other) auto
    then show ?thesis using that kf by (subst same) auto
  qed
  moreover have "cs_funs (ps_code s') a = Some c" if "cs_funs (ps_code s) a = Some c" "a < w_next (prepare_world s)" for a c
    using keep [OF that] keep' [of a c] that(2) one(4) by auto
  moreover have "for_each (prepare_function ?cf t) (kf # kfs) s = Some s'" using kf one(1) rest(1) by simp
  moreover have "w_next (prepare_world s) \<le> w_next (prepare_world s')" using one(4) rest(2) by simp
  ultimately show ?case by blast
qed


text \<open>A creator with a function of its own and a built-in one.\<close>

definition demo_inherit :: prepare_state where
  "demo_inherit = demo_prepare ((demo_code Map.empty [500 \<mapsto> demo_function, 600 \<mapsto> demo_function\<lparr>fn_type := ZEND_INTERNAL_FUNCTION\<rparr>])
     \<lparr>cs_function_table := (\<lambda>_. [])(1 := [(''f'', 500), (''strlen'', 600)])\<rparr>)"


section \<open>Resources\<close>

lemma critical_ok:
  assumes "can_lock 1 {LGlobal} t (prepare_world s)" and "body (set_world (lock_w t LGlobal (prepare_world s)) s) = Some (r, s')"
    and "prepare_world s' = lock_w t LGlobal w'" and "w_monitors w' = w_monitors (prepare_world s)"
  shows "preparation_critical t body s = Some (r, set_world w' s')"
proof -
  have m: "monitor_lockable 1 t (w_monitors (prepare_world s) LGlobal)" using can_lockD [OF assms(1)] by simp
  then have "pthreads_globals_lock t (prepare_world s) = Some (True, lock_w t LGlobal (prepare_world s))"
    by (simp add: pthreads_globals_lock_def monitor_lock_def monitor_lock_ok lock_w_def)
  moreover have "pthreads_globals_unlock t (lock_w t LGlobal w') = w'"
    using m assms(4) by (simp add: pthreads_globals_unlock_def unlock_lock_w)
  ultimately show ?thesis using assms(2,3) by (simp add: preparation_critical_def)
qed

text \<open>
  C29. A thread that ends destroys its own resources and no others: when a thread that was prepared
  shuts down, the resources that are destroyed are exactly those in its list that it did not restore
  from a thread of another context, its list is empty and the global monitor is free again.
\<close>

theorem foreign_resources_survive:
  assumes "can_lock 1 {LGlobal} t (prepare_world s)"
  shows "\<exists>destroyed s'. pthreads_prepared_shutdown t (pthreads_prepare_resource_destructor t s) = Some (destroyed, s') \<and>
    set destroyed = {r \<in> set (zg_regular_list (w_zg (prepare_world s) t)). \<not> pthreads_resources_kept t r (prepare_world s)} \<and>
    zg_regular_list (w_zg (prepare_world s') t) = [] \<and> w_monitors (prepare_world s') = w_monitors (prepare_world s)"
proof -
  define p where "p = pthreads_prepare_resource_destructor t s"
  have p: "prepare_world p = prepare_world s" "ps_list_dtor p t = PreparedResourceDtor"
    by (simp_all add: p_def pthreads_prepare_resource_destructor_def Let_def)
  let ?w = "prepare_world s"
  let ?w' = "set_zg t ((w_zg ?w t)\<lparr>zg_regular_list := []\<rparr>) ?w"
  let ?kept = "\<lambda>r. pthreads_resources_kept t r ?w"
  have kept: "pthreads_resources_kept t r (lock_w t LGlobal ?w) = ?kept r" for r by (simp add: pthreads_resources_kept_def)
  define list where "list = zg_regular_list (w_zg ?w t)"
  have run: "pthreads_prepared_shutdown t p = Some (rev (filter (\<lambda>r. \<not> ?kept r) list), set_world ?w' (set_world (lock_w t LGlobal ?w') p))"
    unfolding pthreads_prepared_shutdown_def
    by (rule critical_ok) (use assms p kept in
      \<open>auto simp: set_world_def list_def pthreads_resources_cleanup_def resource_destroyed_def pthreads_prepared_resource_dtor_def
         filter_empty_conv Let_def lock_w_def set_zg_def\<close>)
  show ?thesis
    by (intro exI conjI, rule run [unfolded p_def]) (auto simp: list_def set_world_def set_zg_def)
qed

theorem foreign_resources_survive_witness:
  "\<exists>destroyed s'. pthreads_prepared_shutdown 2 (pthreads_prepare_resource_destructor 2 (demo_prepare (demo_code Map.empty Map.empty
      \<lparr>cs_world := empty_world\<lparr>w_zg := (\<lambda>_. empty_zglobals\<lparr>zg_regular_list := [7, 8], zg_resources := [8 \<mapsto> 1]\<rparr>)\<rparr>\<rparr>))) =
      Some (destroyed, s') \<and> set destroyed = {7}"
proof -
  let ?w = "empty_world\<lparr>w_zg := (\<lambda>_. empty_zglobals\<lparr>zg_regular_list := [7, 8], zg_resources := [8 \<mapsto> 1]\<rparr>)\<rparr>"
  let ?s = "demo_prepare (demo_code Map.empty Map.empty\<lparr>cs_world := ?w\<rparr>)"
  have w: "prepare_world ?s = ?w" by (simp add: demo_prepare_def)
  have "can_lock 1 {LGlobal} 2 ?w" by (rule can_lock_same [OF _ empty_world_can_lock]) simp_all
  with foreign_resources_survive [of 2 ?s] w
  have "\<exists>destroyed s'. pthreads_prepared_shutdown 2 (pthreads_prepare_resource_destructor 2 ?s) = Some (destroyed, s') \<and>
    set destroyed = {r \<in> set (zg_regular_list (w_zg ?w 2)). \<not> pthreads_resources_kept 2 r ?w}"
    by fastforce
  moreover have "{r \<in> set (zg_regular_list (w_zg ?w 2)). \<not> pthreads_resources_kept 2 r ?w} = {7}"
    by (auto simp: pthreads_resources_kept_def)
  ultimately show ?thesis by simp
qed

end
