(* ===== verification/Prepare_Class.thy ===== *)
theory Prepare_Class
  imports Prepare
begin

text \<open>
  src/prepare.c, classes: a class of the creator is copied for a new thread, with its parents,
  interfaces, methods, constants, properties and static members. A class refers to others, so the copy of a class
  copies them first; the recursion runs on fuel. A call gives an address, or \<open>None\<close> for a null pointer. A message of
  the engine that ends the process is a call that does not return.
\<close>

section \<open>What a preparation has at hand\<close>

text \<open>
  \<open>pr_source\<close> is the thread that is copied from, \<open>pr_self\<close> the one that copies. \<open>pr_zval\<close> and \<open>pr_function\<close> are
  \<open>pthreads_copy_zval\<close> and \<open>pthreads_copy_function\<close>. Of the engine: the lower case of a name, and the
  value of a case of an enum (\<open>zend_enum_fetch_case_value\<close>).
\<close>

record preparation =
  pr_engine :: zend_engine
  pr_options :: zend_ulong
  pr_source :: tid
  pr_self :: tid
  pr_zval :: "zval \<Rightarrow> zval option copying"
  pr_function :: "addr \<Rightarrow> addr copying"
  pr_tolower :: "string \<Rightarrow> string"
  pr_case_value :: "zobject \<Rightarrow> zval"

definition thread_preparation ::
  "nat \<Rightarrow> zend_layout \<Rightarrow> zend_engine \<Rightarrow> (addr \<Rightarrow> string) \<Rightarrow> (string \<Rightarrow> string) \<Rightarrow> (zobject \<Rightarrow> zval) \<Rightarrow> zend_ulong \<Rightarrow> tid \<Rightarrow>
   tid \<Rightarrow> preparation" where
  "thread_preparation n L E nm tolower cases options source t =
     \<lparr>pr_engine = E, pr_options = options, pr_source = source, pr_self = t, pr_zval = pthreads_copy_zval n L E nm t,
      pr_function = pthreads_copy_function n L E nm t, pr_tolower = tolower, pr_case_value = cases\<rparr>"

type_synonym 'a preparing = "prepare_state \<Rightarrow> ('a \<times> prepare_state) option"

definition on_code :: "'a copying \<Rightarrow> 'a preparing" where
  "on_code f s = do { (r, code) \<leftarrow> f (ps_code s); Some (r, s\<lparr>ps_code := code\<rparr>) }"

definition new_address :: "prepare_state \<Rightarrow> addr \<times> prepare_state" where
  "new_address s = (let (a, code) = emalloc 1 (ps_code s) in (a, s\<lparr>ps_code := code\<rparr>))"

definition copy_name :: "preparation \<Rightarrow> zend_string \<Rightarrow> prepare_state \<Rightarrow> zend_string \<times> prepare_state" where
  "copy_name P = copy_string_ps (pr_engine P) (pr_self P)"

definition copy_name_option ::
  "preparation \<Rightarrow> zend_string option \<Rightarrow> prepare_state \<Rightarrow> zend_string option \<times> prepare_state" where
  "copy_name_option P str s =
     (let (c, code) = copy_string_option (pr_engine P) (pr_self P) str (ps_code s) in (c, s\<lparr>ps_code := code\<rparr>))"

definition copy_attributes :: "preparation \<Rightarrow> zend_attribute list option \<Rightarrow> zend_attribute list option preparing" where
  "copy_attributes P = (\<lambda>old. on_code (pthreads_copy_attributes (pr_engine P) (pr_zval P) (pr_self P) old))"

definition upd_class :: "addr \<Rightarrow> (zend_class_entry \<Rightarrow> zend_class_entry) \<Rightarrow> prepare_state \<Rightarrow> prepare_state option" where
  "upd_class a f s = do {
     ce \<leftarrow> ps_classes s a;
     Some (s\<lparr>ps_classes := (ps_classes s)(a \<mapsto> f ce)\<rparr>) }"

definition inherits_comments :: "preparation \<Rightarrow> bool" where
  "inherits_comments P \<longleftrightarrow> and (pr_options P) PTHREADS_INHERIT_COMMENTS \<noteq> 0"

section \<open>Constants\<close>

text \<open>
  \<open>zend_enum_add_case\<close> of the engine: the backing value is entered into the table of the enum, and the case
  becomes a constant that is a syntax tree until it is first used.
\<close>

definition backing_key :: "zval \<Rightarrow> zkey option" where
  "backing_key v = (case v of IS_STRING str \<Rightarrow> Some (KStr (zs_val str)) | IS_LONG l \<Rightarrow> Some (KLong l) | _ \<Rightarrow> None)"

definition zend_enum_add_case :: "addr \<Rightarrow> zend_string \<Rightarrow> zval option \<Rightarrow> prepare_state \<Rightarrow> prepare_state option" where
  "zend_enum_add_case prepared name v s = do {
     s \<leftarrow> (case v of
         None \<Rightarrow> Some s
       | Some v \<Rightarrow> do {
           k \<leftarrow> backing_key v;
           ce \<leftarrow> ps_classes s prepared;
           table \<leftarrow> ce_backed_enum_table ce;
           upd_class prepared (\<lambda>ce. ce\<lparr>ce_backed_enum_table := Some (hash_add k (IS_STRING name) table)\<rparr>) s });
     let (ast, s) = new_address s;
     upd_class prepared (\<lambda>ce. ce\<lparr>ce_constants_table := hash_add (zs_val name)
       \<lparr>cc_name = name, cc_value = IS_CONSTANT_AST ast, cc_is_case = True, cc_flags = 1, cc_ce = Some prepared,
        cc_doc_comment = None, cc_attributes = None\<rparr> (ce_constants_table ce)\<rparr>) s }"

text \<open>A case of an enum whose object exists is declared anew.\<close>

definition prepare_enum_case ::
  "preparation \<Rightarrow> zend_class_entry \<Rightarrow> addr \<Rightarrow> zend_string \<Rightarrow> zobject \<Rightarrow> prepare_state \<Rightarrow> prepare_state option" where
  "prepare_enum_case P candidate prepared name obj s =
     (if \<not> ce_enum_backed candidate then zend_enum_add_case prepared name None s
      else do {
        (v, s) \<leftarrow> on_code (pr_zval P (pr_case_value P obj)) s;
        v \<leftarrow> v;
        k \<leftarrow> backing_key v;
        ce \<leftarrow> ps_classes s prepared;
        table \<leftarrow> ce_backed_enum_table ce;
        s \<leftarrow> upd_class prepared (\<lambda>ce. ce\<lparr>ce_backed_enum_table := Some (AList.delete k table)\<rparr>) s;
        zend_enum_add_case prepared name (Some v) s })"

definition prepare_value_constant ::
  "preparation \<Rightarrow> (addr \<Rightarrow> addr option preparing) \<Rightarrow> addr \<Rightarrow> zend_string \<Rightarrow> zend_class_constant \<Rightarrow> prepare_state \<Rightarrow>
   prepare_state option" where
  "prepare_value_constant P pe prepared name zc s = do {
     (v, s) \<leftarrow> on_code (pr_zval P (cc_value zc)) s;
     v \<leftarrow> v;
     (ce, s) \<leftarrow> (case cc_ce zc of None \<Rightarrow> None | Some c \<Rightarrow> pe c s);
     upd_class prepared (\<lambda>p. p\<lparr>ce_constants_table := hash_add (zs_val name)
       (zc\<lparr>cc_name := name, cc_value := v, cc_ce := ce\<rparr>) (ce_constants_table p)\<rparr>) s }"

definition upd_constant ::
  "addr \<Rightarrow> string \<Rightarrow> (zend_class_constant \<Rightarrow> zend_class_constant) \<Rightarrow> prepare_state \<Rightarrow> prepare_state option" where
  "upd_constant prepared key f s = do {
     ce \<leftarrow> ps_classes s prepared;
     rc \<leftarrow> map_of (ce_constants_table ce) key;
     upd_class prepared (\<lambda>ce. ce\<lparr>ce_constants_table := AList.update key (f rc) (ce_constants_table ce)\<rparr>) s }"

definition prepare_class_constant ::
  "preparation \<Rightarrow> (addr \<Rightarrow> addr option preparing) \<Rightarrow> zend_class_entry \<Rightarrow> addr \<Rightarrow> string \<times> zend_class_constant \<Rightarrow>
   prepare_state \<Rightarrow> prepare_state option" where
  "prepare_class_constant P pe candidate prepared kc s = do {
     let (key, zc) = kc;
     ce \<leftarrow> ps_classes s prepared;
     if map_of (ce_constants_table ce) key \<noteq> None then Some s
     else do {
       let (name, s) = copy_name P (cc_name zc) s;
       s \<leftarrow> (case (cc_is_case zc, cc_value zc) of
           (True, IS_OBJECT obj) \<Rightarrow> prepare_enum_case P candidate prepared name obj s
         | _ \<Rightarrow> prepare_value_constant P pe prepared name zc s);
       s \<leftarrow> (case cc_doc_comment zc of
           None \<Rightarrow> Some s
         | Some doc \<Rightarrow> (let (doc, s) = copy_name P doc s in upd_constant prepared key (\<lambda>rc. rc\<lparr>cc_doc_comment := Some doc\<rparr>) s));
       case cc_attributes zc of
         None \<Rightarrow> Some s
       | Some attrs \<Rightarrow> do {
           (attrs, s) \<leftarrow> copy_attributes P (Some attrs) s;
           upd_constant prepared key (\<lambda>rc. rc\<lparr>cc_attributes := attrs\<rparr>) s } } }"

definition prepare_class_constants ::
  "preparation \<Rightarrow> (addr \<Rightarrow> addr option preparing) \<Rightarrow> addr \<Rightarrow> addr \<Rightarrow> prepare_state \<Rightarrow> prepare_state option" where
  "prepare_class_constants P pe candidate prepared s = do {
     ce \<leftarrow> ps_classes s candidate;
     for_each (prepare_class_constant P pe ce prepared) (ce_constants_table ce) s }"

section \<open>Static members\<close>

text \<open>The value a cell leads to, in tables that \<open>get\<close> finds for a class; at most \<open>n\<close> pointers are followed.\<close>

fun follow :: "nat \<Rightarrow> (addr \<Rightarrow> static_member list option) \<Rightarrow> static_member \<Rightarrow> zval option" where
  "follow n get (Static v) = Some v"
| "follow 0 get (StaticOf c i) = None"
| "follow (Suc n) get (StaticOf c i) = do {
     table \<leftarrow> get c;
     if i < length table then follow n get (table ! i) else None }"

definition default_members :: "prepare_state \<Rightarrow> addr \<Rightarrow> static_member list option" where
  "default_members s c = do { ce \<leftarrow> ps_classes s c; ce_default_static_members_table ce }"

text \<open>\<open>zend_class_init_statics\<close> of the engine: the current values of a class start as its default values.\<close>

definition init_member :: "static_member list \<Rightarrow> nat \<Rightarrow> addr \<Rightarrow> static_member" where
  "init_member parents i parent = (case parents ! i of Static _ \<Rightarrow> StaticOf parent i | StaticOf c j \<Rightarrow> StaticOf c j)"

fun zend_class_init_statics :: "nat \<Rightarrow> tid \<Rightarrow> addr \<Rightarrow> prepare_state \<Rightarrow> prepare_state option" where
  "zend_class_init_statics 0 t c s = None"
| "zend_class_init_statics (Suc n) t c s = do {
     ce \<leftarrow> ps_classes s c;
     if ce_default_static_members_count ce = 0 \<or> ps_static_members s t c \<noteq> None then Some s
     else do {
       parent \<leftarrow> read_parent ce;
       s \<leftarrow> (case parent of None \<Rightarrow> Some s | Some p \<Rightarrow> zend_class_init_statics n t p s);
       defaults \<leftarrow> ce_default_static_members_table ce;
       members \<leftarrow> those (map (\<lambda>(i, m). case m of
           Static v \<Rightarrow> Some (Static v)
         | StaticOf _ _ \<Rightarrow> do {
             p \<leftarrow> parent; ps \<leftarrow> ps_static_members s t p;
             if i < length ps then Some (init_member ps i p) else None }) (enumerate 0 defaults));
       Some (s\<lparr>ps_static_members := (ps_static_members s)(t := (ps_static_members s t)(c \<mapsto> members))\<rparr>) } }"

text \<open>
  The loop of \<open>init_class_statics\<close>, for the indices in the order given. \<open>parents\<close> are the current members of the
  parent of \<open>prepared\<close>; a value that cannot be copied becomes null.
\<close>

fun copy_current_members ::
  "nat \<Rightarrow> preparation \<Rightarrow> static_member list \<Rightarrow> addr option \<Rightarrow> static_member list \<Rightarrow> nat list \<Rightarrow> static_member list \<Rightarrow>
   static_member list preparing" where
  "copy_current_members n P defaults parent source [] members s = Some (members, s)"
| "copy_current_members n P defaults parent source (i # is) members s = do {
     (m, s) \<leftarrow> (if \<not> i < length defaults \<or> \<not> i < length members then None
       else case defaults ! i of
         StaticOf _ _ \<Rightarrow> do {
           p \<leftarrow> parent; ps \<leftarrow> ps_static_members s (pr_self P) p;
           if i < length ps then Some (init_member ps i p, s) else None }
       | Static _ \<Rightarrow>
           if \<not> i < length source then None
           else do {
             v \<leftarrow> follow n (ps_static_members s (pr_source P)) (source ! i);
             (v, s) \<leftarrow> on_code (pr_zval P v) s;
             Some (Static (case v of Some v \<Rightarrow> v | None \<Rightarrow> IS_NULL), s) });
     copy_current_members n P defaults parent source is (members[i := m]) s }"

definition init_class_statics ::
  "nat \<Rightarrow> preparation \<Rightarrow> addr \<Rightarrow> addr \<Rightarrow> prepare_state \<Rightarrow> prepare_state option" where
  "init_class_statics n P candidate prepared s = do {
     cand \<leftarrow> ps_classes s candidate;
     case (if ce_default_static_members_count cand \<noteq> 0 \<and> ZEND_ACC_LINKED \<in> ce_flags cand
           then ps_static_members s (pr_source P) candidate else None) of
       None \<Rightarrow> Some s
     | Some source \<Rightarrow>
         if ps_static_members s (pr_self P) prepared \<noteq> None then Some s
         else do {
           ce \<leftarrow> ps_classes s prepared;
           parent \<leftarrow> (if ZEND_ACC_LINKED \<in> ce_flags ce then read_parent ce else Some None);
           s \<leftarrow> (case parent of None \<Rightarrow> Some s | Some p \<Rightarrow> zend_class_init_statics n (pr_self P) p s);
           defaults \<leftarrow> (if ce_default_static_members_count ce = 0 then Some [] else ce_default_static_members_table ce);
           (members, s) \<leftarrow> copy_current_members n P defaults parent source
             (rev [0..<ce_default_static_members_count ce])
             (replicate (ce_default_static_members_count ce) (Static (uninitialized (pr_engine P)))) s;
           Some (s\<lparr>ps_static_members := (ps_static_members s)(pr_self P :=
             (ps_static_members s (pr_self P))(prepared \<mapsto> members))\<rparr>) } }"

text \<open>
  The loops of \<open>prepare_class_statics\<close>: values of the class itself, then pointers to the tables of its
  ancestors. In the second, cells below \<open>k\<close> are still to be set.
\<close>

fun copy_own_defaults ::
  "nat \<Rightarrow> preparation \<Rightarrow> nat list \<Rightarrow> static_member list \<Rightarrow> static_member list preparing" where
  "copy_own_defaults n P [] table s = Some (table, s)"
| "copy_own_defaults n P (i # is) table s = do {
     v \<leftarrow> (if i < length table then follow n (default_members s) (table ! i) else None);
     (v, s) \<leftarrow> on_code (pr_zval P v) s;
     copy_own_defaults n P is (case v of Some v \<Rightarrow> table[i := Static v] | None \<Rightarrow> table) s }"

fun point_to_ancestors ::
  "nat \<Rightarrow> (addr \<rightharpoonup> zend_class_entry) \<Rightarrow> addr option \<Rightarrow> nat \<Rightarrow> static_member list \<Rightarrow> static_member list option" where
  "point_to_ancestors 0 classes parent k table = None"
| "point_to_ancestors (Suc n) classes parent k table =
     (case parent of
        None \<Rightarrow> Some table
      | Some p \<Rightarrow> do {
          pc \<leftarrow> classes p;
          if ce_default_static_members_table pc = None then Some table
          else do {
            grand \<leftarrow> read_parent pc;
            end \<leftarrow> (case grand of None \<Rightarrow> Some 0
              | Some g \<Rightarrow> do { gc \<leftarrow> classes g; Some (ce_default_static_members_count gc) });
            point_to_ancestors n classes grand (min k end)
              (map (\<lambda>(i, m). if end \<le> i \<and> i < k then StaticOf p i else m) (enumerate 0 table)) } })"

definition prepare_class_statics ::
  "nat \<Rightarrow> preparation \<Rightarrow> addr \<Rightarrow> addr \<Rightarrow> prepare_state \<Rightarrow> prepare_state option" where
  "prepare_class_statics n P candidate prepared s = do {
     cand \<leftarrow> ps_classes s candidate;
     let count = ce_default_static_members_count cand;
     if count = 0 then upd_class prepared (\<lambda>ce. ce\<lparr>ce_default_static_members_count := 0\<rparr>) s
     else do {
       ce \<leftarrow> ps_classes s prepared;
       parent \<leftarrow> (if ZEND_ACC_LINKED \<in> ce_flags ce then read_parent ce else Some None);
       source \<leftarrow> ce_default_static_members_table cand;
       end \<leftarrow> (case parent of None \<Rightarrow> Some 0
         | Some p \<Rightarrow> do { pc \<leftarrow> ps_classes s p; Some (ce_default_static_members_count pc) });
       (table, s) \<leftarrow> copy_own_defaults n P (rev [end..<count]) (take count source) s;
       table \<leftarrow> point_to_ancestors n (ps_classes s) parent (min count end) table;
       upd_class prepared (\<lambda>ce. ce\<lparr>ce_default_static_members_count := count,
         ce_default_static_members_table := Some table\<rparr>) s } }"

section \<open>Methods\<close>

definition prepare_method ::
  "preparation \<Rightarrow> addr \<Rightarrow> string \<times> addr \<Rightarrow> prepare_state \<Rightarrow> prepare_state option" where
  "prepare_method P prepared kf s = do {
     ce \<leftarrow> ps_classes s prepared;
     if map_of (ce_function_table ce) (fst kf) \<noteq> None then Some s
     else do {
       (f, s) \<leftarrow> on_code (pr_function P (snd kf)) s;
       upd_class prepared (\<lambda>ce. ce\<lparr>ce_function_table := hash_add (fst kf) f (ce_function_table ce)\<rparr>) s } }"

definition prepare_class_function_table ::
  "preparation \<Rightarrow> addr \<Rightarrow> addr \<Rightarrow> prepare_state \<Rightarrow> prepare_state option" where
  "prepare_class_function_table P candidate prepared s = do {
     ce \<leftarrow> ps_classes s candidate;
     for_each (prepare_method P prepared) (ce_function_table ce) s }"

section \<open>Properties\<close>

text \<open>
  The names in the type of a property are copied. Unlike \<open>pthreads_copy_zend_type\<close>, the loop does not
  enter a list inside a list.
\<close>

fun copy_type_names ::
  "preparation \<Rightarrow> zend_type list \<Rightarrow> prepare_state \<Rightarrow> zend_type list \<times> prepare_state" where
  "copy_type_names P [] s = ([], s)"
| "copy_type_names P (ty # ts) s =
     (let (ty, s) = (case ty of
            TypeName m name \<Rightarrow> (let (name, s) = copy_name P name s in (TypeName m name, s))
          | _ \<Rightarrow> (ty, s));
          (ts, s) = copy_type_names P ts s
      in (ty # ts, s))"

definition prepare_property_type :: "preparation \<Rightarrow> zend_type \<Rightarrow> prepare_state \<Rightarrow> zend_type \<times> prepare_state" where
  "prepare_property_type P ty s =
     (case ty of
        TypeList m arena ts \<Rightarrow> (let (ts, s) = copy_type_names P ts s in (TypeList m arena ts, s))
      | TypeName m name \<Rightarrow> (let (name, s) = copy_name P name s in (TypeName m name, s))
      | TypeMask m \<Rightarrow> (TypeMask m, s))"

definition prepare_property_info ::
  "preparation \<Rightarrow> (addr \<Rightarrow> addr option preparing) \<Rightarrow> addr \<Rightarrow> addr \<Rightarrow> string \<times> addr \<Rightarrow> prepare_state \<Rightarrow> prepare_state option" where
  "prepare_property_info P pe candidate prepared ni s = do {
     info \<leftarrow> ps_props s (snd ni);
     c \<leftarrow> zp_ce info;
     _ \<leftarrow> ps_classes s c;
     let (dup, s) = new_address s;
     let (name, s) = copy_name P (zp_name info) s;
     let (doc, s) = (if inherits_comments P then copy_name_option P (zp_doc_comment info) s else (None, s));
     (ce, s) \<leftarrow> (if c = candidate then Some (Some prepared, s) else pe c s);
     let (ty, s) = prepare_property_type P (zp_type info) s;
     (attrs, s) \<leftarrow> (case zp_attributes info of None \<Rightarrow> Some (None, s) | Some attrs \<Rightarrow> copy_attributes P (Some attrs) s);
     let s = s\<lparr>ps_props := (ps_props s)(dup \<mapsto>
       info\<lparr>zp_name := name, zp_doc_comment := doc, zp_ce := ce, zp_type := ty, zp_attributes := attrs\<rparr>)\<rparr>;
     upd_class prepared (\<lambda>p. p\<lparr>ce_properties_info := hash_add (fst ni) dup (ce_properties_info p)\<rparr>) s }"

text \<open>
  \<open>Z_REFCOUNTED\<close>. A constant array that the optimiser has made immutable occurs in immutable classes only,
  which are not copied.
\<close>

definition refcounted :: "zval \<Rightarrow> bool" where
  "refcounted v =
     (case v of
        IS_STRING str \<Rightarrow> \<not> zs_interned str
      | IS_ARRAY _ \<Rightarrow> True | IS_OBJECT _ \<Rightarrow> True | IS_RESOURCE _ \<Rightarrow> True | IS_REFERENCE _ \<Rightarrow> True | IS_CONSTANT_AST _ \<Rightarrow> True
      | _ \<Rightarrow> False)"

fun copy_default_properties :: "preparation \<Rightarrow> zval list \<Rightarrow> zval list preparing" where
  "copy_default_properties P [] s = Some ([], s)"
| "copy_default_properties P (v # vs) s = do {
     (v, s) \<leftarrow> (if refcounted v
       then do { (c, s) \<leftarrow> on_code (pr_zval P v) s; Some (case c of Some c \<Rightarrow> c | None \<Rightarrow> IS_NULL, s) }
       else Some (v, s));
     (vs, s) \<leftarrow> copy_default_properties P vs s;
     Some (v # vs, s) }"

text \<open>Every property of the class itself that is not static is entered at its place.\<close>

definition enter_property ::
  "addr \<Rightarrow> (addr \<rightharpoonup> zend_property_info) \<Rightarrow> string \<times> addr \<Rightarrow> addr option list \<Rightarrow> addr option list option" where
  "enter_property prepared props ni table = do {
     info \<leftarrow> props (snd ni);
     if zp_ce info = Some prepared \<and> \<not> zp_static info
     then if zp_number info < length table then Some (table[zp_number info := Some (snd ni)]) else None
     else Some table }"

definition properties_info_table_of ::
  "addr \<Rightarrow> nat \<Rightarrow> prepare_state \<Rightarrow> addr option list option" where
  "properties_info_table_of prepared count s = do {
     ce \<leftarrow> ps_classes s prepared;
     parent \<leftarrow> read_parent ce;
     inherited \<leftarrow> (case parent of None \<Rightarrow> Some []
       | Some p \<Rightarrow> do {
           pc \<leftarrow> ps_classes s p;
           if ce_default_properties_count pc = 0 then Some []
           else do {
             t \<leftarrow> ce_properties_info_table pc;
             if ce_default_properties_count pc \<le> min (length t) count then Some (take (ce_default_properties_count pc) t)
             else None } });
     for_each (enter_property prepared (ps_props s)) (ce_properties_info ce)
       (inherited @ replicate (count - length inherited) None) }"

definition prepare_default_properties ::
  "preparation \<Rightarrow> addr \<Rightarrow> addr \<Rightarrow> prepare_state \<Rightarrow> prepare_state option" where
  "prepare_default_properties P candidate prepared s = do {
     cand \<leftarrow> ps_classes s candidate;
     let count = ce_default_properties_count cand;
     if count = 0 then upd_class prepared (\<lambda>ce. ce\<lparr>ce_default_properties_count := 0\<rparr>) s
     else do {
       source \<leftarrow> ce_default_properties_table cand;
       (table, s) \<leftarrow> copy_default_properties P (take count source) s;
       s \<leftarrow> upd_class prepared (\<lambda>ce. ce\<lparr>ce_default_properties_table := Some table, ce_default_properties_count := count\<rparr>) s;
       ce \<leftarrow> ps_classes s prepared;
       if ZEND_ACC_LINKED \<in> ce_flags ce
       then do {
         t \<leftarrow> properties_info_table_of prepared count s;
         upd_class prepared (\<lambda>ce. ce\<lparr>ce_properties_info_table := Some t\<rparr>) s }
       else upd_class prepared (\<lambda>ce. ce\<lparr>ce_properties_info_table := None\<rparr>) s } }"

definition prepare_class_property_table ::
  "preparation \<Rightarrow> (addr \<Rightarrow> addr option preparing) \<Rightarrow> addr \<Rightarrow> addr \<Rightarrow> prepare_state \<Rightarrow> prepare_state option" where
  "prepare_class_property_table P pe candidate prepared s = do {
     cand \<leftarrow> ps_classes s candidate;
     s \<leftarrow> for_each (prepare_property_info P pe candidate prepared) (ce_properties_info cand) s;
     prepare_default_properties P candidate prepared s }"

section \<open>Handlers, magic methods and traits\<close>

definition prepare_class_handlers :: "zend_class_entry \<Rightarrow> zend_class_entry \<Rightarrow> zend_class_entry" where
  "prepare_class_handlers candidate prepared = prepared\<lparr>ce_handlers := ce_handlers candidate\<rparr>"

definition magic_names :: "(magic_method \<times> string) list" where
  "magic_names = [(Mclone, ''__clone''), (Mget, ''__get''), (Mset, ''__set''), (Munset, ''__unset''), (Misset, ''__isset''),
     (Mcall, ''__call''), (Mcallstatic, ''__callstatic''), (Mserialize, ''__serialize''), (Munserialize, ''__unserialize''),
     (Mtostring, ''__tostring''), (Mdestructor, ''__destruct'')]"

definition find_and_set :: "magic_method \<times> string \<Rightarrow> zend_class_entry \<Rightarrow> zend_class_entry" where
  "find_and_set mn ce =
     (if ce_magic ce (fst mn) \<noteq> None then ce
      else case map_of (ce_function_table ce) (snd mn) of
        None \<Rightarrow> ce
      | Some f \<Rightarrow> ce\<lparr>ce_magic := (ce_magic ce)(fst mn \<mapsto> f)\<rparr>)"

definition find_constructor :: "zend_class_entry \<Rightarrow> zend_class_entry" where
  "find_constructor ce =
     (if map_of (ce_function_table ce) ''__construct'' \<noteq> None then find_and_set (Mconstructor, ''__construct'') ce
      else find_and_set (Mconstructor, zs_val (ce_name ce)) ce)"

definition function_refs :: "string list \<Rightarrow> zend_class_entry \<Rightarrow> string \<rightharpoonup> addr" where
  "function_refs names ce = map_of (ce_function_table ce) |` set names"

definition prepare_class_interceptors :: "zend_class_entry \<Rightarrow> zend_class_entry \<Rightarrow> zend_class_entry" where
  "prepare_class_interceptors candidate prepared =
     (let ce = fold find_and_set magic_names (find_constructor prepared)
      in ce\<lparr>ce_iterator_funcs := (if ce_iterator_funcs candidate = None then None
              else Some (function_refs [''new_iterator'', ''valid'', ''current'', ''key'', ''next'', ''rewind''] ce)),
            ce_arrayaccess_funcs := (if ce_arrayaccess_funcs candidate = None then None
              else Some (function_refs [''offsetget'', ''offsetexists'', ''offsetset'', ''offsetunset''] ce))\<rparr>)"

text \<open>A list of names or of rules, each copied in turn.\<close>

fun copy_each :: "('a \<Rightarrow> code_state \<Rightarrow> 'a \<times> code_state) \<Rightarrow> 'a list \<Rightarrow> code_state \<Rightarrow> 'a list \<times> code_state" where
  "copy_each f [] s = ([], s)"
| "copy_each f (x # xs) s = (let (y, s) = f x s; (ys, s) = copy_each f xs s in (y # ys, s))"

definition copy_trait_name :: "preparation \<Rightarrow> zend_class_name \<Rightarrow> code_state \<Rightarrow> zend_class_name \<times> code_state" where
  "copy_trait_name P n s =
     (let (lc, s) = pthreads_copy_string (pr_engine P) (pr_self P) (cn_lc_name n) s;
          (name, s) = pthreads_copy_string (pr_engine P) (pr_self P) (cn_name n) s
      in (\<lparr>cn_name = name, cn_lc_name = lc\<rparr>, s))"

definition copy_interface_name :: "preparation \<Rightarrow> zend_class_name \<Rightarrow> code_state \<Rightarrow> zend_class_name \<times> code_state" where
  "copy_interface_name P n s =
     (let (name, s) = pthreads_copy_string (pr_engine P) (pr_self P) (cn_name n) s;
          (lc, s) = pthreads_copy_string (pr_engine P) (pr_self P) (cn_lc_name n) s
      in (\<lparr>cn_name = name, cn_lc_name = lc\<rparr>, s))"

definition copy_each_option ::
  "('a \<Rightarrow> code_state \<Rightarrow> 'a \<times> code_state) \<Rightarrow> 'a list option \<Rightarrow> code_state \<Rightarrow> 'a list option \<times> code_state" where
  "copy_each_option f old s =
     (case old of None \<Rightarrow> (None, s) | Some xs \<Rightarrow> (let (ys, s) = copy_each f xs s in (Some ys, s)))"

definition prepare_class_traits :: "preparation \<Rightarrow> addr \<Rightarrow> addr \<Rightarrow> prepare_state \<Rightarrow> prepare_state option" where
  "prepare_class_traits P candidate prepared s = do {
     cand \<leftarrow> ps_classes s candidate;
     let E = pr_engine P; t = pr_self P;
         (names, code) = copy_each (copy_trait_name P) (ce_trait_names cand) (ps_code s);
         (aliases, code) = copy_each_option (pthreads_preparation_copy_trait_alias E t) (ce_trait_aliases cand) code;
         (precedences, code) = copy_each_option (pthreads_preparation_copy_trait_precedence E t) (ce_trait_precedences cand) code
     in upd_class prepared (\<lambda>ce. ce\<lparr>ce_trait_names := names, ce_trait_aliases := aliases,
         ce_trait_precedences := precedences\<rparr>) (s\<lparr>ps_code := code\<rparr>) }"

section \<open>A class entry\<close>

definition entry_of :: "addr option \<Rightarrow> class_parent" where
  "entry_of p = (case p of None \<Rightarrow> NoParent | Some q \<Rightarrow> Parent q)"

definition complete_parent ::
  "preparation \<Rightarrow> (addr \<Rightarrow> addr option preparing) \<Rightarrow> zend_class_entry \<Rightarrow> addr \<Rightarrow> prepare_state \<Rightarrow> prepare_state option" where
  "complete_parent P pe cand prepared s =
     (if ZEND_ACC_LINKED \<in> ce_flags cand
      then do {
        parent \<leftarrow> read_parent cand;
        case parent of
          None \<Rightarrow> Some s
        | Some p \<Rightarrow> do { (q, s) \<leftarrow> pe p s; upd_class prepared (\<lambda>ce. ce\<lparr>ce_parent := entry_of q\<rparr>) s } }
      else case ce_parent cand of
        NoParent \<Rightarrow> Some s
      | ParentName name \<Rightarrow> (let (name, s) = copy_name P name s in upd_class prepared (\<lambda>ce. ce\<lparr>ce_parent := ParentName name\<rparr>) s)
      | Parent _ \<Rightarrow> None)"

fun prepare_entries :: "(addr \<Rightarrow> addr option preparing) \<Rightarrow> addr option list \<Rightarrow> addr option list preparing" where
  "prepare_entries pe [] s = Some ([], s)"
| "prepare_entries pe (c # cs) s = do {
     (q, s) \<leftarrow> (case c of None \<Rightarrow> Some (None, s) | Some c \<Rightarrow> pe c s);
     (qs, s) \<leftarrow> prepare_entries pe cs s;
     Some (q # qs, s) }"

definition complete_interfaces ::
  "preparation \<Rightarrow> (addr \<Rightarrow> addr option preparing) \<Rightarrow> zend_class_entry \<Rightarrow> addr \<Rightarrow> prepare_state \<Rightarrow> prepare_state option" where
  "complete_interfaces P pe cand prepared s =
     (if ce_num_interfaces cand = 0 then upd_class prepared (\<lambda>ce. ce\<lparr>ce_num_interfaces := 0\<rparr>) s
      else if ZEND_ACC_LINKED \<in> ce_flags cand
      then do {
        interfaces \<leftarrow> read_interfaces cand;
        (qs, s) \<leftarrow> prepare_entries pe interfaces s;
        upd_class prepared (\<lambda>ce. ce\<lparr>ce_interfaces := Interfaces qs, ce_num_interfaces := ce_num_interfaces cand\<rparr>) s }
      else do {
        names \<leftarrow> read_interface_names cand;
        (names, s) \<leftarrow> on_code (\<lambda>code. Some (copy_each (copy_interface_name P) names code)) s;
        upd_class prepared (\<lambda>ce. ce\<lparr>ce_interfaces := InterfaceNames names, ce_num_interfaces := ce_num_interfaces cand\<rparr>) s })"

definition pthreads_complete_entry ::
  "preparation \<Rightarrow> (addr \<Rightarrow> addr option preparing) \<Rightarrow> addr \<Rightarrow> addr \<Rightarrow> prepare_state \<Rightarrow> prepare_state option" where
  "pthreads_complete_entry P pe candidate prepared s = do {
     cand \<leftarrow> ps_classes s candidate;
     s \<leftarrow> upd_class prepared (\<lambda>ce. ce\<lparr>ce_flags := ce_flags cand\<rparr>) s;
     s \<leftarrow> complete_parent P pe cand prepared s;
     s \<leftarrow> complete_interfaces P pe cand prepared s;
     s \<leftarrow> prepare_class_traits P candidate prepared s;
     s \<leftarrow> upd_class prepared (prepare_class_handlers cand) s;
     s \<leftarrow> prepare_class_function_table P candidate prepared s;
     upd_class prepared (prepare_class_interceptors cand) s }"

fun prepare_backed_enum_table ::
  "preparation \<Rightarrow> (zkey \<times> zval) list \<Rightarrow> (zkey \<times> zval) list \<Rightarrow> (zkey \<times> zval) list preparing" where
  "prepare_backed_enum_table P [] result s = Some (result, s)"
| "prepare_backed_enum_table P ((k, v) # table) result s = do {
     (v, s) \<leftarrow> on_code (pr_zval P v) s;
     prepare_backed_enum_table P table (case v of None \<Rightarrow> result | Some v \<Rightarrow> hash_add k v result) s }"

text \<open>\<open>zend_initialize_class_data\<close> of the engine.\<close>

definition zend_initialize_class_data :: "class_type \<Rightarrow> zend_string \<Rightarrow> zend_class_entry" where
  "zend_initialize_class_data ty name =
     \<lparr>ce_type = ty, ce_name = name, ce_flags = {}, ce_refcount = 1, ce_parent = NoParent, ce_num_interfaces = 0,
      ce_interfaces = Interfaces [], ce_function_table = [], ce_properties_info = [], ce_constants_table = [],
      ce_default_properties_count = 0, ce_default_properties_table = None, ce_properties_info_table = None,
      ce_default_static_members_count = 0, ce_default_static_members_table = None, ce_magic = Map.empty,
      ce_handlers = \<lparr>ch_create_object = 0, ch_serialize = 0, ch_unserialize = 0, ch_get_iterator = 0,
        ch_interface_gets_implemented = 0, ch_get_static_method = 0\<rparr>,
      ce_iterator_funcs = None, ce_arrayaccess_funcs = None, ce_trait_names = [], ce_trait_aliases = None,
      ce_trait_precedences = None, ce_attributes = None, ce_enum_backed = False, ce_backed_enum_table = None,
      ce_filename = None, ce_lines = (0, 0), ce_doc_comment = None\<rparr>"

definition pthreads_copy_entry ::
  "preparation \<Rightarrow> (addr \<Rightarrow> addr option preparing) \<Rightarrow> addr \<Rightarrow> addr preparing" where
  "pthreads_copy_entry P pe candidate s = do {
     cand \<leftarrow> ps_classes s candidate;
     let (prepared, s) = new_address s;
     let (name, s) = copy_name P (ce_name cand) s;
     let ce = (zend_initialize_class_data (ce_type cand) name)\<lparr>ce_flags := ce_flags cand, ce_lines := ce_lines cand\<rparr>;
     let (doc, s) = (if inherits_comments P then copy_name_option P (ce_doc_comment cand) s else (None, s));
     (attrs, s) \<leftarrow> (case ce_attributes cand of None \<Rightarrow> Some (None, s) | Some attrs \<Rightarrow> copy_attributes P (Some attrs) s);
     (enum_table, s) \<leftarrow> (case ce_backed_enum_table cand of
         None \<Rightarrow> Some (None, s)
       | Some table \<Rightarrow> do { (new, s) \<leftarrow> prepare_backed_enum_table P table [] s; Some (Some new, s) });
     let (file, s) = (case ce_filename cand of
         None \<Rightarrow> (None, s)
       | Some file \<Rightarrow> (let (copy, code) = copy_filename (pr_engine P) (pr_self P) file (ps_code s) in (Some copy, s\<lparr>ps_code := code\<rparr>)));
     let s = s\<lparr>ps_classes := (ps_classes s)(prepared \<mapsto> ce\<lparr>ce_doc_comment := doc, ce_attributes := attrs,
       ce_enum_backed := ce_enum_backed cand, ce_backed_enum_table := enum_table, ce_filename := file\<rparr>)\<rparr>;
     s \<leftarrow> pthreads_complete_entry P pe candidate prepared s;
     Some (prepared, s) }"

text \<open>The methods of a copied class belong to the copy; those of other classes to the copies of these.\<close>

definition set_scope :: "addr \<Rightarrow> addr option \<Rightarrow> prepare_state \<Rightarrow> prepare_state option" where
  "set_scope f scope s = do {
     fn \<leftarrow> cs_funs (ps_code s) f;
     Some (s\<lparr>ps_code := (ps_code s)\<lparr>cs_funs := (cs_funs (ps_code s))(f \<mapsto> fn\<lparr>fn_scope := scope\<rparr>)\<rparr>\<rparr>) }"

definition pthreads_prepared_entry_function_prepare ::
  "(addr \<Rightarrow> addr option preparing) \<Rightarrow> addr \<Rightarrow> addr \<Rightarrow> string \<times> addr \<Rightarrow> prepare_state \<Rightarrow> prepare_state option" where
  "pthreads_prepared_entry_function_prepare pe candidate prepared kf s = do {
     fn \<leftarrow> cs_funs (ps_code s) (snd kf);
     case fn_scope fn of
       None \<Rightarrow> Some s
     | Some c \<Rightarrow>
         if c = candidate then set_scope (snd kf) (Some prepared) s
         else do {
           cc \<leftarrow> ps_classes s c;
           if ce_type cc = ZEND_USER_CLASS
           then do { (q, s) \<leftarrow> pe c s; set_scope (snd kf) q s }
           else Some s } }"

section \<open>Class tables\<close>

definition set_class :: "tid \<Rightarrow> string \<Rightarrow> addr \<Rightarrow> prepare_state \<Rightarrow> prepare_state" where
  "set_class t name c s = s\<lparr>ps_class_table := (ps_class_table s)(t := AList.update name c (ps_class_table s t))\<rparr>"

definition pthreads_prepared_entry_late_bindings ::
  "nat \<Rightarrow> preparation \<Rightarrow> (addr \<Rightarrow> addr option preparing) \<Rightarrow> addr \<Rightarrow> addr \<Rightarrow> prepare_state \<Rightarrow> prepare_state option" where
  "pthreads_prepared_entry_late_bindings n P pe candidate prepared s = do {
     cand \<leftarrow> ps_classes s candidate;
     s \<leftarrow> (if ZEND_ACC_IMMUTABLE \<in> ce_flags cand then Some s
       else do {
         s \<leftarrow> prepare_class_property_table P pe candidate prepared s;
         s \<leftarrow> prepare_class_statics n P candidate prepared s;
         prepare_class_constants P pe candidate prepared s });
     init_class_statics n P candidate prepared s }"

text \<open>The classes that the type of a property names, as the creator's table has them.\<close>

fun type_names :: "zend_type \<Rightarrow> zend_string list" where
  "type_names (TypeName m name) = [name]"
| "type_names (TypeList m arena ts) = concat (map (\<lambda>ty. case ty of TypeName _ name \<Rightarrow> [name] | _ \<Rightarrow> []) ts)"
| "type_names (TypeMask m) = []"

definition create_named ::
  "preparation \<Rightarrow> (addr \<Rightarrow> addr option preparing) \<Rightarrow> zend_string \<Rightarrow> prepare_state \<Rightarrow> prepare_state option" where
  "create_named P create name s =
     (case map_of (ps_class_table s (pr_source P)) (pr_tolower P (zs_val name)) of
        None \<Rightarrow> Some s
      | Some c \<Rightarrow> do { (_, s) \<leftarrow> create c s; Some s })"

definition pthreads_prepare_immutable_class_dependencies ::
  "preparation \<Rightarrow> (addr \<Rightarrow> addr option preparing) \<Rightarrow> addr \<Rightarrow> prepare_state \<Rightarrow> prepare_state option" where
  "pthreads_prepare_immutable_class_dependencies P create candidate s = do {
     cand \<leftarrow> ps_classes s candidate;
     s \<leftarrow> (if ZEND_ACC_LINKED \<in> ce_flags cand
       then do {
         parent \<leftarrow> read_parent cand;
         interfaces \<leftarrow> read_interfaces cand;
         (_, s) \<leftarrow> prepare_entries create (parent # interfaces) s;
         Some s }
       else Some s);
     for_each (\<lambda>ni s. do {
       info \<leftarrow> ps_props s (snd ni);
       for_each (create_named P create) (type_names (zp_type info)) s }) (ce_properties_info cand) s }"

text \<open>
  \<open>pthreads_create_entry\<close>. A built-in or preloaded class is the one the thread has (\<open>zend_lookup_class\<close>). The
  class is entered under its name in lower case before its members are copied, so that members that refer to
  it find it.
\<close>

definition unbound_anonymous :: "zend_class_entry \<Rightarrow> bool" where
  "unbound_anonymous ce \<longleftrightarrow> ZEND_ACC_ANON_CLASS \<in> ce_flags ce \<and> ZEND_ACC_LINKED \<notin> ce_flags ce"

definition bound_anonymous :: "zend_class_entry \<Rightarrow> bool" where
  "bound_anonymous ce \<longleftrightarrow> ZEND_ACC_ANON_CLASS \<in> ce_flags ce \<and> ZEND_ACC_LINKED \<in> ce_flags ce"

definition create_new_entry ::
  "nat \<Rightarrow> preparation \<Rightarrow> (bool \<Rightarrow> addr \<Rightarrow> addr option preparing) \<Rightarrow> string \<Rightarrow> addr \<Rightarrow> bool \<Rightarrow> addr option preparing" where
  "create_new_entry n P create lookup candidate do_late_bindings s = do {
     cand \<leftarrow> ps_classes s candidate;
     if ZEND_ACC_IMMUTABLE \<in> ce_flags cand
     then do {
       let s = set_class (pr_self P) lookup candidate s;
       s \<leftarrow> pthreads_prepare_immutable_class_dependencies P (create do_late_bindings) candidate s;
       s \<leftarrow> (if do_late_bindings then pthreads_prepared_entry_late_bindings n P (create True) candidate candidate s else Some s);
       Some (Some candidate, s) }
     else do {
       (prepared, s) \<leftarrow> pthreads_copy_entry P (create True) candidate s;
       let s = set_class (pr_self P) lookup prepared s;
       s \<leftarrow> (if do_late_bindings then pthreads_prepared_entry_late_bindings n P (create True) candidate prepared s else Some s);
       s \<leftarrow> pthreads_prepare_closures (pr_function P) (pr_source P) (pr_self P) s;
       ce \<leftarrow> ps_classes s prepared;
       s \<leftarrow> for_each (pthreads_prepared_entry_function_prepare (create True) candidate prepared) (ce_function_table ce) s;
       Some (Some prepared, s) } }"

definition update_entry ::
  "nat \<Rightarrow> preparation \<Rightarrow> (bool \<Rightarrow> addr \<Rightarrow> addr option preparing) \<Rightarrow> addr \<Rightarrow> addr \<Rightarrow> bool \<Rightarrow> addr option preparing" where
  "update_entry n P create candidate prepared do_late_bindings s = do {
     s \<leftarrow> pthreads_complete_entry P (create True) candidate prepared s;
     s \<leftarrow> (if do_late_bindings then pthreads_prepared_entry_late_bindings n P (create True) candidate prepared s else Some s);
     Some (Some prepared, s) }"

fun pthreads_create_entry :: "nat \<Rightarrow> preparation \<Rightarrow> bool \<Rightarrow> addr \<Rightarrow> addr option preparing" where
  "pthreads_create_entry 0 P do_late_bindings candidate s = None"
| "pthreads_create_entry (Suc n) P do_late_bindings candidate s = do {
     cand \<leftarrow> ps_classes s candidate;
     let lookup = pr_tolower P (zs_val (ce_name cand));
     let found = map_of (ps_class_table s (pr_self P)) lookup;
     if ce_type cand = ZEND_INTERNAL_CLASS \<or> ZEND_ACC_PRELOADED \<in> ce_flags cand then Some (found, s)
     else case found of
       None \<Rightarrow> create_new_entry n P (pthreads_create_entry n P) lookup candidate do_late_bindings s
     | Some prepared \<Rightarrow> do {
         ce \<leftarrow> ps_classes s prepared;
         if unbound_anonymous ce \<and> bound_anonymous cand
         then if ZEND_ACC_IMMUTABLE \<in> ce_flags ce
           then create_new_entry n P (pthreads_create_entry n P) lookup candidate do_late_bindings s
           else update_entry n P (pthreads_create_entry n P) candidate prepared do_late_bindings s
         else Some (Some prepared, s) } }"

definition pthreads_prepared_entry :: "nat \<Rightarrow> preparation \<Rightarrow> addr \<Rightarrow> addr option preparing" where
  "pthreads_prepared_entry n P = pthreads_create_entry n P True"

definition pthreads_prepare_single_class :: "nat \<Rightarrow> preparation \<Rightarrow> addr \<Rightarrow> addr option preparing" where
  "pthreads_prepare_single_class n P candidate s = pthreads_prepared_entry n P candidate s"

text \<open>Entries that are added to the table during the loop are not visited.\<close>

definition pthreads_context_late_bindings :: "nat \<Rightarrow> preparation \<Rightarrow> prepare_state \<Rightarrow> prepare_state option" where
  "pthreads_context_late_bindings n P s =
     for_each (\<lambda>(name, c) s. do {
       ce \<leftarrow> ps_classes s c;
       if ce_type ce = ZEND_INTERNAL_CLASS then Some s
       else do {
         candidate \<leftarrow> map_of (ps_class_table s (pr_source P)) name;
         pthreads_prepared_entry_late_bindings n P (pthreads_prepared_entry n P) candidate c s } })
       (ps_class_table s (pr_self P)) s"

definition pthreads_prepare_classes :: "nat \<Rightarrow> preparation \<Rightarrow> prepare_state \<Rightarrow> prepare_state option" where
  "pthreads_prepare_classes n P s = do {
     s \<leftarrow> for_each (\<lambda>(name, c) s.
         if map_of (ps_class_table s (pr_self P)) name = None \<and> name \<noteq> [] \<and> hd name \<noteq> CHR 0x00
         then do { (_, s) \<leftarrow> pthreads_create_entry n P False c s; Some s }
         else Some s) (ps_class_table s (pr_source P)) s;
     pthreads_context_late_bindings n P s }"

section \<open>Starting a thread\<close>

text \<open>One step of a preparation; \<open>thread_ce\<close> is the class of the thread.\<close>

definition prepare_step_run :: "nat \<Rightarrow> preparation \<Rightarrow> addr \<Rightarrow> prepare_step \<Rightarrow> prepare_state \<Rightarrow> prepare_state option" where
  "prepare_step_run n P thread_ce st s =
     (let E = pr_engine P; t = pr_self P; src = pr_source P; options = pr_options P in
      case st of
        PrepareSapi \<Rightarrow> Some (pthreads_prepare_sapi t options s)
      | PrepareIni \<Rightarrow> Some (pthreads_prepare_ini E src t options s)
      | PrepareConstants \<Rightarrow> pthreads_prepare_constants E (pr_tolower P) (pr_zval P) src t s
      | PrepareFunctions \<Rightarrow> pthreads_prepare_functions (pr_function P) src t s
      | PrepareClosures \<Rightarrow> pthreads_prepare_closures (pr_function P) src t s
      | PrepareClasses \<Rightarrow> pthreads_prepare_classes n P s
      | CreateEntry \<Rightarrow> do { (_, s) \<leftarrow> pthreads_create_entry n P False thread_ce s; Some s }
      | LateBindings \<Rightarrow> pthreads_context_late_bindings n P s
      | PrepareIncludes \<Rightarrow> Some (pthreads_prepare_includes src t s)
      | PrepareResourceDestructor \<Rightarrow> Some (pthreads_prepare_resource_destructor t s))"

text \<open>
  \<open>pthreads_prepared_startup\<close>: inside the global monitor the thread of the object at \<open>a\<close> records its
  identity, inherits from its creator and announces on \<open>routine\<close> that it is ready.
\<close>

definition pthreads_prepared_startup ::
  "nat \<Rightarrow> preparation \<Rightarrow> addr \<Rightarrow> addr \<Rightarrow> addr \<Rightarrow> zend_result preparing" where
  "pthreads_prepared_startup n P a routine thread_ce s = preparation_critical (pr_self P)
     (\<lambda>s. do {
        ts \<leftarrow> w_ts (prepare_world s) a;
        let s = set_world (set_ts a (ts\<lparr>ts_local := Some (self_ident (pr_engine P) (pr_self P))\<rparr>) (prepare_world s)) s;
        s \<leftarrow> for_each (prepare_step_run n P thread_ce) (prepared_startup_steps (pr_options P)) s;
        w \<leftarrow> add_flag (pr_self P) (LReady routine) PTHREADS_MONITOR_READY (prepare_world s);
        Some (SUCCESS, set_world w s) }) s"

end
