(* ===== verification/Class_Statics.thy ===== *)
theory Class_Statics
  imports Prepare_Class Prepare_Props
begin

text \<open>
  The tables of static members of prepared classes. A table is well formed when every cell below the number of
  inherited members points to the cell of the ancestor that declares the member, and every other cell
  holds a value of its own.
\<close>

section \<open>Well-formed tables\<close>

type_synonym class_heap = "addr \<rightharpoonup> zend_class_entry"

text \<open>How many members a class inherits, its ancestors, and the ancestor that declares member \<open>i\<close>.\<close>

definition inherited_members :: "class_heap \<Rightarrow> zend_class_entry \<Rightarrow> nat" where
  "inherited_members classes ce =
     (case ce_parent ce of
        Parent p \<Rightarrow> (case classes p of Some pc \<Rightarrow> ce_default_static_members_count pc | None \<Rightarrow> 0)
      | _ \<Rightarrow> 0)"

fun lineage :: "nat \<Rightarrow> class_heap \<Rightarrow> addr \<Rightarrow> addr list" where
  "lineage 0 classes c = []"
| "lineage (Suc n) classes c =
     c # (case classes c of None \<Rightarrow> [] | Some ce \<Rightarrow> (case ce_parent ce of Parent p \<Rightarrow> lineage n classes p | _ \<Rightarrow> []))"

fun declaring :: "nat \<Rightarrow> class_heap \<Rightarrow> addr \<Rightarrow> nat \<Rightarrow> addr" where
  "declaring 0 classes c i = c"
| "declaring (Suc n) classes c i =
     (case classes c of
        None \<Rightarrow> c
      | Some ce \<Rightarrow> if i < inherited_members classes ce
          then (case ce_parent ce of Parent p \<Rightarrow> declaring n classes p i | _ \<Rightarrow> c) else c)"

definition members_wf :: "nat \<Rightarrow> nat \<Rightarrow> (nat \<Rightarrow> addr) \<Rightarrow> static_member list \<Rightarrow> bool" where
  "members_wf count inherited decl table \<longleftrightarrow> length table = count \<and>
     (\<forall>i<count. if i < inherited then table ! i = StaticOf (decl i) i
        else \<exists>v. table ! i = Static v)"

lemma members_wfD:
  assumes "members_wf count inherited decl table" and "i < count"
  shows "i < inherited \<Longrightarrow> table ! i = StaticOf (decl i) i" and "\<not> i < inherited \<Longrightarrow> \<exists>v. table ! i = Static v"
    and "length table = count"
  using assms unfolding members_wf_def by presburger+

fun statics_wf :: "nat \<Rightarrow> class_heap \<Rightarrow> addr \<Rightarrow> bool" where
  "statics_wf 0 classes c = False"
| "statics_wf (Suc n) classes c =
     (case classes c of
        None \<Rightarrow> False
      | Some ce \<Rightarrow>
          (case ce_parent ce of NoParent \<Rightarrow> True | Parent p \<Rightarrow> statics_wf n classes p | ParentName _ \<Rightarrow> False) \<and>
          inherited_members classes ce \<le> ce_default_static_members_count ce \<and>
          (ce_default_static_members_count ce = 0 \<or>
           (case ce_default_static_members_table ce of
              None \<Rightarrow> False
            | Some t \<Rightarrow> members_wf (ce_default_static_members_count ce) (inherited_members classes ce)
                (declaring (Suc n) classes c) t)))"

lemma statics_wfE:
  assumes "statics_wf n classes c"
  obtains m ce where "n = Suc m" "classes c = Some ce" "inherited_members classes ce \<le> ce_default_static_members_count ce"
    "ce_parent ce = NoParent \<or> (\<exists>p. ce_parent ce = Parent p \<and> statics_wf m classes p)"
    "ce_default_static_members_count ce = 0 \<or> (\<exists>t. ce_default_static_members_table ce = Some t \<and>
       members_wf (ce_default_static_members_count ce) (inherited_members classes ce) (declaring (Suc m) classes c) t)"
  using assms by (cases n) (auto split: option.splits class_parent.splits)

text \<open>Well-formedness of a class only depends on its lineage.\<close>

lemma lineage_self: "statics_wf n classes c \<Longrightarrow> c \<in> set (lineage n classes c)"
  by (cases n) auto

lemma statics_cong:
  assumes "statics_wf n classes c" and "\<forall>d\<in>set (lineage n classes c). classes' d = classes d"
  shows "statics_wf n classes' c \<and> (\<forall>i. declaring n classes' c i = declaring n classes c i)"
  using assms
proof (induction n arbitrary: c)
  case (Suc n)
  then obtain ce where ce: "classes c = Some ce" and same: "classes' c = classes c" by (auto split: option.splits)
  show ?case
  proof (cases "ce_parent ce")
    case (Parent p)
    then have p: "statics_wf n classes p" "\<forall>d\<in>set (lineage n classes p). classes' d = classes d"
      using Suc.prems ce by auto
    from Suc.IH [OF p] have ih: "statics_wf n classes' p" "\<And>i. declaring n classes' p i = declaring n classes p i" by auto
    have "classes' p = classes p" using p lineage_self by blast
    then have inh: "inherited_members classes' ce = inherited_members classes ce" using Parent by (simp add: inherited_members_def)
    have decl: "declaring (Suc n) classes' c = declaring (Suc n) classes c"
      using ce same inh ih Parent by (auto simp: fun_eq_iff)
    show ?thesis using Suc.prems(1) ce same Parent ih(1) inh by (auto simp: decl simp del: declaring.simps split: option.splits)
  qed (use Suc.prems ce same in \<open>auto simp: inherited_members_def members_wf_def split: option.splits\<close>)
qed simp

text \<open>A member that a class inherits, or declares, is a value in the table of the class that declares it.\<close>

lemma declared_value:
  assumes "statics_wf n classes c" and "classes c = Some ce" and "i < ce_default_static_members_count ce"
  shows "\<exists>dc t v. classes (declaring n classes c i) = Some dc \<and> ce_default_static_members_table dc = Some t \<and> i < length t \<and>
    t ! i = Static v"
  using assms
proof (induction n arbitrary: c ce)
  case (Suc n)
  from Suc.prems obtain t where wf: "ce_default_static_members_table ce = Some t"
    "members_wf (ce_default_static_members_count ce) (inherited_members classes ce) (declaring (Suc n) classes c) t"
    by (auto split: option.splits)
  show ?case
  proof (cases "i < inherited_members classes ce")
    case True
    then obtain p pc where p: "ce_parent ce = Parent p" "classes p = Some pc" "i < ce_default_static_members_count pc"
      by (auto simp: inherited_members_def split: class_parent.splits option.splits)
    moreover have "statics_wf n classes p" using Suc.prems(1,2) p(1) by auto
    ultimately show ?thesis using Suc.IH [of p pc] Suc.prems(2) True by simp
  next
    case False
    then obtain v where "t ! i = Static v" using members_wfD(2) [OF wf(2) Suc.prems(3)] by blast
    then show ?thesis using wf False Suc.prems(2,3) by (auto simp: members_wf_def)
  qed
qed simp

section \<open>The two loops\<close>

context value_copier
begin

lemma copies_own_defaults:
  assumes "pr_zval P = cz" and "strings_ok E (ps_code s)" and "distinct is"
    and "\<forall>i\<in>set is. i < length table \<and> (\<exists>v. table ! i = Static v \<and> good v)"
  shows "\<exists>table' code'. copy_own_defaults n P is table s = Some (table', s\<lparr>ps_code := code'\<rparr>) \<and> length table' = length table \<and>
    strings_ok E code' \<and> (\<forall>i. i \<notin> set is \<longrightarrow> table' ! i = table ! i) \<and>
    (\<forall>i\<in>set is. \<exists>v v'. table ! i = Static v \<and> table' ! i = Static v' \<and> value_view v' = value_view v)"
  using assms(2-4)
proof (induction "is" arbitrary: table s)
  case Nil
  then show ?case by (intro exI [of _ table] exI [of _ "ps_code s"]) simp
next
  case (Cons i "is")
  then obtain v where v: "i < length table" "table ! i = Static v" "good v" by auto
  obtain v' code where c: "cz v (ps_code s) = Some (Some v', code)" "copy_of E t (ps_code s) v v' code"
    using copies [OF v(3) Cons.prems(1)] by blast
  have ok: "strings_ok E code" using c(2) Cons.prems(1) by (auto simp: copy_of_def copy_step_facts)
  let ?t = "table[i := Static v']" and ?s = "s\<lparr>ps_code := code\<rparr>"
  have "\<forall>j\<in>set is. j < length ?t \<and> (\<exists>v. ?t ! j = Static v \<and> good v)" using Cons.prems(2,3) by (auto simp: nth_list_update)
  then obtain table' code' where r: "copy_own_defaults n P is ?t ?s = Some (table', ?s\<lparr>ps_code := code'\<rparr>)" "length table' = length ?t"
    "strings_ok E code'" "\<forall>j. j \<notin> set is \<longrightarrow> table' ! j = ?t ! j"
    "\<forall>j\<in>set is. \<exists>v v'. ?t ! j = Static v \<and> table' ! j = Static v' \<and> value_view v' = value_view v"
    using Cons.IH [of ?s ?t] Cons.prems(2) ok by auto
  have run: "copy_own_defaults n P (i # is) table s = Some (table', s\<lparr>ps_code := code'\<rparr>)"
    using v c(1) r(1) assms(1) by (simp add: on_code_def)
  have ne: "j \<noteq> i" if "j \<in> set is" for j using that Cons.prems(2) by auto
  have i: "table' ! i = Static v'" using r(4) v(1) Cons.prems(2) by simp
  have "\<exists>v v'. table ! j = Static v \<and> table' ! j = Static v' \<and> value_view v' = value_view v" if "j \<in> set (i # is)" for j
  proof (cases "j = i")
    case True
    then show ?thesis using i v(2) c(2) by (simp add: copy_of_def)
  next
    case False
    then show ?thesis using r(5) that by fastforce
  qed
  moreover have "table' ! j = table ! j" if "j \<notin> set (i # is)" for j using that r(4) by auto
  ultimately show ?case using run r(2,3) by auto
qed

end

lemma points_to_ancestors:
  assumes "statics_wf n classes p" and "classes p = Some pc" and "k \<le> ce_default_static_members_count pc" and "n < m"
  shows "\<exists>table'. point_to_ancestors m classes (Some p) k table = Some table' \<and> length table' = length table \<and>
    (\<forall>i<length table. table' ! i = (if i < k then StaticOf (declaring n classes p i) i else table ! i))"
  using assms
proof (induction n arbitrary: p pc k m table)
  case (Suc n)
  then obtain m' where m: "m = Suc m'" "n < m'" by (cases m) auto
  note wf = Suc.prems(1) [simplified, unfolded Suc.prems(2), simplified]
  let ?lim = "inherited_members classes pc"
  let ?t = "map (\<lambda>(i, x). if ?lim \<le> i \<and> i < k then StaticOf p i else x) (enumerate 0 table)"
  have t: "length ?t = length table" "\<And>i. i < length table \<Longrightarrow> ?t ! i = (if ?lim \<le> i \<and> i < k then StaticOf p i else table ! i)"
    by (simp_all add: nth_enumerate_eq)
  show ?case
  proof (cases "ce_default_static_members_table pc")
    case None
    then have "k = 0" using wf Suc.prems(3) by auto
    then show ?thesis using None m(1) Suc.prems(2) by simp
  next
    case (Some tab)
    show ?thesis
    proof (cases "ce_parent pc")
      case NoParent
      obtain m'' where "m' = Suc m''" using m(2) by (cases m') auto
      then have "point_to_ancestors m classes (Some p) k table = Some ?t"
        using Some NoParent m(1) Suc.prems(2) by (simp add: read_parent_def inherited_members_def)
      then show ?thesis using t Suc.prems(2) NoParent by (auto simp: inherited_members_def)
    next
      case (Parent g)
      then have g: "statics_wf n classes g" using wf by auto
      then obtain gc where gc: "classes g = Some gc" by (elim statics_wfE)
      have e: "?lim = ce_default_static_members_count gc" using Parent gc by (simp add: inherited_members_def)
      from Suc.IH [OF g gc _ m(2), of "min k ?lim" ?t] e obtain table' where
        r: "point_to_ancestors m' classes (Some g) (min k ?lim) ?t = Some table'" "length table' = length table"
        "\<forall>i<length table. table' ! i = (if i < min k ?lim then StaticOf (declaring n classes g i) i else ?t ! i)"
        using t(1) by auto
      have "point_to_ancestors m classes (Some p) k table = Some table'"
        using Some Parent m(1) Suc.prems(2) gc r(1) e by (simp add: read_parent_def)
      moreover have "\<forall>i<length table. table' ! i = (if i < k then StaticOf (declaring (Suc n) classes p i) i else table ! i)"
        using r(3) t(2) Suc.prems(2) Parent by auto
      ultimately show ?thesis using r(2) by blast
    next
      case (ParentName nm)
      then show ?thesis using wf by simp
    qed
  qed
qed simp

section \<open>The table of a prepared class\<close>

definition own_members_copied :: "nat \<Rightarrow> nat \<Rightarrow> static_member list \<Rightarrow> static_member list \<Rightarrow> bool" where
  "own_members_copied inherited count table table' \<longleftrightarrow>
     (\<forall>i. inherited \<le> i \<and> i < count \<longrightarrow> (\<exists>v v'. table ! i = Static v \<and> table' ! i = Static v' \<and> value_view v' = value_view v))"

lemma own_member_value:
  "own_members_copied inherited count table table' \<Longrightarrow> i < count \<Longrightarrow> \<not> i < inherited \<Longrightarrow> \<exists>v. table' ! i = Static v"
  unfolding own_members_copied_def by (meson not_less)

text \<open>The state in which the static members of a linked class are prepared.\<close>

definition statics_ready :: "nat \<Rightarrow> nat \<Rightarrow> zend_engine \<Rightarrow> addr \<Rightarrow> addr \<Rightarrow> static_member list \<Rightarrow> nat \<Rightarrow> prepare_state \<Rightarrow> bool" where
  "statics_ready n m E candidate prepared table count s \<longleftrightarrow> strings_ok E (ps_code s) \<and>
     (\<exists>cand ce. ps_classes s candidate = Some cand \<and> ps_classes s prepared = Some ce \<and> ZEND_ACC_LINKED \<in> ce_flags ce \<and>
        ce_default_static_members_count cand = count \<and> ce_default_static_members_table cand = Some table \<and>
        (ce_parent ce = NoParent \<or> (\<exists>p. ce_parent ce = Parent p \<and> statics_wf n (ps_classes s) p \<and>
           prepared \<notin> set (lineage n (ps_classes s) p))) \<and>
        inherited_members (ps_classes s) ce \<le> count \<and> 0 < count \<and> count \<le> length table \<and>
        (\<forall>i. inherited_members (ps_classes s) ce \<le> i \<and> i < count \<longrightarrow> (\<exists>v. table ! i = Static v \<and> literal v \<and> zdepth v < m)))"

lemma prepare_statics_run:
  assumes "statics_ready n m E candidate prepared table count s" and "ps_classes s prepared = Some ce"
    and P: "P = thread_preparation m L E nm tolower cases options src t"
  defines "inh \<equiv> inherited_members (ps_classes s) ce"
  shows "\<exists>table' code'. prepare_class_statics (Suc n) P candidate prepared s = Some (s\<lparr>ps_code := code', ps_classes := (ps_classes s)(prepared \<mapsto>
      ce\<lparr>ce_default_static_members_count := count, ce_default_static_members_table := Some table'\<rparr>)\<rparr>) \<and>
    length table' = count \<and> own_members_copied inh count table table' \<and>
    (\<forall>i<inh. \<exists>p. ce_parent ce = Parent p \<and> table' ! i = StaticOf (declaring n (ps_classes s) p i) i)"
proof -
  obtain cand where cand: "ps_classes s candidate = Some cand" "ZEND_ACC_LINKED \<in> ce_flags ce" "strings_ok E (ps_code s)"
    "ce_default_static_members_count cand = count" "ce_default_static_members_table cand = Some table"
    "ce_parent ce = NoParent \<or> (\<exists>p. ce_parent ce = Parent p \<and> statics_wf n (ps_classes s) p)"
    "inh \<le> count" "0 < count" "count \<le> length table"
    "\<And>i. inh \<le> i \<Longrightarrow> i < count \<Longrightarrow> \<exists>v. table ! i = Static v \<and> literal v \<and> zdepth v < m"
    using assms(1,2) unfolding statics_ready_def inh_def by auto
  have "\<forall>i\<in>set (rev [inh..<count]). i < length (take count table) \<and> (\<exists>v. take count table ! i = Static v \<and> literal v \<and> zdepth v < m)"
    using cand(9,10) by auto
  then obtain t1 code' where own: "copy_own_defaults (Suc n) P (rev [inh..<count]) (take count table) s = Some (t1, s\<lparr>ps_code := code'\<rparr>)"
    "length t1 = count" "\<forall>i\<in>set (rev [inh..<count]). \<exists>v v'. take count table ! i = Static v \<and> t1 ! i = Static v' \<and> value_view v' = value_view v"
    using literals.copies_own_defaults [of P m L E nm t s "rev [inh..<count]" "take count table" "Suc n"] cand(3,9) P
    by (auto simp: thread_preparation_def)
  obtain t2 where point: "point_to_ancestors (Suc n) (ps_classes s) (case ce_parent ce of Parent p \<Rightarrow> Some p | _ \<Rightarrow> None) inh t1 = Some t2"
    "length t2 = count" "\<forall>i<count. if i < inh then \<exists>p. ce_parent ce = Parent p \<and> t2 ! i = StaticOf (declaring n (ps_classes s) p i) i else t2 ! i = t1 ! i"
  proof (cases "ce_parent ce")
    case (Parent p)
    then have wf: "statics_wf n (ps_classes s) p" using cand(6) by auto
    then obtain pc where pc: "ps_classes s p = Some pc" by (elim statics_wfE)
    then have "inh = ce_default_static_members_count pc" using Parent by (simp add: inh_def inherited_members_def)
    then show ?thesis using that points_to_ancestors [OF wf pc, of inh "Suc n" t1] own(2) Parent by auto
  qed (use own(2) cand(6) that in \<open>auto simp: inh_def inherited_members_def\<close>)
  have copied: "own_members_copied inh count table t2"
    using own(3) point(3) by (fastforce simp: own_members_copied_def)
  have "prepare_class_statics (Suc n) P candidate prepared s = Some (s\<lparr>ps_code := code', ps_classes := (ps_classes s)(prepared \<mapsto>
      ce\<lparr>ce_default_static_members_count := count, ce_default_static_members_table := Some t2\<rparr>)\<rparr>)"
  proof -
    obtain par where par: "read_parent ce = Some par" "par = (case ce_parent ce of Parent p \<Rightarrow> Some p | _ \<Rightarrow> None)"
      "(case par of None \<Rightarrow> Some 0 | Some p \<Rightarrow> do { pc \<leftarrow> ps_classes s p; Some (ce_default_static_members_count pc) }) = Some inh"
      using cand(6) by (auto simp: read_parent_def inh_def inherited_members_def elim: statics_wfE)
    show ?thesis
      using cand(1,2,4,5,7,8) assms(2) par own(1) point(1)
      by (simp add: prepare_class_statics_def upd_class_def min_def del: copy_own_defaults.simps point_to_ancestors.simps)
  qed
  with copied point show ?thesis using cand(7) by fastforce
qed

lemma prepared_statics_wf:
  assumes ready: "statics_ready n m E candidate prepared table count s" and ce: "ps_classes s prepared = Some ce"
    and table: "length table' = count"
      "own_members_copied (inherited_members (ps_classes s) ce) count table table'"
      "\<forall>i<inherited_members (ps_classes s) ce. \<exists>p. ce_parent ce = Parent p \<and> table' ! i = StaticOf (declaring n (ps_classes s) p i) i"
  defines "ce' \<equiv> ce\<lparr>ce_default_static_members_count := count, ce_default_static_members_table := Some table'\<rparr>"
  defines "classes \<equiv> (ps_classes s)(prepared \<mapsto> ce')"
  shows "statics_wf (Suc n) classes prepared" and "inherited_members classes ce' = inherited_members (ps_classes s) ce"
proof -
  have par: "ce_parent ce = NoParent \<or> (\<exists>p. ce_parent ce = Parent p \<and> statics_wf n (ps_classes s) p \<and>
      prepared \<notin> set (lineage n (ps_classes s) p))" and le: "inherited_members (ps_classes s) ce \<le> count"
    using ready ce by (auto simp: statics_ready_def)
  have same: "statics_wf n classes p" "\<And>i. declaring n classes p i = declaring n (ps_classes s) p i" "p \<noteq> prepared"
    if "ce_parent ce = Parent p" for p
  proof -
    have p: "statics_wf n (ps_classes s) p" "prepared \<notin> set (lineage n (ps_classes s) p)" using par that by auto
    then have "\<forall>d\<in>set (lineage n (ps_classes s) p). classes d = ps_classes s d" by (auto simp: classes_def)
    from statics_cong [OF p(1) this] show "statics_wf n classes p" "\<And>i. declaring n classes p i = declaring n (ps_classes s) p i" by auto
    show "p \<noteq> prepared" using p lineage_self by blast
  qed
  show inh: "inherited_members classes ce' = inherited_members (ps_classes s) ce"
    using same(3) by (auto simp: ce'_def classes_def inherited_members_def split: class_parent.splits)
  have "members_wf count (inherited_members classes ce') (declaring (Suc n) classes prepared) table'"
    unfolding members_wf_def
  proof (intro conjI allI impI)
    fix i assume "i < count"
    show "if i < inherited_members classes ce' then table' ! i = StaticOf (declaring (Suc n) classes prepared i) i else \<exists>v. table' ! i = Static v"
    proof (cases "i < inherited_members classes ce'")
      case True
      then obtain p where "ce_parent ce = Parent p" "table' ! i = StaticOf (declaring n (ps_classes s) p i) i" using table(3) inh by auto
      then show ?thesis using True same(2) by (simp add: classes_def ce'_def)
    next
      case False
      then show ?thesis using own_member_value [OF table(2) \<open>i < count\<close>] inh by simp
    qed
  qed (rule table(1))
  moreover have "ce_parent ce' = NoParent \<or> (\<exists>p. ce_parent ce' = Parent p \<and> statics_wf n classes p)"
    using par same(1) by (auto simp: ce'_def)
  moreover have "classes prepared = Some ce'" "ce_default_static_members_count ce' = count" "ce_default_static_members_table ce' = Some table'"
    by (simp_all add: classes_def ce'_def)
  ultimately show "statics_wf (Suc n) classes prepared" using le inh by (auto simp del: declaring.simps)
qed

text \<open>
  C27. The static members of a class that is prepared for a thread are well typed. For a linked class
  whose ancestors are prepared already, the preparation returns; in the new table every inherited member points to the cell
  of the ancestor that declares it, every own member holds a copy of the creator's value, and following the
  pointer in any cell leads to a value. No other class is changed.
\<close>

theorem statics_well_formed:
  assumes "statics_ready n m E candidate prepared table count s"
  shows "\<exists>s' ce table'. prepare_class_statics (Suc n) (thread_preparation m L E nm tolower cases options src t) candidate prepared s = Some s' \<and>
    statics_wf (Suc n) (ps_classes s') prepared \<and> ps_classes s' prepared = Some ce \<and>
    ce_default_static_members_table ce = Some table' \<and> length table' = count \<and>
    own_members_copied (inherited_members (ps_classes s') ce) count table table' \<and>
    (\<forall>i<count. \<exists>v. follow 1 (default_members s') (table' ! i) = Some v) \<and>
    (\<forall>c. c \<noteq> prepared \<longrightarrow> ps_classes s' c = ps_classes s c)"
proof -
  obtain ce where ce: "ps_classes s prepared = Some ce" using assms by (auto simp: statics_ready_def)
  from prepare_statics_run [OF assms ce refl] obtain table' code' where
    run: "prepare_class_statics (Suc n) (thread_preparation m L E nm tolower cases options src t) candidate prepared s =
      Some (s\<lparr>ps_code := code', ps_classes := (ps_classes s)(prepared \<mapsto>
        ce\<lparr>ce_default_static_members_count := count, ce_default_static_members_table := Some table'\<rparr>)\<rparr>)"
    and t: "length table' = count" "own_members_copied (inherited_members (ps_classes s) ce) count table table'"
      "\<forall>i<inherited_members (ps_classes s) ce. \<exists>p. ce_parent ce = Parent p \<and> table' ! i = StaticOf (declaring n (ps_classes s) p i) i"
    by blast
  define ce' where "ce' = ce\<lparr>ce_default_static_members_count := count, ce_default_static_members_table := Some table'\<rparr>"
  define s' where "s' = s\<lparr>ps_code := code', ps_classes := (ps_classes s)(prepared \<mapsto> ce')\<rparr>"
  note wf = prepared_statics_wf [OF assms ce t, folded ce'_def]
  have heap: "ps_classes s' = (ps_classes s)(prepared \<mapsto> ce')" by (simp add: s'_def)
  have count: "ce_default_static_members_count ce' = count" "ce_default_static_members_table ce' = Some table'" by (simp_all add: ce'_def)
  have "\<exists>v. follow 1 (default_members s') (table' ! i) = Some v" if lt: "i < count" for i
  proof (cases "table' ! i")
    case (StaticOf c j)
    then have inh: "i < inherited_members (ps_classes s) ce" using own_member_value [OF t(2) lt] by auto
    have "members_wf count (inherited_members (ps_classes s') ce') (declaring (Suc n) (ps_classes s') prepared) table'"
      using wf(1) count lt by (auto simp: heap simp del: declaring.simps)
    then have "table' ! i = StaticOf (declaring (Suc n) (ps_classes s') prepared i) i"
      using members_wfD(1) lt inh wf(2) by (auto simp: heap simp del: declaring.simps)
    moreover obtain dc t' v where "ps_classes s' (declaring (Suc n) (ps_classes s') prepared i) = Some dc"
      "ce_default_static_members_table dc = Some t'" "i < length t'" "t' ! i = Static v"
      using declared_value [OF wf(1) [folded heap], of ce' i] count lt heap by auto
    ultimately show ?thesis by (simp add: default_members_def del: declaring.simps)
  qed simp
  moreover have "own_members_copied (inherited_members (ps_classes s') ce') count table table'" using t(2) wf(2) by (simp add: heap)
  moreover have "statics_wf (Suc n) (ps_classes s') prepared" using wf(1) by (simp only: heap)
  ultimately show ?thesis using run t(1) count by (intro exI [of _ s'] exI [of _ ce'] exI [of _ table']) (auto simp: s'_def ce'_def simp del: statics_wf.simps)
qed

text \<open>A class with one inherited and one own static member, whose parent is prepared.\<close>

definition demo_class :: "string \<Rightarrow> class_parent \<Rightarrow> static_member list \<Rightarrow> zend_class_entry" where
  "demo_class name parent members = (zend_initialize_class_data ZEND_USER_CLASS (demo_string 9 name))
     \<lparr>ce_flags := {ZEND_ACC_LINKED}, ce_parent := parent, ce_default_static_members_count := length members,
      ce_default_static_members_table := Some members\<rparr>"

lemma demo_class_simps [simp]:
  "ce_flags (demo_class name parent members) = {ZEND_ACC_LINKED}" "ce_parent (demo_class name parent members) = parent"
  "ce_default_static_members_count (demo_class name parent members) = length members"
  "ce_default_static_members_table (demo_class name parent members) = Some members"
  by (simp_all add: demo_class_def)

definition demo_statics :: prepare_state where
  "demo_statics = (demo_prepare (demo_code Map.empty Map.empty))\<lparr>ps_classes := [
     20 \<mapsto> demo_class ''A'' NoParent [Static (IS_LONG 1)], 21 \<mapsto> demo_class ''B'' (Parent 20) [StaticOf 20 0, Static (IS_LONG 2)],
     30 \<mapsto> demo_class ''A'' NoParent [Static (IS_LONG 1)], 31 \<mapsto> demo_class ''B'' (Parent 30) []]\<rparr>"

lemma demo_statics_ready: "statics_ready 1 1 demo_engine 21 31 [StaticOf 20 0, Static (IS_LONG 2)] 2 demo_statics"
  unfolding statics_ready_def
  by (simp add: demo_statics_def demo_prepare_def demo_code_ok inherited_members_def members_wf_def)

theorem statics_well_formed_witness:
  "\<exists>s' ce table'. prepare_class_statics 2 (thread_preparation 1 demo_layout demo_engine (\<lambda>_. []) id (\<lambda>_. IS_NULL) 0 1 2) 21 31 demo_statics = Some s' \<and>
    ps_classes s' 31 = Some ce \<and> ce_default_static_members_table ce = Some table' \<and> length table' = 2 \<and>
    (\<exists>v. follow 1 (default_members s') (table' ! 0) = Some v)"
proof -
  have "Suc 1 = (2::nat)" by simp
  with statics_well_formed [OF demo_statics_ready, of demo_layout "\<lambda>_. []" id "\<lambda>_. IS_NULL" 0 1 2] show ?thesis
    by (metis zero_less_numeral)
qed

end
