(* ===== verification/Class_Frame.thy ===== *)
theory Class_Frame
  imports Prepare_Class Growth
begin

text \<open>
  What the preparation of classes leaves alone. Every step allocates, fills the entry it has allocated, or completes
  an anonymous class that was not linked when this thread copied it; \<open>class_step\<close> says so, for a set of entries that may
  be written.
\<close>

section \<open>Steps of a preparation\<close>

definition completable :: "zend_class_entry \<Rightarrow> bool" where
  "completable ce \<longleftrightarrow> unbound_anonymous ce \<and> ZEND_ACC_IMMUTABLE \<notin> ce_flags ce"

definition heap_below :: "prepare_state \<Rightarrow> bool" where
  "heap_below s \<longleftrightarrow> (\<forall>c. ps_classes s c \<noteq> None \<longrightarrow> c < w_next (prepare_world s)) \<and>
     (\<forall>a. ps_props s a \<noteq> None \<longrightarrow> a < w_next (prepare_world s))"

definition others_kept :: "tid \<Rightarrow> prepare_state \<Rightarrow> prepare_state \<Rightarrow> bool" where
  "others_kept t s s' \<longleftrightarrow> ps_tables s' = ps_tables s \<and> ps_list_dtor s' = ps_list_dtor s \<and>
     (\<forall>u. u \<noteq> t \<longrightarrow> ps_class_table s' u = ps_class_table s u \<and> ps_static_members s' u = ps_static_members s u)"

definition class_step :: "tid \<Rightarrow> addr set \<Rightarrow> prepare_state \<Rightarrow> prepare_state \<Rightarrow> bool" where
  "class_step t X s s' \<longleftrightarrow> (heap_below s \<longrightarrow> heap_below s' \<and> w_next (prepare_world s) \<le> w_next (prepare_world s') \<and>
     (\<forall>c ce. ps_classes s c = Some ce \<and> c \<notin> X \<and> \<not> completable ce \<longrightarrow> ps_classes s' c = Some ce) \<and>
     (\<forall>a info. ps_props s a = Some info \<longrightarrow> ps_props s' a = Some info) \<and> others_kept t s s')"

lemma class_step_refl [simp]: "class_step t X s s"
  by (simp add: class_step_def others_kept_def)

lemma class_step_trans: "class_step t X s s' \<Longrightarrow> class_step t X s' s'' \<Longrightarrow> class_step t X s s''"
  unfolding class_step_def others_kept_def by (metis le_trans)

lemma class_step_code:
  assumes "w_next (prepare_world s) \<le> w_next (cs_world code)"
  shows "class_step t X s (s\<lparr>ps_code := code\<rparr>)"
  using assms by (auto simp: class_step_def others_kept_def heap_below_def)

lemma class_step_members: "class_step t X s (s\<lparr>ps_static_members := (ps_static_members s)(t := m)\<rparr>)"
  by (simp add: class_step_def others_kept_def heap_below_def)

lemma class_step_table: "class_step t X s (set_class t name c s)"
  by (simp add: class_step_def others_kept_def heap_below_def set_class_def)

lemma upd_class_step: "upd_class a f s = Some s' \<Longrightarrow> a \<in> X \<Longrightarrow> class_step t X s s'"
  by (auto simp: upd_class_def bind_Some_iff class_step_def others_kept_def heap_below_def split: if_splits)

lemma new_address_eq: "new_address s = (a, s') \<longleftrightarrow> a = w_next (prepare_world s) \<and> s' = set_world ((prepare_world s)\<lparr>w_next := Suc a\<rparr>) s"
  by (auto simp: new_address_def emalloc_def set_world_def Let_def)

lemma new_address_class_step: "new_address s = (a, s') \<Longrightarrow> class_step t X s s'"
  by (auto simp: new_address_eq class_step_def others_kept_def heap_below_def set_world_def less_SucI)

lemma class_step_props:
  assumes "new_address s = (a, s1)" and "class_step t X s1 s'"
  shows "class_step t X s (s'\<lparr>ps_props := (ps_props s')(a \<mapsto> info)\<rparr>)"
proof -
  have step: "class_step t X s s'" using assms new_address_class_step class_step_trans by blast
  have "a < w_next (prepare_world s') \<and> ps_props s a = None" if "heap_below s"
  proof -
    have "heap_below s1" using that new_address_class_step [OF assms(1)] by (simp add: class_step_def)
    then have "w_next (prepare_world s1) \<le> w_next (prepare_world s')" using assms(2) by (simp add: class_step_def)
    then show ?thesis using assms(1) that by (auto simp: new_address_eq set_world_def heap_below_def)
  qed
  with step show ?thesis by (auto simp: class_step_def others_kept_def heap_below_def)
qed

text \<open>An entry that did not exist before a step, or was completable, need not be named.\<close>

lemma class_step_own:
  assumes "class_step t X s s'"
    and "heap_below s \<Longrightarrow> \<forall>c\<in>X. ps_classes s c = None \<or> (\<exists>ce. ps_classes s c = Some ce \<and> completable ce)"
  shows "class_step t Y s s'"
  using assms unfolding class_step_def by (metis option.distinct(1) option.inject)

lemma class_step_class:
  assumes "new_address s = (a, s1)" and "class_step t X s1 s'" and "a \<in> X"
  shows "class_step t X s (s'\<lparr>ps_classes := (ps_classes s')(a \<mapsto> ce)\<rparr>)"
proof -
  have step: "class_step t X s s'" using assms(1,2) new_address_class_step class_step_trans by blast
  have "a < w_next (prepare_world s')" if "heap_below s"
  proof -
    have "heap_below s1" using that new_address_class_step [OF assms(1)] by (simp add: class_step_def)
    then have "w_next (prepare_world s1) \<le> w_next (prepare_world s')" using assms(2) by (simp add: class_step_def)
    then show ?thesis using assms(1) by (auto simp: new_address_eq set_world_def)
  qed
  with step assms(3) show ?thesis by (auto simp: class_step_def others_kept_def heap_below_def split: if_splits)
qed

lemma class_step_mono: "class_step t X s s' \<Longrightarrow> X \<subseteq> Y \<Longrightarrow> class_step t Y s s'"
  unfolding class_step_def by blast

lemma for_each_step:
  assumes "for_each f xs s = Some s'" and "\<And>x s s'. f x s = Some s' \<Longrightarrow> class_step t X s s'"
  shows "class_step t X s s'"
  using assms(1)
proof (induction xs arbitrary: s)
  case (Cons x xs)
  then obtain s1 where "f x s = Some s1" "for_each f xs s1 = Some s'" by (auto simp: bind_Some_iff)
  then show ?case using assms(2) Cons.IH class_step_trans by blast
qed simp

lemma copy_each_next:
  assumes "copy_each f xs c = (ys, c')" and "\<And>x c y c'. f x c = (y, c') \<Longrightarrow> code_next c \<le> code_next c'"
  shows "code_next c \<le> code_next c'"
  using assms(1) by (induction xs arbitrary: c ys) (fastforce split: prod.splits dest!: assms(2))+

section \<open>Copies of names and values\<close>

locale preparing_thread = growing_copiers "pr_zval P" "pr_function P" for P :: preparation
begin

lemma zval_step: "on_code (pr_zval P v) s = Some (r, s') \<Longrightarrow> class_step t X s s'"
  by (auto simp: on_code_def bind_Some_iff intro!: class_step_code dest: zval_next)

lemma function_step: "on_code (pr_function P f) s = Some (r, s') \<Longrightarrow> class_step t X s s'"
  by (auto simp: on_code_def bind_Some_iff intro!: class_step_code dest: function_next)

lemma attributes_step: "copy_attributes P old s = Some (r, s') \<Longrightarrow> class_step t X s s'"
  by (auto simp: copy_attributes_def on_code_def bind_Some_iff intro!: class_step_code dest: attributes_next)

lemma name_step: "copy_name P str s = (r, s') \<Longrightarrow> class_step t X s s'"
  by (auto simp: copy_name_def copy_string_ps_def split: prod.splits intro!: class_step_code dest: copy_string_next)

lemma name_option_step: "copy_name_option P str s = (r, s') \<Longrightarrow> class_step t X s s'"
  by (auto simp: copy_name_option_def split: prod.splits intro!: class_step_code dest: copy_string_option_next)

lemma names_step:
  assumes "on_code (\<lambda>code. Some (copy_each f xs code)) s = Some (r, s')"
    and "\<And>x c y c'. f x c = (y, c') \<Longrightarrow> code_next c \<le> code_next c'"
  shows "class_step t X s s'"
  using assms(1) copy_each_next [of f xs] assms(2)
  by (auto simp: on_code_def bind_Some_iff split: prod.splits intro!: class_step_code)

end

section \<open>Filling an entry\<close>

locale prepared_class = preparing_thread P for P :: preparation +
  fixes pe :: "addr \<Rightarrow> addr option preparing" and prepared :: addr and X :: "addr set"
  assumes entry_step: "pe c s = Some (q, s') \<Longrightarrow> class_step (pr_self P) X s s'"
    and writable: "prepared \<in> X"
begin

abbreviation step :: "prepare_state \<Rightarrow> prepare_state \<Rightarrow> bool" where "step \<equiv> class_step (pr_self P) X"

lemma upd_step: "upd_class prepared f s = Some s' \<Longrightarrow> step s s'"
  using upd_class_step writable by blast

lemmas basic_steps =
  zval_step [where t = "pr_self P" and X = X] function_step [where t = "pr_self P" and X = X]
  attributes_step [where t = "pr_self P" and X = X] name_step [where t = "pr_self P" and X = X]
  name_option_step [where t = "pr_self P" and X = X] new_address_class_step [where t = "pr_self P" and X = X] upd_step entry_step

lemmas steps_trans = class_step_trans [where t = "pr_self P" and X = X]

lemma upd_constant_step: "upd_constant prepared key f s = Some s' \<Longrightarrow> step s s'"
  unfolding upd_constant_def by (elim bind_eq_SomeE) (rule upd_step)

lemma add_case_step: "zend_enum_add_case prepared name v s = Some s' \<Longrightarrow> step s s'"
  unfolding zend_enum_add_case_def Let_def
  by (elim bind_eq_SomeE case_pairE) (auto simp: bind_Some_iff split: option.splits dest!: basic_steps intro: steps_trans)

lemma enum_case_step: "prepare_enum_case P cand prepared name obj s = Some s' \<Longrightarrow> step s s'"
  by (auto simp: prepare_enum_case_def bind_Some_iff split: if_splits dest!: basic_steps add_case_step intro: steps_trans)

lemma value_constant_step: "prepare_value_constant P pe prepared name zc s = Some s' \<Longrightarrow> step s s'"
  by (auto simp: prepare_value_constant_def bind_Some_iff split: option.splits dest!: basic_steps) (blast intro: steps_trans)

lemma class_constant_step: "prepare_class_constant P pe cand prepared kc s = Some s' \<Longrightarrow> step s s'"
proof (cases kc)
  case (Pair key zc)
  assume run: "prepare_class_constant P pe cand prepared kc s = Some s'"
  obtain name s1 where name: "copy_name P (cc_name zc) s = (name, s1)" by force
  show ?thesis
  proof (cases "s' = s")
    case False
    with run Pair name obtain s2 s3 where
      c: "(case (cc_is_case zc, cc_value zc) of (True, IS_OBJECT obj) \<Rightarrow> prepare_enum_case P cand prepared name obj s1
         | _ \<Rightarrow> prepare_value_constant P pe prepared name zc s1) = Some s2"
      "(case cc_doc_comment zc of None \<Rightarrow> Some s2
         | Some doc \<Rightarrow> (case copy_name P doc s2 of (doc, s) \<Rightarrow> upd_constant prepared key (\<lambda>rc. rc\<lparr>cc_doc_comment := Some doc\<rparr>) s)) = Some s3"
      "(case cc_attributes zc of None \<Rightarrow> Some s3
         | Some attrs \<Rightarrow> do { (attrs, s) \<leftarrow> copy_attributes P (Some attrs) s3;
             upd_constant prepared key (\<lambda>rc. rc\<lparr>cc_attributes := attrs\<rparr>) s }) = Some s'"
      unfolding prepare_class_constant_def Let_def by (auto simp: bind_Some_iff split: if_splits)
    have "step s1 s2" using c(1) by (auto split: bool.splits zval.splits dest!: enum_case_step value_constant_step)
    moreover have "step s2 s3" using c(2) by (auto split: option.splits prod.splits dest!: basic_steps upd_constant_step intro: steps_trans)
    moreover have "step s3 s'"
      using c(3) by (auto simp: bind_Some_iff split: option.splits dest!: basic_steps upd_constant_step intro: steps_trans)
    ultimately show ?thesis using basic_steps(4) [OF name] steps_trans by blast
  qed simp
qed

lemma constants_step: "prepare_class_constants P pe c prepared s = Some s' \<Longrightarrow> step s s'"
  unfolding prepare_class_constants_def by (elim bind_eq_SomeE) (erule for_each_step, rule class_constant_step)

lemma own_defaults_step: "copy_own_defaults n P is table s = Some (r, s') \<Longrightarrow> step s s'"
  by (induction "is" arbitrary: table s) (auto simp: bind_Some_iff split: if_splits dest!: basic_steps, blast intro: steps_trans)

lemma statics_step: "prepare_class_statics n P c prepared s = Some s' \<Longrightarrow> step s s'"
  by (auto simp: prepare_class_statics_def bind_Some_iff Let_def split: if_splits dest!: basic_steps own_defaults_step intro: steps_trans)

lemma method_step: "prepare_method P prepared kf s = Some s' \<Longrightarrow> step s s'"
  by (auto simp: prepare_method_def bind_Some_iff split: if_splits dest!: basic_steps intro: steps_trans)

lemma function_table_step: "prepare_class_function_table P c prepared s = Some s' \<Longrightarrow> step s s'"
  unfolding prepare_class_function_table_def by (elim bind_eq_SomeE) (erule for_each_step, rule method_step)

lemma property_type_step: "prepare_property_type P ty s = (r, s') \<Longrightarrow> step s s'"
proof -
  have "copy_type_names P ts s = (r, s') \<Longrightarrow> step s s'" for ts s r
  proof (induction ts arbitrary: s r)
    case (Cons ty ts)
    obtain ty1 s1 where 1: "(case ty of TypeName m name \<Rightarrow> (let (name, s) = copy_name P name s in (TypeName m name, s)) | _ \<Rightarrow> (ty, s)) = (ty1, s1)"
      by force
    obtain ts1 s2 where 2: "copy_type_names P ts s1 = (ts1, s2)" by force
    have "step s s1" using 1 by (auto split: zend_type.splits prod.splits dest!: basic_steps)
    moreover have "s' = s2" using Cons.prems 1 2 by simp
    ultimately show ?case using Cons.IH [of s1 ts1] 2 steps_trans by blast
  qed simp
  then show "prepare_property_type P ty s = (r, s') \<Longrightarrow> step s s'"
    by (auto simp: prepare_property_type_def Let_def split: zend_type.splits prod.splits dest!: basic_steps)
qed

lemma default_values_step: "copy_default_properties P vs s = Some (r, s') \<Longrightarrow> step s s'"
  by (induction vs arbitrary: s r) (auto simp: bind_Some_iff split: if_splits dest!: basic_steps, (blast intro: steps_trans)+)

lemma default_properties_step: "prepare_default_properties P c prepared s = Some s' \<Longrightarrow> step s s'"
  by (auto simp: prepare_default_properties_def bind_Some_iff Let_def split: if_splits dest!: basic_steps default_values_step
      intro: steps_trans)

lemma property_info_step: "prepare_property_info P pe c prepared ni s = Some s' \<Longrightarrow> step s s'"
proof -
  assume run: "prepare_property_info P pe c prepared ni s = Some s'"
  then obtain info where info: "ps_props s (snd ni) = Some info" by (auto simp: prepare_property_info_def bind_Some_iff)
  obtain dup s1 where dup: "new_address s = (dup, s1)" by force
  obtain name s2 where name: "copy_name P (zp_name info) s1 = (name, s2)" by force
  obtain doc s3 where doc: "(if inherits_comments P then copy_name_option P (zp_doc_comment info) s2 else (None, s2)) = (doc, s3)" by force
  from run info dup name doc obtain d ce s4 where ce: "(if d = c then Some (Some prepared, s3) else pe d s3) = Some (ce, s4)"
    and run': "(case prepare_property_type P (zp_type info) s4 of (ty, s) \<Rightarrow> do {
     (attrs, s) \<leftarrow> (case zp_attributes info of None \<Rightarrow> Some (None, s) | Some attrs \<Rightarrow> copy_attributes P (Some attrs) s);
     let s = s\<lparr>ps_props := (ps_props s)(dup \<mapsto>
       info\<lparr>zp_name := name, zp_doc_comment := doc, zp_ce := ce, zp_type := ty, zp_attributes := attrs\<rparr>)\<rparr>;
     upd_class prepared (\<lambda>p. p\<lparr>ce_properties_info := hash_add (fst ni) dup (ce_properties_info p)\<rparr>) s }) = Some s'"
    unfolding prepare_property_info_def by (auto simp: bind_Some_iff)
  obtain ty s5 where ty: "prepare_property_type P (zp_type info) s4 = (ty, s5)" by force
  from run' ty obtain attrs s6 where
    at: "(case zp_attributes info of None \<Rightarrow> Some (None, s5) | Some attrs \<Rightarrow> copy_attributes P (Some attrs) s5) = Some (attrs, s6)"
    and fin: "upd_class prepared (\<lambda>p. p\<lparr>ce_properties_info := hash_add (fst ni) dup (ce_properties_info p)\<rparr>) (s6\<lparr>ps_props := (ps_props s6)(dup \<mapsto>
       info\<lparr>zp_name := name, zp_doc_comment := doc, zp_ce := ce, zp_type := ty, zp_attributes := attrs\<rparr>)\<rparr>) = Some s'"
    by (auto simp: bind_Some_iff)
  have "step s2 s3" using doc by (auto split: if_splits dest!: basic_steps)
  moreover have "step s3 s4" using ce by (auto split: if_splits dest!: basic_steps)
  moreover have "step s5 s6" using at by (auto split: option.splits dest!: basic_steps)
  ultimately have "step s1 s6" using basic_steps(4) [OF name] property_type_step [OF ty] steps_trans by blast
  from steps_trans [OF class_step_props [OF dup this] upd_step [OF fin]] show ?thesis .
qed

lemma property_table_step: "prepare_class_property_table P pe c prepared s = Some s' \<Longrightarrow> step s s'"
  unfolding prepare_class_property_table_def
  by (elim bind_eq_SomeE) (blast intro: steps_trans for_each_step property_info_step default_properties_step)

lemma traits_step: "prepare_class_traits P c prepared s = Some s' \<Longrightarrow> step s s'"
proof -
  assume run: "prepare_class_traits P c prepared s = Some s'"
  then obtain cand where cand: "ps_classes s c = Some cand" by (auto simp: prepare_class_traits_def bind_Some_iff)
  obtain names c1 where n: "copy_each (copy_trait_name P) (ce_trait_names cand) (ps_code s) = (names, c1)" by force
  obtain al c2 where a: "copy_each_option (pthreads_preparation_copy_trait_alias (pr_engine P) (pr_self P)) (ce_trait_aliases cand) c1 = (al, c2)"
    by force
  obtain pc c3 where p: "copy_each_option (pthreads_preparation_copy_trait_precedence (pr_engine P) (pr_self P)) (ce_trait_precedences cand) c2 = (pc, c3)"
    by force
  have reference: "pthreads_preparation_copy_trait_method_reference E t x c = (y, c') \<Longrightarrow> code_next c \<le> code_next c'" for E t x c y c'
    by (auto simp: pthreads_preparation_copy_trait_method_reference_def split: prod.splits dest!: next_mono)
  have "code_next (ps_code s) \<le> code_next c1"
    by (rule copy_each_next [OF n]) (auto simp: copy_trait_name_def split: prod.splits dest!: next_mono)
  moreover have "code_next c1 \<le> code_next c2" using a unfolding copy_each_option_def
    by (auto split: option.splits prod.splits elim!: copy_each_next)
      (auto simp: pthreads_preparation_copy_trait_alias_def split: prod.splits dest!: reference next_mono)
  moreover have "code_next c2 \<le> code_next c3" using p unfolding copy_each_option_def
    by (auto split: option.splits prod.splits elim!: copy_each_next)
      (auto simp: pthreads_preparation_copy_trait_precedence_def split: prod.splits dest!: reference next_mono)
  ultimately have "step s (s\<lparr>ps_code := c3\<rparr>)" by (intro class_step_code) simp
  moreover have "step (s\<lparr>ps_code := c3\<rparr>) s'"
    using run cand n a p by (auto simp: prepare_class_traits_def intro: upd_step)
  ultimately show ?thesis by (rule steps_trans)
qed

lemma entries_step: "prepare_entries pe cs s = Some (r, s') \<Longrightarrow> step s s'"
  by (induction cs arbitrary: s r) (auto simp: bind_Some_iff split: option.splits dest!: entry_step, (blast intro: steps_trans)+)

lemma parent_step: "complete_parent P pe cand prepared s = Some s' \<Longrightarrow> step s s'"
  by (auto simp: complete_parent_def bind_Some_iff split: if_splits option.splits class_parent.splits prod.splits dest!: basic_steps
      intro: steps_trans)

lemma interfaces_step: "complete_interfaces P pe cand prepared s = Some s' \<Longrightarrow> step s s'"
proof -
  assume run: "complete_interfaces P pe cand prepared s = Some s'"
  have names: "step s s1" if "on_code (\<lambda>code. Some (copy_each (copy_interface_name P) xs code)) s = Some (r, s1)" for xs r s1
    by (rule names_step [OF that]) (auto simp: copy_interface_name_def split: prod.splits dest!: next_mono)
  show ?thesis using run
    by (auto simp: complete_interfaces_def bind_Some_iff split: if_splits dest!: upd_step entries_step names intro: steps_trans)
qed

lemma complete_step: "pthreads_complete_entry P pe c prepared s = Some s' \<Longrightarrow> step s s'"
  by (auto simp: pthreads_complete_entry_def bind_Some_iff dest!: upd_step parent_step interfaces_step traits_step function_table_step)
    (blast intro: steps_trans)

lemma scope_step: "pthreads_prepared_entry_function_prepare pe c prepared kf s = Some s' \<Longrightarrow> step s s'"
proof -
  have set: "set_scope f q s = Some s' \<Longrightarrow> step s s'" for f q s
    by (auto simp: set_scope_def bind_Some_iff intro: class_step_code)
  show "pthreads_prepared_entry_function_prepare pe c prepared kf s = Some s' \<Longrightarrow> step s s'"
    by (auto simp: pthreads_prepared_entry_function_prepare_def bind_Some_iff split: option.splits if_splits dest!: set entry_step
        intro: steps_trans)
qed

lemma closures_step: "pthreads_prepare_closures (pr_function P) src t s = Some s' \<Longrightarrow> step s s'"
proof -
  have "prepare_closure (pr_function P) t kf s = Some s' \<Longrightarrow> step s s'" for kf s s'
    by (auto simp: prepare_closure_def add_function_def bind_Some_iff split: if_splits intro!: class_step_code dest!: function_next)
  then show "pthreads_prepare_closures (pr_function P) src t s = Some s' \<Longrightarrow> step s s'"
    by (auto simp: pthreads_prepare_closures_def elim!: for_each_step)
qed

lemma current_members_step: "copy_current_members n P defaults parent source is members s = Some (r, s') \<Longrightarrow> step s s'"
proof (induction "is" arbitrary: members s)
  case (Cons i "is")
  then obtain m s1 where 1: "copy_current_members n P defaults parent source is (members[i := m]) s1 = Some (r, s')"
    and 2: "s1 = s \<or> (\<exists>v r. on_code (pr_zval P v) s = Some (r, s1))"
    by (auto simp: bind_Some_iff split: if_splits static_member.splits; blast)
  from 2 have "step s s1" by (auto dest!: basic_steps)
  then show ?case using Cons.IH [OF 1] steps_trans by blast
qed simp

lemma engine_statics_step: "zend_class_init_statics n (pr_self P) c s = Some s' \<Longrightarrow> step s s'"
proof (induction n arbitrary: c s s')
  case (Suc n)
  then show ?case
    by (auto simp: bind_Some_iff split: if_splits option.splits dest!: Suc.IH intro!: class_step_members intro: steps_trans)
qed simp

lemma init_statics_step: "init_class_statics n P c d s = Some s' \<Longrightarrow> step s s'"
proof -
  assume run: "init_class_statics n P c d s = Some s'"
  then obtain cand where cand: "ps_classes s c = Some cand" by (auto simp: init_class_statics_def bind_Some_iff)
  show ?thesis
  proof (cases "s' = s")
    case False
    with run cand obtain source where source: "(if ce_default_static_members_count cand \<noteq> 0 \<and> ZEND_ACC_LINKED \<in> ce_flags cand
           then ps_static_members s (pr_source P) c else None) = Some source" and none: "\<not> ps_static_members s (pr_self P) d \<noteq> None"
      by (auto simp: init_class_statics_def split: option.splits if_splits)
    from run obtain parent s1 defaults indices init s2 ms where
      c: "(case parent of None \<Rightarrow> Some s | Some p \<Rightarrow> zend_class_init_statics n (pr_self P) p s) = Some s1"
      "copy_current_members n P defaults parent source indices init s1 = Some (ms, s2)"
      "s2\<lparr>ps_static_members := (ps_static_members s2)(pr_self P := (ps_static_members s2 (pr_self P))(d \<mapsto> ms))\<rparr> = s'"
      unfolding init_class_statics_def cand bind.simps source option.case if_not_P [OF none]
      by (elim bind_eq_SomeE case_pairE) (hypsubst, unfold option.inject, rule that)
    have "step s s1" using c(1) by (auto split: option.splits dest!: engine_statics_step)
    moreover have "step s2 s'" unfolding c(3) [symmetric] by (rule class_step_members)
    ultimately show ?thesis using current_members_step [OF c(2)] steps_trans by blast
  qed simp
qed

lemma late_bindings_step: "pthreads_prepared_entry_late_bindings n P pe c prepared s = Some s' \<Longrightarrow> step s s'"
  by (auto simp: pthreads_prepared_entry_late_bindings_def bind_Some_iff split: if_splits
      dest!: property_table_step statics_step constants_step init_statics_step)
    (blast intro: steps_trans)

lemma dependencies_step: "pthreads_prepare_immutable_class_dependencies P pe c s = Some s' \<Longrightarrow> step s s'"
proof -
  assume run: "pthreads_prepare_immutable_class_dependencies P pe c s = Some s'"
  have named: "create_named P pe name s = Some s' \<Longrightarrow> step s s'" for name s s'
    by (auto simp: create_named_def bind_Some_iff split: option.splits dest!: entry_step)
  from run obtain cand s1 where deps: "(if ZEND_ACC_LINKED \<in> ce_flags cand
       then do { parent \<leftarrow> read_parent cand; interfaces \<leftarrow> read_interfaces cand;
         (_, s) \<leftarrow> prepare_entries pe (parent # interfaces) s; Some s }
       else Some s) = Some s1"
    and loop: "for_each (\<lambda>ni s. do { info \<leftarrow> ps_props s (snd ni); for_each (create_named P pe) (type_names (zp_type info)) s })
      (ce_properties_info cand) s1 = Some s'"
    unfolding pthreads_prepare_immutable_class_dependencies_def by (elim bind_eq_SomeE) (rule that)
  have "step s s1" using deps by (auto simp: bind_Some_iff simp del: prepare_entries.simps split: if_splits dest!: entries_step)
  moreover have "step s1 s'" using loop
    by (rule for_each_step) (auto simp: bind_Some_iff elim!: for_each_step named)
  ultimately show ?thesis by (rule steps_trans)
qed

lemma backed_enum_step: "prepare_backed_enum_table P table result s = Some (r, s') \<Longrightarrow> step s s'"
proof (induction table arbitrary: result s)
  case (Cons p table)
  obtain k v where "p = (k, v)" by force
  with Cons.prems show ?case by (auto simp: bind_Some_iff dest!: basic_steps Cons.IH intro: steps_trans)
qed simp

lemma copy_entry_step:
  assumes run: "pthreads_copy_entry P pe c s = Some (prepared, s')"
  shows "step s s'"
proof -
  obtain cand where cand: "ps_classes s c = Some cand" using run by (auto simp: pthreads_copy_entry_def bind_Some_iff)
  obtain a s1 where a: "new_address s = (a, s1)" by force
  obtain name s2 where name: "copy_name P (ce_name cand) s1 = (name, s2)" by force
  obtain doc s3 where doc: "(if inherits_comments P then copy_name_option P (ce_doc_comment cand) s2 else (None, s2)) = (doc, s3)" by force
  from run obtain attrs s4 enum s5 fname s6 ce sx where at:
    "(case ce_attributes cand of None \<Rightarrow> Some (None, s3) | Some attrs \<Rightarrow> copy_attributes P (Some attrs) s3) = Some (attrs, s4)"
    "(case ce_backed_enum_table cand of None \<Rightarrow> Some (None, s4)
       | Some table \<Rightarrow> do { (new, s) \<leftarrow> prepare_backed_enum_table P table [] s4; Some (Some new, s) }) = Some (enum, s5)"
    "(case ce_filename cand of None \<Rightarrow> (None, s5)
       | Some fname \<Rightarrow> (case copy_filename (pr_engine P) (pr_self P) fname (ps_code s5) of (copy, code) \<Rightarrow> (Some copy, s5\<lparr>ps_code := code\<rparr>))) =
       (fname, s6)"
    "pthreads_complete_entry P pe c a (s6\<lparr>ps_classes := (ps_classes s6)(a \<mapsto> ce)\<rparr>) = Some sx"
    "Some (a, sx) = Some (prepared, s')"
    unfolding pthreads_copy_entry_def Let_def cand bind.simps a name prod.case doc
    by (elim bind_eq_SomeE case_pairE) (hypsubst, rule that)
  have fin: "a = prepared" "pthreads_complete_entry P pe c prepared (s6\<lparr>ps_classes := (ps_classes s6)(a \<mapsto> ce)\<rparr>) = Some s'"
    using at(4,5) by simp_all
  have "step s2 s3" using doc by (auto split: if_splits dest!: basic_steps)
  moreover have "step s3 s4" using at(1) by (auto split: option.splits dest!: basic_steps)
  moreover have "step s4 s5" using at(2) by (auto simp: bind_Some_iff split: option.splits dest!: backed_enum_step)
  moreover have "step s5 s6" using at(3) by (auto split: option.splits prod.splits intro!: class_step_code dest: copy_filename_next)
  ultimately have "step s1 s6" using basic_steps(4) [OF name] steps_trans by blast
  from steps_trans [OF class_step_class [OF a this] complete_step [OF fin(2)]] show ?thesis using fin(1) writable by simp
qed

end

section \<open>Creating an entry\<close>

definition entry_steps :: "tid \<Rightarrow> (addr \<Rightarrow> addr option preparing) \<Rightarrow> bool" where
  "entry_steps t pe \<longleftrightarrow> (\<forall>c s q s'. pe c s = Some (q, s') \<longrightarrow> class_step t {} s s')"

context preparing_thread
begin

lemma filling:
  assumes "entry_steps (pr_self P) pe"
  shows "prepared_class P pe a {a}"
proof unfold_locales
  show "class_step (pr_self P) {a} s s'" if "pe c s = Some (q, s')" for c s q s'
    using assms that class_step_mono unfolding entry_steps_def by blast
qed simp

lemma fresh_entry:
  assumes "class_step t {w_next (prepare_world s)} s s'"
  shows "class_step t X s s'"
  using assms by (rule class_step_own) (auto simp: heap_below_def)

lemma copied_address: "pthreads_copy_entry P pe c s = Some (a, s') \<Longrightarrow> a = w_next (prepare_world s)"
  unfolding pthreads_copy_entry_def Let_def by (elim bind_eq_SomeE case_pairE) (simp add: new_address_eq)

lemma copied_entry_step:
  assumes pe: "entry_steps (pr_self P) pe"
    and run: "do { (prepared, s) \<leftarrow> pthreads_copy_entry P pe c s;
       let s = set_class (pr_self P) lookup prepared s;
       s \<leftarrow> (if late then pthreads_prepared_entry_late_bindings n P pe c prepared s else Some s);
       s \<leftarrow> pthreads_prepare_closures (pr_function P) (pr_source P) (pr_self P) s;
       ce \<leftarrow> ps_classes s prepared;
       s \<leftarrow> for_each (pthreads_prepared_entry_function_prepare pe c prepared) (ce_function_table ce) s;
       Some (Some prepared, s) } = Some (q, s')"
  shows "class_step (pr_self P) {} s s'"
proof -
  let ?a = "w_next (prepare_world s)"
  note f = filling [OF pe, of ?a]
  from run obtain a s1 s2 s3 methods where c: "pthreads_copy_entry P pe c s = Some (a, s1)"
    "(if late then pthreads_prepared_entry_late_bindings n P pe c a (set_class (pr_self P) lookup a s1)
      else Some (set_class (pr_self P) lookup a s1)) = Some s2"
    "pthreads_prepare_closures (pr_function P) (pr_source P) (pr_self P) s2 = Some s3"
    "for_each (pthreads_prepared_entry_function_prepare pe c a) methods s3 = Some s'"
    unfolding Let_def
    by (elim bind_eq_SomeE case_pairE) (hypsubst, unfold option.inject prod.inject, elim conjE, hypsubst, rule that)
  note c = c [unfolded copied_address [OF c(1)]]
  let ?step = "class_step (pr_self P) {?a}"
  have "?step s s1" by (rule prepared_class.copy_entry_step [OF f c(1)])
  moreover have "?step s1 s2"
    using c(2) class_step_table prepared_class.late_bindings_step [OF f] class_step_trans by (auto split: if_splits; blast)
  moreover have "?step s2 s3" by (rule prepared_class.closures_step [OF f c(3)])
  moreover have "?step s3 s'" using c(4) by (rule for_each_step) (rule prepared_class.scope_step [OF f])
  ultimately have "?step s s'" using class_step_trans by blast
  then show ?thesis by (rule fresh_entry)
qed

lemma immutable_entry_step:
  assumes pe: "\<And>late. entry_steps (pr_self P) (create late)"
    and cand: "ps_classes s c = Some cand" "ZEND_ACC_IMMUTABLE \<in> ce_flags cand"
    and deps: "pthreads_prepare_immutable_class_dependencies P (create late) c (set_class (pr_self P) lookup c s) = Some s1"
    and late: "(if late then pthreads_prepared_entry_late_bindings n P (create True) c c s1 else Some s1) = Some s'"
  shows "class_step (pr_self P) {} s s'"
proof -
  let ?a = "w_next (prepare_world s)"
  let ?step = "class_step (pr_self P) {?a}"
  note f = filling [OF pe, of late ?a] filling [OF pe, of True ?a]
  have 1: "?step s s1" using prepared_class.dependencies_step [OF f(1) deps] class_step_table class_step_trans by blast
  have "?step s s'" if below: "heap_below s"
  proof -
    have "?a \<noteq> c" using below cand(1) by (auto simp: heap_below_def)
    then have "ps_classes s1 c = Some cand"
      using 1 below cand by (auto simp: class_step_def completable_def)
    then have "?step s1 s'" using late cand(2)
      by (auto simp: pthreads_prepared_entry_late_bindings_def split: if_splits dest!: prepared_class.init_statics_step [OF f(2)])
    with 1 show ?thesis by (rule class_step_trans)
  qed
  then have "?step s s'" by (auto simp: class_step_def)
  then show ?thesis by (rule fresh_entry)
qed

lemma new_entry_step:
  assumes pe: "\<And>late. entry_steps (pr_self P) (create late)"
    and run: "create_new_entry n P create lookup c late s = Some (q, s')"
  shows "class_step (pr_self P) {} s s'"
proof -
  obtain cand where cand: "ps_classes s c = Some cand" using run by (auto simp: create_new_entry_def bind_Some_iff)
  show ?thesis
  proof (cases "ZEND_ACC_IMMUTABLE \<in> ce_flags cand")
    case True
    with run cand obtain s1 where
      "pthreads_prepare_immutable_class_dependencies P (create late) c (set_class (pr_self P) lookup c s) = Some s1"
      "(if late then pthreads_prepared_entry_late_bindings n P (create True) c c s1 else Some s1) = Some s'"
      by (auto simp: create_new_entry_def bind_Some_iff)
    from immutable_entry_step [OF pe cand True this] show ?thesis .
  next
    case False
    show ?thesis
      by (rule copied_entry_step [OF pe]) (use run cand False in \<open>simp add: create_new_entry_def\<close>)
  qed
qed

lemma update_entry_step:
  assumes pe: "\<And>late. entry_steps (pr_self P) (create late)"
    and run: "update_entry n P create c prepared late s = Some (q, s')"
    and ce: "ps_classes s prepared = Some ce" "completable ce"
  shows "class_step (pr_self P) {} s s'"
proof -
  note f = filling [OF pe, of True prepared]
  from run obtain s1 where "pthreads_complete_entry P (create True) c prepared s = Some s1"
    "(if late then pthreads_prepared_entry_late_bindings n P (create True) c prepared s1 else Some s1) = Some s'"
    by (auto simp: update_entry_def bind_Some_iff)
  then have "class_step (pr_self P) {prepared} s s'"
    using prepared_class.complete_step [OF f] prepared_class.late_bindings_step [OF f] class_step_trans by (auto split: if_splits; blast)
  then show ?thesis by (rule class_step_own) (use ce in auto)
qed

lemma create_entry_step:
  "pthreads_create_entry n P late c s = Some (q, s') \<Longrightarrow> class_step (pr_self P) {} s s'"
proof (induction n arbitrary: late c s q s')
  case (Suc n)
  from Suc.prems obtain cand where cand: "ps_classes s c = Some cand" by (auto simp: bind_Some_iff)
  have pe: "entry_steps (pr_self P) (pthreads_create_entry n P late)" for late
    unfolding entry_steps_def using Suc.IH by blast
  note new = new_entry_step [OF pe] and update = update_entry_step [OF pe]
  from Suc.prems cand show ?case
    by (auto simp: bind_Some_iff Let_def completable_def split: if_splits option.splits intro: new update)
qed simp

end

interpretation thread: preparing_thread "thread_preparation n L E nm tolower cases options src t"
  unfolding preparing_thread_def thread_preparation_def by simp (rule thread_copiers.growing_copiers_axioms)

interpretation thread_class: prepared_class "thread_preparation n L E nm tolower cases options src t"
  "pthreads_create_entry k (thread_preparation n L E nm tolower cases options src t) True" a "{a}"
  by (rule thread.filling [unfolded entry_steps_def]) (use thread.create_entry_step in blast)

end
