(* ===== verification/Class_Props.thy ===== *)
theory Class_Props
  imports Class_Statics Class_Frame
begin

text \<open>
  Properties of prepared classes: what is written while a class is prepared, and how its magic methods are found.
\<close>

section \<open>Isolation\<close>


text \<open>A class with a property, whose creator the thread does not share the class with yet.\<close>

definition demo_creator :: prepare_state where
  "demo_creator = (demo_prepare (demo_code Map.empty Map.empty))\<lparr>
     ps_classes := [20 \<mapsto> (zend_initialize_class_data ZEND_USER_CLASS (demo_string 9 ''a''))\<lparr>ce_flags := {ZEND_ACC_LINKED},
        ce_properties_info := [(''p'', 25)], ce_default_properties_count := 1, ce_default_properties_table := Some [IS_LONG 3]\<rparr>],
     ps_props := [25 \<mapsto> \<lparr>zp_name = demo_string 10 ''p'', zp_number = 0, zp_static = False, zp_flags = 1, zp_doc_comment = None,
        zp_ce = Some 20, zp_type = TypeMask 16, zp_attributes = None\<rparr>],
     ps_class_table := (\<lambda>_. [])(1 := [(''a'', 20)])\<rparr>"

definition demo_thread :: preparation where
  "demo_thread = thread_preparation 2 demo_layout demo_engine (\<lambda>_. []) id (\<lambda>_. IS_NULL) 0 1 2"

lemmas prepare_evaluation =
  pthreads_prepare_single_class_def pthreads_prepared_entry_def create_new_entry_def pthreads_copy_entry_def
  pthreads_complete_entry_def complete_parent_def complete_interfaces_def prepare_class_traits_def prepare_class_function_table_def
  pthreads_prepared_entry_late_bindings_def prepare_class_property_table_def prepare_class_statics_def prepare_class_constants_def
  init_class_statics_def pthreads_prepare_closures_def prepare_property_info_def prepare_default_properties_def
  properties_info_table_of_def enter_property_def prepare_property_type_def upd_class_def new_address_def emalloc_def copy_name_def
  copy_string_ps_def pthreads_copy_string_def string_init_def zend_string_init_def alloc_def copy_each_option_def read_parent_def
  zend_initialize_class_data_def refcounted_def hash_add_def inherits_comments_def set_class_def
  prepare_class_handlers_def

lemma interceptors_no_methods:
  assumes "ce_function_table ce = []" and "ce_iterator_funcs cand = None" and "ce_arrayaccess_funcs cand = None"
  shows "prepare_class_interceptors cand ce = ce\<lparr>ce_iterator_funcs := None, ce_arrayaccess_funcs := None\<rparr>"
proof -
  have "find_and_set mn ce = ce" for mn using assms(1) by (simp add: find_and_set_def)
  then have "fold find_and_set magic_names ce = ce" "find_constructor ce = ce" by (simp_all add: magic_names_def find_constructor_def)
  then show ?thesis using assms(2,3) by (simp add: prepare_class_interceptors_def)
qed

lemma demo_creator_run:
  "\<exists>s' ce. pthreads_prepare_single_class 1 demo_thread 20 demo_creator = Some (Some 2000, s') \<and> ps_classes s' 2000 = Some ce \<and>
     zs_val (ce_name ce) = ''a'' \<and> map_of (ps_class_table s' 2) ''a'' = Some 2000 \<and> ce_default_properties_table ce = Some [IS_LONG 3]"
  by (simp add: prepare_evaluation demo_creator_def demo_thread_def thread_preparation_def demo_prepare_def demo_code_def demo_string_def
      empty_world_def Let_def interceptors_no_methods)


section \<open>Magic methods\<close>

lemma find_and_set_table [simp]: "ce_function_table (find_and_set mn ce) = ce_function_table ce"
  by (simp add: find_and_set_def split: option.split)

lemma find_all_magic:
  assumes "distinct (map fst ms)"
  shows "ce_function_table (fold find_and_set ms ce) = ce_function_table ce \<and>
    ce_magic (fold find_and_set ms ce) m =
      (if ce_magic ce m \<noteq> None then ce_magic ce m else case map_of ms m of None \<Rightarrow> None | Some name \<Rightarrow> map_of (ce_function_table ce) name)"
  using assms
proof (induction ms arbitrary: ce)
  case (Cons mn ms)
  obtain m' name where mn: "mn = (m', name)" by force
  have "map_of ms m' = None" using Cons.prems mn by (simp add: map_of_eq_None_iff)
  with Cons.IH [of "find_and_set mn ce"] Cons.prems mn show ?case
    by (auto simp: find_and_set_def split: option.split)
qed simp

lemma magic_names_distinct: "distinct (map fst magic_names)" "map_of magic_names Mconstructor = None"
  by (simp_all add: magic_names_def)

lemma constructor_magic:
  "ce_function_table (find_constructor ce) = ce_function_table ce" "m \<noteq> Mconstructor \<Longrightarrow> ce_magic (find_constructor ce) m = ce_magic ce m"
  by (auto simp: find_constructor_def find_and_set_def split: option.split)


definition demo_aggregate :: zend_class_entry where
  "demo_aggregate = (zend_initialize_class_data ZEND_USER_CLASS (demo_string 9 ''a''))\<lparr>
     ce_function_table := [(''getiterator'', 40), (''__get'', 41), (''offsetget'', 42)],
     ce_iterator_funcs := Some [''new_iterator'' \<mapsto> 30], ce_arrayaccess_funcs := Some [''offsetget'' \<mapsto> 31]\<rparr>"


end
