(* ===== verification/Stubs.thy ===== *)
theory Stubs
  imports World
begin

text \<open>
  src/stubs/*_arginfo.h: the classes the extension registers with the engine, as their stubs declare them. A class has a list
  of methods, each with its signature and the C function behind it, and the default values of its properties.
\<close>

section \<open>Signatures\<close>

datatype stub_type =
    T_LONG | T_BOOL | T_STRING | T_ARRAY | T_CALLABLE | T_MIXED | T_VOID
  | T_OBJ string | T_OBJ_OR_NULL string | T_NONE

text \<open>An argument: its name, its type, its default value as the stub writes it, and whether it takes all remaining values.\<close>

record arg_info =
  ai_name :: string
  ai_type :: stub_type
  ai_default :: "string option"
  ai_variadic :: bool

definition ZEND_ARG :: "string \<Rightarrow> stub_type \<Rightarrow> arg_info" where
  "ZEND_ARG name ty = \<lparr>ai_name = name, ai_type = ty, ai_default = None, ai_variadic = False\<rparr>"

definition ZEND_ARG_WITH_DEFAULT_VALUE :: "string \<Rightarrow> stub_type \<Rightarrow> string \<Rightarrow> arg_info" where
  "ZEND_ARG_WITH_DEFAULT_VALUE name ty d = \<lparr>ai_name = name, ai_type = ty, ai_default = Some d, ai_variadic = False\<rparr>"

definition ZEND_ARG_VARIADIC :: "string \<Rightarrow> stub_type \<Rightarrow> arg_info" where
  "ZEND_ARG_VARIADIC name ty = \<lparr>ai_name = name, ai_type = ty, ai_default = None, ai_variadic = True\<rparr>"

record signature =
  sig_return :: stub_type
  sig_required :: nat
  sig_args :: "arg_info list"

abbreviation arg_infos :: "nat \<Rightarrow> stub_type \<Rightarrow> arg_info list \<Rightarrow> signature" where
  "arg_infos required ret args \<equiv> \<lparr>sig_return = ret, sig_required = required, sig_args = args\<rparr>"

text \<open>
  An entry of a method table. \<open>fe_handler\<close> names the C function by class and method; an abstract method has none.
\<close>

datatype method_flag = ACC_STATIC | ACC_ABSTRACT

record zend_function_entry =
  fe_name :: string
  fe_handler :: "(string \<times> string) option"
  fe_signature :: signature
  fe_flags :: "method_flag list"

definition ZEND_ME :: "string \<Rightarrow> string \<Rightarrow> signature \<Rightarrow> method_flag list \<Rightarrow> zend_function_entry" where
  "ZEND_ME c name s flags = \<lparr>fe_name = name, fe_handler = Some (c, name), fe_signature = s, fe_flags = flags\<rparr>"

definition ZEND_MALIAS :: "string \<Rightarrow> string \<Rightarrow> string \<Rightarrow> signature \<Rightarrow> method_flag list \<Rightarrow> zend_function_entry" where
  "ZEND_MALIAS c name alias s flags = \<lparr>fe_name = name, fe_handler = Some (c, alias), fe_signature = s, fe_flags = flags\<rparr>"

definition ZEND_ABSTRACT_ME :: "string \<Rightarrow> signature \<Rightarrow> method_flag list \<Rightarrow> zend_function_entry" where
  "ZEND_ABSTRACT_ME name s flags = \<lparr>fe_name = name, fe_handler = None, fe_signature = s, fe_flags = flags\<rparr>"

section \<open>Method tables\<close>

definition class_Pool_methods :: "zend_function_entry list" where
  "class_Pool_methods =
     [ZEND_ME ''Pool'' ''__construct'' (arg_infos 1 T_NONE
        [ZEND_ARG ''size'' T_LONG, ZEND_ARG_WITH_DEFAULT_VALUE ''class'' T_STRING ''Worker::class'',
         ZEND_ARG_WITH_DEFAULT_VALUE ''ctor'' T_ARRAY ''[]'']) [],
      ZEND_ME ''Pool'' ''collect'' (arg_infos 0 T_LONG [ZEND_ARG_WITH_DEFAULT_VALUE ''collector'' T_CALLABLE ''null'']) [],
      ZEND_ME ''Pool'' ''resize'' (arg_infos 1 T_VOID [ZEND_ARG ''size'' T_LONG]) [],
      ZEND_ME ''Pool'' ''shutdown'' (arg_infos 0 T_VOID []) [],
      ZEND_ME ''Pool'' ''submit'' (arg_infos 1 T_LONG [ZEND_ARG ''task'' (T_OBJ ''ThreadedRunnable'')]) [],
      ZEND_ME ''Pool'' ''submitTo'' (arg_infos 2 T_LONG
        [ZEND_ARG ''worker'' T_LONG, ZEND_ARG ''task'' (T_OBJ ''ThreadedRunnable'')]) []]"

definition class_ThreadedBase_methods :: "zend_function_entry list" where
  "class_ThreadedBase_methods =
     [ZEND_ME ''ThreadedBase'' ''notify'' (arg_infos 0 T_BOOL []) [],
      ZEND_ME ''ThreadedBase'' ''notifyOne'' (arg_infos 0 T_BOOL []) [],
      ZEND_ME ''ThreadedBase'' ''synchronized'' (arg_infos 1 T_MIXED
        [ZEND_ARG ''function'' (T_OBJ ''Closure''), ZEND_ARG_VARIADIC ''args'' T_MIXED]) [],
      ZEND_ME ''ThreadedBase'' ''wait'' (arg_infos 0 T_BOOL [ZEND_ARG_WITH_DEFAULT_VALUE ''timeout'' T_LONG ''0'']) [],
      ZEND_ME ''ThreadedBase'' ''getIterator'' (arg_infos 0 (T_OBJ ''Iterator'') []) []]"

definition class_ThreadedArray_methods :: "zend_function_entry list" where
  "class_ThreadedArray_methods =
     [ZEND_ME ''ThreadedArray'' ''chunk'' (arg_infos 1 T_ARRAY
        [ZEND_ARG ''size'' T_LONG, ZEND_ARG_WITH_DEFAULT_VALUE ''preserve'' T_BOOL ''false'']) [],
      ZEND_ME ''ThreadedArray'' ''count'' (arg_infos 0 T_LONG []) [],
      ZEND_ME ''ThreadedArray'' ''fromArray'' (arg_infos 1 (T_OBJ ''ThreadedArray'') [ZEND_ARG ''array'' T_ARRAY]) [ACC_STATIC],
      ZEND_ME ''ThreadedArray'' ''merge'' (arg_infos 1 T_BOOL
        [ZEND_ARG ''from'' T_MIXED, ZEND_ARG_WITH_DEFAULT_VALUE ''overwrite'' T_BOOL ''true'']) [],
      ZEND_ME ''ThreadedArray'' ''pop'' (arg_infos 0 T_MIXED []) [],
      ZEND_ME ''ThreadedArray'' ''shift'' (arg_infos 0 T_MIXED []) [],
      ZEND_ME ''ThreadedArray'' ''offsetGet'' (arg_infos 1 T_MIXED [ZEND_ARG ''offset'' T_MIXED]) [],
      ZEND_ME ''ThreadedArray'' ''offsetSet'' (arg_infos 2 T_VOID [ZEND_ARG ''offset'' T_MIXED, ZEND_ARG ''value'' T_MIXED]) [],
      ZEND_ME ''ThreadedArray'' ''offsetExists'' (arg_infos 1 T_BOOL [ZEND_ARG ''offset'' T_MIXED]) [],
      ZEND_ME ''ThreadedArray'' ''offsetUnset'' (arg_infos 1 T_VOID [ZEND_ARG ''offset'' T_MIXED]) []]"

definition class_ThreadedRunnable_methods :: "zend_function_entry list" where
  "class_ThreadedRunnable_methods =
     [ZEND_ME ''ThreadedRunnable'' ''isRunning'' (arg_infos 0 T_BOOL []) [],
      ZEND_ME ''ThreadedRunnable'' ''isTerminated'' (arg_infos 0 T_BOOL []) [],
      ZEND_ABSTRACT_ME ''run'' (arg_infos 0 T_VOID []) [ACC_ABSTRACT]]"

definition class_Thread_methods :: "zend_function_entry list" where
  "class_Thread_methods =
     [ZEND_ME ''Thread'' ''getCreatorId'' (arg_infos 0 T_LONG []) [],
      ZEND_ME ''Thread'' ''getCurrentThread'' (arg_infos 0 (T_OBJ_OR_NULL ''Thread'') []) [ACC_STATIC],
      ZEND_ME ''Thread'' ''getCurrentThreadId'' (arg_infos 0 T_LONG []) [ACC_STATIC],
      ZEND_ME ''Thread'' ''getThreadId'' (arg_infos 0 T_LONG []) [],
      ZEND_ME ''Thread'' ''isJoined'' (arg_infos 0 T_BOOL []) [],
      ZEND_ME ''Thread'' ''isStarted'' (arg_infos 0 T_BOOL []) [],
      ZEND_ME ''Thread'' ''join'' (arg_infos 0 T_BOOL []) [],
      ZEND_ME ''Thread'' ''start'' (arg_infos 0 T_BOOL
        [ZEND_ARG_WITH_DEFAULT_VALUE ''options'' T_LONG ''PTHREADS_INHERIT_ALL'']) []]"

definition class_Worker_methods :: "zend_function_entry list" where
  "class_Worker_methods =
     [ZEND_ME ''Worker'' ''collect'' (arg_infos 0 T_LONG [ZEND_ARG_WITH_DEFAULT_VALUE ''function'' T_CALLABLE ''null'']) [],
      ZEND_ME ''Worker'' ''collector'' (arg_infos 1 T_BOOL [ZEND_ARG ''collectable'' (T_OBJ ''ThreadedRunnable'')]) [],
      ZEND_ME ''Worker'' ''getStacked'' (arg_infos 0 T_LONG []) [],
      ZEND_MALIAS ''Thread'' ''isShutdown'' ''isJoined'' (arg_infos 0 T_BOOL []) [],
      ZEND_MALIAS ''Thread'' ''shutdown'' ''join'' (arg_infos 0 T_BOOL []) [],
      ZEND_ME ''Worker'' ''stack'' (arg_infos 1 T_LONG [ZEND_ARG ''work'' (T_OBJ ''ThreadedRunnable'')]) [],
      ZEND_ME ''Worker'' ''unstack'' (arg_infos 0 (T_OBJ_OR_NULL ''ThreadedRunnable'') []) [],
      ZEND_ME ''Worker'' ''run'' (arg_infos 0 T_VOID []) []]"

definition class_ThreadedConnectionException_methods :: "zend_function_entry list" where
  "class_ThreadedConnectionException_methods = []"

section \<open>Classes\<close>

text \<open>
  A registered class. \<open>rc_create_object\<close> is the function that makes its objects, \<open>None\<close> the one of the engine; the other hooks
  say whether the class serialises and iterates with the functions of the extension.
\<close>

datatype class_flag = ABSTRACT_CLASS | FINAL_CLASS | NO_DYNAMIC_PROPERTIES

record class_registration =
  rc_parent :: "string option"
  rc_interfaces :: "string list"
  rc_flags :: "class_flag list"
  rc_methods :: "zend_function_entry list"
  rc_properties :: "(string \<times> zval) list"
  rc_create_object :: "class_kind option"
  rc_serialize :: bool
  rc_unserialize :: bool
  rc_get_iterator :: bool

type_synonym class_registry = "(string \<times> class_registration) list"

text \<open>\<open>zend_do_inheritance\<close> of the engine: a class takes over the hooks of its parent.\<close>

definition inherit_hooks :: "class_registration option \<Rightarrow> class_registration \<Rightarrow> class_registration" where
  "inherit_hooks parent c =
     (case parent of
        None \<Rightarrow> c
      | Some p \<Rightarrow> c\<lparr>rc_create_object := rc_create_object p, rc_serialize := rc_serialize p,
          rc_unserialize := rc_unserialize p, rc_get_iterator := rc_get_iterator p\<rparr>)"

definition zend_register_internal_class_ex ::
  "string \<Rightarrow> zend_function_entry list \<Rightarrow> string option \<Rightarrow> class_registry \<Rightarrow> class_registry" where
  "zend_register_internal_class_ex name methods parent reg =
     reg @ [(name, inherit_hooks (Option.bind parent (map_of reg))
       \<lparr>rc_parent = parent, rc_interfaces = [], rc_flags = [], rc_methods = methods, rc_properties = [],
        rc_create_object = None, rc_serialize = False, rc_unserialize = False, rc_get_iterator = False\<rparr>)]"

text \<open>An assignment to a field of a class that is registered.\<close>

definition set_entry :: "string \<Rightarrow> (class_registration \<Rightarrow> class_registration) \<Rightarrow> class_registry \<Rightarrow> class_registry" where
  "set_entry name f reg = map (\<lambda>(n, c). (n, if n = name then f c else c)) reg"

definition zend_class_implements :: "string \<Rightarrow> string list \<Rightarrow> class_registry \<Rightarrow> class_registry" where
  "zend_class_implements name is = set_entry name (\<lambda>c. c\<lparr>rc_interfaces := rc_interfaces c @ is\<rparr>)"

definition zend_declare_property_ex :: "string \<Rightarrow> string \<Rightarrow> zval \<Rightarrow> class_registry \<Rightarrow> class_registry" where
  "zend_declare_property_ex name property v = set_entry name (\<lambda>c. c\<lparr>rc_properties := rc_properties c @ [(property, v)]\<rparr>)"

definition register_class_Pool :: "class_registry \<Rightarrow> class_registry" where
  "register_class_Pool reg =
     zend_declare_property_ex ''Pool'' ''last'' (IS_LONG 0)
     (zend_declare_property_ex ''Pool'' ''ctor'' IS_NULL
     (zend_declare_property_ex ''Pool'' ''workers'' IS_NULL
     (zend_declare_property_ex ''Pool'' ''class'' IS_NULL
     (zend_declare_property_ex ''Pool'' ''size'' IS_NULL
     (zend_register_internal_class_ex ''Pool'' class_Pool_methods None reg)))))"

definition register_class_ThreadedBase :: "class_registry \<Rightarrow> class_registry" where
  "register_class_ThreadedBase reg = zend_class_implements ''ThreadedBase'' [''IteratorAggregate'']
     (zend_register_internal_class_ex ''ThreadedBase'' class_ThreadedBase_methods None reg)"

definition register_class_ThreadedArray :: "class_registry \<Rightarrow> class_registry" where
  "register_class_ThreadedArray reg = zend_class_implements ''ThreadedArray'' [''Countable'', ''ArrayAccess'']
     (set_entry ''ThreadedArray'' (\<lambda>c. c\<lparr>rc_flags := rc_flags c @ [FINAL_CLASS, NO_DYNAMIC_PROPERTIES]\<rparr>)
     (zend_register_internal_class_ex ''ThreadedArray'' class_ThreadedArray_methods (Some ''ThreadedBase'') reg))"

definition register_class_ThreadedConnectionException :: "class_registry \<Rightarrow> class_registry" where
  "register_class_ThreadedConnectionException reg =
     zend_register_internal_class_ex ''ThreadedConnectionException'' class_ThreadedConnectionException_methods
       (Some ''RuntimeException'') reg"

definition register_class_ThreadedRunnable :: "class_registry \<Rightarrow> class_registry" where
  "register_class_ThreadedRunnable reg = set_entry ''ThreadedRunnable'' (\<lambda>c. c\<lparr>rc_flags := rc_flags c @ [ABSTRACT_CLASS]\<rparr>)
     (zend_register_internal_class_ex ''ThreadedRunnable'' class_ThreadedRunnable_methods (Some ''ThreadedBase'') reg)"

definition register_class_Thread :: "class_registry \<Rightarrow> class_registry" where
  "register_class_Thread reg = set_entry ''Thread'' (\<lambda>c. c\<lparr>rc_flags := rc_flags c @ [ABSTRACT_CLASS]\<rparr>)
     (zend_register_internal_class_ex ''Thread'' class_Thread_methods (Some ''ThreadedRunnable'') reg)"

definition register_class_Worker :: "class_registry \<Rightarrow> class_registry" where
  "register_class_Worker reg =
     zend_register_internal_class_ex ''Worker'' class_Worker_methods (Some ''Thread'') reg"

end
