(* ===== verification/Module.thy ===== *)
theory Module
  imports Stubs Prepare
begin

text \<open>
  src/php_pthreads.c and src/ext_sockets_hacks.c: what the extension does when the process loads it, when a thread begins and
  ends a request, and when the process ends. The state adds to that of \<open>Prepare\<close> what only these functions touch: the classes and
  handlers the extension installs, the SAPI, the thread that loaded it, and the rest of the globals of each thread.
\<close>

section \<open>State\<close>

text \<open>
  The handlers of objects, by slot. \<open>Std\<close> is the function of the engine, \<open>Pthreads\<close> one of this extension by its name.
\<close>

datatype handler_slot =
    free_obj | dtor_obj | cast_object | get_debug_info | get_properties | read_property | write_property | has_property
  | unset_property | get_property_ptr_ptr | get_gc | clone_obj | compare | count_elements | read_dimension | write_dimension
  | has_dimension | unset_dimension

datatype handler = Std handler_slot | Pthreads string | NoHandler

type_synonym zend_object_handlers = "handler_slot \<Rightarrow> handler"

text \<open>The handlers of a socket: its function \<open>free_obj\<close>, and the others together.\<close>

datatype socket_free = EngineSocketFree | HookSocketFree

record socket_handlers =
  sh_free_obj :: socket_free
  sh_others :: nat

text \<open>A socket points to the handlers of its extension, or to those in the globals of a thread.\<close>

datatype handlers_ref = EngineHandlers | CustomHandlers tid

datatype socket_ctor = EngineSocketCreate | HookSocketCreate

datatype sapi_deactivate = EngineDeactivate | NoDeactivate | CliDeactivate

record request_globals =
  rg_pid :: nat
  rg_signal :: nat
  rg_options :: zend_ulong
  rg_hard_copy_interned_strings :: bool
  rg_original_socket_object_handlers :: "socket_handlers option"
  rg_custom_socket_object_handlers :: socket_handlers

record module_state =
  md_prepare :: prepare_state
  md_request :: "tid \<Rightarrow> request_globals"
  md_instance :: "tid option"
  md_sapi_name :: string
  md_sapi_deactivate :: sapi_deactivate
  md_argv0 :: "string option"
  md_errors :: "string list"
  md_constants :: "(string \<times> zend_ulong) list"
  md_classes :: class_registry
  md_base_handlers :: zend_object_handlers
  md_array_handlers :: zend_object_handlers
  md_socket_create :: socket_ctor
  md_socket_create_original :: "socket_ctor option"
  md_socket_handlers :: "addr \<rightharpoonup> handlers_ref"

abbreviation module_world :: "module_state \<Rightarrow> world" where "module_world s \<equiv> prepare_world (md_prepare s)"

definition set_module_world :: "world \<Rightarrow> module_state \<Rightarrow> module_state" where
  "set_module_world w s = s\<lparr>md_prepare := set_world w (md_prepare s)\<rparr>"

definition set_request :: "tid \<Rightarrow> request_globals \<Rightarrow> module_state \<Rightarrow> module_state" where
  "set_request t rg s = s\<lparr>md_request := (md_request s)(t := rg)\<rparr>"

section \<open>Sockets\<close>

text \<open>
  What the sockets extension offers: the function that makes a socket object, and the handlers it gives to it.
\<close>

record sockets_extension =
  se_create :: "world \<Rightarrow> addr \<times> world"
  se_handlers :: socket_handlers

definition pthreads_socket_create_object_hook :: "sockets_extension \<Rightarrow> tid \<Rightarrow> module_state \<Rightarrow> addr \<times> module_state" where
  "pthreads_socket_create_object_hook X t s =
     (let (result, w) = se_create X (module_world s);
          s = set_module_world w s;
          rg = md_request s t;
          s = (if rg_original_socket_object_handlers rg = None
               then set_request t (rg\<lparr>rg_original_socket_object_handlers := Some (se_handlers X),
                 rg_custom_socket_object_handlers := (se_handlers X)\<lparr>sh_free_obj := HookSocketFree\<rparr>\<rparr>) s
               else s)
      in (result, s\<lparr>md_socket_handlers := (md_socket_handlers s)(result \<mapsto> CustomHandlers t)\<rparr>))"

definition pthreads_ext_sockets_hacks_init :: "module_state \<Rightarrow> module_state" where
  "pthreads_ext_sockets_hacks_init s =
     s\<lparr>md_socket_create_original := Some (md_socket_create s), md_socket_create := HookSocketCreate\<rparr>"

text \<open>How the engine makes a socket, and frees one; the result is the descriptor that is closed.\<close>

definition socket_create_object :: "sockets_extension \<Rightarrow> tid \<Rightarrow> module_state \<Rightarrow> addr \<times> module_state" where
  "socket_create_object X t s =
     (case md_socket_create s of
        HookSocketCreate \<Rightarrow> pthreads_socket_create_object_hook X t s
      | EngineSocketCreate \<Rightarrow>
          (let (result, w) = se_create X (module_world s)
           in (result, (set_module_world w s)\<lparr>md_socket_handlers := (md_socket_handlers s)(result \<mapsto> EngineHandlers)\<rparr>)))"

definition engine_socket_free :: "addr \<Rightarrow> world \<Rightarrow> (int option \<times> world) option" where
  "engine_socket_free a w = do {
     s \<leftarrow> w_sockets w a;
     Some (if IS_INVALID_SOCKET s then None else Some (bsd_socket s), w\<lparr>w_sockets := (w_sockets w)(a := None)\<rparr>) }"

definition socket_free_object :: "tid \<Rightarrow> addr \<Rightarrow> module_state \<Rightarrow> (int option \<times> module_state) option" where
  "socket_free_object t a s = do {
     ref \<leftarrow> md_socket_handlers s a;
     (closed, w) \<leftarrow> (case ref of
         EngineHandlers \<Rightarrow> engine_socket_free a (module_world s)
       | CustomHandlers u \<Rightarrow>
           (case sh_free_obj (rg_custom_socket_object_handlers (md_request s u)) of
              EngineSocketFree \<Rightarrow> engine_socket_free a (module_world s)
            | HookSocketFree \<Rightarrow>
                if rg_original_socket_object_handlers (md_request s t) = None then None
                else pthreads_socket_free_obj_hook t a (module_world s)));
     Some (closed, (set_module_world w s)\<lparr>md_socket_handlers := (md_socket_handlers s)(a := None)\<rparr>) }"

section \<open>Loading the extension\<close>

definition whitelist :: "string list" where
  "whitelist = [''cli'', ''phpdbg'', ''homegear'']"

fun supported_by :: "string list \<Rightarrow> string \<Rightarrow> bool" where
  "supported_by [] name = False"
| "supported_by (sapi # rest) name =
     (if length name = length sapi \<and> take (length name) sapi = name then True else supported_by rest name)"

definition pthreads_is_supported_sapi :: "string \<Rightarrow> bool" where
  "pthreads_is_supported_sapi name = supported_by whitelist name"

definition pthreads_globals_ctor :: "pthreads_zglobals \<times> request_globals \<Rightarrow> pthreads_zglobals \<times> request_globals" where
  "pthreads_globals_ctor zg =
     ((fst zg)\<lparr>zg_this := IS_UNDEF, zg_resources := Map.empty\<rparr>, (snd zg)\<lparr>rg_pid := 0, rg_signal := 0\<rparr>)"

text \<open>\<open>ZEND_INIT_MODULE_GLOBALS\<close>: the globals of every thread, also of those that start later, are made by the constructor.\<close>

definition init_module_globals :: "module_state \<Rightarrow> module_state" where
  "init_module_globals s =
     (let w = module_world s in
      (set_module_world (w\<lparr>w_zg := \<lambda>t. fst (pthreads_globals_ctor (w_zg w t, md_request s t))\<rparr>) s)
        \<lparr>md_request := \<lambda>t. snd (pthreads_globals_ctor (w_zg w t, md_request s t))\<rparr>)"

definition PTHREADS_INHERIT_NONE :: zend_ulong where "PTHREADS_INHERIT_NONE = 0"

definition module_constants :: "(string \<times> zend_ulong) list" where
  "module_constants =
     [(''PTHREADS_INHERIT_ALL'', PTHREADS_INHERIT_ALL), (''PTHREADS_INHERIT_NONE'', PTHREADS_INHERIT_NONE),
      (''PTHREADS_INHERIT_INI'', PTHREADS_INHERIT_INI), (''PTHREADS_INHERIT_CONSTANTS'', PTHREADS_INHERIT_CONSTANTS),
      (''PTHREADS_INHERIT_CLASSES'', PTHREADS_INHERIT_CLASSES), (''PTHREADS_INHERIT_FUNCTIONS'', PTHREADS_INHERIT_FUNCTIONS),
      (''PTHREADS_INHERIT_INCLUDES'', PTHREADS_INHERIT_INCLUDES), (''PTHREADS_INHERIT_COMMENTS'', PTHREADS_INHERIT_COMMENTS),
      (''PTHREADS_ALLOW_HEADERS'', PTHREADS_ALLOW_HEADERS)]"

definition register_classes :: "class_registry \<Rightarrow> class_registry" where
  "register_classes reg = (
     let reg = register_class_ThreadedBase reg;
         reg = set_entry ''ThreadedBase'' (\<lambda>c. c\<lparr>rc_create_object := Some ThreadedClass, rc_serialize := True,
           rc_unserialize := True, rc_get_iterator := True\<rparr>) reg;
         reg = register_class_ThreadedArray reg;
         reg = set_entry ''ThreadedArray'' (\<lambda>c. c\<lparr>rc_create_object := Some ThreadedArrayClass\<rparr>) reg;
         reg = register_class_ThreadedConnectionException reg;
         reg = register_class_ThreadedRunnable reg;
         reg = register_class_Thread reg;
         reg = set_entry ''Thread'' (\<lambda>c. c\<lparr>rc_create_object := Some ThreadClass\<rparr>) reg;
         reg = register_class_Worker reg;
         reg = set_entry ''Worker'' (\<lambda>c. c\<lparr>rc_create_object := Some WorkerClass\<rparr>) reg
     in register_class_Pool reg)"

definition threaded_base_handlers :: zend_object_handlers where
  "threaded_base_handlers = Std(
     free_obj := Pthreads ''pthreads_base_free'', dtor_obj := Pthreads ''pthreads_base_dtor'',
     cast_object := Pthreads ''pthreads_cast_object'', get_debug_info := Pthreads ''pthreads_read_debug'',
     get_properties := Pthreads ''pthreads_read_properties'', read_property := Pthreads ''pthreads_read_property'',
     write_property := Pthreads ''pthreads_write_property'', has_property := Pthreads ''pthreads_has_property'',
     unset_property := Pthreads ''pthreads_unset_property'',
     get_property_ptr_ptr := Pthreads ''pthreads_get_property_ptr_ptr_stub'', get_gc := Pthreads ''pthreads_base_gc'',
     clone_obj := NoHandler, compare := Pthreads ''pthreads_compare_objects'')"

definition threaded_array_handlers :: zend_object_handlers where
  "threaded_array_handlers = threaded_base_handlers(
     count_elements := Pthreads ''pthreads_count_properties'', read_dimension := Pthreads ''pthreads_read_dimension'',
     write_dimension := Pthreads ''pthreads_write_dimension'', has_dimension := Pthreads ''pthreads_has_dimension'',
     unset_dimension := Pthreads ''pthreads_unset_dimension'')"

text \<open>
  \<open>PHP_MINIT_FUNCTION\<close>, run by thread \<open>t\<close>; the first two arguments are the results of the POSIX initialisers of the global monitor.
\<close>

definition PHP_MINIT :: "int \<Rightarrow> int \<Rightarrow> tid \<Rightarrow> module_state \<Rightarrow> zend_result \<times> module_state" where
  "PHP_MINIT mutex_ret cond_ret t s =
     (if \<not> pthreads_is_supported_sapi (md_sapi_name s)
      then (FAILURE, s\<lparr>md_errors := md_errors s @ [''The '' @ md_sapi_name s @ '' SAPI is not supported by pthreads'']\<rparr>)
      else
        let s = s\<lparr>md_constants := md_constants s @ module_constants, md_classes := register_classes (md_classes s),
              md_base_handlers := threaded_base_handlers, md_array_handlers := threaded_array_handlers\<rparr>;
            s = pthreads_ext_sockets_hacks_init (init_module_globals s);
            (ok, w) = pthreads_globals_init mutex_ret cond_ret (module_world s);
            s = set_module_world w s
        in (SUCCESS, if ok then s\<lparr>md_instance := Some t\<rparr> else s))"

section \<open>Unloading, and requests\<close>

text \<open>\<open>memcmp\<close> with the three bytes of ``cli'' only looks at the beginning of the name.\<close>

definition sapi_is_cli :: "module_state \<Rightarrow> bool" where
  "sapi_is_cli s \<longleftrightarrow> take 3 (md_sapi_name s) = ''cli''"

definition sapi_cli_deactivate :: "module_state \<Rightarrow> zend_result \<times> module_state" where
  "sapi_cli_deactivate s = (SUCCESS, s\<lparr>md_argv0 := None\<rparr>)"

text \<open>The result has the descriptors that are closed.\<close>

definition PHP_MSHUTDOWN :: "tid \<Rightarrow> module_state \<Rightarrow> int set \<times> module_state" where
  "PHP_MSHUTDOWN t s =
     (if md_instance s = Some t
      then let (closed, w) = pthreads_globals_shutdown (module_world s);
               s = set_module_world w s
           in (closed, if sapi_is_cli s then s\<lparr>md_sapi_deactivate := CliDeactivate\<rparr> else s)
      else ({}, s))"

definition post_zend_deactivate :: "tid \<Rightarrow> module_state \<Rightarrow> module_state" where
  "post_zend_deactivate t s =
     (let w = module_world s in
      set_module_world (set_zg t ((w_zg w t)\<lparr>zg_resources := Map.empty, zg_resolve := Map.empty\<rparr>) w) s)"

definition clear_filenames :: "tid \<Rightarrow> module_state \<Rightarrow> module_state" where
  "clear_filenames t s =
     (let code = ps_code (md_prepare s) in
      s\<lparr>md_prepare := (md_prepare s)\<lparr>ps_code := code\<lparr>cs_filenames := (cs_filenames code)(t := Map.empty)\<rparr>\<rparr>\<rparr>)"

definition PHP_RINIT :: "tid \<Rightarrow> module_state \<Rightarrow> module_state" where
  "PHP_RINIT t s =
     (let w = module_world s;
          s = clear_filenames t (set_module_world (set_zg t ((w_zg w t)\<lparr>zg_resolve := Map.empty\<rparr>) w) s);
          s = set_request t ((md_request s t)\<lparr>rg_hard_copy_interned_strings := False, rg_options := PTHREADS_INHERIT_ALL,
                rg_original_socket_object_handlers := None\<rparr>) s
      in if md_instance s \<noteq> Some t \<and> sapi_is_cli s then s\<lparr>md_sapi_deactivate := NoDeactivate\<rparr> else s)"

definition PHP_RSHUTDOWN :: "tid \<Rightarrow> module_state \<Rightarrow> module_state" where
  "PHP_RSHUTDOWN t s = clear_filenames t s"

end
