(* ===== verification/Module_Props.thy ===== *)
theory Module_Props
  imports Module Prepare_Props
begin

text \<open>
  Properties of the extension as a module: its life in a process whose threads come and go, the sockets they make, and the
  constructors of the classes that scripts derive from those it registers.
\<close>

section \<open>What happens in a process\<close>

text \<open>
  The calls of the engine, each by a thread. \<open>SocketOpen\<close> is the sockets extension storing a descriptor in an object it has made.
\<close>

datatype module_event =
    RequestInit tid | RequestShutdown tid | PostDeactivate tid | ModuleShutdown tid
  | SocketCreate tid | SocketOpen addr int | SocketTrack tid int | SocketFree tid addr

fun run_event :: "sockets_extension \<Rightarrow> module_event \<Rightarrow> module_state \<Rightarrow> module_state option" where
  "run_event X (RequestInit t) s = Some (PHP_RINIT t s)"
| "run_event X (RequestShutdown t) s = Some (PHP_RSHUTDOWN t s)"
| "run_event X (PostDeactivate t) s = Some (post_zend_deactivate t s)"
| "run_event X (ModuleShutdown t) s = Some (snd (PHP_MSHUTDOWN t s))"
| "run_event X (SocketCreate t) s = Some (snd (socket_create_object X t s))"
| "run_event X (SocketOpen a d) s = do {
     so \<leftarrow> w_sockets (module_world s) a;
     let w = module_world s;
     Some (set_module_world (w\<lparr>w_sockets := (w_sockets w)(a \<mapsto> so\<lparr>bsd_socket := d\<rparr>)\<rparr>) s) }"
| "run_event X (SocketTrack t d) s = do {
     (_, w) \<leftarrow> pthreads_globals_shared_socket_track t d (module_world s);
     Some (set_module_world w s) }"
| "run_event X (SocketFree t a) s = do { (_, s) \<leftarrow> socket_free_object t a s; Some s }"

fun run_events :: "sockets_extension \<Rightarrow> module_event list \<Rightarrow> module_state \<Rightarrow> module_state option" where
  "run_events X [] s = Some s"
| "run_events X (e # es) s = do { s \<leftarrow> run_event X e s; run_events X es s }"

text \<open>
  The sockets extension makes an object in new memory, with an invalid descriptor, and changes nothing else.
\<close>

definition creates_sockets :: "sockets_extension \<Rightarrow> bool" where
  "creates_sockets X \<longleftrightarrow> (\<forall>w. \<exists>a n so. se_create X w = (a, w\<lparr>w_next := n, w_sockets := (w_sockets w)(a \<mapsto> so)\<rparr>) \<and>
     w_next w \<le> a \<and> a < n \<and> IS_INVALID_SOCKET so)"

section \<open>Accesses\<close>

lemma module_world_set [simp]:
  "module_world (set_module_world w s) = w" "md_request (set_module_world w s) = md_request s"
  "md_instance (set_module_world w s) = md_instance s" "md_socket_create (set_module_world w s) = md_socket_create s"
  "md_socket_handlers (set_module_world w s) = md_socket_handlers s" "md_classes (set_module_world w s) = md_classes s"
  "md_sapi_deactivate (set_module_world w s) = md_sapi_deactivate s" "md_sapi_name (set_module_world w s) = md_sapi_name s"
  by (simp_all add: set_module_world_def set_world_def)

lemma set_request_simps [simp]:
  "md_prepare (set_request t rg s) = md_prepare s" "md_request (set_request t rg s) = (md_request s)(t := rg)"
  "md_instance (set_request t rg s) = md_instance s" "md_socket_create (set_request t rg s) = md_socket_create s"
  "md_socket_handlers (set_request t rg s) = md_socket_handlers s" "md_classes (set_request t rg s) = md_classes s"
  "md_sapi_deactivate (set_request t rg s) = md_sapi_deactivate s" "md_sapi_name (set_request t rg s) = md_sapi_name s"
  by (simp_all add: set_request_def)

lemma clear_filenames_simps [simp]:
  "module_world (clear_filenames t s) = module_world s" "md_request (clear_filenames t s) = md_request s"
  "md_instance (clear_filenames t s) = md_instance s" "md_socket_create (clear_filenames t s) = md_socket_create s"
  "md_socket_handlers (clear_filenames t s) = md_socket_handlers s" "md_classes (clear_filenames t s) = md_classes s"
  "md_sapi_deactivate (clear_filenames t s) = md_sapi_deactivate s" "md_sapi_name (clear_filenames t s) = md_sapi_name s"
  by (simp_all add: clear_filenames_def Let_def)

section \<open>The loaded module\<close>

text \<open>
  Thread \<open>m\<close> has loaded the module. Between the calls of the engine nobody is inside the global monitor, and the address of every
  socket that has handlers is in use; the next free address is above all sockets.
\<close>

definition loaded_by :: "tid \<Rightarrow> module_state \<Rightarrow> bool" where
  "loaded_by m s \<longleftrightarrow> md_instance s = Some m \<and> g_init (w_globals (module_world s)) \<and>
     md_socket_create s = HookSocketCreate \<and> w_monitors (module_world s) LGlobal = fresh_monitor \<and>
     (\<forall>a. md_socket_handlers s a \<noteq> None \<longrightarrow> w_sockets (module_world s) a \<noteq> None) \<and>
     (\<forall>a. w_sockets (module_world s) a \<noteq> None \<longrightarrow> a < w_next (module_world s))"

lemma loaded_can_lock: "loaded_by m s \<Longrightarrow> can_lock (Suc 0) {LGlobal} t (module_world s)"
  by (simp add: loaded_by_def can_lock_def monitor_lockable_def fresh_monitor_def mutex_init_lockable mutex_max_def)

lemma hook_run:
  assumes "can_lock (Suc 0) {LGlobal} t w" and "w_sockets w a = Some so"
  shows "pthreads_socket_free_obj_hook t a w =
    Some (if IS_INVALID_SOCKET so \<or> bsd_socket so \<in> g_shared_sockets (w_globals w) then None else Some (bsd_socket so),
      w\<lparr>w_sockets := (w_sockets w)(a := None)\<rparr>)"
  using assms(2) socket_shared_ok [OF assms(1), of "bsd_socket so"]
  by (auto simp: pthreads_socket_free_obj_hook_def IS_INVALID_SOCKET_def)

lemma socket_free_world:
  assumes "loaded_by m s" and "socket_free_object t a s = Some (closed, s')"
  shows "s' = (set_module_world ((module_world s)\<lparr>w_sockets := (w_sockets (module_world s))(a := None)\<rparr>) s)
    \<lparr>md_socket_handlers := (md_socket_handlers s)(a := None)\<rparr>"
proof -
  obtain ref where ref: "md_socket_handlers s a = Some ref"
    using assms(2) by (cases "md_socket_handlers s a") (simp_all add: socket_free_object_def)
  then obtain so where so: "w_sockets (module_world s) a = Some so" using assms(1) by (auto simp: loaded_by_def)
  then show ?thesis using assms(2) ref hook_run [OF loaded_can_lock [OF assms(1)] so, of t]
    by (auto simp: socket_free_object_def engine_socket_free_def split: handlers_ref.splits socket_free.splits if_splits)
qed

text \<open>The effect of making a socket while the hook is installed.\<close>

lemma socket_create_run:
  assumes "loaded_by m s" and "creates_sockets X"
  obtains a n so rg where "socket_create_object X t s = (a, (set_request t rg (set_module_world
      ((module_world s)\<lparr>w_next := n, w_sockets := (w_sockets (module_world s))(a \<mapsto> so)\<rparr>) s))
      \<lparr>md_socket_handlers := (md_socket_handlers s)(a \<mapsto> CustomHandlers t)\<rparr>)"
    "w_sockets (module_world s) a = None" "w_next (module_world s) \<le> a" "a < n"
    "rg = (if rg_original_socket_object_handlers (md_request s t) = None
       then (md_request s t)\<lparr>rg_original_socket_object_handlers := Some (se_handlers X),
         rg_custom_socket_object_handlers := (se_handlers X)\<lparr>sh_free_obj := HookSocketFree\<rparr>\<rparr> else md_request s t)"
proof -
  obtain a n so where c: "se_create X (module_world s) = (a, (module_world s)\<lparr>w_next := n, w_sockets := (w_sockets (module_world s))(a \<mapsto> so)\<rparr>)"
    "w_next (module_world s) \<le> a" "a < n" using assms(2) unfolding creates_sockets_def by blast
  then have unused: "w_sockets (module_world s) a = None" using assms(1) by (auto simp: loaded_by_def)
  have "set_request t (md_request s t) s' = s'" if "md_request s' = md_request s" for s'
    by (metis fun_upd_triv module_state.surjective module_state.update_convs(2) set_request_def that)
  note same = this
  show ?thesis
  proof (rule that)
    show "w_sockets (module_world s) a = None" "w_next (module_world s) \<le> a" "a < n" using unused c by blast+
    show "socket_create_object X t s = (a, (set_request t
        (if rg_original_socket_object_handlers (md_request s t) = None
         then (md_request s t)\<lparr>rg_original_socket_object_handlers := Some (se_handlers X),
           rg_custom_socket_object_handlers := (se_handlers X)\<lparr>sh_free_obj := HookSocketFree\<rparr>\<rparr> else md_request s t)
        (set_module_world ((module_world s)\<lparr>w_next := n, w_sockets := (w_sockets (module_world s))(a \<mapsto> so)\<rparr>) s))
        \<lparr>md_socket_handlers := (md_socket_handlers s)(a \<mapsto> CustomHandlers t)\<rparr>)"
      using assms(1) by (simp add: socket_create_object_def loaded_by_def pthreads_socket_create_object_hook_def c(1) Let_def same)
  qed simp
qed

section \<open>One call\<close>

text \<open>A thread other than \<open>m\<close> that begins a request takes the deactivation of the command line SAPI away.\<close>

definition deactivate_after :: "tid \<Rightarrow> module_event \<Rightarrow> module_state \<Rightarrow> sapi_deactivate" where
  "deactivate_after m e s =
     (case e of
        RequestInit t \<Rightarrow> if t \<noteq> m \<and> sapi_is_cli s then NoDeactivate else md_sapi_deactivate s
      | _ \<Rightarrow> md_sapi_deactivate s)"

definition sockets_hooked :: "tid \<Rightarrow> module_state \<Rightarrow> bool" where
  "sockets_hooked t s \<longleftrightarrow>
     (rg_original_socket_object_handlers (md_request s t) \<noteq> None \<longrightarrow>
       sh_free_obj (rg_custom_socket_object_handlers (md_request s t)) = HookSocketFree) \<and>
     (\<forall>a. md_socket_handlers s a = Some (CustomHandlers t) \<longrightarrow> rg_original_socket_object_handlers (md_request s t) \<noteq> None)"

definition no_sockets_of :: "tid \<Rightarrow> module_state \<Rightarrow> bool" where
  "no_sockets_of t s \<longleftrightarrow> (\<forall>a. md_socket_handlers s a \<noteq> Some (CustomHandlers t))"

text \<open>What a call of the engine other than the end of the process leaves as it is, and what it keeps true.\<close>

definition event_step :: "tid \<Rightarrow> module_event \<Rightarrow> module_state \<Rightarrow> module_state \<Rightarrow> bool" where
  "event_step m e s s' \<longleftrightarrow> loaded_by m s' \<and> md_classes s' = md_classes s \<and> md_sapi_name s' = md_sapi_name s \<and>
     md_sapi_deactivate s' = deactivate_after m e s \<and>
     (\<forall>a r. md_socket_handlers s a = Some r \<and> (\<forall>u. e \<noteq> SocketFree u a) \<longrightarrow> md_socket_handlers s' a = Some r) \<and>
     (\<forall>t. no_sockets_of t s \<and> e \<noteq> SocketCreate t \<longrightarrow> no_sockets_of t s') \<and>
     (\<forall>t. (if e = RequestInit t then no_sockets_of t s else sockets_hooked t s) \<longrightarrow> sockets_hooked t s')"

lemmas event_step_defs = event_step_def loaded_by_def no_sockets_of_def sockets_hooked_def deactivate_after_def

lemma rinit_step: "loaded_by m s \<Longrightarrow> event_step m (RequestInit u) s (PHP_RINIT u s)"
  by (auto simp: event_step_defs PHP_RINIT_def Let_def sapi_is_cli_def)

lemma create_step:
  assumes "loaded_by m s" and "creates_sockets X"
  shows "event_step m (SocketCreate u) s (snd (socket_create_object X u s))"
  by (rule socket_create_run [OF assms, of u], use assms(1) in \<open>auto simp: event_step_defs\<close>)

lemma free_step:
  assumes "loaded_by m s" and "socket_free_object u a s = Some (closed, s')"
  shows "event_step m (SocketFree u a) s s'"
  using assms(1) by (auto simp: socket_free_world [OF assms] event_step_defs)

lemma run_event_step:
  assumes "loaded_by m s" and "creates_sockets X" and "run_event X e s = Some s'" and "e \<noteq> ModuleShutdown m"
  shows "event_step m e s s'"
proof (cases e)
  case (SocketTrack t d)
  then show ?thesis using assms socket_track_ok [OF loaded_can_lock [OF assms(1)], of t d]
    by (auto simp: event_step_defs split: if_splits)
next
  case (ModuleShutdown t)
  then show ?thesis using assms by (auto simp: event_step_defs PHP_MSHUTDOWN_def)
next
  case (SocketOpen a d)
  then show ?thesis using assms by (auto simp: event_step_defs bind_eq_Some_conv Let_def split: if_splits)
next
  case (SocketFree t a)
  then show ?thesis using assms free_step by (auto simp: bind_eq_Some_conv)
next
  case (RequestShutdown t)
  then show ?thesis using assms by (auto simp: event_step_defs PHP_RSHUTDOWN_def)
next
  case (PostDeactivate t)
  then show ?thesis using assms by (auto simp: event_step_defs post_zend_deactivate_def Let_def)
qed (use assms rinit_step create_step in \<open>simp_all, blast+\<close>)

section \<open>Sequences of calls\<close>

lemma run_events_append: "run_events X (es @ fs) s = Option.bind (run_events X es s) (run_events X fs)"
  by (induction es arbitrary: s) (auto split: bind_splits)

lemma run_eventsE:
  assumes "run_events X (e # es) s = Some s'" and "loaded_by m s" and "creates_sockets X" and "ModuleShutdown m \<notin> set (e # es)"
  obtains s1 where "event_step m e s s1" "run_events X es s1 = Some s'"
proof (cases "run_event X e s")
  case (Some s1)
  have "e \<noteq> ModuleShutdown m" using assms(4) by auto
  then show ?thesis using that run_event_step [OF assms(2,3) Some] assms(1) Some by simp
qed (use assms(1) in simp)

lemma run_events_loaded:
  assumes "run_events X es s = Some s'" and "loaded_by m s" and "creates_sockets X" and "ModuleShutdown m \<notin> set es"
  shows "loaded_by m s' \<and> md_classes s' = md_classes s \<and> md_sapi_name s' = md_sapi_name s \<and>
    md_sapi_deactivate s' = (if sapi_is_cli s \<and> (\<exists>u. u \<noteq> m \<and> RequestInit u \<in> set es) then NoDeactivate else md_sapi_deactivate s)"
  using assms
proof (induction es arbitrary: s)
  case (Cons e es)
  from run_eventsE [OF Cons.prems(1-4)] obtain s1 where e: "event_step m e s s1" and r: "run_events X es s1 = Some s'" .
  from e have st: "loaded_by m s1" "md_classes s1 = md_classes s" "md_sapi_name s1 = md_sapi_name s"
    "md_sapi_deactivate s1 = deactivate_after m e s" by (simp_all add: event_step_def)
  then show ?case using Cons.IH [OF r st(1) Cons.prems(3)] Cons.prems(4)
    by (cases e) (auto simp: deactivate_after_def sapi_is_cli_def)
qed simp

lemma run_events_no_sockets:
  assumes "run_events X es s = Some s'" and "loaded_by m s" and "creates_sockets X" and "ModuleShutdown m \<notin> set es"
    and "no_sockets_of t s" and "SocketCreate t \<notin> set es"
  shows "no_sockets_of t s'"
  using assms
proof (induction es arbitrary: s)
  case (Cons e es)
  from run_eventsE [OF Cons.prems(1-4)] obtain s1 where e: "event_step m e s s1" and r: "run_events X es s1 = Some s'" .
  from e have "loaded_by m s1" "no_sockets_of t s1" using Cons.prems(5,6) by (auto simp: event_step_def)
  then show ?case using Cons.IH [OF r] Cons.prems by simp
qed simp

lemma run_events_hooked:
  assumes "run_events X es s = Some s'" and "loaded_by m s" and "creates_sockets X" and "ModuleShutdown m \<notin> set es"
    and "sockets_hooked t s" and "RequestInit t \<notin> set es"
  shows "sockets_hooked t s' \<and> loaded_by m s' \<and>
    (\<forall>a r. md_socket_handlers s a = Some r \<and> (\<forall>u. SocketFree u a \<notin> set es) \<longrightarrow> md_socket_handlers s' a = Some r)"
  using assms
proof (induction es arbitrary: s)
  case (Cons e es)
  from run_eventsE [OF Cons.prems(1-4)] obtain s1 where e: "event_step m e s s1" and r: "run_events X es s1 = Some s'" .
  from e have "loaded_by m s1" "sockets_hooked t s1"
    and kept: "\<forall>a r. md_socket_handlers s a = Some r \<and> (\<forall>u. e \<noteq> SocketFree u a) \<longrightarrow> md_socket_handlers s1 a = Some r"
    using Cons.prems(5,6) by (auto simp: event_step_def)
  with Cons.prems have ih: "sockets_hooked t s' \<and> loaded_by m s' \<and>
      (\<forall>a r. md_socket_handlers s1 a = Some r \<and> (\<forall>u. SocketFree u a \<notin> set es) \<longrightarrow> md_socket_handlers s' a = Some r)"
    by (intro Cons.IH [OF r]) simp_all
  moreover have "md_socket_handlers s' a = Some r'" if "md_socket_handlers s a = Some r'" "\<forall>u. SocketFree u a \<notin> set (e # es)" for a r'
    using ih kept that by (metis list.set_intros)
  ultimately show ?case by blast
qed simp

section \<open>The life of the module\<close>

text \<open>A process that has not loaded the module, on a SAPI the module supports.\<close>

definition fresh_process :: "module_state \<Rightarrow> bool" where
  "fresh_process s \<longleftrightarrow> pthreads_is_supported_sapi (md_sapi_name s) \<and> \<not> g_init (w_globals (module_world s)) \<and>
     \<not> g_failed (w_globals (module_world s)) \<and> md_socket_handlers s = Map.empty \<and> w_sockets (module_world s) = Map.empty"

lemma minit_loads:
  assumes "fresh_process s"
  shows "\<exists>s'. PHP_MINIT 0 0 m s = (SUCCESS, s') \<and> loaded_by m s' \<and> no_sockets_of t s' \<and> md_sapi_name s' = md_sapi_name s \<and>
    md_sapi_deactivate s' = md_sapi_deactivate s \<and> md_classes s' = register_classes (md_classes s)"
  using assms
  by (auto simp: fresh_process_def PHP_MINIT_def Let_def pthreads_ext_sockets_hacks_init_def init_module_globals_def
      pthreads_globals_init_def pthreads_monitor_init_def set_module_world_def set_world_def loaded_by_def no_sockets_of_def)

text \<open>
  C32. The module lives as long as the thread that loaded it wants. Once a thread has loaded the module, whatever requests other threads
  begin and end, whatever sockets they make, share and free, and even if they are told to unload the module: the globals stay
  initialised and the classes registered. Unloading by another thread does nothing; unloading by the thread that loaded
  the module closes exactly the sockets that were shared, and gives the command line SAPI, whose deactivation is taken away as soon
  as another thread begins a request, the one of the module.
\<close>

theorem module_lifecycle:
  assumes "fresh_process s" and "creates_sockets X" and "PHP_MINIT 0 0 m s = (r, s1)"
    and "run_events X es s1 = Some s2" and "ModuleShutdown m \<notin> set es"
  shows "r = SUCCESS \<and> g_init (w_globals (module_world s2)) \<and> md_classes s2 = register_classes (md_classes s) \<and>
    md_sapi_deactivate s2 = (if sapi_is_cli s \<and> (\<exists>u. u \<noteq> m \<and> RequestInit u \<in> set es) then NoDeactivate else md_sapi_deactivate s) \<and>
    (\<forall>u. u \<noteq> m \<longrightarrow> PHP_MSHUTDOWN u s2 = ({}, s2)) \<and>
    (\<exists>s3. PHP_MSHUTDOWN m s2 = (g_shared_sockets (w_globals (module_world s2)), s3) \<and> \<not> g_init (w_globals (module_world s3)) \<and>
      (sapi_is_cli s \<longrightarrow> md_sapi_deactivate s3 = CliDeactivate))"
proof -
  from minit_loads [OF assms(1), of m] assms(3) have s1: "r = SUCCESS" "loaded_by m s1" "md_sapi_name s1 = md_sapi_name s"
    "md_sapi_deactivate s1 = md_sapi_deactivate s" "md_classes s1 = register_classes (md_classes s)" by auto
  from run_events_loaded [OF assms(4) s1(2) assms(2,5)] s1 have s2: "loaded_by m s2" "md_classes s2 = register_classes (md_classes s)"
    "md_sapi_name s2 = md_sapi_name s"
    "md_sapi_deactivate s2 = (if sapi_is_cli s \<and> (\<exists>u. u \<noteq> m \<and> RequestInit u \<in> set es) then NoDeactivate else md_sapi_deactivate s)"
    by (auto simp: sapi_is_cli_def)
  have "\<forall>u. u \<noteq> m \<longrightarrow> PHP_MSHUTDOWN u s2 = ({}, s2)" using s2(1) by (simp add: PHP_MSHUTDOWN_def loaded_by_def)
  moreover have "\<exists>s3. PHP_MSHUTDOWN m s2 = (g_shared_sockets (w_globals (module_world s2)), s3) \<and> \<not> g_init (w_globals (module_world s3)) \<and>
      (sapi_is_cli s \<longrightarrow> md_sapi_deactivate s3 = CliDeactivate)"
    using s2(1,3) by (simp add: PHP_MSHUTDOWN_def loaded_by_def pthreads_globals_shutdown_def Let_def sapi_is_cli_def)
  ultimately show ?thesis using s1(1) s2 by (simp add: loaded_by_def)
qed

definition demo_request :: request_globals where
  "demo_request = \<lparr>rg_pid = 0, rg_signal = 0, rg_options = 0, rg_hard_copy_interned_strings = False,
     rg_original_socket_object_handlers = None, rg_custom_socket_object_handlers = \<lparr>sh_free_obj = EngineSocketFree, sh_others = 0\<rparr>\<rparr>"

definition demo_process :: module_state where
  "demo_process = \<lparr>md_prepare = demo_prepare ((demo_code Map.empty Map.empty)\<lparr>cs_world := empty_world
       \<lparr>w_globals := empty_globals\<lparr>g_init := False\<rparr>\<rparr>\<rparr>), md_request = (\<lambda>_. demo_request), md_instance = None, md_sapi_name = ''cli'',
     md_sapi_deactivate = EngineDeactivate, md_argv0 = None, md_errors = [], md_constants = [], md_classes = [],
     md_base_handlers = Std, md_array_handlers = Std, md_socket_create = EngineSocketCreate, md_socket_create_original = None,
     md_socket_handlers = Map.empty\<rparr>"

text \<open>A sockets extension that makes sockets one address after the other.\<close>

definition demo_sockets :: sockets_extension where
  "demo_sockets = \<lparr>se_create = (\<lambda>w. (w_next w, w\<lparr>w_next := Suc (w_next w), w_sockets := (w_sockets w)(w_next w \<mapsto>
       \<lparr>bsd_socket = -1, sock_type = 0, sock_error = 0, sock_blocking = 1, sock_zstream = False\<rparr>)\<rparr>)),
     se_handlers = \<lparr>sh_free_obj = EngineSocketFree, sh_others = 3\<rparr>\<rparr>"

lemma demo_process_facts: "fresh_process demo_process" "creates_sockets demo_sockets"
proof -
  show "fresh_process demo_process"
    by (simp add: fresh_process_def demo_process_def pthreads_is_supported_sapi_def whitelist_def demo_prepare_def demo_code_def
        empty_world_def empty_globals_def)
  show "creates_sockets demo_sockets"
    unfolding creates_sockets_def
  proof
    fix w :: world
    show "\<exists>a n so. se_create demo_sockets w = (a, w\<lparr>w_next := n, w_sockets := (w_sockets w)(a \<mapsto> so)\<rparr>) \<and> w_next w \<le> a \<and> a < n \<and>
        IS_INVALID_SOCKET so"
      by (intro exI [of _ "w_next w"] exI [of _ "Suc (w_next w)"]
          exI [of _ "\<lparr>bsd_socket = -1, sock_type = 0, sock_error = 0, sock_blocking = 1, sock_zstream = False\<rparr>"])
        (simp add: demo_sockets_def IS_INVALID_SOCKET_def)
  qed
qed

definition demo_loaded :: module_state where
  "demo_loaded = snd (PHP_MINIT 0 0 1 demo_process)"

theorem module_lifecycle_witness:
  "\<exists>s2. run_events demo_sockets [RequestInit 1, RequestInit 2, SocketCreate 2, ModuleShutdown 2] demo_loaded = Some s2 \<and>
     g_init (w_globals (module_world s2)) \<and> md_sapi_deactivate s2 = NoDeactivate"
proof -
  have "sapi_is_cli demo_process" by (simp add: sapi_is_cli_def demo_process_def)
  moreover have "PHP_MINIT 0 0 1 demo_process = (fst (PHP_MINIT 0 0 1 demo_process), demo_loaded)" by (simp add: demo_loaded_def)
  moreover obtain s2 where run: "run_events demo_sockets [RequestInit 1, RequestInit 2, SocketCreate 2, ModuleShutdown 2] demo_loaded = Some s2"
    by simp
  moreover have "ModuleShutdown 1 \<notin> set [RequestInit 1, RequestInit 2, SocketCreate 2, ModuleShutdown 2]" by simp
  ultimately show ?thesis using module_lifecycle [OF demo_process_facts, of 1] by fastforce
qed

section \<open>Sockets of a thread\<close>

text \<open>
  C33. While the module is loaded, every socket that a thread makes during its request is freed through the hook of the extension. Whatever
  happens before and after the thread makes the socket, in this and in other threads, freeing it does not close a
  descriptor that is shared, closes one that is not, and always returns.
\<close>

theorem socket_hook_in_force:
  assumes "fresh_process s" and "creates_sockets X" and "PHP_MINIT 0 0 m s = (r, s1)"
    and "run_events X (es\<^sub>0 @ RequestInit t # es\<^sub>1) s1 = Some s2" and "socket_create_object X t s2 = (a, s3)"
    and "run_events X es\<^sub>2 s3 = Some s4" and "ModuleShutdown m \<notin> set (es\<^sub>0 @ es\<^sub>1 @ es\<^sub>2)" and "SocketCreate t \<notin> set es\<^sub>0"
    and "RequestInit t \<notin> set (es\<^sub>1 @ es\<^sub>2)" and "\<forall>u. SocketFree u a \<notin> set es\<^sub>2"
  shows "\<exists>so s5. w_sockets (module_world s4) a = Some so \<and>
    socket_free_object t a s4 = Some (if IS_INVALID_SOCKET so \<or> bsd_socket so \<in> g_shared_sockets (w_globals (module_world s4))
      then None else Some (bsd_socket so), s5) \<and> w_sockets (module_world s5) a = None"
proof -
  from minit_loads [OF assms(1), of m] assms(3) have s1: "loaded_by m s1" "no_sockets_of t s1" by auto
  obtain s where before: "run_events X es\<^sub>0 s1 = Some s" "run_events X (RequestInit t # es\<^sub>1) s = Some s2"
    using assms(4) by (auto simp: run_events_append split: bind_splits)
  have s: "loaded_by m s" "no_sockets_of t s"
    using run_events_loaded [OF before(1) s1(1) assms(2)] run_events_no_sockets [OF before(1) s1(1) assms(2) _ s1(2) assms(8)] assms(7) by auto
  from run_eventsE [OF before(2) s(1) assms(2)] assms(7) obtain s' where
    "event_step m (RequestInit t) s s'" and rest: "run_events X es\<^sub>1 s' = Some s2" by auto
  then have s': "loaded_by m s'" "sockets_hooked t s'" using s(2) by (auto simp: event_step_def)
  have s2: "sockets_hooked t s2" "loaded_by m s2" using run_events_hooked [OF rest s'(1) assms(2) _ s'(2)] assms(7,9) by auto
  have "event_step m (SocketCreate t) s2 s3" using create_step [OF s2(2) assms(2), of t] assms(5) by simp
  then have s3: "loaded_by m s3" "sockets_hooked t s3" using s2(1) by (auto simp: event_step_def)
  have "md_socket_handlers s3 a = Some (CustomHandlers t)"
    by (rule socket_create_run [OF s2(2) assms(2), of t]) (use assms(5) in auto)
  with run_events_hooked [OF assms(6) s3(1) assms(2) _ s3(2)] assms(7,9,10)
  have s4: "sockets_hooked t s4" "loaded_by m s4" "md_socket_handlers s4 a = Some (CustomHandlers t)" by auto
  obtain so where so: "w_sockets (module_world s4) a = Some so" using s4(2,3) by (auto simp: loaded_by_def)
  have hook: "rg_original_socket_object_handlers (md_request s4 t) \<noteq> None"
    "sh_free_obj (rg_custom_socket_object_handlers (md_request s4 t)) = HookSocketFree"
    using s4(1,3) unfolding sockets_hooked_def by blast+
  show ?thesis
    by (rule exI [of _ so]) (simp add: so socket_free_object_def s4(3) hook hook_run [OF loaded_can_lock [OF s4(2)] so])
qed

theorem socket_hook_in_force_witness:
  "\<exists>a s3 closed s5. socket_create_object demo_sockets 2 (PHP_RINIT 2 demo_loaded) = (a, s3) \<and>
    socket_free_object 2 a s3 = Some (closed, s5) \<and> w_sockets (module_world s5) a = None"
proof -
  have load: "PHP_MINIT 0 0 1 demo_process = (fst (PHP_MINIT 0 0 1 demo_process), demo_loaded)" by (simp add: demo_loaded_def)
  obtain a s3 where made: "socket_create_object demo_sockets 2 (PHP_RINIT 2 demo_loaded) = (a, s3)" by force
  have "run_events demo_sockets ([] @ RequestInit 2 # []) demo_loaded = Some (PHP_RINIT 2 demo_loaded)" "run_events demo_sockets [] s3 = Some s3"
    by simp_all
  from socket_hook_in_force [OF demo_process_facts load this(1) made this(2)] made show ?thesis by auto
qed

section \<open>Classes of scripts\<close>

text \<open>
  A script declares a class that extends a class which exists and is not final; the list has the latest declaration first. \<open>origin\<close> is the
  class of the extension that a class is derived from.
\<close>

definition declare_class :: "string \<Rightarrow> string \<Rightarrow> class_registry \<Rightarrow> class_registry option" where
  "declare_class name parent reg = do {
     p \<leftarrow> map_of reg parent;
     if FINAL_CLASS \<in> set (rc_flags p) \<or> map_of reg name \<noteq> None then None
     else Some (zend_register_internal_class_ex name [] (Some parent) reg) }"

fun declare_classes :: "(string \<times> string) list \<Rightarrow> class_registry \<Rightarrow> class_registry option" where
  "declare_classes [] reg = Some reg"
| "declare_classes ((c, p) # ds) reg = do { reg \<leftarrow> declare_classes ds reg; declare_class c p reg }"

fun origin :: "(string \<times> string) list \<Rightarrow> string \<Rightarrow> string" where
  "origin [] c = c"
| "origin ((d, p) # ds) c = origin ds (if c = d then p else c)"

definition with_classes :: "class_registry \<Rightarrow> zend_engine \<Rightarrow> zend_engine" where
  "with_classes reg E = E\<lparr>create_object := (\<lambda>c. case Option.bind (map_of reg c) rc_create_object of Some k \<Rightarrow> k | None \<Rightarrow> create_object E c)\<rparr>"

lemma hooks_of_origin:
  assumes "declare_classes ds reg\<^sub>0 = Some reg" and "map_of reg c = Some rc"
  shows "\<exists>rc\<^sub>0. map_of reg\<^sub>0 (origin ds c) = Some rc\<^sub>0 \<and> rc_create_object rc = rc_create_object rc\<^sub>0 \<and>
    rc_serialize rc = rc_serialize rc\<^sub>0 \<and> rc_unserialize rc = rc_unserialize rc\<^sub>0 \<and> rc_get_iterator rc = rc_get_iterator rc\<^sub>0 \<and>
    (FINAL_CLASS \<in> set (rc_flags rc\<^sub>0) \<longrightarrow> rc = rc\<^sub>0 \<and> origin ds c = c)"
  using assms
proof (induction ds arbitrary: reg c rc)
  case (Cons d ds)
  obtain name parent where d: "d = (name, parent)" by force
  obtain reg1 p where reg1: "declare_classes ds reg\<^sub>0 = Some reg1" "map_of reg1 parent = Some p" "FINAL_CLASS \<notin> set (rc_flags p)"
    "map_of reg1 name = None" "reg = zend_register_internal_class_ex name [] (Some parent) reg1"
    using Cons.prems(1) by (auto simp: d declare_class_def bind_eq_Some_conv split: if_splits)
  show ?case
  proof (cases "c = name")
    case True
    then have "rc = inherit_hooks (Some p) \<lparr>rc_parent = Some parent, rc_interfaces = [], rc_flags = [], rc_methods = [], rc_properties = [],
        rc_create_object = None, rc_serialize = False, rc_unserialize = False, rc_get_iterator = False\<rparr>"
      using Cons.prems(2) reg1(2,4,5) by (simp add: zend_register_internal_class_ex_def map_add_def)
    with Cons.IH [OF reg1(1,2)] reg1(3) True show ?thesis by (force simp: d inherit_hooks_def)
  next
    case False
    then have "map_of reg1 c = Some rc"
      using Cons.prems(2) reg1(5) by (simp add: zend_register_internal_class_ex_def map_add_def split: option.splits if_splits)
    with Cons.IH [OF reg1(1)] False show ?thesis by (simp add: d)
  qed
qed auto

text \<open>The constructors that the extension registers, by class; \<open>None\<close> is the constructor of the engine.\<close>

definition module_constructors :: "(string \<times> class_kind option) list" where
  "module_constructors =
     [(''ThreadedBase'', Some ThreadedClass), (''ThreadedArray'', Some ThreadedArrayClass), (''ThreadedConnectionException'', None),
      (''ThreadedRunnable'', Some ThreadedClass), (''Thread'', Some ThreadClass), (''Worker'', Some WorkerClass), (''Pool'', None)]"

lemmas registration_defs = register_classes_def register_class_ThreadedBase_def register_class_ThreadedArray_def
  register_class_ThreadedConnectionException_def register_class_ThreadedRunnable_def register_class_Thread_def
  register_class_Worker_def register_class_Pool_def zend_register_internal_class_ex_def zend_class_implements_def
  zend_declare_property_ex_def set_entry_def inherit_hooks_def

lemma register_classes_summary:
  "map (\<lambda>(c, rc). (c, rc_create_object rc)) (register_classes []) = module_constructors"
  "list_all (\<lambda>(c, rc). (FINAL_CLASS \<in> set (rc_flags rc) \<longleftrightarrow> c = ''ThreadedArray'') \<and>
     (rc_create_object rc \<noteq> None \<longrightarrow> rc_serialize rc \<and> rc_unserialize rc \<and> rc_get_iterator rc)) (register_classes [])"
  by (simp_all add: registration_defs module_constructors_def)

text \<open>
  C34. The objects of a class that a script derives from the classes of the extension, in any number of steps, are made by the
  constructor of the class of the extension it is derived from, so that a subclass of Worker gets the data of a worker,
  and a subclass of Thread is a thread; nothing can be derived from ThreadedArray. Every class that is derived from ThreadedBase
  serialises and iterates with the functions of the extension.
\<close>

theorem subclass_constructors:
  assumes "declare_classes ds (register_classes []) = Some reg" and "map_of reg c = Some rc"
  shows "map_of module_constructors (origin ds c) = Some (rc_create_object rc) \<and>
    (rc_create_object rc \<noteq> None \<longrightarrow> rc_serialize rc \<and> rc_unserialize rc \<and> rc_get_iterator rc) \<and>
    (origin ds c = ''ThreadedArray'' \<longrightarrow> c = ''ThreadedArray'') \<and>
    (origin ds c = ''Worker'' \<longrightarrow> object_init_ex (with_classes reg E) t c w = pthreads_worker_ctor (with_classes reg E) t c w) \<and>
    (origin ds c = ''Thread'' \<longrightarrow> object_init_ex (with_classes reg E) t c w = pthreads_thread_ctor (with_classes reg E) t c w) \<and>
    (origin ds c \<in> {''ThreadedBase'', ''ThreadedRunnable''} \<longrightarrow>
      object_init_ex (with_classes reg E) t c w = pthreads_threaded_base_ctor (with_classes reg E) t c w)"
proof -
  let ?o = "origin ds c"
  from hooks_of_origin [OF assms] obtain rc\<^sub>0 where rc: "map_of (register_classes []) ?o = Some rc\<^sub>0" "rc_create_object rc = rc_create_object rc\<^sub>0"
    "rc_serialize rc = rc_serialize rc\<^sub>0" "rc_unserialize rc = rc_unserialize rc\<^sub>0" "rc_get_iterator rc = rc_get_iterator rc\<^sub>0"
    "FINAL_CLASS \<in> set (rc_flags rc\<^sub>0) \<longrightarrow> ?o = c" by blast
  have kind: "map_of module_constructors ?o = Some (rc_create_object rc)"
    using rc(1,2) by (simp add: register_classes_summary(1) [symmetric] map_of_map comp_def)
  have reg: "FINAL_CLASS \<in> set (rc_flags rc\<^sub>0) \<longleftrightarrow> ?o = ''ThreadedArray''"
    "rc_create_object rc\<^sub>0 \<noteq> None \<longrightarrow> rc_serialize rc\<^sub>0 \<and> rc_unserialize rc\<^sub>0 \<and> rc_get_iterator rc\<^sub>0"
    using register_classes_summary(2) map_of_SomeD [OF rc(1)] by (auto simp: list_all_iff)
  have make: "object_init_ex (with_classes reg E) t c w =
      (case k of ThreadClass \<Rightarrow> pthreads_thread_ctor (with_classes reg E) t c w
       | WorkerClass \<Rightarrow> pthreads_worker_ctor (with_classes reg E) t c w
       | ThreadedClass \<Rightarrow> pthreads_threaded_base_ctor (with_classes reg E) t c w
       | ThreadedArrayClass \<Rightarrow> pthreads_threaded_array_ctor (with_classes reg E) t c w)"
    if "map_of module_constructors ?o = Some (Some k)" for k
  proof -
    have "create_object (with_classes reg E) c = k" using that kind assms(2) by (simp add: with_classes_def)
    then show ?thesis by (simp only: object_init_ex_def)
  qed
  show ?thesis
  proof (intro conjI impI)
    show "map_of module_constructors ?o = Some (rc_create_object rc)" by (rule kind)
    show "?o = ''ThreadedArray'' \<Longrightarrow> c = ''ThreadedArray''" using reg(1) rc(6) by simp
  qed (use reg(2) rc(2-5) in simp, use reg(2) rc(2-5) in simp, use reg(2) rc(2-5) in simp,
      use make [of WorkerClass] in \<open>simp add: module_constructors_def\<close>, use make [of ThreadClass] in \<open>simp add: module_constructors_def\<close>,
      use make [of ThreadedClass] in \<open>auto simp: module_constructors_def\<close>)
qed

text \<open>A class of tasks, and a worker two steps below the class of the extension.\<close>

theorem subclass_constructors_witness:
  "\<exists>reg rc. declare_classes [(''B'', ''A''), (''A'', ''Worker''), (''Task'', ''ThreadedRunnable'')] (register_classes []) = Some reg \<and>
     map_of reg ''B'' = Some rc \<and> rc_create_object rc = Some WorkerClass"
proof -
  let ?ds = "[(''B'', ''A''), (''A'', ''Worker''), (''Task'', ''ThreadedRunnable'')]"
  obtain reg rc where r: "declare_classes ?ds (register_classes []) = Some reg" "map_of reg ''B'' = Some rc"
    by (simp add: registration_defs declare_class_def)
  from subclass_constructors [OF r, of demo_engine 1 empty_world] r show ?thesis by (auto simp: module_constructors_def)
qed

end
