(* ===== verification/Spec2Isabelle.thy ===== *)
theory Spec2Isabelle
  imports Store_Props Store_Ownership Lifecycle_Props Object_Props Worker_Props
    Pool_Workers Classes_Props Iterator_Props Code_Props Prepare_Props Class_Props Module_Props
begin

text \<open>
  A verification development for pthreads, the extension that lets PHP scripts run threads.

  \<^bold>\<open>The program.\<close> Every PHP thread has its own engine, with its own heap, class table and function
  table. The extension (C, under src/) adds objects that several threads can use. The shared half of such an
  object is a \<open>pthreads_object_t\<close>: a monitor, a table of property values in a thread-neutral form and a
  reference count. Each thread sees it through a zend object of its own, which points to the shared
  half and keeps a local cache of property values that cannot be shared as they are. Threads and workers are such
  objects with a POSIX thread behind them; a pool distributes tasks over workers. A new
  thread inherits settings, constants, functions and classes from its creator as deep copies.

  \<^bold>\<open>How state is modelled.\<close> \<open>World\<close> holds the state the components share, one record \<open>world\<close>: the two
  halves of objects in maps from addresses, the process globals, the globals of each thread, monitors by the
  structure that embeds them, queue items, sockets and thrown exceptions. Code that is copied lives in \<open>code_state\<close>
  of \<open>Code_Copy\<close>, the tables of the engine in \<open>prepare_state\<close> of \<open>Prepare\<close>, and what loading the extension installs in
  \<open>module_state\<close> of \<open>Module\<close>, each of which extends the one before. An operation of the C code is a function with the
  same name from the calling thread, its arguments and the state to \<open>option\<close> of the result and the new state. \<open>None\<close> stands for a call that does not return to its caller:
  it waits for a monitor that another thread holds, reads through a pointer that is not allocated, aborts with a
  fatal error, or exceeds the bound it was given. Theorems that say what an operation does
  include that it returns \<open>Some\<close> result; only what the preparation of classes and the calls of the engine to the module
  leave alone is said of runs that return. Where an operation sleeps, what other threads do meanwhile is an
  argument, or the operation is split at the point where it sleeps and becomes a step of a relation.

  \<^bold>\<open>Theories and sources.\<close>
  \<^item> \<open>Pt_Prelude\<close>, \<open>Zend_Data\<close>: shared vocabulary; strings, values and hash tables of the engine,
    src/src/store_types.h. Locale \<open>ordered_table\<close>, interpreted as \<open>zht\<close> on the hash table.
  \<^item> \<open>Queue\<close>: src/src/queue.c over a heap of items. Locale \<open>task_list\<close>, interpreted as \<open>linked\<close>: the queue behaves as
    a list, removal keeps the others, cleaning frees exactly the queue.
  \<^item> \<open>Monitor\<close>: src/src/monitor.c with POSIX mutexes and condition variables, flags as machine words. Locale
    \<open>recursive_lock\<close>, interpreted as \<open>mon\<close>: nesting, flags, deadlines.
  \<^item> \<open>World\<close>, \<open>Globals\<close>: src/src/globals.c, src/src/thread.h, src/src/pthreads.h, src/src/ext_sockets_hacks.c. Locale
    \<open>object_registry\<close>, interpreted as \<open>registry\<close>: distinct addresses, canonical interned strings, shared sockets.
  \<^item> \<open>Store_Core\<close>, \<open>Store_Access\<close>: src/src/store.c and src/src/resources.c. \<open>Store_Facts\<close> and \<open>Read_Facts\<close> give each operation as
    an equation on the state; \<open>Store_Props\<close> shows that a store is an ordered dictionary, that writes are read
    back, and what other threads see of writes and deletions. \<open>Store_Memory\<close> has the destructor of stored cells and
    the strings each cell owns; \<open>Store_Ownership\<close> shows that every operation of the store and of its objects keeps each string
    owned by one cell, that a sequence of operations therefore frees no string twice, and that the merge of
    an array with an enum case breaks this.
  \<^item> \<open>Store_Iterator\<close>, \<open>Iterator_Props\<close>: the end of store.c and the iterator of object.c; foreach visits every
    member once.
  \<^item> \<open>Object\<close>, \<open>Object_Props\<close>: src/src/object.c; reference counts equal the number of connections, the last
    one frees, serialised objects lead back to the object.
  \<^item> \<open>Worker_Data\<close>, \<open>Worker\<close>, \<open>Worker_Props\<close>: src/src/worker.c; the linked queues of a worker refine an abstract
    pipeline of tasks under every interleaving of calls.
  \<^item> \<open>Handlers\<close>: src/src/handlers.c, the property handlers, over the store.
  \<^item> \<open>Lifecycle\<close>, \<open>Lifecycle_Props\<close>: start, run and join of object.c; the protocol between creator and thread is
    an inductive step relation whose steps call the functions of \<open>Monitor\<close>; its invariant gives the order of events
    and that no wake-up is lost.
  \<^item> \<open>Classes\<close>, \<open>Classes_Props\<close>: the methods of src/classes/*.c after their arguments are parsed.
  \<^item> \<open>Pool\<close>, \<open>Pool_Props\<close>, \<open>Pool_Workers\<close>: src/classes/pool.c over the methods of a worker class. Locale
    \<open>worker_supply\<close> is what a pool relies on, interpreted as \<open>php\<close> on the methods of \<open>Classes\<close>.
  \<^item> \<open>Code_Copy\<close>, \<open>Code_Facts\<close>, \<open>Code_Ast\<close>, \<open>Code_Functions\<close>, \<open>Code_Props\<close>: src/src/copy.c. Locale \<open>value_copier\<close>
    is what the copies of larger structures rely on, interpreted as \<open>literals\<close> on \<open>pthreads_copy_zval\<close>; syntax trees
    fill their block, copies share no memory, relocated operands read the right literal.
  \<^item> \<open>Prepare\<close>, \<open>Prepare_Props\<close>: src/src/prepare.c: settings, functions and resources.
  \<^item> \<open>Class_Data\<close>, \<open>Prepare_Class\<close>: class entries of the engine as records in a heap of classes, and the rest of
    prepare.c, which copies them with all they refer to; the start of a prepared thread. \<open>Class_Statics\<close>: static members of
    copies are well typed. \<open>Growth\<close>: copying never frees an address (locale \<open>growing_copiers\<close>, interpreted as \<open>thread_copiers\<close>);
    relations that critical sections keep (locale \<open>monitor_closed\<close>, interpreted as \<open>growth\<close>, \<open>tables\<close> and \<open>memory\<close>).
    \<open>Class_Frame\<close>: what each operation of \<open>Prepare_Class\<close> leaves alone (locale \<open>preparing_thread\<close>, interpreted as \<open>thread\<close>,
    and \<open>prepared_class\<close>, interpreted as \<open>thread_class\<close>, for the recursion through other classes).
    \<open>Class_Props\<close>: classes of the creator are only read, and how magic methods are found.
  \<^item> \<open>Stubs\<close>, \<open>Module\<close>, \<open>Module_Props\<close>: src/stubs/*_arginfo.h, src/php_pthreads.c and src/src/ext_sockets_hacks.c: the classes and
    handlers the extension installs, loading and unloading, requests of threads, and the socket hook. The calls of
    the engine form sequences of events; the module stays loaded under all of them, sockets are freed through the hook, and
    classes of scripts have the constructor of the class they derive from.

  \<^bold>\<open>Bounds.\<close> Recursion through pointers runs on a natural number. For copies it bounds the nesting of values,
  syntax trees and functions; the theorems ask that it exceeds the depth of the value (\<open>zdepth\<close>) or of the tree
  (\<open>ast_read\<close>), which every acyclic value meets for some bound. In \<open>pthreads_create_entry\<close> it bounds the chain of classes that
  refer to classes not copied yet; what is shown of it are properties of every run that returns, and the witness is such a run.
  The loops of a pool are \<open>partial_function\<close>s, so
  that a loop that does not end is the value \<open>None\<close>, and it is proved when they end and when not. Monitors can be
  entered 4294967295 times (\<open>mutex_max\<close>); theorems ask for the few levels the operation needs (\<open>can_lock\<close>).

  \<^bold>\<open>Parameters.\<close> What the code relies on outside the repository is an argument: \<open>zend_engine\<close> (which strings are permanent,
  what an uninitialised cell holds), \<open>sockets_extension\<close> (how a socket object is made), \<open>zend_layout\<close> (sizes of the engine's structures and, as \<open>abs_addr\<close>, the
  32-bit build), PHP methods of user classes, and results of POSIX initialisers. The branches are those of PHP 8.2.

  \<^bold>\<open>Not modelled.\<close> Reference counts of strings and of engine values: an address is handed out once and never reused, and
  \<open>Store_Memory\<close> says which strings the destructors free; so the destructor of an iterator, which only drops references,
  has no model. The table of versions that phpinfo prints, and the build files. A closure that is restored from the store is a fresh object, without the function inside. Outside \<open>Prepare_Class\<close>
  a class is known by its name only.
\<close>

end
